(* ===== verification/Aegis_Prelude.thy ===== *)
theory Aegis_Prelude
  imports Complex_Main "HOL-Library.AList" "HOL-Library.Multiset"
begin

text \<open>
  What every component of the development shares: Python exceptions as values, the
  dynamically typed values of policy files and payloads, dictionaries in insertion order
  (association lists updated in place, \<^theory_text>\<open>AList.update\<close>), decimal printing
  as the f-strings of the source do it, and generic lemmas on lists and dictionaries.
  Python's floats are modelled by \<^typ>\<open>real\<close>: rounding, infinities and NaN are outside
  the model. Python's ints are \<^typ>\<open>int\<close>; strings are \<^typ>\<open>string\<close>.
\<close>

subsection \<open>Collections of facts\<close>

named_theorems dict_simps \<open>lookups and keys of insertion-ordered dictionaries\<close>
named_theorems frame_simps \<open>fields an operation leaves unchanged\<close>

subsection \<open>Exceptions and dynamically typed values\<close>

text \<open>The exceptions the modelled code raises or lets escape.\<close>

datatype pyexc =
    RuntimeErr | ValueErr | AegisInitErr | TypeErr | KeyErr | IndexErr
  | ZeroDivisionErr | AssertionErr | FileNotFoundErr | ZlibErr
  | NotImplementedErr | JSONDecodeErr | SystemExit | AttributeErr | OSErr

text \<open>The values a YAML or JSON document, or an event payload, is made of.\<close>

datatype pyval =
    PNone | PBool bool | PInt int | PFloat real | PStr string
  | PList "pyval list" | PDict "(string \<times> pyval) list"

text \<open>Python's \<open>x or d\<close> for an optional string: \<open>None\<close> and the empty string are false.\<close>

fun str_or :: "string option \<Rightarrow> string \<Rightarrow> string" where
  "str_or None d = d"
| "str_or (Some s) d = (if s = [] then d else s)"

subsection \<open>Dictionaries in insertion order\<close>

type_synonym ('k, 'v) dict = "('k \<times> 'v) list"

abbreviation dget :: "('k, 'v) dict \<Rightarrow> 'k \<Rightarrow> 'v option" where
  "dget d k \<equiv> map_of d k"

abbreviation dset :: "'k \<Rightarrow> 'v \<Rightarrow> ('k, 'v) dict \<Rightarrow> ('k, 'v) dict" where
  "dset k v d \<equiv> AList.update k v d"

text \<open>\<open>d.get(k, default)\<close>.\<close>

definition dget_or :: "('k, 'v) dict \<Rightarrow> 'k \<Rightarrow> 'v \<Rightarrow> 'v" where
  "dget_or d k dflt = (case dget d k of None \<Rightarrow> dflt | Some v \<Rightarrow> v)"

abbreviation dkeys :: "('k, 'v) dict \<Rightarrow> 'k list" where
  "dkeys d \<equiv> map fst d"

abbreviation dvals :: "('k, 'v) dict \<Rightarrow> 'v list" where
  "dvals d \<equiv> map snd d"

lemma dget_dset [simp, dict_simps]:
  "dget (dset k v d) k' = (if k' = k then Some v else dget d k')"
  by (simp add: update_conv')

lemma dget_or_dset [simp, dict_simps]:
  "dget_or (dset k v d) k' dflt = (if k' = k then v else dget_or d k' dflt)"
  by (simp add: dget_or_def)

lemma dget_or_Nil [simp, dict_simps]: "dget_or [] k dflt = dflt"
  by (simp add: dget_or_def)

lemma set_dkeys_dset [simp, dict_simps]: "set (dkeys (dset k v d)) = insert k (set (dkeys d))"
  by (induction d) auto

lemma image_fst_dset [simp, dict_simps]: "fst ` set (dset k v d) = insert k (fst ` set d)"
  by (induction d) auto

lemma dom_dset [dict_simps]: "dom (dget (dset k v d)) = insert k (dom (dget d))"
  by (auto simp: domIff split: if_splits)

lemma distinct_dkeys_dset [intro]: "distinct (dkeys d) \<Longrightarrow> distinct (dkeys (dset k v d))"
  by (rule distinct_update)

lemma dkeys_dset_new: "k \<notin> set (dkeys d) \<Longrightarrow> dkeys (dset k v d) = dkeys d @ [k]"
  by (induction d) auto

lemma dkeys_dset_old: "k \<in> set (dkeys d) \<Longrightarrow> dkeys (dset k v d) = dkeys d"
  by (induction d) auto

lemma dget_None_iff: "dget d k = None \<longleftrightarrow> k \<notin> set (dkeys d)"
  by (simp add: map_of_eq_None_iff)

lemma dget_distinct: "distinct (dkeys d) \<Longrightarrow> (k, v) \<in> set d \<Longrightarrow> dget d k = Some v"
  by (rule map_of_is_SomeI)

subsection \<open>Decimal printing\<close>

definition digit_char :: "nat \<Rightarrow> char" where
  "digit_char d = char_of (48 + d)"

fun nat_str :: "nat \<Rightarrow> string" where
  "nat_str n = (if n < 10 then [digit_char n] else nat_str (n div 10) @ [digit_char (n mod 10)])"

declare nat_str.simps [simp del]

definition int_str :: "int \<Rightarrow> string" where
  "int_str i = (if i < 0 then ''-'' @ nat_str (nat (- i)) else nat_str (nat i))"

text \<open>Reading the digits back: the value of a digit string.\<close>

definition digits_val :: "string \<Rightarrow> nat" where
  "digits_val s = foldl (\<lambda>a c. 10 * a + (of_char c - 48)) 0 s"

lemma of_char_digit: "d < 10 \<Longrightarrow> of_char (digit_char d) = 48 + d"
  by (simp add: digit_char_def)

lemma nat_str_nonempty: "nat_str k \<noteq> []"
  by (simp add: nat_str.simps [of k])

lemma digits_val_nat_str: "digits_val (nat_str n) = n"
proof (induction n rule: nat_str.induct)
  case (1 n)
  show ?case
  proof (cases "n < 10")
    case True
    then show ?thesis
      by (simp add: nat_str.simps [of n] digits_val_def of_char_digit)
  next
    case False
    then have "digits_val (nat_str (n div 10)) = n div 10" by (rule "1.IH")
    with False show ?thesis
      by (simp add: nat_str.simps [of n] digits_val_def of_char_digit)
  qed
qed

lemma nat_str_inj [simp]: "nat_str m = nat_str n \<longleftrightarrow> m = n"
  by (metis digits_val_nat_str)

lemma digit_char_simps [simp]:
  "digit_char 0 = CHR ''0''" "digit_char (Suc 0) = CHR ''1''" "digit_char 1 = CHR ''1''"
  "digit_char 2 = CHR ''2''" "digit_char 3 = CHR ''3''" "digit_char 4 = CHR ''4''"
  "digit_char 5 = CHR ''5''" "digit_char 6 = CHR ''6''" "digit_char 7 = CHR ''7''"
  "digit_char 8 = CHR ''8''" "digit_char 9 = CHR ''9''"
  by (simp_all only: digit_char_def) code_simp+

lemma digit_char_digit: "d < 10 \<Longrightarrow> digit_char d \<in> set ''0123456789''"
proof -
  assume "d < 10"
  then have "d \<in> set [0..<10]" by simp
  moreover have "[0..<10] = [0, 1, 2, 3, 4, 5, 6, 7, 8, 9::nat]" by (simp add: upt_rec)
  ultimately show ?thesis by auto
qed

lemma nat_str_digits: "c \<in> set (nat_str n) \<Longrightarrow> c \<in> set ''0123456789''"
proof (induction n rule: nat_str.induct)
  case (1 n)
  have digit: "digit_char d \<in> set ''0123456789''" if "d < 10" for d
    by (rule digit_char_digit [OF that])
  show ?case
  proof (cases "n < 10")
    case True
    with "1.prems" have "c = digit_char n" by (simp add: nat_str.simps [of n])
    with digit [OF True] show ?thesis by simp
  next
    case False
    with "1.prems" have "c \<in> set (nat_str (n div 10)) \<or> c = digit_char (n mod 10)"
      by (auto simp: nat_str.simps [of n])
    with "1.IH" [OF False] digit [of "n mod 10"] show ?thesis by auto
  qed
qed

lemma nat_str_no_dash: "CHR ''-'' \<notin> set (nat_str n)"
  using nat_str_digits [of "CHR ''-''" n] by auto

lemma nat_str_no_slash: "CHR ''/'' \<notin> set (nat_str n)"
  using nat_str_digits [of "CHR ''/''" n] by auto

lemma int_str_no_slash: "CHR ''/'' \<notin> set (int_str i)"
  by (simp add: int_str_def nat_str_no_slash)

text \<open>A string splits at its last separator in one way only.\<close>

lemma split_last_unique:
  assumes "xs @ c # ys = xs' @ c # ys'" and "c \<notin> set ys" and "c \<notin> set ys'"
  shows "xs = xs' \<and> ys = ys'"
proof -
  from assms(1) have "rev (xs @ c # ys) = rev (xs' @ c # ys')" by (rule arg_cong)
  then have eq: "rev ys @ c # rev xs = rev ys' @ c # rev xs'" by simp
  have "rev ys = takeWhile (\<lambda>x. x \<noteq> c) (rev ys @ c # rev xs)"
    using assms(2) by (subst takeWhile_append2) auto
  also have "\<dots> = takeWhile (\<lambda>x. x \<noteq> c) (rev ys' @ c # rev xs')" by (simp only: eq)
  also have "\<dots> = rev ys'"
    using assms(3) by (subst takeWhile_append2) auto
  finally have "rev ys = rev ys'" .
  with eq show ?thesis by simp
qed

subsection \<open>Lists\<close>

text \<open>Python's \<open>max(xs, key=f)\<close>: the first of the elements whose key is largest.\<close>

fun argmax_first :: "('a \<Rightarrow> 'k::linorder) \<Rightarrow> 'a \<Rightarrow> 'a list \<Rightarrow> 'a" where
  "argmax_first f best [] = best"
| "argmax_first f best (x # xs) = argmax_first f (if f best < f x then x else best) xs"

lemma argmax_first_in: "argmax_first f b xs \<in> insert b (set xs)"
  by (induction xs arbitrary: b) auto

lemma argmax_first_ge: "x \<in> insert b (set xs) \<Longrightarrow> f x \<le> f (argmax_first f b xs)"
proof (induction xs arbitrary: b x)
  case Nil
  then show ?case by simp
next
  case (Cons y ys)
  have step: "z \<in> insert (if f b < f y then y else b) (set ys) \<Longrightarrow>
      f z \<le> f (argmax_first f b (y # ys))" for z
    using Cons.IH by simp
  have base: "f (if f b < f y then y else b) \<le> f (argmax_first f b (y # ys))"
    by (rule step) simp
  from Cons.prems consider "x = b" | "x = y" | "x \<in> set ys" by auto
  then show ?case
  proof cases
    case 1
    with base show ?thesis by (cases "f b < f y") auto
  next
    case 2
    with base show ?thesis by (cases "f b < f y") auto
  next
    case 3
    then show ?thesis by (intro step) simp
  qed
qed

text \<open>The result is the start or sits strictly above everything before it.\<close>

lemma argmax_first_split:
  "argmax_first f b xs = b \<and> (\<forall>x \<in> set xs. f x \<le> f b) \<or>
   (\<exists>ys zs. xs = ys @ argmax_first f b xs # zs \<and>
      f b < f (argmax_first f b xs) \<and>
      (\<forall>y \<in> set ys. f y < f (argmax_first f b xs)) \<and>
      (\<forall>z \<in> set zs. f z \<le> f (argmax_first f b xs)))"
proof (induction xs arbitrary: b)
  case Nil
  then show ?case by simp
next
  case (Cons x xs)
  show ?case
  proof (cases "f b < f x")
    case True
    let ?r = "argmax_first f x xs"
    from Cons.IH [of x] show ?thesis
    proof (elim disjE exE conjE)
      assume "?r = x" and "\<forall>y \<in> set xs. f y \<le> f x"
      with True show ?thesis by (intro disjI2 exI [of _ "[]"] exI [of _ xs]) simp
    next
      fix ys zs
      assume xs: "xs = ys @ ?r # zs" and "f x < f ?r"
        and "\<forall>y \<in> set ys. f y < f ?r" and "\<forall>z \<in> set zs. f z \<le> f ?r"
      with True show ?thesis
        by (intro disjI2 exI [of _ "x # ys"] exI [of _ zs]) auto
    qed
  next
    case False
    let ?r = "argmax_first f b xs"
    from Cons.IH [of b] show ?thesis
    proof (elim disjE exE conjE)
      assume "?r = b" and "\<forall>y \<in> set xs. f y \<le> f b"
      with False show ?thesis by (intro disjI1) auto
    next
      fix ys zs
      assume xs: "xs = ys @ ?r # zs" and "f b < f ?r"
        and "\<forall>y \<in> set ys. f y < f ?r" and "\<forall>z \<in> set zs. f z \<le> f ?r"
      with False show ?thesis
        by (intro disjI2 exI [of _ "x # ys"] exI [of _ zs]) auto
    qed
  qed
qed

lemma sum_list_nonneg_real: "(\<And>x. x \<in> set xs \<Longrightarrow> (0::real) \<le> f x) \<Longrightarrow> 0 \<le> sum_list (map f xs)"
  by (induction xs) auto

lemma sum_list_mult_right: "sum_list (map (\<lambda>x. f x * (c::real)) xs) = sum_list (map f xs) * c"
  by (induction xs) (auto simp: algebra_simps)

lemma sum_list_div_right: "sum_list (map (\<lambda>x. f x / (c::real)) xs) = sum_list (map f xs) / c"
  by (induction xs) (auto simp: add_divide_distrib)

lemma nth_append_last [simp]: "(xs @ [x]) ! length xs = x"
  by simp

lemma dropWhile_sorted_filter:
  "sorted_wrt (\<lambda>x y. f x \<le> (f y::'k::linorder)) xs \<Longrightarrow>
   dropWhile (\<lambda>x. f x < c) xs = filter (\<lambda>x. c \<le> f x) xs"
proof (induction xs)
  case Nil
  then show ?case by simp
next
  case (Cons x xs)
  show ?case
  proof (cases "f x < c")
    case True
    with Cons show ?thesis by auto
  next
    case False
    with Cons.prems have "\<forall>y \<in> set (x # xs). c \<le> f y" by auto
    then have "filter (\<lambda>y. c \<le> f y) (x # xs) = x # xs" by (simp only: filter_id_conv)
    with False show ?thesis by simp
  qed
qed

text \<open>Summing class by class over a complete list of classes is summing once.\<close>

lemma sum_list_indicator:
  "distinct cs \<Longrightarrow> k \<in> set cs \<Longrightarrow> sum_list (map (\<lambda>c. if k = c then (v::'b::comm_monoid_add) else 0) cs) = v"
proof (induction cs)
  case Nil
  then show ?case by simp
next
  case (Cons c cs)
  have "k \<notin> set xs \<Longrightarrow> sum_list (map (\<lambda>c. if k = c then v else 0) xs) = 0" for xs
    by (induction xs) auto
  with Cons show ?case by (cases "k = c") auto
qed

lemma sum_list_by_class:
  assumes "distinct cs" and "\<And>x. x \<in> set xs \<Longrightarrow> cls x \<in> set cs"
  shows "sum_list (map (\<lambda>c. sum_list (map f (filter (\<lambda>x. cls x = c) xs))) cs) =
    (sum_list (map f xs) :: 'b::comm_monoid_add)"
  using assms(2)
proof (induction xs)
  case Nil
  then show ?case by simp
next
  case (Cons x xs)
  have "sum_list (map (\<lambda>c. sum_list (map f (filter (\<lambda>y. cls y = c) (x # xs)))) cs) =
    sum_list (map (\<lambda>c. (if cls x = c then f x else 0) +
      sum_list (map f (filter (\<lambda>y. cls y = c) xs))) cs)"
    by (rule arg_cong [where f = sum_list], rule map_cong) auto
  also have "\<dots> = f x + sum_list (map f xs)"
    using Cons by (simp add: sum_list_addf sum_list_indicator [OF assms(1)])
  finally show ?case by simp
qed

text \<open>A dictionary comprehension over a list of keys: later keys overwrite earlier ones.\<close>

definition dict_comp :: "('k \<Rightarrow> 'v) \<Rightarrow> 'k list \<Rightarrow> ('k, 'v) dict" where
  "dict_comp f ks = fold (\<lambda>k d. dset k (f k) d) ks []"

lemma dget_fold_dset:
  "dget (fold (\<lambda>k d. dset k (f k) d) ks d) k = (if k \<in> set ks then Some (f k) else dget d k)"
  by (induction ks arbitrary: d) auto

lemma dget_dict_comp [simp, dict_simps]:
  "dget (dict_comp f ks) k = (if k \<in> set ks then Some (f k) else None)"
  by (simp add: dict_comp_def dget_fold_dset)

lemma distinct_fold_dset:
  "distinct (dkeys d) \<Longrightarrow> distinct (dkeys (fold (\<lambda>k d. dset k (f k) d) ks d))"
  by (induction ks arbitrary: d) (auto intro: distinct_dkeys_dset)

lemma distinct_dict_comp [simp]: "distinct (dkeys (dict_comp f ks))"
  by (simp add: dict_comp_def distinct_fold_dset)

lemma image_fst_fold_dset: "fst ` set (fold (\<lambda>k d. dset k (f k) d) ks d) = fst ` set d \<union> set ks"
  by (induction ks arbitrary: d) auto

lemma image_fst_dict_comp [simp, dict_simps]: "fst ` set (dict_comp f ks) = set ks"
  by (simp add: dict_comp_def image_fst_fold_dset)

lemma set_dkeys_dict_comp [simp]: "set (dkeys (dict_comp f ks)) = set ks"
  by simp

lemma dvals_dict_comp_sum:
  "sum_list (dvals (dict_comp f ks)) = (\<Sum>k \<in> set ks. (f k :: 'b::comm_monoid_add))"
proof -
  let ?d = "dict_comp f ks"
  have "map snd ?d = map (\<lambda>kv. f (fst kv)) ?d"
  proof (rule map_cong [OF refl])
    fix kv assume kv: "kv \<in> set ?d"
    then have "dget ?d (fst kv) = Some (snd kv)"
      by (intro dget_distinct) simp_all
    moreover from kv have "fst kv \<in> fst ` set ?d" by (rule imageI)
    then have "fst kv \<in> set ks" by (simp only: image_fst_dict_comp)
    ultimately show "snd kv = f (fst kv)" by simp
  qed
  then have "sum_list (map snd ?d) = sum_list (map f (dkeys ?d))"
    by (simp only: map_map comp_def)
  also have "\<dots> = sum f (set (dkeys ?d))"
    by (rule sum_list_distinct_conv_sum_set) simp
  finally show ?thesis by simp
qed

lemma sum_dvals_distinct:
  "distinct (dkeys d) \<Longrightarrow>
   sum_list (dvals d) = (\<Sum>k \<in> set (dkeys d). (the (dget d k) :: 'b::comm_monoid_add))"
proof -
  assume dist: "distinct (dkeys d)"
  have "map snd d = map (\<lambda>kv. the (dget d (fst kv))) d"
  proof (rule map_cong [OF refl])
    fix kv assume "kv \<in> set d"
    then have "dget d (fst kv) = Some (snd kv)" using dist by (intro dget_distinct) simp_all
    then show "snd kv = the (dget d (fst kv))" by simp
  qed
  then have "sum_list (map snd d) = sum_list (map (\<lambda>k. the (dget d k)) (dkeys d))"
    by (simp only: map_map comp_def)
  also have "\<dots> = (\<Sum>k \<in> set (dkeys d). the (dget d k))"
    by (rule sum_list_distinct_conv_sum_set [OF dist])
  finally show ?thesis .
qed

subsection \<open>Computations that may raise\<close>

text \<open>Sequencing, and a loop or comprehension that stops at the first exception.\<close>

fun exc_bind :: "'e + 'a \<Rightarrow> ('a \<Rightarrow> 'e + 'b) \<Rightarrow> 'e + 'b" where
  "exc_bind (Inl x) f = Inl x"
| "exc_bind (Inr a) f = f a"

fun exc_map :: "('a \<Rightarrow> 'e + 'b) \<Rightarrow> 'a list \<Rightarrow> 'e + 'b list" where
  "exc_map f [] = Inr []"
| "exc_map f (x # xs) = exc_bind (f x) (\<lambda>y. exc_bind (exc_map f xs) (\<lambda>ys. Inr (y # ys)))"

lemma exc_bind_Inr [simp]: "exc_bind m f = Inr b \<longleftrightarrow> (\<exists>a. m = Inr a \<and> f a = Inr b)"
  by (cases m) auto

lemma exc_bind_Inl: "exc_bind m f = Inl x \<longleftrightarrow> m = Inl x \<or> (\<exists>a. m = Inr a \<and> f a = Inl x)"
  by (cases m) auto

lemma exc_map_Inr: "exc_map f xs = Inr ys \<longleftrightarrow> list_all2 (\<lambda>x y. f x = Inr y) xs ys"
  by (induction xs arbitrary: ys) (auto simp: list_all2_Cons1)

lemma exc_map_append:
  "exc_map f (xs @ ys) = exc_bind (exc_map f xs) (\<lambda>a. exc_bind (exc_map f ys) (\<lambda>b. Inr (a @ b)))"
proof (induction xs)
  case Nil
  then show ?case by (cases "exc_map f ys") simp_all
next
  case (Cons x xs)
  then show ?case by (cases "f x"; cases "exc_map f xs"; cases "exc_map f ys") simp_all
qed

lemma exc_map_total: "(\<And>x. x \<in> set xs \<Longrightarrow> f x = Inr (g x)) \<Longrightarrow> exc_map f xs = Inr (map g xs)"
  by (induction xs) simp_all

end
