(* ===== verification/Events.thy ===== *)
theory Events
  imports Aegis_Prelude
begin

text \<open>
  The event schema of \<open>aegis/telemetry/events.py\<close> and the rule table of
  \<open>aegis/classifier/classifier.py\<close>: fault signals, blast-radius tiers with their order,
  the frozen telemetry event, and the classifier that maps one to the other.
\<close>

subsection \<open>Fault signals and blast radii\<close>

datatype fault_signal =
    NIC_PORT_FLAP | LINK_FLUCTUATION | RDMA_TIMEOUT
  | GPU_FELL_OFF_BUS | NODE_CRASH | OOM_KILLED_RANK
  | CUDA_KERNEL_CRASH | RUNTIME_BUG | HUNG_RANK
  | NODE_UNRECOVERABLE
  | RACK_POWER_LOSS | FABRIC_PARTITION | CLUSTER_WIDE_OUTAGE
  | UNKNOWN

fun signal_value :: "fault_signal \<Rightarrow> string" where
  "signal_value NIC_PORT_FLAP = ''nic_port_flap''"
| "signal_value LINK_FLUCTUATION = ''link_fluctuation''"
| "signal_value RDMA_TIMEOUT = ''rdma_timeout''"
| "signal_value GPU_FELL_OFF_BUS = ''gpu_fell_off_bus''"
| "signal_value NODE_CRASH = ''node_crash''"
| "signal_value OOM_KILLED_RANK = ''oom_killed_rank''"
| "signal_value CUDA_KERNEL_CRASH = ''cuda_kernel_crash''"
| "signal_value RUNTIME_BUG = ''runtime_bug''"
| "signal_value HUNG_RANK = ''hung_rank''"
| "signal_value NODE_UNRECOVERABLE = ''node_unrecoverable''"
| "signal_value RACK_POWER_LOSS = ''rack_power_loss''"
| "signal_value FABRIC_PARTITION = ''fabric_partition''"
| "signal_value CLUSTER_WIDE_OUTAGE = ''cluster_wide_outage''"
| "signal_value UNKNOWN = ''unknown''"

datatype blast_radius = B0 | B1 | B2 | B3 | B4

fun tier_value :: "blast_radius \<Rightarrow> nat" where
  "tier_value B0 = 0"
| "tier_value B1 = 1"
| "tier_value B2 = 2"
| "tier_value B3 = 3"
| "tier_value B4 = 4"

fun tier_name :: "blast_radius \<Rightarrow> string" where
  "tier_name B0 = ''B0''"
| "tier_name B1 = ''B1''"
| "tier_name B2 = ''B2''"
| "tier_name B3 = ''B3''"
| "tier_name B4 = ''B4''"

text \<open>\<open>for tier in BlastRadius\<close> runs through the members in definition order.\<close>

definition all_tiers :: "blast_radius list" where
  "all_tiers = [B0, B1, B2, B3, B4]"

text \<open>\<open>BlastRadius(v)\<close>: the member with that value; any other value raises.\<close>

definition tier_of_value :: "nat \<Rightarrow> blast_radius option" where
  "tier_of_value v = find (\<lambda>t. tier_value t = v) all_tiers"

text \<open>The enum inherits from int, so tiers compare by value.\<close>

instantiation blast_radius :: linorder
begin

definition less_eq_blast_radius :: "blast_radius \<Rightarrow> blast_radius \<Rightarrow> bool" where
  "s \<le> t \<longleftrightarrow> tier_value s \<le> tier_value t"

definition less_blast_radius :: "blast_radius \<Rightarrow> blast_radius \<Rightarrow> bool" where
  "s < t \<longleftrightarrow> tier_value s < tier_value t"

instance
proof
  fix s t u :: blast_radius
  show "(s < t) = (s \<le> t \<and> \<not> t \<le> s)"
    by (auto simp: less_eq_blast_radius_def less_blast_radius_def)
  show "s \<le> s"
    by (simp add: less_eq_blast_radius_def)
  show "s \<le> t \<Longrightarrow> t \<le> u \<Longrightarrow> s \<le> u"
    by (simp add: less_eq_blast_radius_def)
  show "s \<le> t \<Longrightarrow> t \<le> s \<Longrightarrow> s = t"
    by (cases s; cases t) (auto simp: less_eq_blast_radius_def)
  show "s \<le> t \<or> t \<le> s"
    by (auto simp: less_eq_blast_radius_def)
qed

end

lemmas tier_order = less_eq_blast_radius_def less_blast_radius_def

lemma set_all_tiers [simp]: "set all_tiers = UNIV"
  by (auto simp: all_tiers_def) (metis blast_radius.exhaust)

lemma distinct_all_tiers [simp]: "distinct all_tiers"
  by (simp add: all_tiers_def)

lemma tier_value_inj [simp]: "tier_value s = tier_value t \<longleftrightarrow> s = t"
  by (cases s; cases t) auto

lemma tier_value_le_4: "tier_value t \<le> 4"
  by (cases t) auto

lemma tier_of_value_value [simp]: "tier_of_value (tier_value t) = Some t"
  by (cases t) (auto simp: tier_of_value_def all_tiers_def)

lemma tier_of_value_Some: "tier_of_value v = Some t \<Longrightarrow> tier_value t = v"
  by (auto simp: tier_of_value_def find_Some_iff)

lemma tier_of_value_eq:
  "tier_of_value v =
    (if v = 0 then Some B0 else if v = 1 then Some B1 else if v = 2 then Some B2
     else if v = 3 then Some B3 else if v = 4 then Some B4 else None)"
  by (auto simp: tier_of_value_def all_tiers_def)

lemma tier_name_inj [simp]: "tier_name s = tier_name t \<longleftrightarrow> s = t"
  by (cases s; cases t) auto

lemma B0_least [simp]: "B0 \<le> t"
  by (simp add: tier_order)

lemma B4_greatest [simp]: "t \<le> B4"
  using tier_value_le_4 by (simp add: tier_order)

subsection \<open>Telemetry events\<close>

record telemetry_event =
  ev_rank :: int
  ev_node :: string
  ev_signal :: fault_signal
  ev_payload :: "(string \<times> pyval) list"
  ev_epoch :: int
  ev_timestamp :: real
  ev_nic :: "string option"
  ev_rack :: "string option"
  ev_source :: string

subsection \<open>The failure classifier\<close>

definition signal_to_tier :: "(fault_signal, blast_radius) dict" where
  "signal_to_tier =
    [(NIC_PORT_FLAP, B0), (LINK_FLUCTUATION, B0), (RDMA_TIMEOUT, B0),
     (GPU_FELL_OFF_BUS, B1), (NODE_CRASH, B1), (OOM_KILLED_RANK, B1),
     (CUDA_KERNEL_CRASH, B2), (RUNTIME_BUG, B2), (HUNG_RANK, B2),
     (NODE_UNRECOVERABLE, B3),
     (RACK_POWER_LOSS, B4), (FABRIC_PARTITION, B4), (CLUSTER_WIDE_OUTAGE, B4),
     (UNKNOWN, B2)]"

definition classify :: "telemetry_event \<Rightarrow> blast_radius" where
  "classify event = dget_or signal_to_tier (ev_signal event) B2"

definition classify_signal :: "fault_signal \<Rightarrow> blast_radius" where
  "classify_signal s = dget_or signal_to_tier s B2"

lemma classify_signal_simps [simp]:
  "classify_signal NIC_PORT_FLAP = B0" "classify_signal LINK_FLUCTUATION = B0"
  "classify_signal RDMA_TIMEOUT = B0" "classify_signal GPU_FELL_OFF_BUS = B1"
  "classify_signal NODE_CRASH = B1" "classify_signal OOM_KILLED_RANK = B1"
  "classify_signal CUDA_KERNEL_CRASH = B2" "classify_signal RUNTIME_BUG = B2"
  "classify_signal HUNG_RANK = B2" "classify_signal NODE_UNRECOVERABLE = B3"
  "classify_signal RACK_POWER_LOSS = B4" "classify_signal FABRIC_PARTITION = B4"
  "classify_signal CLUSTER_WIDE_OUTAGE = B4" "classify_signal UNKNOWN = B2"
  by (simp_all add: classify_signal_def signal_to_tier_def dget_or_def)

lemma classify_eq_signal: "classify e = classify_signal (ev_signal e)"
  by (simp add: classify_def classify_signal_def)

end
