(* ===== verification/Bus.thy ===== *)
theory Bus
  imports Events
begin

text \<open>
  The unified telemetry plane of \<open>aegis/telemetry/bus.py\<close> and the sensors of
  \<open>aegis/telemetry/sensors.py\<close>. The first part is the bus object and its operations
  (registration, the non-blocking publish, the fan-out of one event, the drain loop). The
  second part is its life cycle as a step relation: publishers, the background dispatch
  task and a call of \<open>stop\<close> run concurrently, interleaved at their await points.
  Subscribers are named by values of a type \<open>'sub\<close>; what a subscriber does to the rest
  of the program is the argument \<open>handle\<close>, which may raise.
\<close>

subsection \<open>The bus object\<close>

record 'sub bus =
  utp_subscribers :: "'sub list"
  utp_queue :: "telemetry_event list"
  utp_maxsize :: int
  utp_event_count :: nat
  utp_drop_count :: nat
  utp_running :: bool

definition bus_init :: "int \<Rightarrow> 'sub bus" where
  "bus_init queue_size =
    \<lparr>utp_subscribers = [], utp_queue = [], utp_maxsize = queue_size,
     utp_event_count = 0, utp_drop_count = 0, utp_running = False\<rparr>"

text \<open>The default of the constructor.\<close>

definition default_queue_size :: int where
  "default_queue_size = 10000"

definition subscribe :: "'sub \<Rightarrow> 'sub bus \<Rightarrow> 'sub bus" where
  "subscribe cb b = b\<lparr>utp_subscribers := utp_subscribers b @ [cb]\<rparr>"

text \<open>\<open>list.remove\<close> takes out the first occurrence and raises when there is none.\<close>

definition unsubscribe :: "'sub \<Rightarrow> 'sub bus \<Rightarrow> pyexc + 'sub bus" where
  "unsubscribe cb b =
    (if cb \<in> set (utp_subscribers b)
     then Inr (b\<lparr>utp_subscribers := remove1 cb (utp_subscribers b)\<rparr>)
     else Inl ValueErr)"

text \<open>\<open>asyncio.Queue.full\<close>: a queue whose size is not positive is unbounded.\<close>

definition queue_full :: "'sub bus \<Rightarrow> bool" where
  "queue_full b \<longleftrightarrow> 0 < utp_maxsize b \<and> utp_maxsize b \<le> int (length (utp_queue b))"

definition publish :: "telemetry_event \<Rightarrow> 'sub bus \<Rightarrow> 'sub bus" where
  "publish event b =
    (if queue_full b then b\<lparr>utp_drop_count := utp_drop_count b + 1\<rparr>
     else b\<lparr>utp_queue := utp_queue b @ [event],
            utp_event_count := utp_event_count b + 1\<rparr>)"

text \<open>
  The fan-out of one event: every subscriber in the list runs, in order; an exception of
  one is logged (the first component of the result) and the next one runs all the same.
\<close>

fun fan_out ::
  "('sub \<Rightarrow> telemetry_event \<Rightarrow> 's \<Rightarrow> pyexc option \<times> 's) \<Rightarrow>
   'sub list \<Rightarrow> telemetry_event \<Rightarrow> 's \<Rightarrow> ('sub \<times> pyexc) list \<times> 's" where
  "fan_out handle [] event s = ([], s)"
| "fan_out handle (sub # subs) event s =
    (case handle sub event s of (raised, s') \<Rightarrow>
     case fan_out handle subs event s' of (errs, s'') \<Rightarrow>
       (case raised of None \<Rightarrow> errs | Some x \<Rightarrow> (sub, x) # errs, s''))"

definition dispatch_one ::
  "('sub \<Rightarrow> telemetry_event \<Rightarrow> 's \<Rightarrow> pyexc option \<times> 's) \<Rightarrow>
   telemetry_event option \<Rightarrow> 'sub bus \<Rightarrow> 's \<Rightarrow> ('sub \<times> pyexc) list \<times> 'sub bus \<times> 's" where
  "dispatch_one handle oe b s =
    (case oe of
       Some event \<Rightarrow>
         (case fan_out handle (utp_subscribers b) event s of (errs, s') \<Rightarrow> (errs, b, s'))
     | None \<Rightarrow>
         (case utp_queue b of
            [] \<Rightarrow> ([], b, s)
          | event # rest \<Rightarrow>
              (case fan_out handle (utp_subscribers b) event s of
                 (errs, s') \<Rightarrow> (errs, b\<lparr>utp_queue := rest\<rparr>, s'))))"

text \<open>\<open>_drain\<close>: dispatch until the queue is empty.\<close>

function drain ::
  "('sub \<Rightarrow> telemetry_event \<Rightarrow> 's \<Rightarrow> pyexc option \<times> 's) \<Rightarrow>
   'sub bus \<Rightarrow> 's \<Rightarrow> ('sub \<times> pyexc) list \<times> 'sub bus \<times> 's" where
  "drain handle b s =
    (if utp_queue b = [] then ([], b, s)
     else case dispatch_one handle None b s of (errs, b', s') \<Rightarrow>
          case drain handle b' s' of (errs', b'', s'') \<Rightarrow> (errs @ errs', b'', s''))"
  by pat_completeness auto
termination
  by (relation "measure (\<lambda>(handle, b, s). length (utp_queue b))")
     (auto simp: dispatch_one_def split: list.splits prod.splits)

declare drain.simps [simp del]

text \<open>
  The sensors publish what they are given; the bus they hold is the state passed. The synthetic
  sensor has nothing to start or stop.
\<close>

record sensor_base =
  sb_source :: string

definition synthetic_sensor :: sensor_base where
  "synthetic_sensor = \<lparr>sb_source = ''synthetic''\<rparr>"

definition synthetic_start :: "sensor_base \<Rightarrow> sensor_base" where
  "synthetic_start s = s"

definition synthetic_stop :: "sensor_base \<Rightarrow> sensor_base" where
  "synthetic_stop s = s"

definition sensor_emit :: "telemetry_event \<Rightarrow> 'sub bus \<Rightarrow> 'sub bus" where
  "sensor_emit event b = publish event b"

definition synthetic_inject :: "telemetry_event \<Rightarrow> 'sub bus \<Rightarrow> 'sub bus" where
  "synthetic_inject event b = sensor_emit event b"

subsection \<open>Publishing and registration\<close>

definition bus_ok :: "'sub bus \<Rightarrow> bool" where
  "bus_ok b \<longleftrightarrow> (0 < utp_maxsize b \<longrightarrow> int (length (utp_queue b)) \<le> utp_maxsize b)"

lemma bus_ok_init [simp]: "bus_ok (bus_init n)"
  by (simp add: bus_ok_def bus_init_def)

lemma bus_ok_publish [intro]: "bus_ok b \<Longrightarrow> bus_ok (publish e b)"
  by (auto simp: bus_ok_def publish_def queue_full_def)

lemma publish_frame [frame_simps]:
  "utp_subscribers (publish e b) = utp_subscribers b"
  "utp_maxsize (publish e b) = utp_maxsize b"
  "utp_running (publish e b) = utp_running b"
  by (simp_all add: publish_def)

lemma publish_counts:
  "utp_event_count (publish e b) + utp_drop_count (publish e b) =
   utp_event_count b + utp_drop_count b + 1"
  by (simp add: publish_def)

subsection \<open>The fan-out\<close>

text \<open>The state a run of all subscribers leaves, exceptions set aside.\<close>

lemma fan_out_state: "snd (fan_out handle subs e s) = fold (\<lambda>sub s. snd (handle sub e s)) subs s"
  by (induction subs arbitrary: s) (simp_all add: split_beta)

lemma fan_out_append:
  "fan_out handle (xs @ ys) e s =
    (fst (fan_out handle xs e s) @ fst (fan_out handle ys e (snd (fan_out handle xs e s))),
     snd (fan_out handle ys e (snd (fan_out handle xs e s))))"
  by (induction xs arbitrary: s) (auto split: prod.splits option.splits)

text \<open>Draining dispatches the queued events one after the other.\<close>

lemma drain_Nil: "utp_queue b = [] \<Longrightarrow> drain handle b s = ([], b, s)"
  by (simp add: drain.simps)

lemma drain_Cons:
  "utp_queue b = e # q \<Longrightarrow>
   drain handle b s =
    (case fan_out handle (utp_subscribers b) e s of (errs, s') \<Rightarrow>
     case drain handle (b\<lparr>utp_queue := q\<rparr>) s' of (errs', b'', s'') \<Rightarrow> (errs @ errs', b'', s''))"
  by (simp add: drain.simps [of handle b s] dispatch_one_def split: prod.splits)

lemma drain_state:
  "drain handle b s = (errs, b', s') \<Longrightarrow>
   b' = b\<lparr>utp_queue := []\<rparr> \<and>
   s' = fold (\<lambda>e s. snd (fan_out handle (utp_subscribers b) e s)) (utp_queue b) s"
proof (induction "utp_queue b" arbitrary: b s errs)
  case Nil
  then show ?case by (auto simp: drain_Nil [OF Nil.hyps [symmetric]])
next
  case (Cons e q)
  obtain l1 s1 where f: "fan_out handle (utp_subscribers b) e s = (l1, s1)" by fastforce
  obtain l2 b2 s2 where d: "drain handle (b\<lparr>utp_queue := q\<rparr>) s1 = (l2, b2, s2)"
    by (metis prod_cases3)
  from Cons.prems drain_Cons [OF Cons.hyps(2) [symmetric], of handle s] f d
  have "b' = b2" "s' = s2" by auto
  with Cons.hyps(1) [of "b\<lparr>utp_queue := q\<rparr>" s1 l2] d f Cons.hyps(2) [symmetric]
  show ?case by simp
qed

text \<open>
  Exception isolation and order of the fan-out: for every list of subscribers and
  every handler, the fan-out runs all subscribers in registration order, each on the state
  the previous one left, whatever the earlier ones raised; its log holds exactly the
  subscribers that raised, in order, and draining hands every queued event, in queue order,
  to every subscriber and leaves an empty queue.
\<close>

theorem dispatch_isolates_exceptions:
  "fan_out handle (pre @ sub # post) e s =
     (let (errs1, s1) = fan_out handle pre e s;
          (raised, s2) = handle sub e s1;
          (errs2, s3) = fan_out handle post e s2
      in (errs1 @ (case raised of None \<Rightarrow> [] | Some x \<Rightarrow> [(sub, x)]) @ errs2, s3)) \<and>
   snd (drain handle b s) =
     (b\<lparr>utp_queue := []\<rparr>,
      fold (\<lambda>e s. fold (\<lambda>sub s. snd (handle sub e s)) (utp_subscribers b) s) (utp_queue b) s)"
proof (intro conjI)
  show "fan_out handle (pre @ sub # post) e s =
     (let (errs1, s1) = fan_out handle pre e s;
          (raised, s2) = handle sub e s1;
          (errs2, s3) = fan_out handle post e s2
      in (errs1 @ (case raised of None \<Rightarrow> [] | Some x \<Rightarrow> [(sub, x)]) @ errs2, s3))"
    by (simp add: fan_out_append Let_def split: prod.splits option.splits)
  obtain errs b' s' where "drain handle b s = (errs, b', s')" by (metis prod_cases3)
  with drain_state [OF this] show "snd (drain handle b s) =
     (b\<lparr>utp_queue := []\<rparr>,
      fold (\<lambda>e s. fold (\<lambda>sub s. snd (handle sub e s)) (utp_subscribers b) s) (utp_queue b) s)"
    by (simp add: fan_out_state)
qed

subsection \<open>The life cycle as a step relation\<close>

text \<open>
  The background task of \<open>start\<close> loops: wait for an event, dispatch it. It is modelled
  by its program counter: no task, at the top of the loop (including the wait for the
  queue), awaiting the subscribers on an event, or returned because \<open>_running\<close> was false
  at the top. The caller of \<open>stop\<close> first drains, then cancels the task: a task cancelled
  while it awaits a subscriber abandons its event, because \<open>CancelledError\<close> is not an
  \<open>Exception\<close> and passes the handler of \<open>_dispatch_one\<close>. The drain has a time limit,
  which abandons the event the drain itself is dispatching. The fields from
  \<open>bs_accepted\<close> on are history variables: the events enqueued, the events taken out of the
  queue, the events whose fan-out completed, the events abandoned, the calls of
  \<open>publish\<close>, the calls of \<open>stop\<close> and the drains that ran out of time.
\<close>

datatype loop_pc = NoTask | AtTop | Dispatching telemetry_event | Returned

datatype stop_pc = NotStopping | Draining | DrainDispatch telemetry_event | Cancelling

record bus_sys =
  bs_bus :: "nat bus"
  bs_loop :: loop_pc
  bs_stop :: stop_pc
  bs_accepted :: "telemetry_event list"
  bs_taken :: "telemetry_event list"
  bs_done :: "telemetry_event list"
  bs_lost :: "telemetry_event list"
  bs_published :: nat
  bs_stops :: nat
  bs_timeouts :: nat

definition bus_sys_init :: "int \<Rightarrow> bus_sys" where
  "bus_sys_init n =
    \<lparr>bs_bus = bus_init n, bs_loop = NoTask, bs_stop = NotStopping, bs_accepted = [],
     bs_taken = [], bs_done = [], bs_lost = [], bs_published = 0, bs_stops = 0,
     bs_timeouts = 0\<rparr>"

text \<open>The two ways an event leaves the queue and the two ways a dispatch ends.\<close>

definition take_event :: "telemetry_event list \<Rightarrow> telemetry_event \<Rightarrow> bus_sys \<Rightarrow> bus_sys" where
  "take_event rest e s =
    s\<lparr>bs_bus := (bs_bus s)\<lparr>utp_queue := rest\<rparr>, bs_taken := bs_taken s @ [e]\<rparr>"

inductive bus_step :: "bus_sys \<Rightarrow> bus_sys \<Rightarrow> bool" where
  publish_step: "bus_step s (s\<lparr>bs_bus := publish e (bs_bus s),
      bs_accepted := (if queue_full (bs_bus s) then bs_accepted s else bs_accepted s @ [e]),
      bs_published := bs_published s + 1\<rparr>)"
| start_step: "bs_loop s = NoTask \<Longrightarrow>
    bus_step s (s\<lparr>bs_bus := (bs_bus s)\<lparr>utp_running := True\<rparr>, bs_loop := AtTop\<rparr>)"
| loop_get: "bs_loop s = AtTop \<Longrightarrow> utp_queue (bs_bus s) = e # rest \<Longrightarrow>
    bus_step s ((take_event rest e s)\<lparr>bs_loop := Dispatching e\<rparr>)"
| loop_done: "bs_loop s = Dispatching e \<Longrightarrow>
    bus_step s (s\<lparr>bs_loop := AtTop, bs_done := bs_done s @ [e]\<rparr>)"
| loop_return: "bs_loop s = AtTop \<Longrightarrow> \<not> utp_running (bs_bus s) \<Longrightarrow>
    bus_step s (s\<lparr>bs_loop := Returned\<rparr>)"
| stop_step: "bs_stop s = NotStopping \<Longrightarrow> bs_loop s \<noteq> NoTask \<Longrightarrow>
    bus_step s (s\<lparr>bs_bus := (bs_bus s)\<lparr>utp_running := False\<rparr>, bs_stop := Draining,
      bs_stops := bs_stops s + 1\<rparr>)"
| drain_get: "bs_stop s = Draining \<Longrightarrow> utp_queue (bs_bus s) = e # rest \<Longrightarrow>
    bus_step s ((take_event rest e s)\<lparr>bs_stop := DrainDispatch e\<rparr>)"
| drain_done: "bs_stop s = DrainDispatch e \<Longrightarrow>
    bus_step s (s\<lparr>bs_stop := Draining, bs_done := bs_done s @ [e]\<rparr>)"
| drain_empty: "bs_stop s = Draining \<Longrightarrow> utp_queue (bs_bus s) = [] \<Longrightarrow>
    bus_step s (s\<lparr>bs_stop := Cancelling\<rparr>)"
| drain_timeout_idle: "bs_stop s = Draining \<Longrightarrow>
    bus_step s (s\<lparr>bs_stop := Cancelling, bs_timeouts := bs_timeouts s + 1\<rparr>)"
| drain_timeout_busy: "bs_stop s = DrainDispatch e \<Longrightarrow>
    bus_step s (s\<lparr>bs_stop := Cancelling, bs_lost := bs_lost s @ [e],
      bs_timeouts := bs_timeouts s + 1\<rparr>)"
| cancel_idle: "bs_stop s = Cancelling \<Longrightarrow> bs_loop s = AtTop \<or> bs_loop s = Returned \<Longrightarrow>
    bus_step s (s\<lparr>bs_stop := NotStopping, bs_loop := NoTask\<rparr>)"
| cancel_busy: "bs_stop s = Cancelling \<Longrightarrow> bs_loop s = Dispatching e \<Longrightarrow>
    bus_step s (s\<lparr>bs_stop := NotStopping, bs_loop := NoTask, bs_lost := bs_lost s @ [e]\<rparr>)"

inductive_cases bus_stepE: "bus_step s s'"

inductive bus_reach :: "int \<Rightarrow> bus_sys \<Rightarrow> bool" for n where
  bus_start: "bus_reach n (bus_sys_init n)"
| bus_more: "bus_reach n s \<Longrightarrow> bus_step s s' \<Longrightarrow> bus_reach n s'"

fun loop_event :: "loop_pc \<Rightarrow> telemetry_event list" where
  "loop_event (Dispatching e) = [e]"
| "loop_event _ = []"

fun drain_event :: "stop_pc \<Rightarrow> telemetry_event list" where
  "drain_event (DrainDispatch e) = [e]"
| "drain_event _ = []"

definition bus_inv :: "int \<Rightarrow> bus_sys \<Rightarrow> bool" where
  "bus_inv n s \<longleftrightarrow>
     utp_maxsize (bs_bus s) = n \<and> bus_ok (bs_bus s) \<and>
     bs_taken s @ utp_queue (bs_bus s) = bs_accepted s \<and>
     utp_event_count (bs_bus s) = length (bs_accepted s) \<and>
     utp_event_count (bs_bus s) + utp_drop_count (bs_bus s) = bs_published s \<and>
     mset (bs_taken s) = mset (bs_done s) + mset (loop_event (bs_loop s)) +
       mset (drain_event (bs_stop s)) + mset (bs_lost s) \<and>
     (bs_loop s = NoTask \<longrightarrow> bs_stop s = NotStopping) \<and>
     length (bs_lost s) + (if bs_stop s = NotStopping then 0 else 1)
       \<le> bs_stops s + bs_timeouts s \<and>
     (bs_stops s = 0 \<longrightarrow> bs_stop s = NotStopping \<and> bs_lost s = [] \<and>
        bs_taken s = bs_done s @ loop_event (bs_loop s))"

lemmas bus_inv_simps = bus_inv_def bus_ok_def take_event_def publish_def queue_full_def

lemma bus_inv_init: "bus_inv n (bus_sys_init n)"
  by (simp add: bus_inv_def bus_sys_init_def bus_init_def bus_ok_def)

lemma bus_step_inv: "bus_step s s' \<Longrightarrow> bus_inv n s \<Longrightarrow> bus_inv n s'"
proof (induction rule: bus_step.induct)
  case (loop_get s e rest)
  then show ?case by (auto simp: bus_inv_simps)
next
  case (drain_get s e rest)
  then show ?case by (auto simp: bus_inv_simps)
qed (auto simp: bus_inv_simps)

lemma bus_reach_inv: "bus_reach n s \<Longrightarrow> bus_inv n s"
  by (induction rule: bus_reach.induct) (auto intro: bus_inv_init bus_step_inv)

text \<open>
  Event conservation on the telemetry plane: in every reachable state of the bus,
  whatever the interleaving of publishers, the dispatch task and stop, the events taken
  from the queue followed by the queue are the accepted events in publication order;
  the event count is the number accepted and with the drop count the number published; the
  queue never exceeds a positive bound; and every event taken is dispatched, being
  dispatched, or one that a stop abandoned.
\<close>

theorem bus_conserves_events:
  assumes "bus_reach n s"
  shows "bs_taken s @ utp_queue (bs_bus s) = bs_accepted s \<and>
    utp_event_count (bs_bus s) = length (bs_accepted s) \<and>
    utp_event_count (bs_bus s) + utp_drop_count (bs_bus s) = bs_published s \<and>
    (0 < n \<longrightarrow> int (length (utp_queue (bs_bus s))) \<le> n) \<and>
    mset (bs_taken s) = mset (bs_done s) + mset (loop_event (bs_loop s)) +
      mset (drain_event (bs_stop s)) + mset (bs_lost s)"
  using bus_reach_inv [OF assms] by (auto simp: bus_inv_def bus_ok_def)

text \<open>
  First in, first out: as long as stop has not been called, no accepted event is lost,
  and the events whose fan-out completed, then the one in flight, then the queue, are
  exactly the accepted events in the order of their publication.
\<close>

theorem bus_fifo_until_stop:
  assumes "bus_reach n s" and "bs_stops s = 0"
  shows "bs_done s @ loop_event (bs_loop s) @ utp_queue (bs_bus s) = bs_accepted s \<and>
    bs_lost s = []"
proof -
  have "bus_inv n s" using assms(1) by (rule bus_reach_inv)
  with assms(2) show ?thesis by (auto simp: bus_inv_def)
qed

text \<open>One event published to a running bus, taken by the task; and the same after a stop.\<close>

lemmas bus_run_simps = bus_sys_init_def bus_init_def publish_def queue_full_def take_event_def

lemma running_run:
  "\<exists>t. bus_reach 10 t \<and> bs_accepted t = [e] \<and> bs_taken t = [e] \<and> bs_done t = [] \<and>
     bs_lost t = [] \<and> bs_stops t = 0 \<and> bs_timeouts t = 0 \<and> bs_loop t = Dispatching e \<and>
     bs_stop t = NotStopping \<and> utp_queue (bs_bus t) = []"
proof -
  let ?s0 = "bus_sys_init 10"
  let ?s1 = "?s0\<lparr>bs_bus := (bs_bus ?s0)\<lparr>utp_running := True\<rparr>, bs_loop := AtTop\<rparr>"
  let ?s2 = "?s1\<lparr>bs_bus := publish e (bs_bus ?s1),
      bs_accepted := (if queue_full (bs_bus ?s1) then bs_accepted ?s1 else bs_accepted ?s1 @ [e]),
      bs_published := bs_published ?s1 + 1\<rparr>"
  let ?s3 = "(take_event [] e ?s2)\<lparr>bs_loop := Dispatching e\<rparr>"
  have "bus_reach 10 ?s1"
    by (rule bus_more [OF bus_start start_step]) (simp add: bus_run_simps)
  then have "bus_reach 10 ?s2" by (rule bus_more [OF _ publish_step])
  then have "bus_reach 10 ?s3"
    by (rule bus_more [OF _ loop_get]) (simp_all add: bus_run_simps)
  then show ?thesis by (intro exI conjI) (assumption, simp_all add: bus_run_simps)
qed

lemma abandoned_run:
  "\<exists>t. bus_reach 10 t \<and> bs_accepted t = [e] \<and> bs_done t = [] \<and> bs_lost t = [e] \<and>
     bs_stops t = 1 \<and> bs_timeouts t = 0 \<and> bs_loop t = NoTask \<and> bs_stop t = NotStopping"
proof -
  obtain t where t: "bus_reach 10 t" "bs_accepted t = [e]" "bs_done t = []" "bs_lost t = []"
    "bs_stops t = 0" "bs_timeouts t = 0" "bs_loop t = Dispatching e" "bs_stop t = NotStopping"
    "utp_queue (bs_bus t) = []"
    using running_run by blast
  let ?t1 = "t\<lparr>bs_bus := (bs_bus t)\<lparr>utp_running := False\<rparr>, bs_stop := Draining,
      bs_stops := bs_stops t + 1\<rparr>"
  let ?t2 = "?t1\<lparr>bs_stop := Cancelling\<rparr>"
  let ?t3 = "?t2\<lparr>bs_stop := NotStopping, bs_loop := NoTask, bs_lost := bs_lost ?t2 @ [e]\<rparr>"
  have "bus_reach 10 ?t1" using t by (intro bus_more [OF _ stop_step]) simp_all
  then have "bus_reach 10 ?t2" using t by (rule_tac bus_more [OF _ drain_empty]) simp_all
  then have "bus_reach 10 ?t3" using t by (rule_tac bus_more [OF _ cancel_busy]) simp_all
  then show ?thesis using t by (intro exI conjI) (assumption, simp_all)
qed

theorem bus_conserves_events_witness:
  "\<exists>s. bus_reach 10 s \<and> bs_taken s @ utp_queue (bs_bus s) = bs_accepted s \<and> bs_taken s \<noteq> []"
proof -
  obtain s where "bus_reach 10 s" "bs_taken s = [undefined]" using running_run by blast
  with bus_conserves_events [of 10 s] show ?thesis by auto
qed

theorem bus_fifo_until_stop_witness:
  "\<exists>s. bus_reach 10 s \<and> bs_stops s = 0 \<and>
     bs_done s @ loop_event (bs_loop s) @ utp_queue (bs_bus s) = bs_accepted s \<and>
     bs_accepted s \<noteq> []"
proof -
  obtain s where "bus_reach 10 s" "bs_stops s = 0" "bs_accepted s = [undefined]"
    using running_run by blast
  with bus_fifo_until_stop [of 10 s] show ?thesis by auto
qed

text \<open>
  What a stop can lose: in every reachable state the abandoned events are at most one
  for each call of stop and one for each drain that ran out of time.
\<close>

theorem bus_stop_loss:
  assumes "bus_reach n s"
  shows "length (bs_lost s) \<le> bs_stops s + bs_timeouts s"
  using bus_reach_inv [OF assms] by (auto simp: bus_inv_def split: if_splits)

theorem bus_stop_loss_witness:
  "\<exists>s. bus_reach 10 s \<and> length (bs_lost s) = 1 \<and> length (bs_lost s) \<le> bs_stops s + bs_timeouts s"
proof -
  obtain s where "bus_reach 10 s" "bs_lost s = [undefined]" using abandoned_run by blast
  with bus_stop_loss [of 10 s] show ?thesis by auto
qed

text \<open>
  The graceful stop abandons an event in flight: for every event there is a run of a
  bus of bound 10 in which the event is accepted, one stop drains an empty queue within its
  time limit and completes, and the event's fan-out never completes, because the stop
  cancels the dispatch task while it awaits a subscriber on that event.
\<close>

theorem bus_stop_abandons_in_flight:
  "\<exists>t. bus_reach 10 t \<and> bs_accepted t = [e] \<and> bs_done t = [] \<and> bs_lost t = [e] \<and>
     bs_stops t = 1 \<and> bs_timeouts t = 0 \<and> bs_loop t = NoTask \<and> bs_stop t = NotStopping"
  by (rule abandoned_run)

end
