(* ===== verification/Layer_Base.thy ===== *)
theory Layer_Base
  imports Events
begin

text \<open>
  The recovery layer interface of \<open>aegis/layers/base.py\<close>: the result of an attempt, the
  object a layer is for the escalation engine, and the contract every layer keeps. A
  message is a value of the type \<open>message\<close>: one constructor for each f-string of the
  source, holding the values the f-string prints, so that two messages are equal when the
  source prints the same text from the same values; the rendering itself is not modelled.
\<close>

datatype message =
    MsgEmpty
  | MsgUnhandledTier blast_radius
  | MsgNoNics string
  | MsgNoBackupNic string string
  | MsgMigrationFailed string string string
  | MsgMigrated string string string real
  | MsgNoNeighbor string
  | MsgAbsorbFailed string string
  | MsgAbsorbed string string nat real
  | MsgNoCheckpoint nat string
  | MsgNoBaseCheckpoint
  | MsgChecksumMismatch nat string int
  | MsgBaseChecksumMismatch int
  | MsgRestored nat string int nat
  | MsgRestoredReplica string int
  | MsgRestoredBase int
  | MsgObserveOnly
  | MsgExhausted fault_signal int

record recovery_result =
  rr_success :: bool
  rr_message :: message
  rr_degraded :: bool
  rr_recovery_secs :: real

text \<open>The constructor with its defaults, for a failure and for a success.\<close>

definition rr_failure :: "message \<Rightarrow> recovery_result" where
  "rr_failure m = \<lparr>rr_success = False, rr_message = m, rr_degraded = False, rr_recovery_secs = 0\<rparr>"

definition rr_succeeded :: "message \<Rightarrow> bool \<Rightarrow> real \<Rightarrow> recovery_result" where
  "rr_succeeded m degraded secs =
    \<lparr>rr_success = True, rr_message = m, rr_degraded = degraded, rr_recovery_secs = secs\<rparr>"

lemma rr_failure_simps [simp]:
  "rr_success (rr_failure m) = False" "rr_message (rr_failure m) = m"
  "rr_degraded (rr_failure m) = False" "rr_recovery_secs (rr_failure m) = 0"
  by (simp_all add: rr_failure_def)

lemma rr_succeeded_simps [simp]:
  "rr_success (rr_succeeded m d secs) = True" "rr_message (rr_succeeded m d secs) = m"
  "rr_degraded (rr_succeeded m d secs) = d" "rr_recovery_secs (rr_succeeded m d secs) = secs"
  by (simp_all add: rr_succeeded_def)

text \<open>
  A layer as the engine sees it: the tiers it declares, the pre-flight check and the
  recovery coroutine, over the state \<open>'s\<close> the layer lives in. A recovery may raise.
\<close>

record 's recovery_layer =
  rl_handled_tiers :: "blast_radius list"
  rl_can_handle :: "telemetry_event \<Rightarrow> blast_radius \<Rightarrow> 's \<Rightarrow> bool"
  rl_recover :: "telemetry_event \<Rightarrow> blast_radius \<Rightarrow> int \<Rightarrow> int option \<Rightarrow> 's \<Rightarrow>
    (pyexc + recovery_result) \<times> 's"

subsection \<open>The contract of a layer\<close>

text \<open>
  What the engine relies on: a layer refuses the tiers it does not declare, its recovery
  keeps the invariant of its state even when it fails or raises, and a failed attempt
  reports no recovery time and no degradation (the default of the result object).
\<close>

locale recovery_contract =
  fixes tiers :: "blast_radius list"
    and can :: "telemetry_event \<Rightarrow> blast_radius \<Rightarrow> 's \<Rightarrow> bool"
    and rec :: "telemetry_event \<Rightarrow> blast_radius \<Rightarrow> int \<Rightarrow> int option \<Rightarrow> 's \<Rightarrow>
      (pyexc + recovery_result) \<times> 's"
    and inv :: "'s \<Rightarrow> bool"
  assumes refuses: "t \<notin> set tiers \<Longrightarrow> \<not> can ev t s"
    and rec_inv: "inv s \<Longrightarrow> inv (snd (rec ev t ep g s))"
    and failure_blank: "fst (rec ev t ep g s) = Inr r \<Longrightarrow> \<not> rr_success r \<Longrightarrow>
      \<not> rr_degraded r \<and> rr_recovery_secs r = 0"
begin

text \<open>Any sequence of attempts, at any tiers, keeps the invariant.\<close>

fun attempts :: "(telemetry_event \<times> blast_radius \<times> int \<times> int option) list \<Rightarrow> 's \<Rightarrow> 's" where
  "attempts [] s = s"
| "attempts ((ev, t, ep, g) # as) s = attempts as (if can ev t s then snd (rec ev t ep g s) else s)"

lemma attempts_inv: "inv s \<Longrightarrow> inv (attempts as s)"
  by (induction as s rule: attempts.induct) (simp_all add: rec_inv)

lemma degraded_success: "fst (rec ev t ep g s) = Inr r \<Longrightarrow> rr_degraded r \<Longrightarrow> rr_success r"
  using failure_blank by blast

end

end
