(* ===== verification/Transport.thy ===== *)
theory Transport
  imports Layer_Base
begin

text \<open>
  The transport layer of \<open>aegis/layers/transport.py\<close> (tier B0): the NIC registry of a node
  with its connection state machine, the bandwidth rebalancing, the migration backends and
  the layer. The backend is an argument of the layer, as in the source; the wall-clock
  times it measures, and for the Linux backend whether \<open>ip link\<close> finds the NIC up, are
  arguments of the backends.
\<close>

datatype nic_state = STABLE | MIGRATING | MIGRATED | FAILED

definition default_nic_bandwidth_gbps :: real where
  "default_nic_bandwidth_gbps = 100"

record node_nics =
  nn_nics :: "string list"
  nn_bandwidth :: "(string, real) dict"
  nn_state :: nic_state
  nn_active :: string
  nn_failed :: "string set"

text \<open>The constructor as \<open>register_node_nics\<close> calls it, with its \<open>__post_init__\<close>.\<close>

definition set_default_bandwidths :: "string list \<Rightarrow> (string, real) dict \<Rightarrow> (string, real) dict" where
  "set_default_bandwidths nics bw =
    fold (\<lambda>nic d. if dget d nic = None then dset nic default_nic_bandwidth_gbps d else d) nics bw"

definition mk_node_nics :: "string list \<Rightarrow> (string, real) dict \<Rightarrow> node_nics" where
  "mk_node_nics nics bw =
    \<lparr>nn_nics = nics, nn_bandwidth = set_default_bandwidths nics bw, nn_state = STABLE,
     nn_active = (if nics \<noteq> [] then hd nics else []), nn_failed = {}\<rparr>"

definition healthy_nics :: "node_nics \<Rightarrow> string list" where
  "healthy_nics e = filter (\<lambda>n. n \<notin> nn_failed e) (nn_nics e)"

record migration_result =
  mr_success :: bool
  mr_from_nic :: string
  mr_to_nic :: string
  mr_migration_secs :: real
  mr_throughput_retained_pct :: real
  mr_rebalanced_weights :: "(string, real) dict"

definition rebalance_bandwidth :: "(string, real) dict \<Rightarrow> (string, real) dict" where
  "rebalance_bandwidth remaining =
    (let total = sum_list (dvals remaining)
     in if total \<le> 0 then map (\<lambda>(nic, cap). (nic, 0)) remaining
        else map (\<lambda>(nic, cap). (nic, cap / total)) remaining)"

definition retained_pct :: "real \<Rightarrow> (string, real) dict \<Rightarrow> real" where
  "retained_pct total_before remaining =
    (let total_after = sum_list (dvals remaining)
     in if total_before > 0 then (total_after / total_before) * 100 else 0)"

subsection \<open>The migration backends\<close>

type_synonym transport_backend =
  "string \<Rightarrow> string \<Rightarrow> string \<Rightarrow> real \<Rightarrow> (string, real) dict \<Rightarrow> migration_result"

definition simulated_migrate :: "real \<Rightarrow> transport_backend" where
  "simulated_migrate elapsed node from_nic to_nic total_before remaining =
    \<lparr>mr_success = True, mr_from_nic = from_nic, mr_to_nic = to_nic,
     mr_migration_secs = elapsed,
     mr_throughput_retained_pct = retained_pct total_before remaining,
     mr_rebalanced_weights = rebalance_bandwidth remaining\<rparr>"

text \<open>\<open>link_up\<close> is the outcome of \<open>ip link show\<close>; a host without \<open>ip\<close> counts as down.\<close>

definition linux_migrate :: "real \<Rightarrow> (string \<Rightarrow> bool) \<Rightarrow> transport_backend" where
  "linux_migrate elapsed link_up node from_nic to_nic total_before remaining =
    (let up = link_up to_nic
     in \<lparr>mr_success = up, mr_from_nic = from_nic, mr_to_nic = to_nic,
         mr_migration_secs = elapsed,
         mr_throughput_retained_pct = (if up then retained_pct total_before remaining else 0),
         mr_rebalanced_weights = (if up then rebalance_bandwidth remaining else [])\<rparr>)"

subsection \<open>The layer\<close>

record transport_layer =
  tl_nodes :: "(string, node_nics) dict"
  tl_last_migration :: "migration_result option"

definition transport_init :: transport_layer where
  "transport_init = \<lparr>tl_nodes = [], tl_last_migration = None\<rparr>"

definition transport_tiers :: "blast_radius list" where
  "transport_tiers = [B0]"

definition transport_can_handle :: "telemetry_event \<Rightarrow> blast_radius \<Rightarrow> transport_layer \<Rightarrow> bool" where
  "transport_can_handle event tier lay =
    (if tier \<noteq> B0 then False
     else case dget (tl_nodes lay) (ev_node event) of
            None \<Rightarrow> False
          | Some entry \<Rightarrow> 2 \<le> length (healthy_nics entry))"

text \<open>The NIC the event blames: its own field, or the active NIC.\<close>

definition blamed_nic :: "telemetry_event \<Rightarrow> node_nics \<Rightarrow> string" where
  "blamed_nic event entry =
    (let failed_nic = str_or (ev_nic event) (nn_active entry)
     in if failed_nic \<notin> set (nn_nics entry) then nn_active entry else failed_nic)"

text \<open>
  \<open>recover\<close>. The entry of the node is updated in place: to FAILED when there is no backup,
  else to MIGRATING with the NIC marked failed before the backend runs, then to FAILED or
  to MIGRATED. Reading the bandwidth of a NIC that has none raises.
\<close>

definition transport_recover ::
  "transport_backend \<Rightarrow> telemetry_event \<Rightarrow> blast_radius \<Rightarrow> int \<Rightarrow> int option \<Rightarrow> transport_layer \<Rightarrow>
   (pyexc + recovery_result) \<times> transport_layer" where
  "transport_recover migrate event tier epoch min_valid_epoch lay =
    (case dget (tl_nodes lay) (ev_node event) of
       None \<Rightarrow> (Inr (rr_failure (MsgNoNics (ev_node event))), lay)
     | Some entry \<Rightarrow>
         (let failed_nic = blamed_nic event entry;
              candidates = filter (\<lambda>n. n \<noteq> failed_nic) (healthy_nics entry)
          in case candidates of
               [] \<Rightarrow>
                 (Inr (rr_failure (MsgNoBackupNic (ev_node event) failed_nic)),
                  lay\<lparr>tl_nodes := dset (ev_node event) (entry\<lparr>nn_state := FAILED\<rparr>) (tl_nodes lay)\<rparr>)
             | backup_nic # _ \<Rightarrow>
                 (let entry1 = entry\<lparr>nn_state := MIGRATING,
                                     nn_failed := insert failed_nic (nn_failed entry)\<rparr>;
                      total_before = sum_list (dvals (nn_bandwidth entry1));
                      healthy = healthy_nics entry1
                  in if \<exists>n \<in> set healthy. dget (nn_bandwidth entry1) n = None
                     then (Inl KeyErr, lay\<lparr>tl_nodes := dset (ev_node event) entry1 (tl_nodes lay)\<rparr>)
                     else
                       (let remaining = dict_comp (\<lambda>n. the (dget (nn_bandwidth entry1) n)) healthy;
                            result = migrate (ev_node event) failed_nic backup_nic total_before remaining
                        in if \<not> mr_success result
                           then (Inr (rr_failure (MsgMigrationFailed failed_nic backup_nic (ev_node event))),
                                 lay\<lparr>tl_nodes := dset (ev_node event) (entry1\<lparr>nn_state := FAILED\<rparr>) (tl_nodes lay),
                                    tl_last_migration := Some result\<rparr>)
                           else (Inr (rr_succeeded
                                   (MsgMigrated failed_nic backup_nic (ev_node event)
                                      (mr_throughput_retained_pct result))
                                   False (mr_migration_secs result)),
                                 lay\<lparr>tl_nodes := dset (ev_node event)
                                      (entry1\<lparr>nn_active := backup_nic, nn_state := MIGRATED\<rparr>) (tl_nodes lay),
                                    tl_last_migration := Some result\<rparr>)))))"

definition register_node_nics ::
  "string \<Rightarrow> string list \<Rightarrow> (string, real) dict \<Rightarrow> transport_layer \<Rightarrow> transport_layer" where
  "register_node_nics node nics bw lay = lay\<lparr>tl_nodes := dset node (mk_node_nics nics bw) (tl_nodes lay)\<rparr>"

definition node_state :: "string \<Rightarrow> transport_layer \<Rightarrow> nic_state option" where
  "node_state node lay = map_option nn_state (dget (tl_nodes lay) node)"

subsection \<open>The registry invariant\<close>

text \<open>
  The active NIC is one of the node's, failed NICs are the node's, every NIC has a
  capacity, and a connection that is stable or migrated runs on a healthy NIC.
\<close>

definition node_inv :: "node_nics \<Rightarrow> bool" where
  "node_inv e \<longleftrightarrow>
     (nn_nics e = [] \<or> nn_active e \<in> set (nn_nics e)) \<and>
     nn_failed e \<subseteq> set (nn_nics e) \<and>
     set (nn_nics e) \<subseteq> fst ` set (nn_bandwidth e) \<and>
     distinct (dkeys (nn_bandwidth e)) \<and>
     (nn_state e = STABLE \<or> nn_state e = MIGRATED \<longrightarrow> nn_nics e \<noteq> [] \<longrightarrow> nn_active e \<notin> nn_failed e)"

definition transport_inv :: "transport_layer \<Rightarrow> bool" where
  "transport_inv lay \<longleftrightarrow> (\<forall>node e. dget (tl_nodes lay) node = Some e \<longrightarrow> node_inv e)"

lemma set_default_bandwidths_keys:
  "fst ` set (set_default_bandwidths nics bw) = fst ` set bw \<union> set nics"
  unfolding set_default_bandwidths_def
  by (induction nics arbitrary: bw) (auto simp: map_of_eq_None_iff)

lemma set_default_bandwidths_distinct:
  "distinct (dkeys bw) \<Longrightarrow> distinct (dkeys (set_default_bandwidths nics bw))"
  unfolding set_default_bandwidths_def
  by (induction nics arbitrary: bw) (auto intro: distinct_dkeys_dset)

lemma node_inv_mk: "distinct (dkeys bw) \<Longrightarrow> node_inv (mk_node_nics nics bw)"
  by (auto simp: node_inv_def mk_node_nics_def set_default_bandwidths_keys
      set_default_bandwidths_distinct)

lemma transport_inv_init [simp]: "transport_inv transport_init"
  by (simp add: transport_inv_def transport_init_def)

lemma transport_inv_register:
  "transport_inv lay \<Longrightarrow> distinct (dkeys bw) \<Longrightarrow> transport_inv (register_node_nics node nics bw lay)"
  by (simp add: transport_inv_def register_node_nics_def node_inv_mk)

lemma set_healthy: "set (healthy_nics e) = set (nn_nics e) - nn_failed e"
  by (auto simp: healthy_nics_def)

lemma healthy_has_bandwidth:
  "node_inv e \<Longrightarrow> n \<in> set (healthy_nics e) \<Longrightarrow> dget (nn_bandwidth e) n \<noteq> None"
  by (auto simp: node_inv_def set_healthy map_of_eq_None_iff)

lemma blamed_in_nics: "node_inv e \<Longrightarrow> nn_nics e \<noteq> [] \<Longrightarrow> blamed_nic ev e \<in> set (nn_nics e)"
  by (auto simp: blamed_nic_def Let_def node_inv_def)

text \<open>What one recovery does to the entry of its node, by the outcome.\<close>

definition backups :: "telemetry_event \<Rightarrow> node_nics \<Rightarrow> string list" where
  "backups ev e = filter (\<lambda>n. n \<noteq> blamed_nic ev e) (healthy_nics e)"

lemma transport_recover_missing:
  "dget (tl_nodes lay) (ev_node ev) = None \<Longrightarrow>
   transport_recover mig ev t ep g lay = (Inr (rr_failure (MsgNoNics (ev_node ev))), lay)"
  by (simp add: transport_recover_def)

lemma transport_recover_no_backup:
  "dget (tl_nodes lay) (ev_node ev) = Some e \<Longrightarrow> backups ev e = [] \<Longrightarrow>
   transport_recover mig ev t ep g lay =
     (Inr (rr_failure (MsgNoBackupNic (ev_node ev) (blamed_nic ev e))),
      lay\<lparr>tl_nodes := dset (ev_node ev) (e\<lparr>nn_state := FAILED\<rparr>) (tl_nodes lay)\<rparr>)"
  by (simp add: transport_recover_def backups_def Let_def)

text \<open>The call of the backend that a recovery with a backup makes.\<close>

definition migration_call ::
  "transport_backend \<Rightarrow> telemetry_event \<Rightarrow> node_nics \<Rightarrow> migration_result" where
  "migration_call mig ev e =
    mig (ev_node ev) (blamed_nic ev e) (hd (backups ev e)) (sum_list (dvals (nn_bandwidth e)))
      (dict_comp (\<lambda>n. the (dget (nn_bandwidth e) n))
         (healthy_nics (e\<lparr>nn_failed := insert (blamed_nic ev e) (nn_failed e)\<rparr>)))"

lemma healthy_nics_update [simp]:
  "healthy_nics (e\<lparr>nn_state := st, nn_failed := f\<rparr>) = healthy_nics (e\<lparr>nn_failed := f\<rparr>)"
  by (simp add: healthy_nics_def)

lemma backups_healthy:
  "node_inv e \<Longrightarrow> backups ev e = n # ns \<Longrightarrow>
   n \<in> set (nn_nics e) \<and> n \<notin> nn_failed e \<and> n \<noteq> blamed_nic ev e"
proof -
  assume "backups ev e = n # ns"
  then have "n \<in> set (backups ev e)" by simp
  then show ?thesis by (auto simp: backups_def set_healthy)
qed

lemma transport_recover_backup:
  fixes mig :: transport_backend
  assumes "node_inv e" and "dget (tl_nodes lay) (ev_node ev) = Some e" and "backups ev e = n # ns"
  defines "e1 \<equiv> e\<lparr>nn_state := MIGRATING, nn_failed := insert (blamed_nic ev e) (nn_failed e)\<rparr>"
    and "res \<equiv> migration_call mig ev e"
  shows "transport_recover mig ev t ep g lay =
    (if mr_success res
     then (Inr (rr_succeeded (MsgMigrated (blamed_nic ev e) n (ev_node ev) (mr_throughput_retained_pct res))
                False (mr_migration_secs res)),
           lay\<lparr>tl_nodes := dset (ev_node ev) (e1\<lparr>nn_active := n, nn_state := MIGRATED\<rparr>) (tl_nodes lay),
              tl_last_migration := Some res\<rparr>)
     else (Inr (rr_failure (MsgMigrationFailed (blamed_nic ev e) n (ev_node ev))),
           lay\<lparr>tl_nodes := dset (ev_node ev) (e1\<lparr>nn_state := FAILED\<rparr>) (tl_nodes lay),
              tl_last_migration := Some res\<rparr>))"
proof -
  have "set (healthy_nics e1) \<subseteq> set (healthy_nics e)"
    by (auto simp: set_healthy e1_def)
  then have no_key_error: "\<not> (\<exists>m \<in> set (healthy_nics e1). dget (nn_bandwidth e1) m = None)"
    using healthy_has_bandwidth [OF assms(1)] by (auto simp: e1_def)
  have cands: "filter (\<lambda>m. m \<noteq> blamed_nic ev e) (healthy_nics e) = n # ns"
    using assms(3) by (simp add: backups_def)
  have h: "healthy_nics e1 = healthy_nics (e\<lparr>nn_failed := insert (blamed_nic ev e) (nn_failed e)\<rparr>)"
    by (simp add: e1_def)
  show ?thesis
    using no_key_error
    unfolding transport_recover_def assms(2) option.case Let_def cands list.case e1_def [symmetric]
    by (simp add: res_def migration_call_def assms(3) h e1_def)
qed

lemma node_inv_failed_state: "node_inv e \<Longrightarrow> node_inv (e\<lparr>nn_state := FAILED\<rparr>)"
  by (simp add: node_inv_def)

lemma node_inv_migrated:
  assumes "node_inv e" and "backups ev e = n # ns"
  shows "node_inv (e\<lparr>nn_failed := insert (blamed_nic ev e) (nn_failed e), nn_active := n,
      nn_state := MIGRATED\<rparr>)"
    and "node_inv (e\<lparr>nn_failed := insert (blamed_nic ev e) (nn_failed e), nn_state := FAILED\<rparr>)"
proof -
  have n: "n \<in> set (nn_nics e)" "n \<notin> nn_failed e" "n \<noteq> blamed_nic ev e"
    using backups_healthy [OF assms] by simp_all
  moreover from n(1) have "blamed_nic ev e \<in> set (nn_nics e)"
    by (intro blamed_in_nics [OF assms(1)]) auto
  ultimately show "node_inv (e\<lparr>nn_failed := insert (blamed_nic ev e) (nn_failed e), nn_active := n,
      nn_state := MIGRATED\<rparr>)"
    and "node_inv (e\<lparr>nn_failed := insert (blamed_nic ev e) (nn_failed e), nn_state := FAILED\<rparr>)"
    using assms(1) by (auto simp: node_inv_def)
qed

lemma transport_recover_inv:
  assumes "transport_inv lay"
  shows "transport_inv (snd (transport_recover mig ev t ep g lay))"
proof (cases "dget (tl_nodes lay) (ev_node ev)")
  case None
  with assms show ?thesis by (simp add: transport_recover_missing)
next
  case (Some e)
  with assms have e: "node_inv e" by (simp add: transport_inv_def)
  show ?thesis
  proof (cases "backups ev e")
    case Nil
    with assms Some e show ?thesis
      by (simp add: transport_recover_no_backup transport_inv_def node_inv_failed_state)
  next
    case (Cons n ns)
    with assms node_inv_migrated [OF e Cons] show ?thesis
      by (simp add: transport_recover_backup [OF e Some Cons] transport_inv_def)
  qed
qed

lemma transport_never_raises:
  assumes "transport_inv lay"
  shows "\<exists>r. fst (transport_recover mig ev t ep g lay) = Inr r"
proof (cases "dget (tl_nodes lay) (ev_node ev)")
  case None
  then show ?thesis by (simp add: transport_recover_missing)
next
  case (Some e)
  with assms have e: "node_inv e" by (simp add: transport_inv_def)
  show ?thesis
    by (cases "backups ev e")
       (simp_all add: transport_recover_no_backup [OF Some] transport_recover_backup [OF e Some])
qed

lemma transport_failure_blank:
  "fst (transport_recover mig ev t ep g lay) = Inr r \<Longrightarrow> \<not> rr_success r \<Longrightarrow>
   \<not> rr_degraded r \<and> rr_recovery_secs r = 0"
  unfolding transport_recover_def Let_def
  by (auto split: option.splits list.splits if_splits)

interpretation transport: recovery_contract
  transport_tiers transport_can_handle "transport_recover mig" transport_inv for mig
  by unfold_locales
     (auto simp: transport_tiers_def transport_can_handle_def transport_recover_inv
       dest: transport_failure_blank)

text \<open>
  A successful NIC migration leaves the node on a healthy NIC: in a registry that keeps
  its invariant, a recovery that succeeds made the node's entry MIGRATED with an active NIC
  that is one of its NICs, is not marked failed and is not the NIC blamed; the blamed NIC
  is marked failed, the healthy NICs are the former ones without it, in order, no other
  node's entry changes, and the invariant still holds.
\<close>

theorem migration_lands_on_healthy_nic:
  assumes "transport_inv lay" and "dget (tl_nodes lay) (ev_node ev) = Some e"
    and "transport_recover mig ev t ep g lay = (Inr r, lay')" and "rr_success r"
  shows "transport_inv lay' \<and>
    (\<exists>e'. dget (tl_nodes lay') (ev_node ev) = Some e' \<and> nn_state e' = MIGRATED \<and>
       nn_active e' \<in> set (healthy_nics e') \<and> nn_active e' \<noteq> blamed_nic ev e \<and>
       blamed_nic ev e \<in> nn_failed e' \<and>
       healthy_nics e' = filter (\<lambda>n. n \<noteq> blamed_nic ev e) (healthy_nics e)) \<and>
    (\<forall>node. node \<noteq> ev_node ev \<longrightarrow> dget (tl_nodes lay') node = dget (tl_nodes lay) node)"
proof -
  have e: "node_inv e" using assms(1,2) by (simp add: transport_inv_def)
  have inv': "transport_inv lay'"
    using transport_recover_inv [OF assms(1), of mig ev t ep g] assms(3) by simp
  show ?thesis
  proof (cases "backups ev e")
    case Nil
    with assms(2-4) show ?thesis by (auto simp: transport_recover_no_backup)
  next
    case (Cons n ns)
    let ?b = "blamed_nic ev e"
    let ?e' = "e\<lparr>nn_failed := insert ?b (nn_failed e), nn_active := n, nn_state := MIGRATED\<rparr>"
    have n: "n \<in> set (nn_nics e)" "n \<notin> nn_failed e" "n \<noteq> ?b"
      using backups_healthy [OF e Cons] by simp_all
    have lay': "tl_nodes lay' = dset (ev_node ev) ?e' (tl_nodes lay)"
      using assms(3,4) by (auto simp: transport_recover_backup [OF e assms(2) Cons] split: if_splits)
    have "healthy_nics ?e' = filter (\<lambda>m. m \<noteq> ?b) (healthy_nics e)"
      by (auto simp: healthy_nics_def intro: filter_cong)
    with inv' n lay' show ?thesis by (auto simp: set_healthy)
  qed
qed

definition two_nic_event :: telemetry_event where
  "two_nic_event =
    \<lparr>ev_rank = 0, ev_node = ''node0'', ev_signal = NIC_PORT_FLAP, ev_payload = [], ev_epoch = 0,
     ev_timestamp = 0, ev_nic = None, ev_rack = None, ev_source = ''unknown''\<rparr>"

definition two_nic_layer :: transport_layer where
  "two_nic_layer = register_node_nics ''node0'' [''nic0'', ''nic1''] [] transport_init"

lemmas two_nic_simps = two_nic_event_def two_nic_layer_def register_node_nics_def transport_init_def
  mk_node_nics_def set_default_bandwidths_def default_nic_bandwidth_gbps_def

theorem migration_lands_on_healthy_nic_witness:
  "\<exists>r lay'. transport_recover (simulated_migrate 1) two_nic_event B0 1 None two_nic_layer = (Inr r, lay') \<and>
     rr_success r \<and> transport_inv lay' \<and>
     (\<exists>e'. dget (tl_nodes lay') ''node0'' = Some e' \<and> nn_active e' \<in> set (healthy_nics e'))"
proof -
  let ?e = "mk_node_nics [''nic0'', ''nic1''] []"
  have inv: "transport_inv two_nic_layer"
    by (simp add: two_nic_layer_def transport_inv_register)
  have get: "dget (tl_nodes two_nic_layer) (ev_node two_nic_event) = Some ?e"
    by (simp add: two_nic_layer_def two_nic_event_def register_node_nics_def)
  have bk: "backups two_nic_event ?e = [''nic1'']"
    by (simp add: backups_def healthy_nics_def blamed_nic_def Let_def two_nic_event_def mk_node_nics_def)
  have e: "node_inv ?e" by (rule node_inv_mk) simp
  obtain r lay' where run: "transport_recover (simulated_migrate 1) two_nic_event B0 1 None two_nic_layer =
      (Inr r, lay')" and ok: "rr_success r"
    by (simp add: transport_recover_backup [OF e get bk] migration_call_def simulated_migrate_def)
  from migration_lands_on_healthy_nic [OF inv get run ok] run ok show ?thesis
    by (auto simp: two_nic_event_def)
qed

subsection \<open>Bandwidth\<close>

lemma rebalance_keys [simp]: "dkeys (rebalance_bandwidth d) = dkeys d"
  by (auto simp: rebalance_bandwidth_def Let_def)

lemma rebalance_sum:
  "0 < sum_list (dvals d) \<Longrightarrow> sum_list (dvals (rebalance_bandwidth d)) = 1"
proof -
  assume pos: "0 < sum_list (dvals d)"
  then have "dvals (rebalance_bandwidth d) = map (\<lambda>kv. snd kv / sum_list (dvals d)) d"
    by (simp add: rebalance_bandwidth_def Let_def split_beta)
  then have "sum_list (dvals (rebalance_bandwidth d)) = sum_list (map snd d) / sum_list (dvals d)"
    by (simp only: sum_list_div_right)
  with pos show ?thesis by simp
qed

lemma remaining_le_total:
  assumes "node_inv e" and "\<And>n v. (n, v) \<in> set (nn_bandwidth e) \<Longrightarrow> 0 \<le> v"
    and "set ks \<subseteq> set (nn_nics e)"
  shows "0 \<le> sum_list (dvals (dict_comp (\<lambda>n. the (dget (nn_bandwidth e) n)) ks)) \<and>
    sum_list (dvals (dict_comp (\<lambda>n. the (dget (nn_bandwidth e) n)) ks)) \<le> sum_list (dvals (nn_bandwidth e))"
proof -
  let ?bw = "nn_bandwidth e" and ?f = "\<lambda>n. the (dget (nn_bandwidth e) n)"
  have dist: "distinct (dkeys ?bw)" using assms(1) by (simp add: node_inv_def)
  have sub: "set ks \<subseteq> set (dkeys ?bw)" using assms(1,3) by (auto simp: node_inv_def)
  have nonneg: "0 \<le> ?f n" if "n \<in> set (dkeys ?bw)" for n
  proof -
    from that obtain v where v: "(n, v) \<in> set ?bw" by auto
    then have "dget ?bw n = Some v" by (rule dget_distinct [OF dist])
    with assms(2) [OF v] show ?thesis by simp
  qed
  have "0 \<le> (\<Sum>n \<in> set ks. ?f n)" by (rule sum_nonneg) (rule nonneg, use sub in blast)
  moreover have "(\<Sum>n \<in> set ks. ?f n) \<le> (\<Sum>n \<in> set (dkeys ?bw). ?f n)"
    by (rule sum_mono2 [OF _ sub]) (simp, rule nonneg, blast)
  ultimately show ?thesis
    by (simp only: dvals_dict_comp_sum sum_dvals_distinct [OF dist])
qed

text \<open>
  C21. The bandwidth figures of a migration: for a node entry that keeps its invariant and
  has no negative capacity, the simulated backend reports a retained throughput between
  0 and 100 per cent; the rebalanced weights name the NICs that stay healthy, each weight
  is the NIC's share of the remaining capacity, and they add up to 1 when any capacity
  remains. It is the result that a recovery of a node with a backup NIC records.
\<close>

theorem migration_bandwidth_bounds:
  assumes "node_inv e" and "\<And>n v. (n, v) \<in> set (nn_bandwidth e) \<Longrightarrow> 0 \<le> v"
    and "res = migration_call (simulated_migrate w) ev e"
    and "healthy = healthy_nics (e\<lparr>nn_failed := insert (blamed_nic ev e) (nn_failed e)\<rparr>)"
    and "cap_total = (\<Sum>n \<in> set healthy. the (dget (nn_bandwidth e) n))"
  shows "0 \<le> mr_throughput_retained_pct res \<and> mr_throughput_retained_pct res \<le> 100 \<and>
    set (dkeys (mr_rebalanced_weights res)) = set healthy \<and>
    (0 < cap_total \<longrightarrow> sum_list (dvals (mr_rebalanced_weights res)) = 1 \<and>
       (\<forall>(n, w) \<in> set (mr_rebalanced_weights res). w = the (dget (nn_bandwidth e) n) / cap_total)) \<and>
    (\<forall>lay. dget (tl_nodes lay) (ev_node ev) = Some e \<longrightarrow> backups ev e \<noteq> [] \<longrightarrow>
       tl_last_migration (snd (transport_recover (simulated_migrate w) ev t ep g lay)) = Some res)"
proof -
  let ?rem = "dict_comp (\<lambda>n. the (dget (nn_bandwidth e) n)) healthy"
  have sub: "set healthy \<subseteq> set (nn_nics e)" by (auto simp: assms(4) set_healthy)
  have b: "0 \<le> sum_list (dvals ?rem) \<and> sum_list (dvals ?rem) \<le> sum_list (dvals (nn_bandwidth e))"
    by (rule remaining_le_total [OF assms(1) _ sub]) (rule assms(2))
  have tot: "sum_list (dvals ?rem) = cap_total" by (simp add: assms(5) dvals_dict_comp_sum)
  have pct: "mr_throughput_retained_pct res = retained_pct (sum_list (dvals (nn_bandwidth e))) ?rem"
    and wts: "mr_rebalanced_weights res = rebalance_bandwidth ?rem"
    by (simp_all add: assms(3,4) migration_call_def simulated_migrate_def)
  have "0 \<le> mr_throughput_retained_pct res \<and> mr_throughput_retained_pct res \<le> 100"
    using b by (auto simp: pct retained_pct_def Let_def divide_le_eq)
  moreover have "set (dkeys (mr_rebalanced_weights res)) = set healthy"
    by (simp only: wts rebalance_keys set_dkeys_dict_comp)
  moreover have "w = the (dget (nn_bandwidth e) n) / cap_total"
    if "0 < cap_total" and m: "(n, w) \<in> set (mr_rebalanced_weights res)" for n w
  proof -
    from that obtain c where c: "(n, c) \<in> set ?rem" "w = c / cap_total"
      by (auto simp: wts rebalance_bandwidth_def Let_def tot split: if_splits)
    then have "dget ?rem n = Some c" by (intro dget_distinct) simp_all
    with c show ?thesis by (auto split: if_splits)
  qed
  moreover have "tl_last_migration (snd (transport_recover (simulated_migrate w) ev t ep g lay)) = Some res"
    if "dget (tl_nodes lay) (ev_node ev) = Some e" "backups ev e \<noteq> []" for lay
  proof -
    from that(2) obtain n ns where "backups ev e = n # ns" by (cases "backups ev e") auto
    from transport_recover_backup [OF assms(1) that(1) this] show ?thesis by (simp add: assms(3))
  qed
  ultimately show ?thesis using rebalance_sum [of ?rem] by (auto simp: wts tot)
qed

theorem migration_bandwidth_bounds_witness:
  "let res = migration_call (simulated_migrate 1) two_nic_event (mk_node_nics [''nic0'', ''nic1''] [(''nic0'', 300)])
   in mr_throughput_retained_pct res \<le> 100 \<and> sum_list (dvals (mr_rebalanced_weights res)) = 1"
proof -
  let ?e = "mk_node_nics [''nic0'', ''nic1''] [(''nic0'', 300)]"
  have e: "node_inv ?e" by (rule node_inv_mk) simp
  have pos: "\<And>n v. (n, v) \<in> set (nn_bandwidth ?e) \<Longrightarrow> 0 \<le> v"
    by (auto simp: mk_node_nics_def set_default_bandwidths_def default_nic_bandwidth_gbps_def)
  have h: "healthy_nics (?e\<lparr>nn_failed := insert (blamed_nic two_nic_event ?e) (nn_failed ?e)\<rparr>) = [''nic1'']"
    by (simp add: healthy_nics_def blamed_nic_def Let_def two_nic_event_def mk_node_nics_def)
  have "0 < (\<Sum>n \<in> set [''nic1'']. the (dget (nn_bandwidth ?e) n))"
    by (simp add: mk_node_nics_def set_default_bandwidths_def default_nic_bandwidth_gbps_def)
  with migration_bandwidth_bounds [OF e pos refl h [symmetric] refl, where w = 1] show ?thesis
    by (simp add: Let_def)
qed

subsection \<open>How many link faults a node absorbs\<close>

text \<open>
  A run of B0 faults as the engine handles them, the pre-flight check and then the recovery: what
  became of each fault, and the layer it leaves.
\<close>

datatype b0_outcome = Refused | Recovered | Gave_Failure | Raised_Error

fun b0_run ::
  "transport_backend \<Rightarrow> telemetry_event list \<Rightarrow> transport_layer \<Rightarrow> b0_outcome list \<times> transport_layer" where
  "b0_run mig [] lay = ([], lay)"
| "b0_run mig (ev # evs) lay =
    (case (if transport_can_handle ev B0 lay
           then case transport_recover mig ev B0 0 None lay of
                  (Inl x, lay') \<Rightarrow> (Raised_Error, lay')
                | (Inr r, lay') \<Rightarrow> (if rr_success r then Recovered else Gave_Failure, lay')
           else (Refused, lay)) of
       (out, lay1) \<Rightarrow> (case b0_run mig evs lay1 of (outs, lay2) \<Rightarrow> (out # outs, lay2)))"

lemma length_remove_one:
  "distinct xs \<Longrightarrow> a \<in> set xs \<Longrightarrow> length (filter (\<lambda>x. x \<noteq> a) xs) = length xs - 1"
proof (induction xs)
  case Nil
  then show ?case by simp
next
  case (Cons x xs)
  show ?case
  proof (cases "x = a")
    case True
    with Cons.prems have "filter (\<lambda>x. x \<noteq> a) xs = xs" by (auto simp: filter_id_conv)
    with True show ?thesis by simp
  next
    case False
    with Cons have "xs \<noteq> []" "length (filter (\<lambda>x. x \<noteq> a) xs) = length xs - 1" by auto
    with False show ?thesis by (cases xs) auto
  qed
qed

lemma b0_run_from:
  assumes "node_inv e" and "dget (tl_nodes lay) node = Some e" and "distinct (nn_nics e)"
    and "nn_active e \<in> set (healthy_nics e)"
    and "\<forall>ev \<in> set evs. ev_node ev = node \<and> ev_nic ev = None"
  shows "fst (b0_run (simulated_migrate w) evs lay) =
      replicate (min (length evs) (length (healthy_nics e) - 1)) Recovered @
      replicate (length evs - (length (healthy_nics e) - 1)) Refused \<and>
    (\<exists>e'. dget (tl_nodes (snd (b0_run (simulated_migrate w) evs lay))) node = Some e' \<and>
      length (healthy_nics e') = length (healthy_nics e) - min (length evs) (length (healthy_nics e) - 1) \<and>
      nn_state e' = (if evs = [] \<or> length (healthy_nics e) < 2 then nn_state e else MIGRATED) \<and>
      nn_active e' \<in> set (healthy_nics e'))"
  using assms
proof (induction evs arbitrary: e lay)
  case Nil
  then show ?case by simp
next
  case (Cons ev evs)
  have node: "ev_node ev = node" "ev_nic ev = None" using Cons.prems(5) by simp_all
  have get: "dget (tl_nodes lay) (ev_node ev) = Some e" using Cons.prems(2) node by simp
  have blamed: "blamed_nic ev e = nn_active e" using node by (simp add: blamed_nic_def Let_def)
  have dist: "distinct (healthy_nics e)" using Cons.prems(3) by (simp add: healthy_nics_def)
  have fewer: "length (backups ev e) = length (healthy_nics e) - 1"
    using length_remove_one [OF dist Cons.prems(4)] by (simp add: backups_def blamed)
  show ?case
  proof (cases "2 \<le> length (healthy_nics e)")
    case False
    then have "\<not> transport_can_handle ev B0 lay" using get by (simp add: transport_can_handle_def)
    moreover have "length (healthy_nics e) - 1 = 0" using False by simp
    ultimately show ?thesis
      using Cons.IH [OF Cons.prems(1-4)] Cons.prems(5) False by (auto split: prod.splits)
  next
    case True
    with fewer obtain n ns where bk: "backups ev e = n # ns" by (cases "backups ev e") auto
    let ?e' = "e\<lparr>nn_failed := insert (nn_active e) (nn_failed e), nn_active := n, nn_state := MIGRATED\<rparr>"
    obtain r lay' where run: "transport_recover (simulated_migrate w) ev B0 0 None lay = (Inr r, lay')"
      and ok: "rr_success r" and lay': "tl_nodes lay' = dset node ?e' (tl_nodes lay)"
      by (simp add: transport_recover_backup [OF Cons.prems(1) get bk] migration_call_def
          simulated_migrate_def node blamed)
    have h': "healthy_nics ?e' = backups ev e"
      by (auto simp: healthy_nics_def backups_def blamed intro: filter_cong)
    have inv': "node_inv ?e'" using node_inv_migrated(1) [OF Cons.prems(1) bk] by (simp add: blamed)
    have get': "dget (tl_nodes lay') node = Some ?e'" by (simp add: lay')
    have act': "nn_active ?e' \<in> set (healthy_nics ?e')" by (simp add: h' bk)
    have "distinct (nn_nics ?e')" "\<forall>ev \<in> set evs. ev_node ev = node \<and> ev_nic ev = None"
      using Cons.prems(3,5) by simp_all
    note ih = Cons.IH [OF inv' get' this(1) act' this(2), unfolded h' fewer]
    have "transport_can_handle ev B0 lay" using get True by (simp add: transport_can_handle_def)
    moreover obtain k where k: "length (healthy_nics e) = Suc (Suc k)"
      using True by (metis add_2_eq_Suc le_Suc_ex)
    ultimately show ?thesis
      using run ok ih by (auto simp: k split: prod.splits)
  qed
qed

text \<open>
  C20. How many link faults a node absorbs: on a node registered with distinct NICs, a run of B0
  faults that name no NIC is recovered, on the simulated backend, exactly for as many faults as the
  node has spare NICs. Every later one is refused by the pre-flight check, so that no recovery is
  attempted for it, none fails or raises, and it leaves the connection as it is: on a healthy NIC,
  of which as many are left as there were NICs less the faults recovered. Nothing ever returns a
  failed NIC to service.
\<close>

theorem b0_faults_absorbed_exactly:
  assumes "distinct nics" and "nics \<noteq> []" and "distinct (dkeys bw)"
    and "\<forall>ev \<in> set evs. ev_node ev = node \<and> ev_nic ev = None"
    and "b0_run (simulated_migrate w) evs (register_node_nics node nics bw lay) = (outs, lay')"
  shows "outs = replicate (min (length evs) (length nics - 1)) Recovered @
      replicate (length evs - (length nics - 1)) Refused \<and>
    (\<exists>e. dget (tl_nodes lay') node = Some e \<and>
      length (healthy_nics e) = length nics - min (length evs) (length nics - 1) \<and>
      nn_state e = (if evs = [] \<or> length nics = 1 then STABLE else MIGRATED) \<and> nn_active e \<in> set (healthy_nics e))"
proof -
  let ?e = "mk_node_nics nics bw"
  have h: "healthy_nics ?e = nics" and st: "nn_state ?e = STABLE" by (simp_all add: healthy_nics_def mk_node_nics_def)
  have act: "nn_active ?e \<in> set (healthy_nics ?e)" and dist: "distinct (nn_nics ?e)"
    using assms(1,2) by (simp_all add: mk_node_nics_def healthy_nics_def)
  have get: "dget (tl_nodes (register_node_nics node nics bw lay)) node = Some ?e" by (simp add: register_node_nics_def)
  have short: "length nics < 2 \<longleftrightarrow> length nics = 1" using assms(2) by (cases nics) auto
  have ends: "fst (b0_run (simulated_migrate w) evs (register_node_nics node nics bw lay)) = outs"
    "snd (b0_run (simulated_migrate w) evs (register_node_nics node nics bw lay)) = lay'" by (simp_all add: assms(5))
  show ?thesis using b0_run_from [OF node_inv_mk [OF assms(3)] get dist act assms(4), of w] unfolding h st short ends .
qed

theorem b0_faults_absorbed_exactly_witness:
  "fst (b0_run (simulated_migrate 1) [two_nic_event, two_nic_event, two_nic_event] two_nic_layer) =
    [Recovered, Refused, Refused]"
proof -
  have "distinct [''nic0'', ''nic1'']" "[''nic0'', ''nic1''] \<noteq> []" "distinct (dkeys ([] :: (string, real) dict))"
    "\<forall>ev \<in> set [two_nic_event, two_nic_event, two_nic_event]. ev_node ev = ''node0'' \<and> ev_nic ev = None"
    by (simp_all add: two_nic_event_def)
  from b0_faults_absorbed_exactly [OF this prod.collapse [symmetric], of 1 transport_init] show ?thesis
    by (simp add: two_nic_layer_def numeral_2_eq_2)
qed

text \<open>
  Recovery is not idempotent: two recoveries for one event that names no NIC, as a
  retry would issue, take two NICs of a node with three out of service, where one recovery
  takes one: the second call blames the backup the first one migrated to.
\<close>

theorem transport_recover_not_idempotent:
  "let lay0 = register_node_nics ''node0'' [''nic0'', ''nic1'', ''nic2''] [] transport_init;
       lay1 = snd (transport_recover (simulated_migrate w) two_nic_event B0 1 None lay0);
       lay2 = snd (transport_recover (simulated_migrate w) two_nic_event B0 1 None lay1)
   in map_option nn_failed (dget (tl_nodes lay1) ''node0'') = Some {''nic0''} \<and>
      map_option nn_failed (dget (tl_nodes lay2) ''node0'') = Some {''nic0'', ''nic1''}"
  by (simp add: two_nic_simps transport_recover_def Let_def blamed_nic_def healthy_nics_def
      simulated_migrate_def insert_commute)

end
