(* ===== verification/Compute.thy ===== *)
theory Compute
  imports Layer_Base
begin

text \<open>
  The compute layer of \<open>aegis/layers/compute.py\<close> (tier B1): the neighbour topology, the
  counters of consecutive fallbacks and the layer, over an absorption backend that is an
  argument; and the bookkeeping of the default backend (rank clamp, rows recomputed
  exactly, relative error, device choice). What torch computes is an argument: the matrix
  type \<open>'w\<close>, the row type \<open>'r\<close> with one row's product and its \<open>relu\<close>, the
  truncated SVD, and the random permutation. A matrix product acts on each row of its left
  operand.
\<close>

definition max_consecutive_fallbacks :: int where
  "max_consecutive_fallbacks = 10"

definition select_device :: "bool \<Rightarrow> bool \<Rightarrow> string" where
  "select_device cuda_available mps_available =
    (if cuda_available then ''cuda'' else if mps_available then ''mps'' else ''cpu'')"

record absorption_result =
  ab_success :: bool
  ab_elapsed_secs :: real
  ab_low_rank_relative_error :: real
  ab_skip_connection_applied :: bool
  ab_recomputed_fraction :: real
  ab_device :: string

type_synonym compute_backend = "string \<Rightarrow> string \<Rightarrow> absorption_result"

subsection \<open>The default backend\<close>

text \<open>Python's \<open>round\<close>: to the nearest integer, ties to the even one.\<close>

definition py_round :: "real \<Rightarrow> int" where
  "py_round x =
    (let f = \<lfloor>x\<rfloor>; d = x - of_int f
     in if d < 1 / 2 then f else if 1 / 2 < d then f + 1 else if even f then f else f + 1)"

definition clamp_rank :: "int \<Rightarrow> int \<times> int \<Rightarrow> int" where
  "clamp_rank rank shape = max 1 (min rank (min (fst shape) (snd shape)))"

text \<open>
  The operations of torch on matrices that \<open>low_rank_approximate\<close> calls: the shape,
  \<open>svd_lowrank\<close> with \<open>u @ diag(s) @ v.T\<close>, the difference and the Frobenius norm.
\<close>

record 'w torch_ops =
  to_shape :: "'w \<Rightarrow> int \<times> int"
  to_svd_recon :: "'w \<Rightarrow> int \<Rightarrow> 'w"
  to_minus :: "'w \<Rightarrow> 'w \<Rightarrow> 'w"
  to_norm :: "'w \<Rightarrow> real"

definition low_rank_approximate :: "'w torch_ops \<Rightarrow> 'w \<Rightarrow> int \<Rightarrow> 'w \<times> real" where
  "low_rank_approximate ops grad rank =
    (let approx = to_svd_recon ops grad (clamp_rank rank (to_shape ops grad));
         denom = to_norm ops grad;
         rel_error = (if denom > 0 then to_norm ops (to_minus ops grad approx) / denom else 0)
     in (approx, rel_error))"

definition skip_connection_gradient :: "'w \<Rightarrow> 'w" where
  "skip_connection_gradient grad_output = grad_output"

text \<open>\<open>out[idx] = rows\<close>.\<close>

definition set_rows :: "nat list \<Rightarrow> 'r list \<Rightarrow> 'r list \<Rightarrow> 'r list" where
  "set_rows idx rows out = fold (\<lambda>(i, r) o'. o'[i := r]) (zip idx rows) out"

definition exact_rows :: "nat \<Rightarrow> real \<Rightarrow> nat" where
  "exact_rows n keep_fraction =
    (let keep = max 0 (min 1 keep_fraction)
     in if 0 < n then nat (max 1 (py_round (real n * keep))) else 0)"

text \<open>
  \<open>selective_recompute_ffn\<close>; \<open>perm\<close> is the result of \<open>torch.randperm\<close>, \<open>blank\<close> the
  contents \<open>empty_like\<close> gives a row.
\<close>

definition selective_recompute_ffn ::
  "'w torch_ops \<Rightarrow> ('r \<Rightarrow> 'w \<Rightarrow> 'r) \<Rightarrow> ('r \<Rightarrow> 'r) \<Rightarrow> nat list \<Rightarrow> 'r \<Rightarrow>
   'r list \<Rightarrow> 'w \<Rightarrow> 'w \<Rightarrow> real \<Rightarrow> 'r list \<times> real" where
  "selective_recompute_ffn ops rowmul relu perm blank x w1 w2 keep_fraction =
    (let n = length x;
         n_exact = exact_rows n keep_fraction;
         out = replicate n blank
     in if n = 0 then (out, 0)
        else
          (let exact_idx = take n_exact perm;
               approx_idx = drop n_exact perm;
               ffn = (\<lambda>v1 v2 r. rowmul (relu (rowmul r v1)) v2);
               out1 = (if exact_idx \<noteq> []
                       then set_rows exact_idx (map (\<lambda>i. ffn w1 w2 (x ! i)) exact_idx) out else out);
               quarter = (\<lambda>w. max 1 (min (fst (to_shape ops w)) (snd (to_shape ops w)) div 4));
               w1_lr = fst (low_rank_approximate ops w1 (quarter w1));
               w2_lr = fst (low_rank_approximate ops w2 (quarter w2));
               out2 = (if approx_idx \<noteq> []
                       then set_rows approx_idx (map (\<lambda>i. ffn w1_lr w2_lr (x ! i)) approx_idx) out1
                       else out1)
           in (out2, real n_exact / real n)))"

text \<open>
  \<open>TorchMeCeFOBackend\<close>: its settings; and what one call of \<open>absorb\<close> meets, the four random
  tensors (\<open>x\<close> by rows), the permutation and the time the clock shows, queues drained.
\<close>

record torch_backend =
  tb_dim :: int
  tb_low_rank_fraction :: real
  tb_keep_fraction :: real
  tb_device :: string

definition torch_backend_init :: "bool \<Rightarrow> bool \<Rightarrow> torch_backend" where
  "torch_backend_init cuda mps =
    \<lparr>tb_dim = 256, tb_low_rank_fraction = 1 / 4, tb_keep_fraction = 3 / 10, tb_device = select_device cuda mps\<rparr>"

record ('w, 'r) torch_draws =
  td_grad :: 'w
  td_x :: "'r list"
  td_w1 :: 'w
  td_w2 :: 'w
  td_perm :: "nat list"
  td_blank :: 'r
  td_elapsed :: real

text \<open>Python's \<open>int\<close> of a float truncates toward zero.\<close>

definition py_trunc :: "real \<Rightarrow> int" where
  "py_trunc x = (if x < 0 then - \<lfloor>- x\<rfloor> else \<lfloor>x\<rfloor>)"

definition torch_absorb ::
  "'w torch_ops \<Rightarrow> ('r \<Rightarrow> 'w \<Rightarrow> 'r) \<Rightarrow> ('r \<Rightarrow> 'r) \<Rightarrow> torch_backend \<Rightarrow> (string \<Rightarrow> string \<Rightarrow> ('w, 'r) torch_draws) \<Rightarrow>
   compute_backend" where
  "torch_absorb ops rowmul relu be draws dead_node neighbor =
    (let t = draws dead_node neighbor;
         grad_after_skip = skip_connection_gradient (td_grad t);
         rank = max 1 (py_trunc (of_int (tb_dim be) * tb_low_rank_fraction be));
         rel_error = snd (low_rank_approximate ops grad_after_skip rank);
         recomputed_fraction =
           snd (selective_recompute_ffn ops rowmul relu (td_perm t) (td_blank t) (td_x t) (td_w1 t) (td_w2 t)
             (tb_keep_fraction be))
     in \<lparr>ab_success = True, ab_elapsed_secs = td_elapsed t, ab_low_rank_relative_error = rel_error,
         ab_skip_connection_applied = True, ab_recomputed_fraction = recomputed_fraction, ab_device = tb_device be\<rparr>)"

subsection \<open>The layer\<close>

record compute_layer =
  cl_topology :: "(string, string) dict"
  cl_fallbacks :: "(string, int) dict"
  cl_last_absorption :: "absorption_result option"
  cl_warned :: "(string \<times> int) list"

definition compute_init :: compute_layer where
  "compute_init = \<lparr>cl_topology = [], cl_fallbacks = [], cl_last_absorption = None, cl_warned = []\<rparr>"

definition compute_tiers :: "blast_radius list" where
  "compute_tiers = [B1]"

definition compute_can_handle :: "telemetry_event \<Rightarrow> blast_radius \<Rightarrow> compute_layer \<Rightarrow> bool" where
  "compute_can_handle event tier lay =
    (if tier \<noteq> B1 then False else ev_node event \<in> set (dkeys (cl_topology lay)))"

text \<open>
  \<open>recover\<close>. An empty neighbour name counts as none. The counter is raised before the
  backend runs, so a failed absorption counts too. The warnings are logged after a successful
  absorption only; \<open>cl_warned\<close> is the log of them, the node and the count of each.
\<close>

definition compute_recover ::
  "compute_backend \<Rightarrow> telemetry_event \<Rightarrow> blast_radius \<Rightarrow> int \<Rightarrow> int option \<Rightarrow> compute_layer \<Rightarrow>
   (pyexc + recovery_result) \<times> compute_layer" where
  "compute_recover absorb event tier epoch min_valid_epoch lay =
    (let neighbor = str_or (dget (cl_topology lay) (ev_node event)) []
     in if neighbor = [] then (Inr (rr_failure (MsgNoNeighbor (ev_node event))), lay)
        else
          (let count = dget_or (cl_fallbacks lay) (ev_node event) 0 + 1;
               result = absorb (ev_node event) neighbor;
               lay' = lay\<lparr>cl_fallbacks := dset (ev_node event) count (cl_fallbacks lay),
                          cl_last_absorption := Some result\<rparr>
           in if \<not> ab_success result
              then (Inr (rr_failure (MsgAbsorbFailed neighbor (ev_node event))), lay')
              else (Inr (rr_succeeded
                      (MsgAbsorbed neighbor (ev_node event) (nat count) (ab_low_rank_relative_error result))
                      True (ab_elapsed_secs result)),
                    if count \<ge> max_consecutive_fallbacks
                    then lay'\<lparr>cl_warned := cl_warned lay' @ [(ev_node event, count)]\<rparr> else lay')))"

definition register_neighbor :: "string \<Rightarrow> string \<Rightarrow> compute_layer \<Rightarrow> compute_layer" where
  "register_neighbor node neighbor lay = lay\<lparr>cl_topology := dset node neighbor (cl_topology lay)\<rparr>"

definition exit_fallback :: "string \<Rightarrow> compute_layer \<Rightarrow> compute_layer" where
  "exit_fallback node lay = lay\<lparr>cl_fallbacks := AList.delete node (cl_fallbacks lay)\<rparr>"

subsection \<open>What a recovery does\<close>

definition compute_inv :: "compute_layer \<Rightarrow> bool" where
  "compute_inv lay \<longleftrightarrow> (\<forall>node c. dget (cl_fallbacks lay) node = Some c \<longrightarrow> 1 \<le> c)"

lemma compute_inv_init [simp]: "compute_inv compute_init"
  by (simp add: compute_inv_def compute_init_def)

lemma compute_inv_count: "compute_inv lay \<Longrightarrow> 0 \<le> dget_or (cl_fallbacks lay) node 0"
  by (auto simp: compute_inv_def dget_or_def split: option.splits) (meson order_trans zero_le_one)

lemma compute_recover_inv:
  assumes "compute_inv lay"
  shows "compute_inv (snd (compute_recover absorb ev t ep g lay))"
proof -
  have "0 \<le> dget_or (cl_fallbacks lay) (ev_node ev) 0" by (rule compute_inv_count [OF assms])
  with assms show ?thesis by (simp add: compute_recover_def Let_def compute_inv_def)
qed

lemma compute_failure_blank:
  "fst (compute_recover absorb ev t ep g lay) = Inr r \<Longrightarrow> \<not> rr_success r \<Longrightarrow>
   \<not> rr_degraded r \<and> rr_recovery_secs r = 0"
  unfolding compute_recover_def Let_def by (auto split: if_splits)

lemma dget_delete [simp, dict_simps]:
  "dget (AList.delete k d) k' = (if k' = k then None else dget d k')"
  by (simp add: delete_conv')

lemma compute_inv_exit: "compute_inv lay \<Longrightarrow> compute_inv (exit_fallback node lay)"
  by (simp add: compute_inv_def exit_fallback_def)

interpretation compute: recovery_contract
  compute_tiers compute_can_handle "compute_recover absorb" compute_inv for absorb
  by unfold_locales
     (auto simp: compute_tiers_def compute_can_handle_def compute_recover_inv
       dest: compute_failure_blank)

text \<open>
  Every absorption is flagged: a compute recovery never raises, succeeds exactly when
  the node has a neighbour that is not the empty name and the backend reports success, is
  degraded exactly when it succeeds, and changes no counter but the node's, which rises by
  one whenever the backend was called, even if the absorption failed.
\<close>

theorem compute_success_is_degraded:
  "\<exists>r lay'. compute_recover absorb ev t ep g lay = (Inr r, lay') \<and>
     (let nb = str_or (dget (cl_topology lay) (ev_node ev)) []
      in (rr_success r = (nb \<noteq> [] \<and> ab_success (absorb (ev_node ev) nb))) \<and>
         rr_degraded r = rr_success r \<and>
         cl_topology lay' = cl_topology lay \<and>
         (\<forall>node. dget_or (cl_fallbacks lay') node 0 =
            dget_or (cl_fallbacks lay) node 0 + (if node = ev_node ev \<and> nb \<noteq> [] then 1 else 0)))"
  by (simp add: compute_recover_def Let_def)

subsection \<open>The bound on consecutive fallbacks\<close>

text \<open>Each recovery with what the backend does in it.\<close>

datatype compute_op = CRecover compute_backend telemetry_event | CExit string | CRegister string string

fun compute_step :: "compute_op \<Rightarrow> compute_layer \<Rightarrow> compute_layer" where
  "compute_step (CRecover absorb ev) lay = snd (compute_recover absorb ev B1 0 None lay)"
| "compute_step (CExit node) lay = exit_fallback node lay"
| "compute_step (CRegister node nb) lay = register_neighbor node nb lay"

definition compute_run :: "compute_op list \<Rightarrow> compute_layer \<Rightarrow> compute_layer" where
  "compute_run ops lay = fold compute_step ops lay"

fun is_recovery_of :: "string \<Rightarrow> compute_op \<Rightarrow> bool" where
  "is_recovery_of node (CRecover absorb ev) = (ev_node ev = node)"
| "is_recovery_of node (CExit n) = False"
| "is_recovery_of node (CRegister n nb) = False"

fun absorbs :: "string \<Rightarrow> string \<Rightarrow> compute_op \<Rightarrow> bool" where
  "absorbs node nb (CRecover absorb ev) = (ev_node ev = node \<and> ab_success (absorb node nb))"
| "absorbs node nb (CExit n) = False"
| "absorbs node nb (CRegister n m) = False"

fun leaves_fallback_of :: "string \<Rightarrow> compute_op \<Rightarrow> bool" where
  "leaves_fallback_of node (CRecover absorb ev) = True"
| "leaves_fallback_of node (CExit n) = (n \<noteq> node)"
| "leaves_fallback_of node (CRegister n nb) = (n \<noteq> node)"

text \<open>The counts of the warnings logged for a node.\<close>

definition warned_counts :: "string \<Rightarrow> compute_layer \<Rightarrow> int list" where
  "warned_counts node lay = map snd (filter (\<lambda>(n, c). n = node) (cl_warned lay))"

lemma compute_step_topology:
  "leaves_fallback_of node op \<Longrightarrow>
   dget (cl_topology (compute_step op lay)) node = dget (cl_topology lay) node"
  by (cases op) (auto simp: compute_recover_def Let_def exit_fallback_def register_neighbor_def)

lemma compute_step_count:
  "leaves_fallback_of node op \<Longrightarrow> str_or (dget (cl_topology lay) node) [] \<noteq> [] \<Longrightarrow>
   dget_or (cl_fallbacks (compute_step op lay)) node 0 =
   dget_or (cl_fallbacks lay) node 0 + (if is_recovery_of node op then 1 else 0)"
proof (cases op)
  case (CRecover absorb ev)
  assume "str_or (dget (cl_topology lay) node) [] \<noteq> []"
  with CRecover show ?thesis by (simp add: compute_recover_def Let_def)
qed (simp_all add: exit_fallback_def register_neighbor_def dget_or_def)

lemma compute_step_warned:
  assumes "leaves_fallback_of node op" "nb = str_or (dget (cl_topology lay) node) []" "nb \<noteq> []"
  shows "warned_counts node (compute_step op lay) = warned_counts node lay @
    (if absorbs node nb op \<and> max_consecutive_fallbacks \<le> dget_or (cl_fallbacks lay) node 0 + 1
     then [dget_or (cl_fallbacks lay) node 0 + 1] else [])"
proof (cases op)
  case (CRecover absorb ev)
  show ?thesis
  proof (cases "ev_node ev = node")
    case True
    with CRecover assms(2,3) show ?thesis by (simp add: compute_recover_def Let_def warned_counts_def)
  qed (simp add: CRecover compute_recover_def Let_def warned_counts_def)
qed (simp_all add: exit_fallback_def register_neighbor_def warned_counts_def)

text \<open>
  The warnings owed to a list of operations by a node whose counter stands at \<open>c\<close>: one for each
  recovery of the node that succeeds and brings the counter to the bound or above.
\<close>

fun warnings_owed :: "string \<Rightarrow> string \<Rightarrow> int \<Rightarrow> compute_op list \<Rightarrow> int list" where
  "warnings_owed node nb c [] = []"
| "warnings_owed node nb c (op # ops) =
    (if is_recovery_of node op
     then (if absorbs node nb op \<and> 10 \<le> c + 1 then [c + 1] else []) @ warnings_owed node nb (c + 1) ops
     else warnings_owed node nb c ops)"

lemma absorbs_recovers: "absorbs node nb op \<Longrightarrow> is_recovery_of node op"
  by (cases op) auto

lemma compute_run_count:
  assumes "str_or (dget (cl_topology lay) node) [] \<noteq> []"
    and "\<forall>op \<in> set ops. leaves_fallback_of node op"
  shows "dget_or (cl_fallbacks (compute_run ops lay)) node 0 =
      dget_or (cl_fallbacks lay) node 0 + int (length (filter (is_recovery_of node) ops)) \<and>
    warned_counts node (compute_run ops lay) = warned_counts node lay @
      warnings_owed node (str_or (dget (cl_topology lay) node) []) (dget_or (cl_fallbacks lay) node 0) ops"
  using assms
proof (induction ops arbitrary: lay)
  case Nil
  then show ?case by (simp add: compute_run_def)
next
  case (Cons op ops)
  let ?lay = "compute_step op lay"
  have leaves: "leaves_fallback_of node op" using Cons.prems(2) by simp
  have run: "compute_run (op # ops) lay = compute_run ops ?lay" by (simp add: compute_run_def)
  have top: "dget (cl_topology ?lay) node = dget (cl_topology lay) node" by (rule compute_step_topology [OF leaves])
  show ?case
    using Cons.IH [of ?lay] Cons.prems compute_step_count [OF leaves Cons.prems(1)]
      compute_step_warned [OF leaves refl Cons.prems(1)] absorbs_recovers [of node _ op]
    unfolding run top by (auto simp: max_consecutive_fallbacks_def)
qed

text \<open>Entry by entry: the k-th recovery warns when it is the tenth or a later one and succeeds.\<close>

lemma warnings_owed_nth:
  "warnings_owed node nb (int c) ops =
    map (\<lambda>i. int c + 1 + int i)
      (filter (\<lambda>i. 10 \<le> int c + 1 + int i \<and> absorbs node nb (filter (is_recovery_of node) ops ! i))
        [0..<length (filter (is_recovery_of node) ops)])"
proof (induction ops arbitrary: c)
  case (Cons op ops)
  show ?case
  proof (cases "is_recovery_of node op")
    case True
    let ?rs = "filter (is_recovery_of node) ops"
    have up: "[0..<Suc n] = 0 # map Suc [0..<n]" for n by (simp add: upt_conv_Cons map_Suc_upt del: upt_Suc)
    have next': "int c + 1 = int (Suc c)" by simp
    have shift: "int (Suc c) + 1 + int i = int c + 1 + int (Suc i)" for i by simp
    from True Cons.IH [of "Suc c"] show ?thesis
      by (simp add: next' up filter_map comp_def shift del: upt_Suc of_nat_Suc)
  qed (use Cons.IH in simp)
qed simp

text \<open>
  C22. The bound on consecutive fallbacks is exact: after a node left fallback, any sequence of
  recoveries, with whatever outcomes of the backend, of exits of other nodes and of registrations
  of other nodes leaves the node's counter at the number of recoveries for it since, those whose
  absorption failed included; and the log's new warnings for the node, that a full-fidelity
  checkpoint is due, are those of the tenth and the later recoveries that succeeded, in order,
  each with its number. The tenth recovery gives no warning when its absorption fails.
\<close>

theorem fallback_counter_exact:
  assumes "str_or (dget (cl_topology lay) node) [] = nb" "nb \<noteq> []"
    and "\<forall>op \<in> set ops. leaves_fallback_of node op"
  shows "let lay' = compute_run ops (exit_fallback node lay);
             recoveries = filter (is_recovery_of node) ops
         in dget_or (cl_fallbacks lay') node 0 = int (length recoveries) \<and>
            warned_counts node lay' = warned_counts node lay @
              map (\<lambda>i. int i + 1) (filter (\<lambda>i. 10 \<le> i + 1 \<and> absorbs node nb (recoveries ! i)) [0..<length recoveries])"
proof -
  let ?lay = "exit_fallback node lay"
  have start: "dget_or (cl_fallbacks ?lay) node 0 = 0" "warned_counts node ?lay = warned_counts node lay"
    "str_or (dget (cl_topology ?lay) node) [] = nb"
    using assms(1) by (simp_all add: exit_fallback_def dget_or_def warned_counts_def)
  have big: "10 \<le> 1 + int i \<longleftrightarrow> 10 \<le> i + 1" for i by linarith
  have "str_or (dget (cl_topology ?lay) node) [] \<noteq> []" using start(3) assms(2) by simp
  from compute_run_count [OF this assms(3)] warnings_owed_nth [of node nb 0 ops] show ?thesis
    by (simp add: Let_def start add.commute big)
qed

definition absorb_ok :: compute_backend where
  "absorb_ok dead neighbor =
    \<lparr>ab_success = True, ab_elapsed_secs = 1, ab_low_rank_relative_error = 1 / 10,
     ab_skip_connection_applied = True, ab_recomputed_fraction = 3 / 10, ab_device = ''cpu''\<rparr>"

definition node_down :: telemetry_event where
  "node_down =
    \<lparr>ev_rank = 1, ev_node = ''node1'', ev_signal = NODE_CRASH, ev_payload = [], ev_epoch = 0,
     ev_timestamp = 0, ev_nic = None, ev_rack = None, ev_source = ''unknown''\<rparr>"

definition absorb_fails :: compute_backend where
  "absorb_fails dead neighbor = (absorb_ok dead neighbor)\<lparr>ab_success := False\<rparr>"

text \<open>Nine absorptions, a tenth that fails and an eleventh: the one warning is the eleventh's.\<close>

theorem fallback_counter_exact_witness:
  "let lay = compute_run (CExit ''node2'' # replicate 9 (CRecover absorb_ok node_down) @
           [CRecover absorb_fails node_down, CRecover absorb_ok node_down])
         (exit_fallback ''node1'' (register_neighbor ''node1'' ''node2'' compute_init))
   in dget_or (cl_fallbacks lay) ''node1'' 0 = 11 \<and> warned_counts ''node1'' lay = [11]"
proof -
  let ?lay = "register_neighbor ''node1'' ''node2'' compute_init"
  let ?ops = "CExit ''node2'' # replicate 9 (CRecover absorb_ok node_down) @
    [CRecover absorb_fails node_down, CRecover absorb_ok node_down]"
  have nb: "str_or (dget (cl_topology ?lay) ''node1'') [] = ''node2''" "''node2'' \<noteq> []"
    by (simp_all add: register_neighbor_def compute_init_def)
  have leaves: "\<forall>op \<in> set ?ops. leaves_fallback_of ''node1'' op" by simp
  have recs: "filter (is_recovery_of ''node1'') ?ops =
      replicate 9 (CRecover absorb_ok node_down) @ [CRecover absorb_fails node_down, CRecover absorb_ok node_down]"
    by (simp add: node_down_def)
  have none: "warned_counts ''node1'' ?lay = []" by (simp add: warned_counts_def register_neighbor_def compute_init_def)
  from fallback_counter_exact [OF nb leaves] show ?thesis
    unfolding Let_def recs none
    by (simp add: eval_nat_numeral absorb_ok_def absorb_fails_def node_down_def)
qed

subsection \<open>Selective recomputation\<close>

lemma length_set_rows [simp]: "length (set_rows idx rows out) = length out"
  by (induction idx arbitrary: rows out; case_tac rows) (auto simp: set_rows_def)

lemma set_rows_nth:
  "distinct idx \<Longrightarrow> set idx \<subseteq> {..<length out} \<Longrightarrow> i < length out \<Longrightarrow>
   set_rows idx (map f idx) out ! i = (if i \<in> set idx then f i else out ! i)"
  unfolding set_rows_def by (induction idx arbitrary: out) auto

lemma py_round_mono_bounds: "0 \<le> x \<Longrightarrow> x \<le> real n \<Longrightarrow> 0 \<le> py_round x \<and> py_round x \<le> int n"
  unfolding py_round_def Let_def by (auto; linarith)

lemma exact_rows_bounds: "0 < n \<Longrightarrow> 1 \<le> exact_rows n k \<and> exact_rows n k \<le> n"
proof -
  assume n: "0 < n"
  define keep where "keep = max 0 (min 1 k)"
  have "0 \<le> keep" "keep \<le> 1" by (simp_all add: keep_def)
  then have "0 \<le> real n * keep" "real n * keep \<le> real n" by (simp_all add: mult_left_le)
  from py_round_mono_bounds [OF this] n show ?thesis
    by (simp add: exact_rows_def Let_def keep_def [symmetric]) linarith
qed

text \<open>
  C23. The selective recomputation covers every row once: when \<open>perm\<close> is a permutation of
  the row numbers, the output has a row for each input row; the rows listed first in the
  permutation, as many as the reported fraction says, hold the exact feed-forward value of
  their input, the others that of the low-rank surrogate weights, and none keeps its
  uninitialised contents. At least one row is exact and the fraction is at most 1.
\<close>

theorem selective_recompute_covers_rows:
  assumes "x \<noteq> []" and "distinct perm" and "set perm = {..<length x}"
    and "selective_recompute_ffn ops rowmul relu perm blank x w1 w2 keep = (out, fraction)"
    and "k = exact_rows (length x) keep" and "i < length x"
  shows "length out = length x \<and> 1 \<le> k \<and> k \<le> length x \<and> fraction = real k / real (length x) \<and>
    out ! i =
      (if i \<in> set (take k perm)
       then rowmul (relu (rowmul (x ! i) w1)) w2
       else rowmul (relu (rowmul (x ! i)
              (fst (low_rank_approximate ops w1
                (max 1 (min (fst (to_shape ops w1)) (snd (to_shape ops w1)) div 4))))))
              (fst (low_rank_approximate ops w2
                (max 1 (min (fst (to_shape ops w2)) (snd (to_shape ops w2)) div 4)))))"
proof -
  have bounds: "1 \<le> k \<and> k \<le> length x" using assms(1,5) exact_rows_bounds by simp
  have split: "take k perm @ drop k perm = perm" by simp
  then have "set (take k perm) \<union> set (drop k perm) = {..<length x}"
    by (metis assms(3) set_append)
  then have i: "i \<in> set (take k perm) \<or> i \<in> set (drop k perm)"
    and sub: "set (take k perm) \<subseteq> {..<length x}" "set (drop k perm) \<subseteq> {..<length x}"
    using assms(6) by auto
  have disj: "set (take k perm) \<inter> set (drop k perm) = {}"
    using assms(2) by (rule set_take_disj_set_drop_if_distinct) simp
  have dist: "distinct (take k perm)" "distinct (drop k perm)" using assms(2) by simp_all
  have empty: "set_rows idx (map f idx) o' = (if idx \<noteq> [] then set_rows idx (map f idx) o' else o')"
    for idx and f :: "nat \<Rightarrow> 'b" and o'
    by (simp add: set_rows_def)
  show ?thesis
    using assms(4) bounds assms(1,6) i sub disj dist
    unfolding selective_recompute_ffn_def Let_def assms(5) [symmetric]
    by (auto simp: empty [symmetric] set_rows_nth)
qed

definition scalar_ops :: "real torch_ops" where
  "scalar_ops = \<lparr>to_shape = (\<lambda>w. (1, 1)), to_svd_recon = (\<lambda>w r. w), to_minus = (-), to_norm = abs\<rparr>"

theorem selective_recompute_covers_rows_witness:
  "\<exists>out fraction.
     selective_recompute_ffn scalar_ops (*) (max 0) [2, 0, 1] 0 [1, 2, 3::real] 2 5 (2 / 3) = (out, fraction) \<and>
     length out = 3 \<and> fraction = 2 / 3 \<and> out ! 2 = 30"
proof -
  obtain out fraction where run:
    "selective_recompute_ffn scalar_ops (*) (max 0) [2, 0, 1] 0 [1, 2, 3::real] 2 5 (2 / 3) = (out, fraction)"
    by (meson surj_pair)
  have perm: "set [2, 0, 1] = {..<length [1, 2, 3::real]}" by (auto simp: lessThan_Suc)
  have k: "exact_rows (length [1, 2, 3::real]) (2 / 3) = 2"
    by (simp add: exact_rows_def py_round_def Let_def)
  from selective_recompute_covers_rows [OF _ _ perm run k [symmetric], of 2] run show ?thesis
    by (simp add: numeral_2_eq_2)
qed

subsection \<open>The default backend behind the layer\<close>

lemma recompute_fraction:
  "snd (selective_recompute_ffn ops rowmul relu perm blank x w1 w2 keep) =
   (if x = [] then 0 else real (exact_rows (length x) keep) / real (length x))"
  by (simp add: selective_recompute_ffn_def Let_def)

text \<open>
  With the default settings, on tensors of the default dimension, an absorption reports
  success, 77 of 256 rows recomputed exactly, and the relative error of an approximation of
  rank 64: a fault of a node with a named neighbour is always absorbed, degraded.
\<close>

theorem default_backend_absorbs:
  fixes ops :: "'w torch_ops" and rowmul :: "'r \<Rightarrow> 'w \<Rightarrow> 'r"
  assumes x: "length (td_x (draws dead nb)) = 256"
    and shape: "to_shape ops (td_grad (draws dead nb)) = (256, 256)"
    and nb: "dget (cl_topology lay) dead = Some nb" "nb \<noteq> []" and dead: "ev_node ev = dead"
    and be: "be = torch_backend_init cuda mps"
  shows "let r = torch_absorb ops rowmul relu be draws dead nb;
             grad = td_grad (draws dead nb); approx = to_svd_recon ops grad 64
         in ab_recomputed_fraction r = 77 / 256 \<and>
            (0 < to_norm ops grad \<longrightarrow>
              ab_low_rank_relative_error r = to_norm ops (to_minus ops grad approx) / to_norm ops grad) \<and>
            (\<exists>rr lay'. compute_recover (torch_absorb ops rowmul relu be draws) ev B1 ep g lay = (Inr rr, lay') \<and>
              rr_success rr \<and> rr_degraded rr \<and> cl_last_absorption lay' = Some r)"
proof -
  have ex: "exact_rows 256 (3 / 10) = 77" by (simp add: exact_rows_def py_round_def Let_def)
  have ne: "td_x (draws dead nb) \<noteq> []" using x by auto
  let ?r = "torch_absorb ops rowmul relu be draws dead nb"
  have rec: "\<exists>rr lay'. compute_recover (torch_absorb ops rowmul relu be draws) ev B1 ep g lay = (Inr rr, lay') \<and>
      rr_success rr \<and> rr_degraded rr \<and> cl_last_absorption lay' = Some ?r"
    using nb by (simp add: compute_recover_def Let_def dead torch_absorb_def)
  have frac: "ab_recomputed_fraction ?r = 77 / 256"
    using x ne ex by (simp add: torch_absorb_def Let_def recompute_fraction be torch_backend_init_def)
  have err: "0 < to_norm ops (td_grad (draws dead nb)) \<longrightarrow> ab_low_rank_relative_error ?r =
      to_norm ops (to_minus ops (td_grad (draws dead nb)) (to_svd_recon ops (td_grad (draws dead nb)) 64)) /
      to_norm ops (td_grad (draws dead nb))"
    by (simp add: torch_absorb_def Let_def low_rank_approximate_def skip_connection_gradient_def clamp_rank_def shape
        be torch_backend_init_def py_trunc_def)
  show ?thesis unfolding Let_def using rec frac err by blast
qed

end
