(* ===== verification/Storage.thy ===== *)
theory Storage
  imports Layer_Base "HOL-Library.Word"
begin

text \<open>
  The storage layer of \<open>aegis/layers/storage.py\<close> (tiers B2, B3, B4): base and differential
  checkpoints, their selection under the gate of the recovery consensus, reconstruction
  with the checksum verified, and the writers. Bytes are lists of 8-bit words. SHA-256 and
  zlib are arguments (\<open>codec\<close>), as are the clock readings and \<open>os.urandom\<close>. A store is
  reached through the backend interface, which the source makes pluggable; the local
  filesystem is a map from relative paths to contents, right for node names that are one
  plain path component: what \<open>pathlib\<close> makes of other names, and failing disks, are not
  modelled.
\<close>

unbundle bit_operations_syntax

type_synonym bytes = "8 word list"

record checkpoint_metadata =
  ck_epoch :: int
  ck_tier :: string
  ck_node :: string
  ck_rank :: int
  ck_timestamp :: real
  ck_fidelity_flag :: bool
  ck_diff :: bool
  ck_size_bytes :: nat
  ck_checksum :: string
  ck_path :: string
  ck_orig_len :: nat
  ck_base_index :: "nat option"

text \<open>\<open>bytes.ljust(n, b"\\0")\<close>, then the byte-wise exclusive or.\<close>

definition ljust0 :: "nat \<Rightarrow> bytes \<Rightarrow> bytes" where
  "ljust0 n a = a @ replicate (n - length a) 0"

definition xor_diff :: "bytes \<Rightarrow> bytes \<Rightarrow> bytes" where
  "xor_diff a b =
    (let n = max (length a) (length b)
     in map2 (\<lambda>x y. x XOR y) (ljust0 n a) (ljust0 n b))"

subsection \<open>Third-party codecs and the backend interface\<close>

record codec =
  cd_sha256 :: "bytes \<Rightarrow> string"
  cd_compress :: "bytes \<Rightarrow> bytes"
  cd_decompress :: "bytes \<Rightarrow> bytes option"

text \<open>What zlib documents; \<open>zlib.decompress\<close> raises where the model has \<open>None\<close>.\<close>

definition codec_ok :: "codec \<Rightarrow> bool" where
  "codec_ok cd \<longleftrightarrow> (\<forall>x. cd_decompress cd (cd_compress cd x) = Some x)"

record 'b checkpoint_backend =
  cb_write_bytes :: "string \<Rightarrow> bytes \<Rightarrow> 'b \<Rightarrow> string \<times> 'b"
  cb_read_bytes :: "string \<Rightarrow> 'b \<Rightarrow> pyexc + bytes"
  cb_exists :: "string \<Rightarrow> 'b \<Rightarrow> bool"

type_synonym filesystem = "(string, bytes) dict"

definition local_filesystem_backend :: "filesystem checkpoint_backend" where
  "local_filesystem_backend =
    \<lparr>cb_write_bytes = (\<lambda>relpath data fs. (relpath, dset relpath data fs)),
     cb_read_bytes = (\<lambda>relpath fs. case dget fs relpath of
                        None \<Rightarrow> Inl FileNotFoundErr | Some data \<Rightarrow> Inr data),
     cb_exists = (\<lambda>relpath fs. dget fs relpath \<noteq> None)\<rparr>"

text \<open>The remote store cannot be constructed.\<close>

definition remote_object_store_backend :: "pyexc + filesystem checkpoint_backend" where
  "remote_object_store_backend = Inl NotImplementedErr"

subsection \<open>State of the layer\<close>

text \<open>
  One of the per-node tiers: its backend's store with the layer's history, write counts and
  index of the last base.
\<close>

record 'b tier_store =
  ts_store :: 'b
  ts_history :: "(string, checkpoint_metadata list) dict"
  ts_write_count :: "(string, nat) dict"
  ts_base_index :: "(string, nat) dict"

record 'b storage_layer =
  st_base_interval :: int
  st_tier1 :: "'b tier_store"
  st_tier2 :: "'b tier_store"
  st_store3 :: 'b
  st_tier3 :: "checkpoint_metadata list"

definition default_base_interval :: int where
  "default_base_interval = 5"

definition tier_store_init :: "'b \<Rightarrow> 'b tier_store" where
  "tier_store_init b = \<lparr>ts_store = b, ts_history = [], ts_write_count = [], ts_base_index = []\<rparr>"

definition storage_init :: "int \<Rightarrow> 'b \<Rightarrow> 'b storage_layer" where
  "storage_init base_interval b =
    \<lparr>st_base_interval = base_interval, st_tier1 = tier_store_init b, st_tier2 = tier_store_init b,
     st_store3 = b, st_tier3 = []\<rparr>"

definition history_of :: "string \<Rightarrow> 'b tier_store \<Rightarrow> checkpoint_metadata list" where
  "history_of node ts = dget_or (ts_history ts) node []"

subsection \<open>Selection and reconstruction\<close>

definition select :: "checkpoint_metadata list \<Rightarrow> int option \<Rightarrow> (checkpoint_metadata \<times> nat) option" where
  "select history min_valid_epoch =
    (if history = [] then None
     else case min_valid_epoch of
            None \<Rightarrow> Some (last history, length history - 1)
          | Some bound \<Rightarrow>
              (case filter (\<lambda>(i, c). ck_epoch c \<le> bound) (enumerate 0 history) of
                 [] \<Rightarrow> None
               | c # cs \<Rightarrow> (case argmax_first (\<lambda>t. ck_epoch (snd t)) c cs of (idx, ckpt) \<Rightarrow> Some (ckpt, idx))))"

definition index_list :: "'a list \<Rightarrow> nat \<Rightarrow> pyexc + 'a" where
  "index_list xs i = (if i < length xs then Inr (xs ! i) else Inl IndexErr)"

definition reconstruct ::
  "'b checkpoint_backend \<Rightarrow> codec \<Rightarrow> 'b \<Rightarrow> checkpoint_metadata list \<Rightarrow> nat \<Rightarrow> pyexc + (bytes \<times> bool)" where
  "reconstruct B cd store history index =
    (case index_list history index of Inl x \<Rightarrow> Inl x | Inr ckpt \<Rightarrow>
     case cb_read_bytes B (ck_path ckpt) store of Inl x \<Rightarrow> Inl x | Inr raw \<Rightarrow>
       (let verified = (\<lambda>payload. Inr (payload, cd_sha256 cd payload = ck_checksum ckpt))
        in if \<not> ck_diff ckpt then verified raw
           else case ck_base_index ckpt of None \<Rightarrow> Inl AssertionErr | Some bi \<Rightarrow>
                case index_list history bi of Inl x \<Rightarrow> Inl x | Inr base_entry \<Rightarrow>
                case cb_read_bytes B (ck_path base_entry) store of Inl x \<Rightarrow> Inl x | Inr base_raw \<Rightarrow>
                case cd_decompress cd raw of None \<Rightarrow> Inl ZlibErr | Some diff_bytes \<Rightarrow>
                  verified (take (ck_orig_len ckpt) (xor_diff diff_bytes base_raw))))"

subsection \<open>Restores\<close>

definition restore_node_tier ::
  "nat \<Rightarrow> (string \<Rightarrow> int \<Rightarrow> nat \<Rightarrow> message) \<Rightarrow> 'b checkpoint_backend \<Rightarrow> codec \<Rightarrow> real \<Rightarrow>
   telemetry_event \<Rightarrow> int option \<Rightarrow> 'b tier_store \<Rightarrow> pyexc + recovery_result" where
  "restore_node_tier tier_no restored B cd elapsed event min_valid_epoch ts =
    (case select (history_of (ev_node event) ts) min_valid_epoch of
       None \<Rightarrow> Inr (rr_failure (MsgNoCheckpoint tier_no (ev_node event)))
     | Some (ckpt, idx) \<Rightarrow>
         (case reconstruct B cd (ts_store ts) (history_of (ev_node event) ts) idx of
            Inl x \<Rightarrow> Inl x
          | Inr (payload, ok) \<Rightarrow>
              (if \<not> ok then Inr (rr_failure (MsgChecksumMismatch tier_no (ev_node event) (ck_epoch ckpt)))
               else Inr (rr_succeeded (restored (ev_node event) (ck_epoch ckpt) (length payload)) False elapsed))))"

definition restore_tier1 where
  "restore_tier1 = restore_node_tier 1 (\<lambda>node ep len. MsgRestored 1 node ep len)"

definition restore_tier2 where
  "restore_tier2 = restore_node_tier 2 (\<lambda>node ep len. MsgRestoredReplica node ep)"

definition restore_tier3 ::
  "'b checkpoint_backend \<Rightarrow> codec \<Rightarrow> real \<Rightarrow> int option \<Rightarrow> 'b storage_layer \<Rightarrow> pyexc + recovery_result" where
  "restore_tier3 B cd elapsed min_valid_epoch lay =
    (case select (st_tier3 lay) min_valid_epoch of
       None \<Rightarrow> Inr (rr_failure MsgNoBaseCheckpoint)
     | Some (ckpt, idx) \<Rightarrow>
         (case cb_read_bytes B (ck_path ckpt) (st_store3 lay) of
            Inl x \<Rightarrow> Inl x
          | Inr raw \<Rightarrow>
              (if cd_sha256 cd raw \<noteq> ck_checksum ckpt
               then Inr (rr_failure (MsgBaseChecksumMismatch (ck_epoch ckpt)))
               else Inr (rr_succeeded (MsgRestoredBase (ck_epoch ckpt)) False elapsed))))"

definition storage_tiers :: "blast_radius list" where
  "storage_tiers = [B2, B3, B4]"

definition storage_can_handle :: "telemetry_event \<Rightarrow> blast_radius \<Rightarrow> 'b storage_layer \<Rightarrow> bool" where
  "storage_can_handle event tier lay =
    (if tier = B2 then history_of (ev_node event) (st_tier1 lay) \<noteq> []
     else if tier = B3 then history_of (ev_node event) (st_tier2 lay) \<noteq> []
     else if tier = B4 then st_tier3 lay \<noteq> []
     else False)"

definition storage_recover ::
  "'b checkpoint_backend \<Rightarrow> codec \<Rightarrow> real \<Rightarrow> telemetry_event \<Rightarrow> blast_radius \<Rightarrow> int \<Rightarrow> int option \<Rightarrow>
   'b storage_layer \<Rightarrow> (pyexc + recovery_result) \<times> 'b storage_layer" where
  "storage_recover B cd elapsed event tier epoch min_valid_epoch lay =
    ((if tier = B2 then restore_tier1 B cd elapsed event min_valid_epoch (st_tier1 lay)
      else if tier = B3 then restore_tier2 B cd elapsed event min_valid_epoch (st_tier2 lay)
      else if tier = B4 then restore_tier3 B cd elapsed min_valid_epoch lay
      else Inr (rr_failure (MsgUnhandledTier tier))), lay)"

subsection \<open>Writers\<close>

definition ckpt_relpath :: "string \<Rightarrow> int \<Rightarrow> nat \<Rightarrow> string" where
  "ckpt_relpath node epoch cnt = node @ ''/'' @ int_str epoch @ ''-'' @ nat_str cnt @ ''.ckpt''"

text \<open>
  \<open>_write_node_tier\<close>. The node gets its (empty) history first, even when the write then
  raises: on a base interval of 0, or when the base cannot be read back.
\<close>

definition write_node_tier ::
  "'b checkpoint_backend \<Rightarrow> codec \<Rightarrow> int \<Rightarrow> real \<Rightarrow> string \<Rightarrow> string \<Rightarrow> int \<Rightarrow> bool \<Rightarrow> bytes \<Rightarrow>
   'b tier_store \<Rightarrow> (pyexc + checkpoint_metadata) \<times> 'b tier_store" where
  "write_node_tier B cd base_interval now tname node epoch fidelity_flag payload ts0 =
    (let history = history_of node ts0;
         ts = ts0\<lparr>ts_history := dset node history (ts_history ts0)\<rparr>;
         count = dget_or (ts_write_count ts) node 0
     in if base_interval = 0 then (Inl ZeroDivisionErr, ts)
        else
          (let is_base = (int count mod base_interval = 0 \<or> dget (ts_base_index ts) node = None);
               encoded =
                 (if is_base then Inr (payload, False, None)
                  else case dget (ts_base_index ts) node of None \<Rightarrow> Inl KeyErr | Some bi \<Rightarrow>
                       case index_list history bi of Inl x \<Rightarrow> Inl x | Inr base_entry \<Rightarrow>
                       case cb_read_bytes B (ck_path base_entry) (ts_store ts) of Inl x \<Rightarrow> Inl x
                       | Inr base_raw \<Rightarrow> Inr (cd_compress cd (xor_diff payload base_raw), True, Some bi))
           in case encoded of
                Inl x \<Rightarrow> (Inl x, ts)
              | Inr (to_store, diff, b_index) \<Rightarrow>
                  (case cb_write_bytes B (ckpt_relpath node epoch count) to_store (ts_store ts) of
                     (path, store') \<Rightarrow>
                       (let meta = \<lparr>ck_epoch = epoch, ck_tier = tname, ck_node = node, ck_rank = 0,
                                    ck_timestamp = now, ck_fidelity_flag = fidelity_flag, ck_diff = diff,
                                    ck_size_bytes = length to_store, ck_checksum = cd_sha256 cd payload,
                                    ck_path = path, ck_orig_len = length payload, ck_base_index = b_index\<rparr>
                        in (Inr meta,
                            ts\<lparr>ts_store := store',
                               ts_history := dset node (history @ [meta]) (ts_history ts),
                               ts_base_index := (if is_base then dset node (length history) (ts_base_index ts)
                                                 else ts_base_index ts),
                               ts_write_count := dset node (count + 1) (ts_write_count ts)\<rparr>)))))"

definition payload_or :: "bytes option \<Rightarrow> bytes \<Rightarrow> bytes" where
  "payload_or payload random_bytes = (case payload of None \<Rightarrow> random_bytes | Some p \<Rightarrow> p)"

definition write_tier1 ::
  "'b checkpoint_backend \<Rightarrow> codec \<Rightarrow> real \<Rightarrow> bytes \<Rightarrow> string \<Rightarrow> int \<Rightarrow> bool \<Rightarrow> bytes option \<Rightarrow>
   'b storage_layer \<Rightarrow> (pyexc + checkpoint_metadata) \<times> 'b storage_layer" where
  "write_tier1 B cd now random_bytes node epoch fidelity_flag payload lay =
    (case write_node_tier B cd (st_base_interval lay) now ''tier1'' node epoch fidelity_flag
            (payload_or payload random_bytes) (st_tier1 lay) of
       (res, ts) \<Rightarrow> (res, lay\<lparr>st_tier1 := ts\<rparr>))"

definition write_tier2 ::
  "'b checkpoint_backend \<Rightarrow> codec \<Rightarrow> real \<Rightarrow> bytes \<Rightarrow> string \<Rightarrow> int \<Rightarrow> bool \<Rightarrow> bytes option \<Rightarrow>
   'b storage_layer \<Rightarrow> (pyexc + checkpoint_metadata) \<times> 'b storage_layer" where
  "write_tier2 B cd now random_bytes node epoch fidelity_flag payload lay =
    (case write_node_tier B cd (st_base_interval lay) now ''tier2'' node epoch fidelity_flag
            (payload_or payload random_bytes) (st_tier2 lay) of
       (res, ts) \<Rightarrow> (res, lay\<lparr>st_tier2 := ts\<rparr>))"

definition write_tier3 ::
  "'b checkpoint_backend \<Rightarrow> codec \<Rightarrow> real \<Rightarrow> bytes \<Rightarrow> int \<Rightarrow> bool \<Rightarrow> bytes option \<Rightarrow>
   'b storage_layer \<Rightarrow> checkpoint_metadata \<times> 'b storage_layer" where
  "write_tier3 B cd now random_bytes epoch fidelity_flag payload lay =
    (let data = payload_or payload random_bytes
     in case cb_write_bytes B (ckpt_relpath ''global'' epoch (length (st_tier3 lay))) data (st_store3 lay) of
          (path, store') \<Rightarrow>
            (let meta = \<lparr>ck_epoch = epoch, ck_tier = ''tier3'', ck_node = '''', ck_rank = 0,
                         ck_timestamp = now, ck_fidelity_flag = fidelity_flag, ck_diff = False,
                         ck_size_bytes = length data, ck_checksum = cd_sha256 cd data,
                         ck_path = path, ck_orig_len = length data, ck_base_index = None\<rparr>
             in (meta, lay\<lparr>st_store3 := store', st_tier3 := st_tier3 lay @ [meta]\<rparr>)))"

definition last_opt :: "'a list \<Rightarrow> 'a option" where
  "last_opt xs = (if xs \<noteq> [] then Some (last xs) else None)"

definition latest_tier1 :: "string \<Rightarrow> 'b storage_layer \<Rightarrow> checkpoint_metadata option" where
  "latest_tier1 node lay = last_opt (history_of node (st_tier1 lay))"

definition latest_tier2 :: "string \<Rightarrow> 'b storage_layer \<Rightarrow> checkpoint_metadata option" where
  "latest_tier2 node lay = last_opt (history_of node (st_tier2 lay))"

definition latest_tier3 :: "'b storage_layer \<Rightarrow> checkpoint_metadata option" where
  "latest_tier3 lay = last_opt (st_tier3 lay)"

subsection \<open>The differential encoding\<close>

lemma length_xor_diff [simp]: "length (xor_diff a b) = max (length a) (length b)"
  by (simp add: xor_diff_def ljust0_def Let_def)

lemma xor_diff_nth:
  "i < max (length a) (length b) \<Longrightarrow>
   xor_diff a b ! i = (if i < length a then a ! i else 0) XOR (if i < length b then b ! i else 0)"
  by (cases "i < length a"; cases "i < length b") (auto simp: xor_diff_def ljust0_def Let_def nth_append)

text \<open>The diff against a base, taken again against the base, gives the payload back.\<close>

lemma xor_diff_invert: "take (length a) (xor_diff (xor_diff a b) b) = a"
  by (rule nth_equalityI) (simp_all add: xor_diff_nth less_max_iff_disj xor.assoc)

subsection \<open>Checkpoint paths\<close>

lemma ckpt_relpath_unique:
  assumes "ckpt_relpath n e c = ckpt_relpath n' e' c'"
  shows "n = n' \<and> c = c'"
proof -
  let ?f = "\<lambda>e c. int_str e @ CHR ''-'' # nat_str c @ ''.ckpt''"
  have "n @ CHR ''/'' # ?f e c = n' @ CHR ''/'' # ?f e' c'"
    using assms by (simp add: ckpt_relpath_def)
  then have "n = n' \<and> ?f e c = ?f e' c'"
    by (rule split_last_unique) (simp_all add: int_str_no_slash nat_str_no_slash)
  then have n: "n = n'" and "int_str e @ CHR ''-'' # nat_str c @ ''.ckpt'' =
      int_str e' @ CHR ''-'' # nat_str c' @ ''.ckpt''"
    by simp_all
  from this(2) have "int_str e = int_str e' \<and> nat_str c @ ''.ckpt'' = nat_str c' @ ''.ckpt''"
    by (rule split_last_unique) (simp_all add: nat_str_no_dash)
  with n show ?thesis by simp
qed

subsection \<open>The contract of a checkpoint backend\<close>

locale checkpoint_store =
  fixes B :: "'b checkpoint_backend"
    and key :: "string \<Rightarrow> string"
  assumes write_key: "fst (cb_write_bytes B r d b) = key r"
    and read_written: "cb_read_bytes B (key r) (snd (cb_write_bytes B r d b)) = Inr d"
    and read_other: "k \<noteq> key r \<Longrightarrow> cb_read_bytes B k (snd (cb_write_bytes B r d b)) = cb_read_bytes B k b"
    and key_inj: "key r = key r' \<Longrightarrow> r = r'"

text \<open>
  What one node's history means: the log of what was written for the node, oldest first,
  as epoch, fidelity flag and payload.
\<close>

type_synonym ckpt_log = "(int \<times> bool \<times> bytes) list"

abbreviation log_payload :: "int \<times> bool \<times> bytes \<Rightarrow> bytes" where
  "log_payload w \<equiv> snd (snd w)"

definition entry_ok ::
  "'b checkpoint_backend \<Rightarrow> (string \<Rightarrow> string) \<Rightarrow> codec \<Rightarrow> 'b \<Rightarrow> string \<Rightarrow> checkpoint_metadata list \<Rightarrow>
   ckpt_log \<Rightarrow> nat \<Rightarrow> bool" where
  "entry_ok B key cd store node h W i \<longleftrightarrow>
    (let c = h ! i; w = W ! i
     in ck_epoch c = fst w \<and> ck_fidelity_flag c = fst (snd w) \<and>
        ck_path c = key (ckpt_relpath node (fst w) i) \<and>
        ck_checksum c = cd_sha256 cd (log_payload w) \<and> ck_orig_len c = length (log_payload w) \<and>
        (if ck_diff c
         then \<exists>b < i. ck_base_index c = Some b \<and> \<not> ck_diff (h ! b) \<and>
                cb_read_bytes B (ck_path c) store =
                  Inr (cd_compress cd (xor_diff (log_payload w) (log_payload (W ! b))))
         else ck_base_index c = None \<and> cb_read_bytes B (ck_path c) store = Inr (log_payload w)))"

definition node_ok ::
  "'b checkpoint_backend \<Rightarrow> (string \<Rightarrow> string) \<Rightarrow> codec \<Rightarrow> 'b tier_store \<Rightarrow> string \<Rightarrow> ckpt_log \<Rightarrow> bool" where
  "node_ok B key cd ts node W \<longleftrightarrow>
    length (history_of node ts) = length W \<and>
    dget_or (ts_write_count ts) node 0 = length W \<and>
    (\<forall>i < length W. entry_ok B key cd (ts_store ts) node (history_of node ts) W i) \<and>
    (case dget (ts_base_index ts) node of
       None \<Rightarrow> W = []
     | Some b \<Rightarrow> b < length W \<and> \<not> ck_diff (history_of node ts ! b))"

lemma node_ok_init [simp]: "node_ok B key cd (tier_store_init b) node []"
  by (simp add: node_ok_def tier_store_init_def history_of_def)

lemma history_of_dset [simp]:
  "history_of n (ts\<lparr>ts_history := dset m h (ts_history ts')\<rparr>) =
   (if n = m then h else history_of n (ts\<lparr>ts_history := ts_history ts'\<rparr>))"
  by (simp add: history_of_def)

text \<open>Reconstructing any entry of a consistent history gives its payload, verified.\<close>

lemma reconstruct_ok:
  assumes ok: "node_ok B key cd ts node W" and cd: "codec_ok cd" and i: "i < length W"
  shows "reconstruct B cd (ts_store ts) (history_of node ts) i = Inr (log_payload (W ! i), True)"
proof -
  let ?h = "history_of node ts"
  have len: "length ?h = length W" using ok by (simp add: node_ok_def)
  have ent: "entry_ok B key cd (ts_store ts) node ?h W j" if "j < length W" for j
    using ok that by (simp add: node_ok_def)
  show ?thesis
  proof (cases "ck_diff (?h ! i)")
    case False
    with ent [OF i] have "cb_read_bytes B (ck_path (?h ! i)) (ts_store ts) = Inr (log_payload (W ! i))"
      and "ck_checksum (?h ! i) = cd_sha256 cd (log_payload (W ! i))"
      by (auto simp: entry_ok_def Let_def)
    with False i len show ?thesis by (simp add: reconstruct_def index_list_def Let_def)
  next
    case True
    with ent [OF i] obtain b where b: "b < i" "ck_base_index (?h ! i) = Some b" "\<not> ck_diff (?h ! b)"
      and rd: "cb_read_bytes B (ck_path (?h ! i)) (ts_store ts) =
        Inr (cd_compress cd (xor_diff (log_payload (W ! i)) (log_payload (W ! b))))"
      by (auto simp: entry_ok_def Let_def)
    have "cb_read_bytes B (ck_path (?h ! b)) (ts_store ts) = Inr (log_payload (W ! b))"
      using ent [of b] b i by (auto simp: entry_ok_def Let_def)
    moreover have "ck_orig_len (?h ! i) = length (log_payload (W ! i))"
      and "ck_checksum (?h ! i) = cd_sha256 cd (log_payload (W ! i))"
      using ent [OF i] by (simp_all add: entry_ok_def Let_def)
    ultimately show ?thesis
      using True b rd i len cd
      by (simp add: reconstruct_def index_list_def Let_def codec_ok_def xor_diff_invert)
  qed
qed

text \<open>A write to another path leaves an entry consistent, also in a longer history.\<close>

context checkpoint_store
begin

lemma path_differs:
  "n \<noteq> node \<or> c \<noteq> i \<Longrightarrow> key (ckpt_relpath node e i) \<noteq> key (ckpt_relpath n e' c)"
  using key_inj ckpt_relpath_unique by metis

lemma entry_ok_frame:
  assumes ok: "entry_ok B key cd store node h W i" and i: "i < length W" and len: "length h = length W"
    and fresh: "n \<noteq> node \<or> length W \<le> c"
  shows "entry_ok B key cd (snd (cb_write_bytes B (ckpt_relpath n e c) d store)) node (h @ hs) (W @ ws) i"
proof -
  have path: "ck_path (h ! i) = key (ckpt_relpath node (fst (W ! i)) i)"
    using ok by (simp add: entry_ok_def Let_def)
  have other: "cb_read_bytes B (ck_path (h ! i)) (snd (cb_write_bytes B (ckpt_relpath n e c) d store)) =
      cb_read_bytes B (ck_path (h ! i)) store"
    unfolding path by (rule read_other, rule path_differs) (use fresh i in auto)
  show ?thesis
  proof (cases "ck_diff (h ! i)")
    case True
    with ok obtain b where "b < i" "ck_base_index (h ! i) = Some b" "\<not> ck_diff (h ! b)"
      "cb_read_bytes B (ck_path (h ! i)) store =
         Inr (cd_compress cd (xor_diff (log_payload (W ! i)) (log_payload (W ! b))))"
      by (auto simp: entry_ok_def Let_def)
    with True ok i len other show ?thesis
      unfolding entry_ok_def Let_def by (simp add: nth_append)
  next
    case False
    with ok i len other show ?thesis
      unfolding entry_ok_def Let_def by (auto simp: nth_append)
  qed
qed

lemma base_payload:
  assumes "node_ok B key cd ts node W" and "dget (ts_base_index ts) node = Some b"
  shows "b < length W" and "\<not> ck_diff (history_of node ts ! b)"
    and "cb_read_bytes B (ck_path (history_of node ts ! b)) (ts_store ts) = Inr (log_payload (W ! b))"
proof -
  show b: "b < length W" and nd: "\<not> ck_diff (history_of node ts ! b)"
    using assms by (simp_all add: node_ok_def)
  then show "cb_read_bytes B (ck_path (history_of node ts ! b)) (ts_store ts) = Inr (log_payload (W ! b))"
    using assms(1) by (auto simp: node_ok_def entry_ok_def Let_def)
qed

text \<open>What a write stores, and whether it makes a base.\<close>

definition writes_base :: "int \<Rightarrow> string \<Rightarrow> 'b tier_store \<Rightarrow> bool" where
  "writes_base iv node ts \<longleftrightarrow>
    int (dget_or (ts_write_count ts) node 0) mod iv = 0 \<or> dget (ts_base_index ts) node = None"

lemma write_shape:
  assumes ok: "node_ok B key cd ts node W" and iv: "iv \<noteq> 0"
  obtains m stored where
    "write_node_tier B cd iv now tname node e f p ts =
       (Inr m, ts\<lparr>ts_store := snd (cb_write_bytes B (ckpt_relpath node e (length W)) stored (ts_store ts)),
                  ts_history := dset node (history_of node ts @ [m]) (dset node (history_of node ts) (ts_history ts)),
                  ts_base_index := (if writes_base iv node ts then dset node (length W) (ts_base_index ts)
                                    else ts_base_index ts),
                  ts_write_count := dset node (length W + 1) (ts_write_count ts)\<rparr>)"
    and "ck_epoch m = e" and "ck_fidelity_flag m = f" and "ck_path m = key (ckpt_relpath node e (length W))"
    and "ck_checksum m = cd_sha256 cd p" and "ck_orig_len m = length p"
    and "writes_base iv node ts \<longrightarrow> stored = p \<and> \<not> ck_diff m \<and> ck_base_index m = None"
    and "\<not> writes_base iv node ts \<longrightarrow> (\<exists>b. dget (ts_base_index ts) node = Some b \<and>
      stored = cd_compress cd (xor_diff p (log_payload (W ! b))) \<and> ck_diff m \<and> ck_base_index m = Some b)"
proof -
  have cnt: "dget_or (ts_write_count ts) node 0 = length W" and len: "length (history_of node ts) = length W"
    using ok by (simp_all add: node_ok_def)
  have split: "(case cb_write_bytes B r d s of (path, s') \<Rightarrow> g path s') =
      g (key r) (snd (cb_write_bytes B r d s))" for r d s and g :: "string \<Rightarrow> 'b \<Rightarrow> 'x"
    using write_key [of r d s] by (simp add: split_beta)
  show thesis
  proof (cases "writes_base iv node ts")
    case True
    show thesis
      by (rule that [where stored = p and m = "\<lparr>ck_epoch = e, ck_tier = tname, ck_node = node, ck_rank = 0,
            ck_timestamp = now, ck_fidelity_flag = f, ck_diff = False, ck_size_bytes = length p,
            ck_checksum = cd_sha256 cd p, ck_path = key (ckpt_relpath node e (length W)),
            ck_orig_len = length p, ck_base_index = None\<rparr>"])
         (use True in \<open>simp_all add: write_node_tier_def Let_def cnt len iv writes_base_def split\<close>)
  next
    case False
    then obtain b where b: "dget (ts_base_index ts) node = Some b" by (auto simp: writes_base_def)
    note bp = base_payload [OF ok b]
    let ?stored = "cd_compress cd (xor_diff p (log_payload (W ! b)))"
    show thesis
      by (rule that [where stored = ?stored and m = "\<lparr>ck_epoch = e, ck_tier = tname, ck_node = node,
            ck_rank = 0, ck_timestamp = now, ck_fidelity_flag = f, ck_diff = True,
            ck_size_bytes = length ?stored,
            ck_checksum = cd_sha256 cd p, ck_path = key (ckpt_relpath node e (length W)),
            ck_orig_len = length p, ck_base_index = Some b\<rparr>"])
         (use False b bp in \<open>simp_all add: write_node_tier_def Let_def cnt len iv writes_base_def index_list_def split\<close>)
  qed
qed

text \<open>A write appends its entry to the log of its node and leaves the other logs alone.\<close>

lemma write_keeps_node:
  assumes ok: "node_ok B key cd ts node W" and iv: "iv \<noteq> 0"
  shows "node_ok B key cd (snd (write_node_tier B cd iv now tname node e f p ts)) node (W @ [(e, f, p)])"
proof -
  obtain m stored where
    run: "write_node_tier B cd iv now tname node e f p ts =
       (Inr m, ts\<lparr>ts_store := snd (cb_write_bytes B (ckpt_relpath node e (length W)) stored (ts_store ts)),
                  ts_history := dset node (history_of node ts @ [m]) (dset node (history_of node ts) (ts_history ts)),
                  ts_base_index := (if writes_base iv node ts then dset node (length W) (ts_base_index ts)
                                    else ts_base_index ts),
                  ts_write_count := dset node (length W + 1) (ts_write_count ts)\<rparr>)"
    and m: "ck_epoch m = e" "ck_fidelity_flag m = f" "ck_path m = key (ckpt_relpath node e (length W))"
      "ck_checksum m = cd_sha256 cd p" "ck_orig_len m = length p"
    and base: "writes_base iv node ts \<longrightarrow> stored = p \<and> \<not> ck_diff m \<and> ck_base_index m = None"
    and diff: "\<not> writes_base iv node ts \<longrightarrow> (\<exists>b. dget (ts_base_index ts) node = Some b \<and>
      stored = cd_compress cd (xor_diff p (log_payload (W ! b))) \<and> ck_diff m \<and> ck_base_index m = Some b)"
    by (rule write_shape [OF ok iv, where now = now and tname = tname and e = e and f = f and p = p]) (rule that)
  let ?h = "history_of node ts" and ?h' = "history_of node ts @ [m]" and ?W' = "W @ [(e, f, p)]"
  let ?s' = "snd (cb_write_bytes B (ckpt_relpath node e (length W)) stored (ts_store ts))"
  let ?ts' = "snd (write_node_tier B cd iv now tname node e f p ts)"
  have len: "length ?h = length W" using ok by (simp add: node_ok_def)
  have h': "history_of node ?ts' = ?h'" and s': "ts_store ?ts' = ?s'"
    by (simp_all add: run history_of_def)
  have rd: "cb_read_bytes B (ck_path m) ?s' = Inr stored" by (simp only: m(3) read_written)
  have old: "entry_ok B key cd ?s' node ?h' ?W' i" if "i < length W" for i
    by (rule entry_ok_frame) (use that ok len in \<open>auto simp: node_ok_def\<close>)
  have new: "entry_ok B key cd ?s' node ?h' ?W' (length W)"
  proof (cases "writes_base iv node ts")
    case True
    with base m rd len show ?thesis by (simp add: entry_ok_def Let_def nth_append)
  next
    case False
    with diff obtain b where b: "dget (ts_base_index ts) node = Some b"
      "stored = cd_compress cd (xor_diff p (log_payload (W ! b)))" "ck_diff m" "ck_base_index m = Some b"
      by auto
    have "b < length W" "\<not> ck_diff (?h ! b)" using base_payload [OF ok b(1)] by simp_all
    with b m rd len show ?thesis by (simp add: entry_ok_def Let_def nth_append)
  qed
  have entries: "\<forall>i < length ?W'. entry_ok B key cd (ts_store ?ts') node (history_of node ?ts') ?W' i"
    unfolding h' s' using old new by (auto simp: less_Suc_eq)
  have bi: "case dget (ts_base_index ?ts') node of None \<Rightarrow> ?W' = []
      | Some b \<Rightarrow> b < length ?W' \<and> \<not> ck_diff (history_of node ?ts' ! b)"
  proof (cases "writes_base iv node ts")
    case True
    with base len show ?thesis unfolding h' by (simp add: run nth_append)
  next
    case False
    with diff obtain b where b: "dget (ts_base_index ts) node = Some b" by auto
    have "b < length W" "\<not> ck_diff (?h ! b)" using base_payload [OF ok b] by simp_all
    with False b len show ?thesis unfolding h' by (simp add: run nth_append)
  qed
  show ?thesis
    unfolding node_ok_def using entries bi len by (simp add: h') (simp add: run)
qed

lemma write_keeps_other:
  assumes ok: "node_ok B key cd ts n W" and okn: "node_ok B key cd ts node V"
    and iv: "iv \<noteq> 0" and ne: "n \<noteq> node"
  shows "node_ok B key cd (snd (write_node_tier B cd iv now tname node e f p ts)) n W"
proof -
  obtain m stored where
    run: "write_node_tier B cd iv now tname node e f p ts =
       (Inr m, ts\<lparr>ts_store := snd (cb_write_bytes B (ckpt_relpath node e (length V)) stored (ts_store ts)),
                  ts_history := dset node (history_of node ts @ [m]) (dset node (history_of node ts) (ts_history ts)),
                  ts_base_index := (if writes_base iv node ts then dset node (length V) (ts_base_index ts)
                                    else ts_base_index ts),
                  ts_write_count := dset node (length V + 1) (ts_write_count ts)\<rparr>)"
    by (rule write_shape [OF okn iv, where now = now and tname = tname and e = e and f = f and p = p]) (rule that)
  let ?ts' = "snd (write_node_tier B cd iv now tname node e f p ts)"
  have h: "history_of n ?ts' = history_of n ts" using ne by (simp add: run history_of_def)
  have "entry_ok B key cd (ts_store ?ts') n (history_of n ts @ []) (W @ []) i" if "i < length W" for i
    unfolding run snd_conv
    by (simp, rule entry_ok_frame [where hs = "[]" and ws = "[]", simplified])
       (use that ok ne in \<open>auto simp: node_ok_def\<close>)
  then have "\<forall>i < length W. entry_ok B key cd (ts_store ?ts') n (history_of n ?ts') W i"
    unfolding h append_Nil2 by blast
  moreover have "dget (ts_base_index ?ts') n = dget (ts_base_index ts) n"
    and "dget_or (ts_write_count ?ts') n 0 = dget_or (ts_write_count ts) n 0"
    using ne by (simp_all add: run)
  ultimately show ?thesis using ok unfolding node_ok_def h by simp
qed

end

subsection \<open>A sequence of writes\<close>

type_synonym ckpt_write = "real \<times> string \<times> int \<times> bool \<times> bytes"

definition write_all ::
  "'b checkpoint_backend \<Rightarrow> codec \<Rightarrow> int \<Rightarrow> string \<Rightarrow> ckpt_write list \<Rightarrow> 'b tier_store \<Rightarrow> 'b tier_store" where
  "write_all B cd iv tname ws ts =
    fold (\<lambda>(now, node, e, f, p) ts. snd (write_node_tier B cd iv now tname node e f p ts)) ws ts"

text \<open>The log of a node: its writes, in order.\<close>

definition log_of :: "string \<Rightarrow> ckpt_write list \<Rightarrow> ckpt_log" where
  "log_of node ws = map (\<lambda>(now, n, w). w) (filter (\<lambda>(now, n, w). n = node) ws)"

text \<open>What a tier holds for a node: epoch, fidelity and reconstruction of each entry.\<close>

definition abs_tier ::
  "'b checkpoint_backend \<Rightarrow> codec \<Rightarrow> 'b tier_store \<Rightarrow> string \<Rightarrow> (int \<times> bool \<times> (pyexc + bytes \<times> bool)) list" where
  "abs_tier B cd ts node =
    map (\<lambda>i. (ck_epoch (history_of node ts ! i), ck_fidelity_flag (history_of node ts ! i),
              reconstruct B cd (ts_store ts) (history_of node ts) i))
      [0..<length (history_of node ts)]"

context checkpoint_store
begin

lemma write_all_ok:
  assumes "iv \<noteq> 0" and "\<forall>node. node_ok B key cd ts node (L node)"
  shows "node_ok B key cd (write_all B cd iv tname ws ts) node (L node @ log_of node ws)"
  using assms(2)
proof (induction ws arbitrary: ts L)
  case Nil
  then show ?case by (simp add: write_all_def log_of_def)
next
  case (Cons w ws)
  obtain now n e f p where w: "w = (now, n, e, f, p)" by (cases w) auto
  let ?ts = "snd (write_node_tier B cd iv now tname n e f p ts)"
  let ?L = "L(n := L n @ [(e, f, p)])"
  have "\<forall>node. node_ok B key cd ?ts node (?L node)"
    using write_keeps_node [OF spec [OF Cons.prems] assms(1)]
      write_keeps_other [OF spec [OF Cons.prems] spec [OF Cons.prems] assms(1)]
    by simp
  from Cons.IH [OF this] show ?case
    by (cases "n = node") (simp_all add: write_all_def log_of_def w)
qed

lemma abs_tier_log:
  assumes "node_ok B key cd ts node W" and "codec_ok cd"
  shows "abs_tier B cd ts node = map (\<lambda>(e, f, p). (e, f, Inr (p, True))) W"
proof (rule nth_equalityI)
  have len: "length (history_of node ts) = length W" using assms(1) by (simp add: node_ok_def)
  then show "length (abs_tier B cd ts node) = length (map (\<lambda>(e, f, p). (e, f, Inr (p, True))) W)"
    by (simp add: abs_tier_def)
  fix i assume "i < length (abs_tier B cd ts node)"
  with len have i: "i < length W" by (simp add: abs_tier_def)
  moreover from i assms(1) have "entry_ok B key cd (ts_store ts) node (history_of node ts) W i"
    by (simp add: node_ok_def)
  ultimately show "abs_tier B cd ts node ! i = map (\<lambda>(e, f, p). (e, f, Inr (p, True))) W ! i"
    using len reconstruct_ok [OF assms i]
    by (simp add: abs_tier_def split_beta entry_ok_def Let_def)
qed

end

interpretation local_fs: checkpoint_store local_filesystem_backend "\<lambda>r. r"
  by unfold_locales (auto simp: local_filesystem_backend_def)

subsection \<open>What the gate selects\<close>

lemma select_ungated: "select h None = (if h = [] then None else Some (last h, length h - 1))"
  by (simp add: select_def)

lemma sorted_candidates: "sorted_wrt (\<lambda>x y. fst x < fst y) (filter P (enumerate n h))"
proof (rule sorted_wrt_filter)
  show "sorted_wrt (\<lambda>x y. fst x < fst y) (enumerate n h)"
    by (induction h arbitrary: n) (auto simp: in_set_enumerate_eq)
qed

lemma select_gated_None: "select h (Some g) = None \<longleftrightarrow> (\<forall>c \<in> set h. g < ck_epoch c)"
proof -
  let ?cand = "filter (\<lambda>(i, c). ck_epoch c \<le> g) (enumerate 0 h)"
  have "select h (Some g) = None \<longleftrightarrow> ?cand = []"
    by (cases ?cand) (auto simp: select_def split: prod.splits)
  also have "\<dots> \<longleftrightarrow> (\<forall>p \<in> set (enumerate 0 h). g < ck_epoch (snd p))"
    by (simp add: filter_empty_conv split_beta not_le)
  also have "\<dots> \<longleftrightarrow> (\<forall>c \<in> snd ` set (enumerate 0 h). g < ck_epoch c)" by simp
  also have "snd ` set (enumerate 0 h) = set h" by (simp only: set_map [symmetric] map_snd_enumerate)
  finally show ?thesis .
qed

lemma select_gated_Some:
  assumes "select h (Some g) = Some (c, i)"
  shows "i < length h \<and> h ! i = c \<and> ck_epoch c \<le> g \<and>
    (\<forall>j < length h. ck_epoch (h ! j) \<le> g \<longrightarrow>
       ck_epoch (h ! j) \<le> ck_epoch c \<and> (j < i \<longrightarrow> ck_epoch (h ! j) < ck_epoch c))"
proof -
  let ?cand = "filter (\<lambda>(i, c). ck_epoch c \<le> g) (enumerate 0 h)" and ?f = "\<lambda>t. ck_epoch (snd t)"
  obtain d ds where cand: "?cand = d # ds" and best: "argmax_first ?f d ds = (i, c)"
    using assms by (auto simp: select_def split: if_splits list.splits prod.splits)
  have mem: "(j, h ! j) \<in> set (d # ds) \<longleftrightarrow> j < length h \<and> ck_epoch (h ! j) \<le> g" for j
    unfolding cand [symmetric] by (auto simp: in_set_enumerate_eq)
  have "(i, c) \<in> set (d # ds)" using argmax_first_in [of ?f d ds] by (simp add: best)
  then have ic: "i < length h" "h ! i = c" "ck_epoch c \<le> g"
    unfolding cand [symmetric] by (auto simp: in_set_enumerate_eq)
  have ge: "ck_epoch (h ! j) \<le> ck_epoch c" if "j < length h" "ck_epoch (h ! j) \<le> g" for j
    using argmax_first_ge [of "(j, h ! j)" d ds ?f] mem [of j] that by (simp add: best)
  have "ck_epoch (h ! j) < ck_epoch c" if j: "j < length h" "ck_epoch (h ! j) \<le> g" "j < i" for j
  proof -
    have sorted: "sorted_wrt (\<lambda>x y. fst x < fst y) (d # ds)"
      unfolding cand [symmetric] by (rule sorted_candidates)
    have inm: "(j, h ! j) \<in> set (d # ds)" using mem j by simp
    from argmax_first_split [of ?f d ds] show ?thesis
      unfolding best
    proof (elim disjE exE conjE)
      assume "(i, c) = d"
      with sorted inm j(3) show ?thesis by auto
    next
      fix ys zs
      assume ds: "ds = ys @ (i, c) # zs" and d: "?f d < ?f (i, c)"
        and ys: "\<forall>y \<in> set ys. ?f y < ?f (i, c)" and zs: "\<forall>z \<in> set zs. ?f z \<le> ?f (i, c)"
      have "(j, h ! j) \<notin> set zs" using sorted j(3) unfolding ds by (auto simp: sorted_wrt_append)
      with inm d ys j(3) show ?thesis unfolding ds by auto
    qed
  qed
  with ic ge show ?thesis by blast
qed

subsection \<open>The properties of the tiers\<close>

text \<open>
  C11. The differential checkpoints are lossless: after any sequence of writes to a per-node
  tier on the local filesystem, with any base interval but 0 and whatever files were there
  before, each node's history is the log of its own writes, in order, with their epochs and
  fidelity flags, and reconstructing any entry, base or diff, returns the payload that was
  written with its checksum verified; no write disturbs an entry of any node.
\<close>

theorem checkpoint_writes_refine_log:
  assumes "codec_ok cd" and "iv \<noteq> 0"
  shows "abs_tier local_filesystem_backend cd
      (write_all local_filesystem_backend cd iv tname ws (tier_store_init fs)) node =
    map (\<lambda>(e, f, p). (e, f, Inr (p, True))) (log_of node ws)"
  using local_fs.abs_tier_log
    [OF local_fs.write_all_ok [OF assms(2), where L = "\<lambda>_. []" and ts = "tier_store_init fs"] assms(1)]
  by simp

definition plain_codec :: codec where
  "plain_codec = \<lparr>cd_sha256 = (\<lambda>x. if x = [1, 2, 3] then ''a'' else ''b''), cd_compress = (\<lambda>x. x),
    cd_decompress = Some\<rparr>"

theorem checkpoint_writes_refine_log_witness:
  "abs_tier local_filesystem_backend plain_codec
     (write_all local_filesystem_backend plain_codec 2 ''tier1''
       [(0, ''n0'', 1, False, [1, 2, 3]), (0, ''n1'', 1, False, [9]), (0, ''n0'', 2, True, [1, 2, 4, 5])]
       (tier_store_init [])) ''n0'' =
     [(1, False, Inr ([1, 2, 3], True)), (2, True, Inr ([1, 2, 4, 5], True))]"
  using checkpoint_writes_refine_log [of plain_codec 2 "''tier1''"
      "[(0, ''n0'', 1, False, [1, 2, 3]), (0, ''n1'', 1, False, [9]), (0, ''n0'', 2, True, [1, 2, 4, 5])]"
      "[]" "''n0''"]
  by (simp add: codec_ok_def plain_codec_def log_of_def)

text \<open>The common form of a per-node restore over a consistent history.\<close>

lemma restore_node_tier_ok:
  assumes ok: "node_ok B key cd ts (ev_node ev) W" and cd: "codec_ok cd"
  shows "restore_node_tier no restored B cd elapsed ev g ts =
    (case select (history_of (ev_node ev) ts) g of
       None \<Rightarrow> Inr (rr_failure (MsgNoCheckpoint no (ev_node ev)))
     | Some (c, i) \<Rightarrow>
         Inr (rr_succeeded (restored (ev_node ev) (ck_epoch c) (length (log_payload (W ! i)))) False elapsed))"
proof (cases "select (history_of (ev_node ev) ts) g")
  case None
  then show ?thesis by (simp add: restore_node_tier_def)
next
  case (Some ci)
  obtain c i where ci: "ci = (c, i)" by force
  have "i < length (history_of (ev_node ev) ts)"
  proof (cases g)
    case None
    with Some ci show ?thesis by (auto simp: select_ungated split: if_splits)
  next
    case (Some g')
    with \<open>select _ g = Some ci\<close> ci select_gated_Some show ?thesis by blast
  qed
  with ok have "i < length W" by (simp add: node_ok_def)
  from reconstruct_ok [OF ok cd this] Some ci show ?thesis by (simp add: restore_node_tier_def)
qed

lemma node_ok_epoch:
  "node_ok B key cd ts node W \<Longrightarrow> i < length W \<Longrightarrow> ck_epoch (history_of node ts ! i) = fst (W ! i)"
  by (auto simp: node_ok_def entry_ok_def Let_def)

text \<open>
  C13. The gate of the recovery consensus holds: after any sequence of tier-1 writes, a
  restore gated at epoch \<open>g\<close> fails with the message that there is no checkpoint exactly when
  every write of the node is newer than \<open>g\<close>; otherwise it succeeds, verified, on the first
  written of the node's checkpoints whose epoch is the largest that does not exceed \<open>g\<close>, so
  it never restores state newer than the gate.
\<close>

theorem restore_respects_gate:
  assumes "codec_ok cd" and "iv \<noteq> 0"
    and "ts = write_all local_filesystem_backend cd iv ''tier1'' ws (tier_store_init fs)"
    and "W = log_of (ev_node ev) ws"
    and "res = restore_tier1 local_filesystem_backend cd elapsed ev (Some g) ts"
  shows "((\<forall>w \<in> set W. g < fst w) \<longrightarrow> res = Inr (rr_failure (MsgNoCheckpoint 1 (ev_node ev)))) \<and>
    ((\<exists>w \<in> set W. fst w \<le> g) \<longrightarrow>
      (\<exists>i < length W. fst (W ! i) \<le> g \<and>
         (\<forall>j < length W. fst (W ! j) \<le> g \<longrightarrow> fst (W ! j) \<le> fst (W ! i) \<and> (j < i \<longrightarrow> fst (W ! j) < fst (W ! i))) \<and>
         res = Inr (rr_succeeded (MsgRestored 1 (ev_node ev) (fst (W ! i)) (length (log_payload (W ! i))))
                      False elapsed)))"
proof -
  let ?h = "history_of (ev_node ev) ts"
  have ok: "node_ok local_filesystem_backend (\<lambda>r. r) cd ts (ev_node ev) W"
    using local_fs.write_all_ok [OF assms(2), where L = "\<lambda>_. []" and ts = "tier_store_init fs"]
    by (simp add: assms(3,4))
  have len: "length ?h = length W" using ok by (simp add: node_ok_def)
  note ep = node_ok_epoch [OF ok]
  have res: "res = (case select ?h (Some g) of
       None \<Rightarrow> Inr (rr_failure (MsgNoCheckpoint 1 (ev_node ev)))
     | Some (c, i) \<Rightarrow>
         Inr (rr_succeeded (MsgRestored 1 (ev_node ev) (ck_epoch c) (length (log_payload (W ! i)))) False elapsed))"
    unfolding assms(5) restore_tier1_def by (rule restore_node_tier_ok [OF ok assms(1)])
  have none: "select ?h (Some g) = None \<longleftrightarrow> (\<forall>w \<in> set W. g < fst w)"
    unfolding select_gated_None all_set_conv_all_nth len using ep by auto
  show ?thesis
  proof (cases "select ?h (Some g)")
    case None
    with none res show ?thesis by (auto simp: not_le)
  next
    case (Some ci)
    obtain c i where ci: "ci = (c, i)" by force
    from select_gated_Some [OF Some [unfolded ci]] have sel: "i < length W" "ck_epoch c = fst (W ! i)"
      "fst (W ! i) \<le> g"
      "\<forall>j < length W. fst (W ! j) \<le> g \<longrightarrow> fst (W ! j) \<le> fst (W ! i) \<and> (j < i \<longrightarrow> fst (W ! j) < fst (W ! i))"
      using ep len by auto
    have "\<not> (\<forall>w \<in> set W. g < fst w)" using none Some by simp
    with sel res Some ci show ?thesis by auto
  qed
qed

definition disk_fault :: telemetry_event where
  "disk_fault =
    \<lparr>ev_rank = 0, ev_node = ''n0'', ev_signal = CUDA_KERNEL_CRASH, ev_payload = [], ev_epoch = 0,
     ev_timestamp = 0, ev_nic = None, ev_rack = None, ev_source = ''unknown''\<rparr>"

definition three_writes :: "ckpt_write list" where
  "three_writes = [(0, ''n0'', 5, False, [1, 2, 3]), (0, ''n0'', 9, False, [4, 5]), (0, ''n0'', 12, False, [6])]"

theorem restore_respects_gate_witness:
  "restore_tier1 local_filesystem_backend plain_codec 1 disk_fault (Some 10)
     (write_all local_filesystem_backend plain_codec 5 ''tier1'' three_writes (tier_store_init [])) =
   Inr (rr_succeeded (MsgRestored 1 ''n0'' 9 2) False 1)"
proof -
  let ?W = "[(5, False, [1, 2, 3]), (9, False, [4, 5]), (12, False, [6])] :: ckpt_log"
  let ?res = "restore_tier1 local_filesystem_backend plain_codec 1 disk_fault (Some 10)
     (write_all local_filesystem_backend plain_codec 5 ''tier1'' three_writes (tier_store_init []))"
  have W: "?W = log_of (ev_node disk_fault) three_writes"
    by (simp add: log_of_def three_writes_def disk_fault_def)
  have cd: "codec_ok plain_codec" by (simp add: codec_ok_def plain_codec_def)
  have "\<exists>w \<in> set ?W. fst w \<le> 10" by simp
  with restore_respects_gate [OF cd _ refl W refl, where iv = 5 and elapsed = 1 and g = 10 and fs = "[]"]
  have "\<exists>i < length ?W. fst (?W ! i) \<le> 10 \<and>
      (\<forall>j < length ?W. fst (?W ! j) \<le> 10 \<longrightarrow>
         fst (?W ! j) \<le> fst (?W ! i) \<and> (j < i \<longrightarrow> fst (?W ! j) < fst (?W ! i))) \<and>
      ?res = Inr (rr_succeeded (MsgRestored 1 (ev_node disk_fault) (fst (?W ! i)) (length (log_payload (?W ! i))))
        False 1)"
    by (metis (lifting) zero_neq_numeral)
  then obtain i where i: "i < length ?W" "fst (?W ! i) \<le> 10"
      "\<forall>j < length ?W. fst (?W ! j) \<le> 10 \<longrightarrow>
         fst (?W ! j) \<le> fst (?W ! i) \<and> (j < i \<longrightarrow> fst (?W ! j) < fst (?W ! i))"
    and res: "?res = Inr (rr_succeeded (MsgRestored 1 (ev_node disk_fault) (fst (?W ! i)) (length (log_payload (?W ! i))))
      False 1)"
    by blast
  have "i = 1"
  proof -
    have "i = 0 \<or> i = 1 \<or> i = 2" using i(1) by auto
    with i(2) spec [OF i(3), of 1] show ?thesis by auto
  qed
  with res show ?thesis by (simp add: disk_fault_def)
qed

text \<open>
  C12. A damaged store is never restored silently: whatever happened to the files of a tier
  after a sequence of writes, a restore that succeeds returned bytes whose SHA-256 is the
  digest of the payload that was written as the entry it names; it never reports success
  on bytes with another digest.
\<close>

theorem tampered_restore_never_silent:
  assumes "iv \<noteq> 0"
    and "ts = write_all local_filesystem_backend cd iv ''tier1'' ws (tier_store_init fs)"
    and "W = log_of (ev_node ev) ws"
    and "restore_tier1 local_filesystem_backend cd elapsed ev g (ts\<lparr>ts_store := fs'\<rparr>) = Inr r"
    and "rr_success r"
  shows "\<exists>i < length W. \<exists>payload.
    reconstruct local_filesystem_backend cd fs' (history_of (ev_node ev) ts) i = Inr (payload, True) \<and>
    cd_sha256 cd payload = cd_sha256 cd (log_payload (W ! i)) \<and>
    rr_message r = MsgRestored 1 (ev_node ev) (fst (W ! i)) (length payload)"
proof -
  let ?h = "history_of (ev_node ev) ts"
  have ok: "node_ok local_filesystem_backend (\<lambda>r. r) cd ts (ev_node ev) W"
    using local_fs.write_all_ok [OF assms(1), where L = "\<lambda>_. []" and ts = "tier_store_init fs"]
    by (simp add: assms(2,3))
  have len: "length ?h = length W" using ok by (simp add: node_ok_def)
  have h: "history_of (ev_node ev) (ts\<lparr>ts_store := fs'\<rparr>) = ?h" by (simp add: history_of_def)
  obtain c i payload where sel: "select ?h g = Some (c, i)"
    and rc: "reconstruct local_filesystem_backend cd fs' ?h i = Inr (payload, True)"
    and r: "r = rr_succeeded (MsgRestored 1 (ev_node ev) (ck_epoch c) (length payload)) False elapsed"
    using assms(4,5)
    by (auto simp: restore_tier1_def restore_node_tier_def h split: option.splits sum.splits if_splits)
  have i: "i < length ?h \<and> ?h ! i = c"
  proof (cases g)
    case None
    with sel show ?thesis by (auto simp: select_ungated last_conv_nth split: if_splits)
  next
    case (Some g')
    with sel select_gated_Some show ?thesis by blast
  qed
  have "cd_sha256 cd payload = ck_checksum (?h ! i)"
    using rc by (auto simp: reconstruct_def Let_def index_list_def split: sum.splits option.splits if_splits)
  moreover have "ck_checksum (?h ! i) = cd_sha256 cd (log_payload (W ! i))"
    and "ck_epoch (?h ! i) = fst (W ! i)"
    using ok i len by (auto simp: node_ok_def entry_ok_def Let_def)
  ultimately show ?thesis using rc r i len by auto
qed

theorem tampered_restore_never_silent_witness:
  "let ts = write_all local_filesystem_backend plain_codec 5 ''tier1'' [(0, ''n0'', 5, False, [9])]
              (tier_store_init []);
       ts' = ts\<lparr>ts_store := [(''n0/5-0.ckpt'', [8, 8])]\<rparr>
   in \<exists>i < 1. \<exists>payload.
        reconstruct local_filesystem_backend plain_codec [(''n0/5-0.ckpt'', [8, 8])]
          (history_of ''n0'' ts) i = Inr (payload, True) \<and>
        cd_sha256 plain_codec payload = ''b''"
proof -
  let ?ws = "[(0, ''n0'', 5, False, [9])] :: ckpt_write list"
  let ?ts = "write_all local_filesystem_backend plain_codec 5 ''tier1'' ?ws (tier_store_init [])"
  have n5: "nat_str 5 = ''5''" "nat_str 0 = ''0''" by (simp_all add: nat_str.simps)
  let ?fs' = "[(''n0/5-0.ckpt'', [8, 8])]" and ?r = "rr_succeeded (MsgRestored 1 ''n0'' 5 2) False 1"
  have "history_of ''n0'' ?ts = [\<lparr>ck_epoch = 5, ck_tier = ''tier1'', ck_node = ''n0'', ck_rank = 0,
      ck_timestamp = 0, ck_fidelity_flag = False, ck_diff = False, ck_size_bytes = 1,
      ck_checksum = ''b'', ck_path = ''n0/5-0.ckpt'', ck_orig_len = 1, ck_base_index = None\<rparr>]"
    by (simp add: history_of_def write_all_def write_node_tier_def Let_def dget_or_def tier_store_init_def
        local_filesystem_backend_def plain_codec_def ckpt_relpath_def int_str_def n5)
  then have hist: "history_of ''n0'' (?ts\<lparr>ts_store := ?fs'\<rparr>) = \<dots>" by (simp add: history_of_def)
  have run: "restore_tier1 local_filesystem_backend plain_codec 1 disk_fault None (?ts\<lparr>ts_store := ?fs'\<rparr>) = Inr ?r"
    unfolding restore_tier1_def restore_node_tier_def disk_fault_def telemetry_event.simps hist
    by (simp add: select_def reconstruct_def index_list_def local_filesystem_backend_def)
       (simp add: plain_codec_def)
  have ok: "rr_success ?r" by simp
  have W: "[(5, False, [9])] = log_of (ev_node disk_fault) ?ws"
    by (simp add: log_of_def disk_fault_def)
  have n0: "ev_node disk_fault = ''n0''" by (simp add: disk_fault_def)
  from tampered_restore_never_silent [OF _ refl W run ok] obtain i payload
    where i: "i < length [(5 :: int, False, [9 :: 8 word])]"
      and rc: "reconstruct local_filesystem_backend plain_codec ?fs' (history_of ''n0'' ?ts) i = Inr (payload, True)"
      and sha: "cd_sha256 plain_codec payload = cd_sha256 plain_codec (log_payload ([(5, False, [9])] ! i))"
    unfolding n0 by (metis zero_neq_numeral)
  from i have "i = 0" by simp
  with sha have "cd_sha256 plain_codec payload = ''b''" by (simp add: plain_codec_def)
  with i rc show ?thesis unfolding Let_def by (metis One_nat_def length_Cons list.size(3))
qed

text \<open>
  Among checkpoints of one epoch the gated and the ungated restore disagree: with two
  writes for epoch 7, the ungated restore takes the second one, as \<open>latest\<close> asks, but a
  restore gated at 7 goes back to the first, because \<open>max\<close> keeps the first of equals.
\<close>

theorem gated_restore_takes_oldest_tie:
  "let ts = write_all local_filesystem_backend cd 1 ''tier1''
              [(0, ''n0'', 7, True, [1]), (0, ''n0'', 7, False, [2, 2])] (tier_store_init [])
   in restore_tier1 local_filesystem_backend cd s disk_fault (Some 7) ts =
        Inr (rr_succeeded (MsgRestored 1 ''n0'' 7 1) False s) \<and>
      restore_tier1 local_filesystem_backend cd s disk_fault None ts =
        Inr (rr_succeeded (MsgRestored 1 ''n0'' 7 2) False s)"
proof -
  have n7: "nat_str 7 = ''7''" "nat_str 0 = ''0''" "nat_str (Suc 0) = ''1''"
    by (simp_all add: nat_str.simps)
  show ?thesis
    by (simp add: restore_tier1_def restore_node_tier_def select_def history_of_def write_all_def
        write_node_tier_def Let_def dget_or_def tier_store_init_def disk_fault_def reconstruct_def
        index_list_def local_filesystem_backend_def ckpt_relpath_def int_str_def n7)
qed

subsection \<open>The remote base tier\<close>

definition base_ok ::
  "'b checkpoint_backend \<Rightarrow> (string \<Rightarrow> string) \<Rightarrow> codec \<Rightarrow> 'b storage_layer \<Rightarrow> ckpt_log \<Rightarrow> bool" where
  "base_ok B key cd lay W \<longleftrightarrow>
    length (st_tier3 lay) = length W \<and>
    (\<forall>i < length W. let c = st_tier3 lay ! i; w = W ! i
       in ck_epoch c = fst w \<and> ck_fidelity_flag c = fst (snd w) \<and>
          ck_path c = key (ckpt_relpath ''global'' (fst w) i) \<and>
          ck_checksum c = cd_sha256 cd (log_payload w) \<and>
          cb_read_bytes B (ck_path c) (st_store3 lay) = Inr (log_payload w))"

lemma base_ok_init [simp]: "base_ok B key cd (storage_init iv b) []"
  by (simp add: base_ok_def storage_init_def)

context checkpoint_store
begin

lemma write_tier3_ok:
  assumes ok: "base_ok B key cd lay W"
  shows "base_ok B key cd (snd (write_tier3 B cd now rnd e f p lay)) (W @ [(e, f, payload_or p rnd)])"
proof -
  have len: "length (st_tier3 lay) = length W" using ok by (simp add: base_ok_def)
  have split: "(case cb_write_bytes B r d s of (path, s') \<Rightarrow> g path s') =
      g (key r) (snd (cb_write_bytes B r d s))" for r d s and g :: "string \<Rightarrow> 'b \<Rightarrow> 'x"
    using write_key [of r d s] by (simp add: split_beta)
  let ?d = "payload_or p rnd"
  let ?s' = "snd (cb_write_bytes B (ckpt_relpath ''global'' e (length W)) ?d (st_store3 lay))"
  have other: "cb_read_bytes B (key (ckpt_relpath ''global'' e' i)) ?s' =
      cb_read_bytes B (key (ckpt_relpath ''global'' e' i)) (st_store3 lay)" if "i < length W" for e' i
    by (rule read_other, rule path_differs) (use that in auto)
  show ?thesis
    unfolding base_ok_def
  proof (intro conjI allI impI)
    fix i assume "i < length (W @ [(e, f, ?d)])"
    then consider "i < length W" | "i = length W" by fastforce
    then show "let c = st_tier3 (snd (write_tier3 B cd now rnd e f p lay)) ! i; w = (W @ [(e, f, ?d)]) ! i
       in ck_epoch c = fst w \<and> ck_fidelity_flag c = fst (snd w) \<and>
          ck_path c = key (ckpt_relpath ''global'' (fst w) i) \<and>
          ck_checksum c = cd_sha256 cd (log_payload w) \<and>
          cb_read_bytes B (ck_path c) (st_store3 (snd (write_tier3 B cd now rnd e f p lay))) =
            Inr (log_payload w)"
    proof cases
      case 1
      with ok have "let c = st_tier3 lay ! i; w = W ! i
       in ck_epoch c = fst w \<and> ck_fidelity_flag c = fst (snd w) \<and>
          ck_path c = key (ckpt_relpath ''global'' (fst w) i) \<and>
          ck_checksum c = cd_sha256 cd (log_payload w) \<and>
          cb_read_bytes B (ck_path c) (st_store3 lay) = Inr (log_payload w)"
        by (simp add: base_ok_def)
      with 1 other len show ?thesis
        by (auto simp: write_tier3_def Let_def split nth_append)
    next
      case 2
      with len show ?thesis by (simp add: write_tier3_def Let_def split nth_append read_written)
    qed
  qed (simp add: write_tier3_def Let_def split len)
qed

end

text \<open>Base writes in order: clock, epoch, fidelity, payload, and the random default.\<close>

definition write_bases ::
  "'b checkpoint_backend \<Rightarrow> codec \<Rightarrow> (real \<times> int \<times> bool \<times> bytes option \<times> bytes) list \<Rightarrow>
   'b storage_layer \<Rightarrow> 'b storage_layer" where
  "write_bases B cd ws lay =
    fold (\<lambda>(now, e, f, p, rnd) lay. snd (write_tier3 B cd now rnd e f p lay)) ws lay"

definition base_log :: "(real \<times> int \<times> bool \<times> bytes option \<times> bytes) list \<Rightarrow> ckpt_log" where
  "base_log ws = map (\<lambda>(now, e, f, p, rnd). (e, f, payload_or p rnd)) ws"

lemma write_bases_ok:
  "base_ok local_filesystem_backend (\<lambda>r. r) cd lay W \<Longrightarrow>
   base_ok local_filesystem_backend (\<lambda>r. r) cd (write_bases local_filesystem_backend cd ws lay) (W @ base_log ws)"
proof (induction ws arbitrary: lay W)
  case Nil
  then show ?case by (simp add: write_bases_def base_log_def)
next
  case (Cons w ws)
  obtain now e f p rnd where w: "w = (now, e, f, p, rnd)" by (cases w) auto
  from Cons.IH [OF local_fs.write_tier3_ok [OF Cons.prems]] show ?case
    by (simp add: write_bases_def base_log_def w)
qed

text \<open>
  The remote base tier is one history for the whole job: after any sequence of base
  writes on the local filesystem, a tier-3 restore gated at \<open>g\<close> succeeds exactly when some
  base has an epoch up to \<open>g\<close>, and then names the largest such epoch; the event's node
  plays no part.
\<close>

theorem base_restore_respects_gate:
  assumes "lay = write_bases local_filesystem_backend cd ws (storage_init iv fs)"
  shows "restore_tier3 local_filesystem_backend cd elapsed (Some g) lay =
    (let epochs = filter (\<lambda>e. e \<le> g) (map fst (base_log ws))
     in if epochs = [] then Inr (rr_failure MsgNoBaseCheckpoint)
        else Inr (rr_succeeded (MsgRestoredBase (Max (set epochs))) False elapsed))"
proof -
  have ok: "base_ok local_filesystem_backend (\<lambda>r. r) cd lay (base_log ws)"
    using write_bases_ok [OF base_ok_init, of cd ws iv fs] by (simp add: assms)
  let ?W = "base_log ws" and ?h = "st_tier3 lay"
  have len: "length ?h = length ?W" using ok by (simp add: base_ok_def)
  have ent: "ck_epoch (?h ! i) = fst (?W ! i)" "ck_checksum (?h ! i) = cd_sha256 cd (log_payload (?W ! i))"
    "cb_read_bytes local_filesystem_backend (ck_path (?h ! i)) (st_store3 lay) = Inr (log_payload (?W ! i))"
    if "i < length ?W" for i
    using ok that unfolding base_ok_def Let_def by blast+
  show ?thesis
  proof (cases "select ?h (Some g)")
    case None
    then have "\<forall>i < length ?W. g < fst (?W ! i)"
      unfolding select_gated_None all_set_conv_all_nth using ent(1) len by auto
    then have "filter (\<lambda>e. e \<le> g) (map fst ?W) = []"
      by (auto simp: filter_empty_conv in_set_conv_nth not_le)
         (metis fst_conv)
    with None show ?thesis by (simp add: restore_tier3_def)
  next
    case (Some ci)
    obtain c i where ci: "ci = (c, i)" by force
    from select_gated_Some [OF Some [unfolded ci]] have i: "i < length ?W" "?h ! i = c" "fst (?W ! i) \<le> g"
      and top: "\<forall>j < length ?W. fst (?W ! j) \<le> g \<longrightarrow> fst (?W ! j) \<le> fst (?W ! i)"
      using ent(1) len by auto
    let ?es = "filter (\<lambda>e. e \<le> g) (map fst ?W)"
    have mem: "fst (?W ! i) \<in> set ?es" using i by simp
    then have ne: "?es \<noteq> []" by (metis empty_iff list.set(1))
    note mem
    moreover from top have "\<forall>e \<in> set ?es. e \<le> fst (?W ! i)"
      by (auto simp: in_set_conv_nth) (metis fst_conv)
    ultimately have "Max (set ?es) = fst (?W ! i)" by (auto intro!: Max_eqI)
    with ne Some ci i ent [OF i(1)] show ?thesis by (simp add: restore_tier3_def Let_def)
  qed
qed

theorem base_restore_respects_gate_witness:
  "restore_tier3 local_filesystem_backend plain_codec 1 (Some 5)
     (write_bases local_filesystem_backend plain_codec
       [(0, 3, False, Some [1], []), (0, 4, False, None, [7]), (0, 6, False, Some [2], [])]
       (storage_init 5 [])) = Inr (rr_succeeded (MsgRestoredBase 4) False 1)"
  using base_restore_respects_gate [OF refl, of plain_codec 1 5
      "[(0, 3, False, Some [1], []), (0, 4, False, None, [7]), (0, 6, False, Some [2], [])]" 5 "[]"]
  by (simp add: base_log_def Let_def)

subsection \<open>The layer keeps the contract of a recovery layer\<close>

text \<open>Every tier is consistent with some log of writes.\<close>

definition storage_inv :: "codec \<Rightarrow> filesystem storage_layer \<Rightarrow> bool" where
  "storage_inv cd lay \<longleftrightarrow>
    (\<exists>L1. \<forall>n. node_ok local_filesystem_backend (\<lambda>r. r) cd (st_tier1 lay) n (L1 n)) \<and>
    (\<exists>L2. \<forall>n. node_ok local_filesystem_backend (\<lambda>r. r) cd (st_tier2 lay) n (L2 n)) \<and>
    (\<exists>L3. base_ok local_filesystem_backend (\<lambda>r. r) cd lay L3)"

lemma storage_inv_init [simp]: "storage_inv cd (storage_init iv fs)"
  unfolding storage_inv_def
  by (intro conjI exI [of _ "\<lambda>_. []"] exI [of _ "[]"]) (simp_all add: storage_init_def base_ok_def)

lemma storage_failure_blank:
  "fst (storage_recover B cd s ev t ep g lay) = Inr r \<Longrightarrow> \<not> rr_success r \<Longrightarrow>
   \<not> rr_degraded r \<and> rr_recovery_secs r = 0"
  unfolding storage_recover_def restore_tier1_def restore_tier2_def restore_tier3_def restore_node_tier_def
  by (auto split: if_splits option.splits sum.splits prod.splits)

lemma storage_state [simp]: "snd (storage_recover B cd s ev t ep g lay) = lay"
  by (simp add: storage_recover_def)

interpretation storage: recovery_contract
  storage_tiers storage_can_handle "storage_recover local_filesystem_backend cd s" "storage_inv cd" for cd s
  by unfold_locales
     (auto simp: storage_tiers_def storage_can_handle_def dest: storage_failure_blank)

text \<open>A lost file of the selected checkpoint makes the restore raise instead of failing.\<close>

lemma restore_lost_file_raises:
  assumes "select (history_of (ev_node ev) ts) g = Some (c, i)" and "i < length (history_of (ev_node ev) ts)"
    and "history_of (ev_node ev) ts ! i = c" and "dget (ts_store ts) (ck_path c) = None"
  shows "restore_tier1 local_filesystem_backend cd s ev g ts = Inl FileNotFoundErr"
  using assms
  by (simp add: restore_tier1_def restore_node_tier_def reconstruct_def index_list_def
      local_filesystem_backend_def)

end
