(* ===== verification/Epochs.thy ===== *)
theory Epochs
  imports Aegis_Prelude
begin

text \<open>
  The fault epoch service of \<open>aegis/epoch/service.py\<close>: the counter and its three
  operations, the interface of a monotone counter that its clients rely on, and the
  interleaved execution of \<open>next_epoch\<close> by any number of threads, where the increment is
  broken into the loads and stores that the lock has to protect.
\<close>

subsection \<open>The service and its operations\<close>

record epoch_service =
  es_epoch :: int

definition epoch_init :: "int \<Rightarrow> epoch_service" where
  "epoch_init initial = \<lparr>es_epoch = initial\<rparr>"

definition epoch_current :: "epoch_service \<Rightarrow> int" where
  "epoch_current e = es_epoch e"

definition next_epoch :: "epoch_service \<Rightarrow> int \<times> epoch_service" where
  "next_epoch e = (es_epoch e + 1, e\<lparr>es_epoch := es_epoch e + 1\<rparr>)"

definition epoch_tag :: "epoch_service \<Rightarrow> int" where
  "epoch_tag e = epoch_current e"

subsection \<open>The interface: a counter that only moves up\<close>

locale monotone_counter =
  fixes cur :: "'s \<Rightarrow> int"
    and nxt :: "'s \<Rightarrow> int \<times> 's"
  assumes nxt_returns_cur: "fst (nxt s) = cur (snd (nxt s))"
    and nxt_succ: "cur (snd (nxt s)) = cur s + 1"
begin

fun draw :: "nat \<Rightarrow> 's \<Rightarrow> int list \<times> 's" where
  "draw 0 s = ([], s)"
| "draw (Suc n) s = (case nxt s of (i, s') \<Rightarrow> case draw n s' of (is, s'') \<Rightarrow> (i # is, s''))"

lemma draw_values: "draw n s = (is, s') \<Longrightarrow> is = [cur s + 1..cur s + int n] \<and> cur s' = cur s + int n"
proof (induction n arbitrary: s "is" s')
  case 0
  then show ?case by simp
next
  case (Suc n)
  obtain i t where nx: "nxt s = (i, t)" by (cases "nxt s")
  obtain js u where dr: "draw n t = (js, u)" by (cases "draw n t")
  from nx nxt_returns_cur [of s] nxt_succ [of s] have i: "i = cur s + 1" and t: "cur t = cur s + 1"
    by simp_all
  from Suc.IH [OF dr] t have "js = [cur s + 2..cur s + int (Suc n)]" "cur u = cur s + int (Suc n)"
    by (simp_all add: algebra_simps)
  with Suc.prems nx dr i show ?case
    by (auto simp: upto_rec1 add.commute)
qed

lemma nxt_strict: "cur s < fst (nxt s)"
  by (simp add: nxt_returns_cur nxt_succ)

end

interpretation epoch: monotone_counter epoch_current next_epoch
  by unfold_locales (simp_all add: epoch_current_def next_epoch_def)

lemma epoch_current_init [simp]: "epoch_current (epoch_init i) = i"
  by (simp add: epoch_current_def epoch_init_def)

lemma epoch_tag_current [simp]: "epoch_tag e = epoch_current e"
  by (simp add: epoch_tag_def)

lemma next_epoch_eq [simp]:
  "fst (next_epoch e) = epoch_current e + 1"
  "epoch_current (snd (next_epoch e)) = epoch_current e + 1"
  by (simp_all add: next_epoch_def epoch_current_def)

subsection \<open>Threads racing for the counter\<close>

text \<open>
  One thread inside \<open>next_epoch\<close> waits for the lock, loads the counter, stores the sum,
  loads the value to return and releases the lock (the \<open>with\<close> block ends); the steps of
  different threads interleave freely. \<open>sys_returned\<close> records the values the calls return,
  in the order of the releases.
\<close>

datatype epoch_pc =
    Out | WaitLock | Holding | Loaded int | Stored | Returning int

record epoch_sys =
  sys_epoch :: int
  sys_lock :: "nat option"
  sys_pc :: "nat \<Rightarrow> epoch_pc"
  sys_returned :: "(nat \<times> int) list"

definition epoch_sys_init :: "int \<Rightarrow> epoch_sys" where
  "epoch_sys_init i =
    \<lparr>sys_epoch = i, sys_lock = None, sys_pc = (\<lambda>_. Out), sys_returned = []\<rparr>"

inductive epoch_step :: "epoch_sys \<Rightarrow> epoch_sys \<Rightarrow> bool" where
  call: "sys_pc s t = Out \<Longrightarrow> epoch_step s (s\<lparr>sys_pc := (sys_pc s)(t := WaitLock)\<rparr>)"
| acquire: "sys_pc s t = WaitLock \<Longrightarrow> sys_lock s = None \<Longrightarrow>
    epoch_step s (s\<lparr>sys_lock := Some t, sys_pc := (sys_pc s)(t := Holding)\<rparr>)"
| load: "sys_pc s t = Holding \<Longrightarrow>
    epoch_step s (s\<lparr>sys_pc := (sys_pc s)(t := Loaded (sys_epoch s))\<rparr>)"
| store: "sys_pc s t = Loaded v \<Longrightarrow>
    epoch_step s (s\<lparr>sys_epoch := v + 1, sys_pc := (sys_pc s)(t := Stored)\<rparr>)"
| reload: "sys_pc s t = Stored \<Longrightarrow>
    epoch_step s (s\<lparr>sys_pc := (sys_pc s)(t := Returning (sys_epoch s))\<rparr>)"
| release: "sys_pc s t = Returning v \<Longrightarrow>
    epoch_step s (s\<lparr>sys_lock := None, sys_pc := (sys_pc s)(t := Out),
      sys_returned := sys_returned s @ [(t, v)]\<rparr>)"

inductive epoch_reach :: "int \<Rightarrow> epoch_sys \<Rightarrow> bool" for i where
  start: "epoch_reach i (epoch_sys_init i)"
| step: "epoch_reach i s \<Longrightarrow> epoch_step s s' \<Longrightarrow> epoch_reach i s'"

text \<open>A thread is in its critical section between the acquisition and the release.\<close>

fun critical :: "epoch_pc \<Rightarrow> bool" where
  "critical Out = False"
| "critical WaitLock = False"
| "critical _ = True"

text \<open>How far the counter is ahead of the values returned, by the holder's position.\<close>

fun ahead :: "epoch_pc \<Rightarrow> int" where
  "ahead Stored = 1"
| "ahead (Returning v) = 1"
| "ahead _ = 0"

definition epoch_inv :: "int \<Rightarrow> epoch_sys \<Rightarrow> bool" where
  "epoch_inv i s \<longleftrightarrow>
     (\<forall>t. critical (sys_pc s t) \<longleftrightarrow> sys_lock s = Some t) \<and>
     (\<forall>t v. sys_pc s t = Loaded v \<longrightarrow> v = sys_epoch s) \<and>
     (\<forall>t v. sys_pc s t = Returning v \<longrightarrow> v = sys_epoch s) \<and>
     map snd (sys_returned s) = [i + 1..i + int (length (sys_returned s))] \<and>
     sys_epoch s = i + int (length (sys_returned s)) +
       (case sys_lock s of None \<Rightarrow> 0 | Some t \<Rightarrow> ahead (sys_pc s t))"

lemma epoch_inv_init: "epoch_inv i (epoch_sys_init i)"
  by (simp add: epoch_inv_def epoch_sys_init_def)

lemma epoch_inv_lock:
  "epoch_inv i s \<Longrightarrow> critical (sys_pc s t) \<Longrightarrow> sys_lock s = Some t"
  by (simp add: epoch_inv_def)

lemma epoch_inv_one:
  "epoch_inv i s \<Longrightarrow> critical (sys_pc s t) \<Longrightarrow> critical (sys_pc s u) \<Longrightarrow> u = t"
  by (simp add: epoch_inv_def)

lemma epoch_inv_counter:
  "epoch_inv i s \<Longrightarrow> critical (sys_pc s t) \<Longrightarrow>
   sys_epoch s = i + int (length (sys_returned s)) + ahead (sys_pc s t)"
  by (simp add: epoch_inv_def)

lemma epoch_inv_returning: "epoch_inv i s \<Longrightarrow> sys_pc s t = Returning v \<Longrightarrow> v = sys_epoch s"
  unfolding epoch_inv_def by blast

lemma epoch_step_inv: "epoch_step s s' \<Longrightarrow> epoch_inv i s \<Longrightarrow> epoch_inv i s'"
proof (induction rule: epoch_step.induct)
  case (call s t)
  then have "sys_lock s \<noteq> Some t" by (metis critical.simps(1) epoch_inv_def)
  with call show ?case by (auto simp: epoch_inv_def split: option.splits)
next
  case (acquire s t)
  then show ?case by (auto simp: epoch_inv_def)
next
  case (load s t)
  then have l: "sys_lock s = Some t" by (simp add: epoch_inv_lock)
  with load show ?case by (auto simp: epoch_inv_def)
next
  case (store s t v)
  then have l: "sys_lock s = Some t" by (simp add: epoch_inv_lock)
  have "critical (sys_pc s u) \<Longrightarrow> u = t" for u
    using store epoch_inv_one [of i s t u] by simp
  then have others: "u \<noteq> t \<Longrightarrow> \<not> critical (sys_pc s u)" for u by blast
  have "u \<noteq> t \<Longrightarrow> sys_pc s u \<noteq> Loaded w \<and> sys_pc s u \<noteq> Returning w" for u w
    using others [of u] by (cases "sys_pc s u") auto
  with store l show ?case by (auto simp: epoch_inv_def)
next
  case (reload s t)
  then have l: "sys_lock s = Some t" by (simp add: epoch_inv_lock)
  with reload show ?case by (auto simp: epoch_inv_def)
next
  case (release s t v)
  then have l: "sys_lock s = Some t" by (simp add: epoch_inv_lock)
  have snoc: "[i + 1..i + int n] @ [i + int n + 1] = [i + 1..i + int (Suc n)]" for n
  proof -
    have "[i + 1..i + int n + 1] = [i + 1..i + int n + 1 - 1] @ [i + int n + 1]"
      by (rule upto_rec2) simp
    then show ?thesis by (simp add: add.assoc add.commute [of 1])
  qed
  have cnt: "sys_epoch s = i + int (length (sys_returned s)) + 1"
    using release epoch_inv_counter [of i s t] by simp
  have v: "v = i + int (length (sys_returned s)) + 1"
    using release epoch_inv_returning [of i s t v] cnt by simp
  have others: "u \<noteq> t \<Longrightarrow> \<not> critical (sys_pc s u)" for u
    using release epoch_inv_one [of i s t u] by auto
  have "u \<noteq> t \<Longrightarrow> sys_pc s u \<noteq> Loaded w \<and> sys_pc s u \<noteq> Returning w" for u w
    using others [of u] by (cases "sys_pc s u") auto
  moreover have "map snd (sys_returned s) = [i + 1..i + int (length (sys_returned s))]"
    using release.prems by (simp add: epoch_inv_def)
  ultimately show ?case
    using others cnt v snoc [of "length (sys_returned s)"] by (simp add: epoch_inv_def)
qed

lemma epoch_reach_inv: "epoch_reach i s \<Longrightarrow> epoch_inv i s"
  by (induction rule: epoch_reach.induct) (auto intro: epoch_inv_init epoch_step_inv)

text \<open>
  C19. Epoch numbers under race: however the threads' calls of \<open>next_epoch\<close> interleave at
  the level of single loads and stores, the values they return, in the order the lock is
  released, are exactly the consecutive numbers after the initial one; so no epoch is
  returned twice and none is skipped, and the counter never lags behind a returned value.
\<close>

theorem concurrent_epochs_unique:
  assumes "epoch_reach i s"
  shows "map snd (sys_returned s) = [i + 1..i + int (length (sys_returned s))] \<and>
    distinct (map snd (sys_returned s)) \<and>
    (\<forall>(t, v) \<in> set (sys_returned s). v \<le> sys_epoch s)"
proof -
  have inv: "epoch_inv i s" using assms by (rule epoch_reach_inv)
  then have vals: "map snd (sys_returned s) = [i + 1..i + int (length (sys_returned s))]"
    by (simp add: epoch_inv_def)
  moreover have "0 \<le> ahead p" for p by (cases p) auto
  then have "i + int (length (sys_returned s)) \<le> sys_epoch s"
    using inv by (auto simp: epoch_inv_def split: option.splits)
  moreover have "v \<le> i + int (length (sys_returned s))" if "(t, v) \<in> set (sys_returned s)" for t v
  proof -
    from that have "v \<in> set (map snd (sys_returned s))" by force
    then show ?thesis by (simp only: vals) simp
  qed
  ultimately show ?thesis by fastforce
qed

lemma epoch_reach_one_call:
  "\<exists>s. epoch_reach 0 s \<and> sys_returned s = [(7, 1)]"
proof -
  let ?s0 = "epoch_sys_init 0"
  let ?s1 = "?s0\<lparr>sys_pc := (sys_pc ?s0)(7 := WaitLock)\<rparr>"
  let ?s2 = "?s1\<lparr>sys_lock := Some 7, sys_pc := (sys_pc ?s1)(7 := Holding)\<rparr>"
  let ?s3 = "?s2\<lparr>sys_pc := (sys_pc ?s2)(7 := Loaded (sys_epoch ?s2))\<rparr>"
  let ?s4 = "?s3\<lparr>sys_epoch := 0 + 1, sys_pc := (sys_pc ?s3)(7 := Stored)\<rparr>"
  let ?s5 = "?s4\<lparr>sys_pc := (sys_pc ?s4)(7 := Returning (sys_epoch ?s4))\<rparr>"
  let ?s6 = "?s5\<lparr>sys_lock := None, sys_pc := (sys_pc ?s5)(7 := Out),
      sys_returned := sys_returned ?s5 @ [(7, 1)]\<rparr>"
  have "epoch_reach 0 ?s1"
    by (rule epoch_reach.step [OF epoch_reach.start epoch_step.call]) (simp add: epoch_sys_init_def)
  then have "epoch_reach 0 ?s2"
    by (rule epoch_reach.step [OF _ epoch_step.acquire]) (simp_all add: epoch_sys_init_def)
  then have "epoch_reach 0 ?s3"
    by (rule epoch_reach.step [OF _ epoch_step.load]) simp
  then have "epoch_reach 0 ?s4"
    by (rule epoch_reach.step [OF _ epoch_step.store]) (simp add: epoch_sys_init_def)
  then have "epoch_reach 0 ?s5"
    by (rule epoch_reach.step [OF _ epoch_step.reload]) simp
  then have "epoch_reach 0 ?s6"
    by (rule epoch_reach.step [OF _ epoch_step.release]) simp
  then show ?thesis by (intro exI conjI) (assumption, simp add: epoch_sys_init_def)
qed

theorem concurrent_epochs_unique_witness:
  "\<exists>s. epoch_reach 0 s \<and> sys_returned s = [(7, 1)] \<and> distinct (map snd (sys_returned s))"
  using epoch_reach_one_call concurrent_epochs_unique by blast

end
