(* ===== verification/Consensus.thy ===== *)
theory Consensus
  imports Aegis_Prelude
begin

text \<open>
  The unified recovery consensus of \<open>aegis/consensus/urc.py\<close>: the table of the epochs the
  ranks have reported, and the reduction over the surviving ranks.
\<close>

record recovery_decision =
  rd_epoch :: int
  rd_min_valid_epoch :: int
  rd_surviving_ranks :: "int list"
  rd_agreed :: bool
  rd_reason :: string

record urc =
  rank_epochs :: "(int, int) dict"

definition urc_init :: urc where
  "urc_init = \<lparr>rank_epochs = []\<rparr>"

definition report_epoch :: "int \<Rightarrow> int \<Rightarrow> urc \<Rightarrow> urc" where
  "report_epoch rank epoch u = u\<lparr>rank_epochs := dset rank epoch (rank_epochs u)\<rparr>"

definition agree :: "int list \<Rightarrow> int \<Rightarrow> urc \<Rightarrow> recovery_decision" where
  "agree active_ranks current_epoch u =
    (let surviving = filter (\<lambda>r. dget (rank_epochs u) r \<noteq> None) active_ranks
     in if surviving = []
        then \<lparr>rd_epoch = current_epoch, rd_min_valid_epoch = 0, rd_surviving_ranks = [],
              rd_agreed = False, rd_reason = ''No surviving ranks with known epoch''\<rparr>
        else let min_epoch = Min (set (map (\<lambda>r. the (dget (rank_epochs u) r)) surviving))
             in \<lparr>rd_epoch = current_epoch, rd_min_valid_epoch = min_epoch,
                 rd_surviving_ranks = surviving, rd_agreed = True,
                 rd_reason = ''Min across '' @ nat_str (length surviving) @ '' surviving ranks''\<rparr>)"

definition clear_rank :: "int \<Rightarrow> urc \<Rightarrow> urc" where
  "clear_rank rank u = u\<lparr>rank_epochs := AList.delete rank (rank_epochs u)\<rparr>"

definition all_ranks :: "urc \<Rightarrow> int list" where
  "all_ranks u = dkeys (rank_epochs u)"

subsection \<open>Lookups after updates\<close>

lemma report_epoch_lookup [simp]:
  "dget (rank_epochs (report_epoch r e u)) r' = (if r' = r then Some e else dget (rank_epochs u) r')"
  by (simp add: report_epoch_def)

lemma clear_rank_lookup [simp]:
  "dget (rank_epochs (clear_rank r u)) r' = (if r' = r then None else dget (rank_epochs u) r')"
  by (simp add: clear_rank_def delete_conv')

lemma set_all_ranks: "r \<in> set (all_ranks u) \<longleftrightarrow> (\<exists>e. dget (rank_epochs u) r = Some e)"
  by (metis all_ranks_def dget_None_iff not_None_eq)

definition urc_ok :: "urc \<Rightarrow> bool" where
  "urc_ok u \<longleftrightarrow> distinct (all_ranks u)"

lemma urc_ok_init [simp]: "urc_ok urc_init"
  by (simp add: urc_ok_def all_ranks_def urc_init_def)

lemma urc_ok_report [intro]: "urc_ok u \<Longrightarrow> urc_ok (report_epoch r e u)"
  by (auto simp: urc_ok_def all_ranks_def report_epoch_def)

lemma urc_ok_clear [intro]: "urc_ok u \<Longrightarrow> urc_ok (clear_rank r u)"
  by (simp add: urc_ok_def all_ranks_def clear_rank_def distinct_delete)

subsection \<open>The reduction\<close>

lemma agree_agreed: "rd_agreed (agree rs c u) \<longleftrightarrow> (\<exists>r \<in> set rs. dget (rank_epochs u) r \<noteq> None)"
proof -
  have "rd_agreed (agree rs c u) \<longleftrightarrow> filter (\<lambda>r. dget (rank_epochs u) r \<noteq> None) rs \<noteq> []"
    by (cases "filter (\<lambda>r. dget (rank_epochs u) r \<noteq> None) rs = []")
       (simp_all only: agree_def Let_def if_True if_False recovery_decision.simps simp_thms)
  then show ?thesis by (simp only: filter_empty_conv) blast
qed

lemma agree_lower:
  assumes "r \<in> set rs" and "dget (rank_epochs u) r = Some e"
  shows "rd_min_valid_epoch (agree rs c u) \<le> e"
proof -
  let ?sv = "filter (\<lambda>r. dget (rank_epochs u) r \<noteq> None) rs"
  have mem: "r \<in> set ?sv" using assms by simp
  then have "?sv \<noteq> []" by (metis list.distinct(1) list.set_cases)
  moreover have "e \<in> set (map (\<lambda>r. the (dget (rank_epochs u) r)) ?sv)"
    using mem assms(2) by force
  then have "Min (set (map (\<lambda>r. the (dget (rank_epochs u) r)) ?sv)) \<le> e"
    by (intro Min_le) auto
  ultimately show ?thesis by (simp add: agree_def Let_def)
qed

lemma agree_attained:
  assumes "rd_agreed (agree rs c u)"
  shows "\<exists>r \<in> set rs. dget (rank_epochs u) r = Some (rd_min_valid_epoch (agree rs c u))"
proof -
  let ?sv = "filter (\<lambda>r. dget (rank_epochs u) r \<noteq> None) rs"
  from assms have ne: "?sv \<noteq> []" unfolding agree_agreed filter_empty_conv by blast
  then have "set (map (\<lambda>r. the (dget (rank_epochs u) r)) ?sv) \<noteq> {}"
    by (simp only: set_empty map_is_Nil_conv not_False_eq_True)
  then have "Min (set (map (\<lambda>r. the (dget (rank_epochs u) r)) ?sv))
      \<in> (\<lambda>r. the (dget (rank_epochs u) r)) ` set ?sv"
    unfolding set_map [symmetric] by (rule Min_in [OF finite_set])
  then obtain r where r: "r \<in> set ?sv"
    and min: "Min (set (map (\<lambda>r. the (dget (rank_epochs u) r)) ?sv)) = the (dget (rank_epochs u) r)"
    by (rule imageE)
  have "rd_min_valid_epoch (agree rs c u) = the (dget (rank_epochs u) r)"
    using ne min by (simp only: agree_def Let_def if_False recovery_decision.simps)
  moreover from r obtain e where "r \<in> set rs" "dget (rank_epochs u) r = Some e" by auto
  ultimately show ?thesis by auto
qed

text \<open>
  The consensus is the greatest epoch every surviving rank has reached: agree agrees
  exactly when one of the given ranks has reported; then its epoch is reported by one of
  them and is at most what each of them has reported, so it is the largest such bound. The
  surviving ranks it returns are the given ranks that have reported, in their order.
\<close>

theorem agree_greatest_common_epoch:
  assumes "\<exists>r \<in> set rs. dget (rank_epochs u) r \<noteq> None"
  shows "rd_agreed (agree rs c u) \<and>
    rd_surviving_ranks (agree rs c u) = filter (\<lambda>r. dget (rank_epochs u) r \<noteq> None) rs \<and>
    (\<forall>b. b \<le> rd_min_valid_epoch (agree rs c u) \<longleftrightarrow>
       (\<forall>r \<in> set rs. \<forall>e. dget (rank_epochs u) r = Some e \<longrightarrow> b \<le> e))"
proof (intro conjI allI)
  show ag: "rd_agreed (agree rs c u)" using assms by (simp add: agree_agreed)
  then show "rd_surviving_ranks (agree rs c u) = filter (\<lambda>r. dget (rank_epochs u) r \<noteq> None) rs"
    by (auto simp: agree_def Let_def)
  fix b
  from agree_attained [OF ag] obtain r where
    r: "r \<in> set rs" "dget (rank_epochs u) r = Some (rd_min_valid_epoch (agree rs c u))" by blast
  then show "b \<le> rd_min_valid_epoch (agree rs c u) \<longleftrightarrow>
      (\<forall>r \<in> set rs. \<forall>e. dget (rank_epochs u) r = Some e \<longrightarrow> b \<le> e)"
    using agree_lower [of _ rs u _ c] by (meson order_trans)
qed

theorem agree_greatest_common_epoch_witness:
  "rd_agreed (agree [3, 1, 2] 9 \<lparr>rank_epochs = [(1, 5), (2, 4), (7, 0)]\<rparr>) \<and>
   rd_min_valid_epoch (agree [3, 1, 2] 9 \<lparr>rank_epochs = [(1, 5), (2, 4), (7, 0)]\<rparr>) = 4"
proof -
  let ?u = "\<lparr>rank_epochs = [(1, 5), (2, 4), (7, 0)]\<rparr>"
  have "\<exists>r \<in> set [3, 1, 2]. dget (rank_epochs ?u) r \<noteq> None" by simp
  from agree_greatest_common_epoch [OF this, of 9] show ?thesis by (simp add: agree_def)
qed

text \<open>Without any report there is no agreement and no bound to use.\<close>

lemma agree_none:
  "\<forall>r \<in> set rs. dget (rank_epochs u) r = None \<Longrightarrow>
   agree rs c u = \<lparr>rd_epoch = c, rd_min_valid_epoch = 0, rd_surviving_ranks = [], rd_agreed = False,
     rd_reason = ''No surviving ranks with known epoch''\<rparr>"
  by (simp add: agree_def Let_def filter_empty_conv)

end
