(* ===== verification/Kpi.thy ===== *)
theory Kpi
  imports Events
begin

text \<open>
  The cost and KPI meter of \<open>aegis/kpi.py\<close>: one record per recovered fault with the hours
  and dollars saved against the checkpoint-and-restart baseline of its tier, and the
  summary the dashboard shows.
\<close>

definition baseline_recovery_secs :: "(blast_radius, real) dict" where
  "baseline_recovery_secs = [(B0, 60), (B1, 900), (B2, 600), (B3, 1800), (B4, 3600)]"

record fault_kpi =
  fk_epoch :: int
  fk_tier :: blast_radius
  fk_recovery_secs :: real
  fk_baseline_secs :: real
  fk_gpu_count :: int
  fk_gpu_hr_cost :: real
  fk_gpu_hrs_saved :: real
  fk_dollars_saved :: real

text \<open>The constructor with its \<open>__post_init__\<close>.\<close>

definition mk_fault_kpi :: "int \<Rightarrow> blast_radius \<Rightarrow> real \<Rightarrow> real \<Rightarrow> int \<Rightarrow> real \<Rightarrow> fault_kpi" where
  "mk_fault_kpi epoch tier recovery_time_secs baseline_time_secs gpu_count gpu_hr_cost =
    (let time_saved = max 0 (baseline_time_secs - recovery_time_secs);
         gpu_hrs_saved = (time_saved / 3600) * of_int gpu_count;
         dollars_saved = gpu_hrs_saved * gpu_hr_cost
     in \<lparr>fk_epoch = epoch, fk_tier = tier, fk_recovery_secs = recovery_time_secs,
         fk_baseline_secs = baseline_time_secs, fk_gpu_count = gpu_count,
         fk_gpu_hr_cost = gpu_hr_cost, fk_gpu_hrs_saved = gpu_hrs_saved,
         fk_dollars_saved = dollars_saved\<rparr>)"

record kpi_meter =
  km_gpu_hr_cost :: real
  km_records :: "fault_kpi list"

definition kpi_init :: "real \<Rightarrow> kpi_meter" where
  "kpi_init gpu_hr_cost = \<lparr>km_gpu_hr_cost = gpu_hr_cost, km_records = []\<rparr>"

definition kpi_record :: "int \<Rightarrow> blast_radius \<Rightarrow> real \<Rightarrow> int \<Rightarrow> kpi_meter \<Rightarrow> kpi_meter" where
  "kpi_record epoch tier recovery_time_secs gpu_count m =
    (let baseline = dget_or baseline_recovery_secs tier 600
     in m\<lparr>km_records := km_records m @
          [mk_fault_kpi epoch tier recovery_time_secs baseline gpu_count (km_gpu_hr_cost m)]\<rparr>)"

definition total_dollars_saved :: "kpi_meter \<Rightarrow> real" where
  "total_dollars_saved m = sum_list (map fk_dollars_saved (km_records m))"

definition total_gpu_hrs_saved :: "kpi_meter \<Rightarrow> real" where
  "total_gpu_hrs_saved m = sum_list (map fk_gpu_hrs_saved (km_records m))"

record tier_kpi =
  tk_count :: nat
  tk_dollars_saved :: real
  tk_gpu_hrs_saved :: real

record kpi_summary =
  ks_faults_handled :: nat
  ks_total_dollars_saved :: real
  ks_total_gpu_hrs_saved :: real
  ks_by_tier :: "(string, tier_kpi) dict"

definition tier_summary :: "kpi_meter \<Rightarrow> blast_radius \<Rightarrow> tier_kpi" where
  "tier_summary m tier =
    (let tier_records = filter (\<lambda>r. fk_tier r = tier) (km_records m)
     in \<lparr>tk_count = length tier_records,
         tk_dollars_saved = sum_list (map fk_dollars_saved tier_records),
         tk_gpu_hrs_saved = sum_list (map fk_gpu_hrs_saved tier_records)\<rparr>)"

definition kpi_summarise :: "kpi_meter \<Rightarrow> kpi_summary" where
  "kpi_summarise m =
    \<lparr>ks_faults_handled = length (km_records m),
     ks_total_dollars_saved = total_dollars_saved m,
     ks_total_gpu_hrs_saved = total_gpu_hrs_saved m,
     ks_by_tier = map (\<lambda>tier. (tier_name tier, tier_summary m tier)) all_tiers\<rparr>"

subsection \<open>What a record holds\<close>

lemma baseline_positive: "0 < dget_or baseline_recovery_secs tier 600"
  by (cases tier) (auto simp: baseline_recovery_secs_def dget_or_def)

lemma baseline_le_3600: "dget_or baseline_recovery_secs tier 600 \<le> 3600"
  by (cases tier) (auto simp: baseline_recovery_secs_def dget_or_def)

definition fault_kpi_ok :: "fault_kpi \<Rightarrow> bool" where
  "fault_kpi_ok k \<longleftrightarrow>
     fk_gpu_hrs_saved k = max 0 (fk_baseline_secs k - fk_recovery_secs k) / 3600 * of_int (fk_gpu_count k) \<and>
     fk_dollars_saved k = fk_gpu_hrs_saved k * fk_gpu_hr_cost k"

definition kpi_ok :: "kpi_meter \<Rightarrow> bool" where
  "kpi_ok m \<longleftrightarrow> (\<forall>k \<in> set (km_records m). fault_kpi_ok k \<and>
     fk_gpu_hr_cost k = km_gpu_hr_cost m \<and>
     fk_baseline_secs k = dget_or baseline_recovery_secs (fk_tier k) 600)"

lemma kpi_ok_init [simp]: "kpi_ok (kpi_init c)"
  by (simp add: kpi_ok_def kpi_init_def)

lemma kpi_ok_record [intro]: "kpi_ok m \<Longrightarrow> kpi_ok (kpi_record e t r g m)"
  by (auto simp: kpi_ok_def kpi_record_def mk_fault_kpi_def fault_kpi_ok_def Let_def)

lemma kpi_record_cost [simp, frame_simps]: "km_gpu_hr_cost (kpi_record e t r g m) = km_gpu_hr_cost m"
  by (simp add: kpi_record_def Let_def)

lemma total_record:
  "total_gpu_hrs_saved (kpi_record e t r g m) = total_gpu_hrs_saved m +
     max 0 (dget_or baseline_recovery_secs t 600 - r) / 3600 * of_int g"
  "total_dollars_saved (kpi_record e t r g m) = total_dollars_saved m +
     max 0 (dget_or baseline_recovery_secs t 600 - r) / 3600 * of_int g * km_gpu_hr_cost m"
  by (simp_all add: total_gpu_hrs_saved_def total_dollars_saved_def kpi_record_def mk_fault_kpi_def Let_def)

lemma kpi_ok_dollars: "kpi_ok m \<Longrightarrow> total_dollars_saved m = total_gpu_hrs_saved m * km_gpu_hr_cost m"
proof -
  assume ok: "kpi_ok m"
  have "map fk_dollars_saved (km_records m) = map (\<lambda>k. fk_gpu_hrs_saved k * km_gpu_hr_cost m) (km_records m)"
    using ok by (auto simp: kpi_ok_def fault_kpi_ok_def)
  then have "total_dollars_saved m = sum_list (map (\<lambda>k. fk_gpu_hrs_saved k * km_gpu_hr_cost m) (km_records m))"
    by (simp only: total_dollars_saved_def)
  then show ?thesis
    by (simp only: total_gpu_hrs_saved_def sum_list_mult_right)
qed

lemma sum_by_tier:
  "sum_list (map (\<lambda>t. sum_list (map f (filter (\<lambda>r. fk_tier r = t) rs))) all_tiers) =
    (sum_list (map f rs) :: 'b::comm_monoid_add)"
  by (rule sum_list_by_class) simp_all

text \<open>
  The KPI summary adds up: for every meter, the per-tier rows of the summary list the
  five tiers in order, their counts add up to the number of faults handled and their hours
  and dollars to the totals; one more record adds to the totals the time saved against the
  baseline of its tier, or nothing when the recovery took longer, times the GPUs, and that
  priced at the rate the meter was built with.
\<close>

theorem kpi_summary_adds_up:
  "dkeys (ks_by_tier (kpi_summarise m)) = map tier_name all_tiers \<and>
   sum_list (map (tk_count \<circ> snd) (ks_by_tier (kpi_summarise m))) = ks_faults_handled (kpi_summarise m) \<and>
   sum_list (map (tk_dollars_saved \<circ> snd) (ks_by_tier (kpi_summarise m))) =
     ks_total_dollars_saved (kpi_summarise m) \<and>
   sum_list (map (tk_gpu_hrs_saved \<circ> snd) (ks_by_tier (kpi_summarise m))) =
     ks_total_gpu_hrs_saved (kpi_summarise m) \<and>
   (let hrs = max 0 (dget_or baseline_recovery_secs tier 600 - secs) / 3600 * of_int gpus
    in total_gpu_hrs_saved (kpi_record epoch tier secs gpus m) = total_gpu_hrs_saved m + hrs \<and>
       total_dollars_saved (kpi_record epoch tier secs gpus m) =
         total_dollars_saved m + hrs * km_gpu_hr_cost m)"
proof -
  have count: "length xs = sum_list (map (\<lambda>_. 1::nat) xs)" for xs :: "fault_kpi list"
    by (induction xs) auto
  show ?thesis
    using sum_by_tier [of "\<lambda>_. 1::nat" "km_records m"]
      sum_by_tier [of fk_dollars_saved "km_records m"] sum_by_tier [of fk_gpu_hrs_saved "km_records m"]
    by (simp add: kpi_summarise_def tier_summary_def Let_def comp_def count
        total_dollars_saved_def total_gpu_hrs_saved_def kpi_record_def mk_fault_kpi_def)
qed

end
