(* ===== verification/Policy.thy ===== *)
theory Policy
  imports Events
begin

text \<open>
  The operator policy: the settings record of \<open>aegis/policy/dsl.py\<close>, the file loader of
  \<open>aegis/config.py\<close> and the live update of \<open>aegis/policy/__init__.py\<close>, with Python's
  coercions \<open>float\<close>, \<open>int\<close>, \<open>bool\<close> and \<open>str\<close> on the values a document holds. The
  YAML and JSON parsers and the file itself are arguments of the loader; so is the text
  \<open>str\<close> makes of floats, lists and dictionaries.
\<close>

record operator_policy =
  op_gpu_hr_cost :: real
  op_gpu_count :: int
  op_allow_b0_fast_path :: bool
  op_correlation_window_secs :: real
  op_correlation_node_threshold :: int
  op_max_consecutive_fallbacks :: int
  op_economics_policy :: string
  op_tier_budget_secs :: "(string, real) dict"

definition default_policy :: operator_policy where
  "default_policy =
    \<lparr>op_gpu_hr_cost = 235 / 100, op_gpu_count = 8, op_allow_b0_fast_path = True,
     op_correlation_window_secs = 5, op_correlation_node_threshold = 3,
     op_max_consecutive_fallbacks = 10, op_economics_policy = ''minimize_expected_cost'',
     op_tier_budget_secs =
       [(''B0'', 1), (''B1'', 30), (''B2'', 10), (''B3'', 60), (''B4'', 300)]\<rparr>"

subsection \<open>Python's coercions\<close>

definition is_digit :: "char \<Rightarrow> bool" where
  "is_digit c \<longleftrightarrow> c \<in> set ''0123456789''"

definition is_space :: "char \<Rightarrow> bool" where
  "is_space c \<longleftrightarrow> (let n = (of_char c :: nat) in n = 32 \<or> 9 \<le> n \<and> n \<le> 13)"

definition strip :: "string \<Rightarrow> string" where
  "strip s = rev (dropWhile is_space (rev (dropWhile is_space s)))"

text \<open>An optional sign, then the rest.\<close>

definition split_sign :: "string \<Rightarrow> bool \<times> string" where
  "split_sign s =
    (case s of [] \<Rightarrow> (False, [])
     | c # cs \<Rightarrow> if c = CHR ''-'' then (True, cs) else if c = CHR ''+'' then (False, cs) else (False, s))"

text \<open>
  \<open>int(s)\<close> on a decimal numeral; the digit separator \<open>_\<close> and digits outside ASCII are not
  modelled.
\<close>

definition parse_int :: "string \<Rightarrow> int option" where
  "parse_int s =
    (case split_sign (strip s) of (neg, ds) \<Rightarrow>
       if ds = [] \<or> \<not> list_all is_digit ds then None
       else Some (if neg then - int (digits_val ds) else int (digits_val ds)))"

text \<open>
  \<open>float(s)\<close> on \<open>digits [. digits] [e [sign] digits]\<close> with a digit on either side of the
  point; \<open>inf\<close>, \<open>nan\<close> and the separator are not modelled.
\<close>

definition parse_float :: "string \<Rightarrow> real option" where
  "parse_float s =
    (case split_sign (strip s) of (neg, body) \<Rightarrow>
       let whole = takeWhile is_digit body;
           r1 = dropWhile is_digit body;
           (frac, r2) = (case r1 of [] \<Rightarrow> ([], [])
                         | c # cs \<Rightarrow> if c = CHR ''.'' then (takeWhile is_digit cs, dropWhile is_digit cs)
                                   else ([], r1));
           mant = (real (digits_val whole) + real (digits_val frac) / 10 ^ length frac);
           signed = (if neg then - mant else mant)
       in if whole = [] \<and> frac = [] then None
          else case r2 of [] \<Rightarrow> Some signed
               | c # cs \<Rightarrow>
                   if c \<noteq> CHR ''e'' \<and> c \<noteq> CHR ''E'' then None
                   else case split_sign cs of (eneg, eds) \<Rightarrow>
                     if eds = [] \<or> \<not> list_all is_digit eds then None
                     else Some (if eneg then signed / 10 ^ digits_val eds else signed * 10 ^ digits_val eds))"

definition trunc :: "real \<Rightarrow> int" where
  "trunc x = (if 0 \<le> x then \<lfloor>x\<rfloor> else \<lceil>x\<rceil>)"

fun py_float :: "pyval \<Rightarrow> pyexc + real" where
  "py_float (PBool b) = Inr (if b then 1 else 0)"
| "py_float (PInt i) = Inr (of_int i)"
| "py_float (PFloat x) = Inr x"
| "py_float (PStr s) = (case parse_float s of None \<Rightarrow> Inl ValueErr | Some x \<Rightarrow> Inr x)"
| "py_float _ = Inl TypeErr"

fun py_int :: "pyval \<Rightarrow> pyexc + int" where
  "py_int (PBool b) = Inr (if b then 1 else 0)"
| "py_int (PInt i) = Inr i"
| "py_int (PFloat x) = Inr (trunc x)"
| "py_int (PStr s) = (case parse_int s of None \<Rightarrow> Inl ValueErr | Some i \<Rightarrow> Inr i)"
| "py_int _ = Inl TypeErr"

fun py_bool :: "pyval \<Rightarrow> bool" where
  "py_bool PNone = False"
| "py_bool (PBool b) = b"
| "py_bool (PInt i) = (i \<noteq> 0)"
| "py_bool (PFloat x) = (x \<noteq> 0)"
| "py_bool (PStr s) = (s \<noteq> [])"
| "py_bool (PList xs) = (xs \<noteq> [])"
| "py_bool (PDict d) = (d \<noteq> [])"

fun py_str :: "(pyval \<Rightarrow> string) \<Rightarrow> pyval \<Rightarrow> string" where
  "py_str repr PNone = ''None''"
| "py_str repr (PBool b) = (if b then ''True'' else ''False'')"
| "py_str repr (PInt i) = int_str i"
| "py_str repr (PStr s) = s"
| "py_str repr v = repr v"

text \<open>Every decimal string the prelude prints is read back by \<open>int\<close>.\<close>

lemma nat_str_ne [simp]: "nat_str n \<noteq> []"
  by (simp add: nat_str.simps [of n])

lemma nat_str_all_digits: "list_all is_digit (nat_str n)"
  using nat_str_digits by (auto simp: list_all_iff is_digit_def)

lemma digit_not_space: "is_digit c \<Longrightarrow> \<not> is_space c"
  by (auto simp: is_digit_def is_space_def Let_def)

subsection \<open>The policy file\<close>

text \<open>\<open>_get_nested\<close>: a missing key, a value that is no dictionary and null are all \<open>None\<close>.\<close>

fun get_nested :: "pyval \<Rightarrow> string list \<Rightarrow> pyval" where
  "get_nested node [] = node"
| "get_nested node (k # ks) =
    (case node of
       PDict d \<Rightarrow> (case dget d k of
                    None \<Rightarrow> PNone
                  | Some v \<Rightarrow> if v = PNone then PNone else get_nested v ks)
     | _ \<Rightarrow> PNone)"

text \<open>One \<open>if val is not None: policy.attr = coerce(val)\<close> of the source.\<close>

definition assign_if ::
  "pyval \<Rightarrow> string list \<Rightarrow> (pyval \<Rightarrow> operator_policy \<Rightarrow> pyexc + operator_policy) \<Rightarrow>
   pyexc + operator_policy \<Rightarrow> pyexc + operator_policy" where
  "assign_if raw path setter acc =
    (case acc of Inl x \<Rightarrow> Inl x
     | Inr p \<Rightarrow> (let val = get_nested raw path in if val = PNone then Inr p else setter val p))"

definition map_sum_result :: "('a \<Rightarrow> 'b) \<Rightarrow> pyexc + 'a \<Rightarrow> pyexc + 'b" where
  "map_sum_result f r = (case r of Inl x \<Rightarrow> Inl x | Inr v \<Rightarrow> Inr (f v))"

definition set_gpu_hr_cost :: "pyval \<Rightarrow> operator_policy \<Rightarrow> pyexc + operator_policy" where
  "set_gpu_hr_cost val p = map_sum_result (\<lambda>x. p\<lparr>op_gpu_hr_cost := x\<rparr>) (py_float val)"

definition set_economics_policy ::
  "(pyval \<Rightarrow> string) \<Rightarrow> pyval \<Rightarrow> operator_policy \<Rightarrow> pyexc + operator_policy" where
  "set_economics_policy repr val p = Inr (p\<lparr>op_economics_policy := py_str repr val\<rparr>)"

definition set_correlation_window_ms :: "pyval \<Rightarrow> operator_policy \<Rightarrow> pyexc + operator_policy" where
  "set_correlation_window_ms val p =
    map_sum_result (\<lambda>x. p\<lparr>op_correlation_window_secs := x / 1000\<rparr>) (py_float val)"

definition set_correlation_node_threshold :: "pyval \<Rightarrow> operator_policy \<Rightarrow> pyexc + operator_policy" where
  "set_correlation_node_threshold val p =
    map_sum_result (\<lambda>i. p\<lparr>op_correlation_node_threshold := i\<rparr>) (py_int val)"

definition set_allow_b0_fast_path :: "pyval \<Rightarrow> operator_policy \<Rightarrow> pyexc + operator_policy" where
  "set_allow_b0_fast_path val p = Inr (p\<lparr>op_allow_b0_fast_path := py_bool val\<rparr>)"

definition set_max_consecutive_fallbacks :: "pyval \<Rightarrow> operator_policy \<Rightarrow> pyexc + operator_policy" where
  "set_max_consecutive_fallbacks val p =
    map_sum_result (\<lambda>i. p\<lparr>op_max_consecutive_fallbacks := i\<rparr>) (py_int val)"

definition set_gpu_count :: "pyval \<Rightarrow> operator_policy \<Rightarrow> pyexc + operator_policy" where
  "set_gpu_count val p = map_sum_result (\<lambda>i. p\<lparr>op_gpu_count := i\<rparr>) (py_int val)"

definition parse_policy :: "(pyval \<Rightarrow> string) \<Rightarrow> pyval \<Rightarrow> pyexc + operator_policy" where
  "parse_policy repr raw =
    (let p1 = assign_if raw [''economics'', ''gpu_hourly_cost_usd''] set_gpu_hr_cost (Inr default_policy);
         p2 = assign_if raw [''economics'', ''policy''] (set_economics_policy repr) p1;
         p3 = assign_if raw [''escalation'', ''correlation_window_ms''] set_correlation_window_ms p2;
         p4 = assign_if raw [''escalation'', ''correlation_node_threshold''] set_correlation_node_threshold p3;
         p5 = assign_if raw [''tiers'', ''b0_transport'', ''fast_path''] set_allow_b0_fast_path p4;
         p6 = assign_if raw [''tiers'', ''b1_compute'', ''max_consecutive_fallbacks'']
                set_max_consecutive_fallbacks p5;
         p7 = assign_if raw [''cluster'', ''gpu_count''] set_gpu_count p6
     in p7)"

text \<open>\<open>os.path.splitext(path)[1].lower()\<close> on a POSIX path.\<close>

definition lower_char :: "char \<Rightarrow> char" where
  "lower_char c = (let n = (of_char c :: nat) in if 65 \<le> n \<and> n \<le> 90 then char_of (n + 32) else c)"

definition splitext_ext :: "string \<Rightarrow> string" where
  "splitext_ext path =
    (let base = rev (takeWhile (\<lambda>c. c \<noteq> CHR ''/'') (rev path));
         stem = dropWhile (\<lambda>c. c = CHR ''.'') base
     in if CHR ''.'' \<notin> set stem then []
        else CHR ''.'' # rev (takeWhile (\<lambda>c. c \<noteq> CHR ''.'') (rev stem)))"

text \<open>
  The loader. The arguments stand for the file system and the parsers: whether the path
  exists, whether PyYAML is installed, and what \<open>yaml.safe_load\<close> and \<open>json.load\<close> make of
  the file. A YAML document that is falsy counts as empty.
\<close>

definition load_policy ::
  "(pyval \<Rightarrow> string) \<Rightarrow> (string \<Rightarrow> bool) \<Rightarrow> bool \<Rightarrow> (string \<Rightarrow> pyexc + pyval) \<Rightarrow> (string \<Rightarrow> pyexc + pyval) \<Rightarrow>
   string \<Rightarrow> pyexc + operator_policy" where
  "load_policy repr path_exists yaml_installed yaml_load json_load path =
    (if \<not> path_exists path then Inr default_policy
     else
       (let ext = map lower_char (splitext_ext path)
        in if ext = ''.yaml'' \<or> ext = ''.yml'' then
             (if \<not> yaml_installed then Inl RuntimeErr
              else case yaml_load path of Inl x \<Rightarrow> Inl x
                   | Inr raw \<Rightarrow> parse_policy repr (if py_bool raw then raw else PDict []))
           else if ext = ''.json'' then
             (case json_load path of Inl x \<Rightarrow> Inl x | Inr raw \<Rightarrow> parse_policy repr raw)
           else Inr default_policy))"

subsection \<open>Live updates\<close>

text \<open>\<open>_KEY_MAP\<close>: the attribute of each key.\<close>

definition policy_keys :: "(string, string) dict" where
  "policy_keys =
    [(''economics.policy'', ''economics_policy''),
     (''economics.gpu_hourly_cost_usd'', ''gpu_hr_cost''),
     (''escalation.correlation_window_ms'', ''_correlation_window_ms''),
     (''escalation.correlation_node_threshold'', ''correlation_node_threshold''),
     (''tiers.b0_transport.fast_path'', ''allow_b0_fast_path''),
     (''tiers.b1_compute.max_consecutive_fallbacks'', ''max_consecutive_fallbacks'')]"

text \<open>\<open>getattr\<close> and \<open>setattr\<close> on the attributes of a policy that hold a number, a flag or a text.\<close>

definition policy_getattr :: "operator_policy \<Rightarrow> string \<Rightarrow> pyval option" where
  "policy_getattr p attr =
    dget [(''gpu_hr_cost'', PFloat (op_gpu_hr_cost p)), (''gpu_count'', PInt (op_gpu_count p)),
      (''allow_b0_fast_path'', PBool (op_allow_b0_fast_path p)),
      (''correlation_window_secs'', PFloat (op_correlation_window_secs p)),
      (''correlation_node_threshold'', PInt (op_correlation_node_threshold p)),
      (''max_consecutive_fallbacks'', PInt (op_max_consecutive_fallbacks p)),
      (''economics_policy'', PStr (op_economics_policy p))] attr"

fun policy_setattr :: "string \<Rightarrow> pyval \<Rightarrow> operator_policy \<Rightarrow> operator_policy" where
  "policy_setattr attr (PFloat x) p =
    (if attr = ''gpu_hr_cost'' then p\<lparr>op_gpu_hr_cost := x\<rparr>
     else if attr = ''correlation_window_secs'' then p\<lparr>op_correlation_window_secs := x\<rparr> else p)"
| "policy_setattr attr (PInt i) p =
    (if attr = ''gpu_count'' then p\<lparr>op_gpu_count := i\<rparr>
     else if attr = ''correlation_node_threshold'' then p\<lparr>op_correlation_node_threshold := i\<rparr>
     else if attr = ''max_consecutive_fallbacks'' then p\<lparr>op_max_consecutive_fallbacks := i\<rparr> else p)"
| "policy_setattr attr (PBool b) p = (if attr = ''allow_b0_fast_path'' then p\<lparr>op_allow_b0_fast_path := b\<rparr> else p)"
| "policy_setattr attr (PStr s) p = (if attr = ''economics_policy'' then p\<lparr>op_economics_policy := s\<rparr> else p)"
| "policy_setattr attr v p = p"

text \<open>\<open>type(existing)(value)\<close>, for a value of one of the types a policy attribute has.\<close>

fun coerce_like :: "(pyval \<Rightarrow> string) \<Rightarrow> pyval \<Rightarrow> pyval \<Rightarrow> pyexc + pyval" where
  "coerce_like repr (PFloat x) val = map_sum_result PFloat (py_float val)"
| "coerce_like repr (PInt i) val = map_sum_result PInt (py_int val)"
| "coerce_like repr (PBool b) val = Inr (PBool (py_bool val))"
| "coerce_like repr (PStr s) val = Inr (PStr (py_str repr val))"
| "coerce_like repr existing val = Inl TypeErr"

text \<open>\<open>policy.set\<close> on the policy of the running engine, \<open>None\<close> before \<open>init\<close>.\<close>

definition policy_set ::
  "(pyval \<Rightarrow> string) \<Rightarrow> string \<Rightarrow> pyval \<Rightarrow> operator_policy option \<Rightarrow> pyexc + operator_policy" where
  "policy_set repr key val runtime_policy =
    (case runtime_policy of None \<Rightarrow> Inl RuntimeErr
     | Some p \<Rightarrow>
         (case dget policy_keys key of None \<Rightarrow> Inl ValueErr
          | Some attr \<Rightarrow>
              if key = ''escalation.correlation_window_ms''
              then map_sum_result (\<lambda>x. policy_setattr ''correlation_window_secs'' (PFloat (x / 1000)) p) (py_float val)
              else (case policy_getattr p attr of None \<Rightarrow> Inl AttributeErr
                    | Some existing \<Rightarrow>
                        map_sum_result (\<lambda>v. policy_setattr attr v p) (coerce_like repr existing val))))"

subsection \<open>Properties of the policy\<close>

text \<open>The document that holds one value under a path.\<close>

fun nest :: "string list \<Rightarrow> pyval \<Rightarrow> pyval" where
  "nest [] v = v"
| "nest (k # ks) v = PDict [(k, nest ks v)]"

text \<open>The path of a live key in the file.\<close>

definition key_path :: "string \<Rightarrow> string list" where
  "key_path key = the (dget
    [(''economics.policy'', [''economics'', ''policy'']),
     (''economics.gpu_hourly_cost_usd'', [''economics'', ''gpu_hourly_cost_usd'']),
     (''escalation.correlation_window_ms'', [''escalation'', ''correlation_window_ms'']),
     (''escalation.correlation_node_threshold'', [''escalation'', ''correlation_node_threshold'']),
     (''tiers.b0_transport.fast_path'', [''tiers'', ''b0_transport'', ''fast_path'']),
     (''tiers.b1_compute.max_consecutive_fallbacks'',
        [''tiers'', ''b1_compute'', ''max_consecutive_fallbacks''])] key)"

lemmas policy_setters = set_gpu_hr_cost_def set_economics_policy_def set_correlation_window_ms_def
  set_correlation_node_threshold_def set_allow_b0_fast_path_def set_max_consecutive_fallbacks_def
  set_gpu_count_def

lemma policy_key_lookup [simp]:
  "dget policy_keys ''economics.policy'' = Some ''economics_policy''"
  "dget policy_keys ''economics.gpu_hourly_cost_usd'' = Some ''gpu_hr_cost''"
  "dget policy_keys ''escalation.correlation_window_ms'' = Some ''_correlation_window_ms''"
  "dget policy_keys ''escalation.correlation_node_threshold'' = Some ''correlation_node_threshold''"
  "dget policy_keys ''tiers.b0_transport.fast_path'' = Some ''allow_b0_fast_path''"
  "dget policy_keys ''tiers.b1_compute.max_consecutive_fallbacks'' = Some ''max_consecutive_fallbacks''"
  by (simp_all add: policy_keys_def)

lemma policy_getattr_simps [simp]:
  "policy_getattr p ''economics_policy'' = Some (PStr (op_economics_policy p))"
  "policy_getattr p ''gpu_hr_cost'' = Some (PFloat (op_gpu_hr_cost p))"
  "policy_getattr p ''correlation_node_threshold'' = Some (PInt (op_correlation_node_threshold p))"
  "policy_getattr p ''allow_b0_fast_path'' = Some (PBool (op_allow_b0_fast_path p))"
  "policy_getattr p ''max_consecutive_fallbacks'' = Some (PInt (op_max_consecutive_fallbacks p))"
  by (simp_all add: policy_getattr_def)

text \<open>What a live update comes to for each key: the coercion by the attribute's type is the file's.\<close>

lemma policy_set_key:
  "policy_set repr ''economics.policy'' v (Some p) = set_economics_policy repr v p"
  "policy_set repr ''economics.gpu_hourly_cost_usd'' v (Some p) = set_gpu_hr_cost v p"
  "policy_set repr ''escalation.correlation_window_ms'' v (Some p) = set_correlation_window_ms v p"
  "policy_set repr ''escalation.correlation_node_threshold'' v (Some p) = set_correlation_node_threshold v p"
  "policy_set repr ''tiers.b0_transport.fast_path'' v (Some p) = set_allow_b0_fast_path v p"
  "policy_set repr ''tiers.b1_compute.max_consecutive_fallbacks'' v (Some p) = set_max_consecutive_fallbacks v p"
  by (simp_all add: policy_set_def policy_setters map_sum_result_def split: sum.split)

lemma key_path_simps [simp]:
  "key_path ''economics.policy'' = [''economics'', ''policy'']"
  "key_path ''economics.gpu_hourly_cost_usd'' = [''economics'', ''gpu_hourly_cost_usd'']"
  "key_path ''escalation.correlation_window_ms'' = [''escalation'', ''correlation_window_ms'']"
  "key_path ''escalation.correlation_node_threshold'' = [''escalation'', ''correlation_node_threshold'']"
  "key_path ''tiers.b0_transport.fast_path'' = [''tiers'', ''b0_transport'', ''fast_path'']"
  "key_path ''tiers.b1_compute.max_consecutive_fallbacks'' =
     [''tiers'', ''b1_compute'', ''max_consecutive_fallbacks'']"
  by (simp_all add: key_path_def)

lemma policy_key_cases:
  assumes "key \<in> set (dkeys policy_keys)"
  obtains "key = ''economics.policy''" | "key = ''economics.gpu_hourly_cost_usd''"
    | "key = ''escalation.correlation_window_ms''" | "key = ''escalation.correlation_node_threshold''"
    | "key = ''tiers.b0_transport.fast_path''" | "key = ''tiers.b1_compute.max_consecutive_fallbacks''"
  using assms unfolding policy_keys_def list.map fst_conv list.set insert_iff empty_iff by satx

lemma assign_if_Inr:
  "assign_if raw path setter (Inr p) =
   (if get_nested raw path = PNone then Inr p else setter (get_nested raw path) p)"
  by (simp add: assign_if_def Let_def)

lemma assign_if_absent: "get_nested raw path = PNone \<Longrightarrow> assign_if raw path setter acc = acc"
  by (cases acc) (simp_all add: assign_if_def)

text \<open>
  C24. A live update and the file agree, for every value but null: \<open>policy.set\<close>, which coerces a
  value to the type the attribute has at that moment, gives on any policy what loading a document
  that holds just that value at the key's path, which coerces by its own table, gives for that
  attribute, the others staying as they are; it raises exactly what loading raises. On the default
  policy the two policies are equal. Any other key is refused, and before \<open>init\<close> every key.
\<close>

theorem policy_set_agrees_with_file:
  assumes "v \<noteq> PNone"
  shows "(key \<in> set (dkeys policy_keys) \<longrightarrow>
      policy_set repr key v (Some default_policy) = parse_policy repr (nest (key_path key) v) \<and>
      (\<exists>attr. \<forall>p. policy_set repr key v (Some p) =
         (case parse_policy repr (nest (key_path key) v) of Inl x \<Rightarrow> Inl x
          | Inr q \<Rightarrow> Inr (policy_setattr attr (the (policy_getattr q attr)) p)))) \<and>
    (key \<notin> set (dkeys policy_keys) \<longrightarrow> policy_set repr key v (Some p) = Inl ValueErr) \<and>
    policy_set repr key v None = Inl RuntimeErr"
proof (intro conjI impI)
  assume key: "key \<in> set (dkeys policy_keys)"
  then have agrees: "policy_set repr key v (Some default_policy) = parse_policy repr (nest (key_path key) v)"
    using assms
    by (cases rule: policy_key_cases [OF key])
       (simp_all add: policy_set_key parse_policy_def Let_def assign_if_Inr assign_if_absent)
  then show "policy_set repr key v (Some default_policy) = parse_policy repr (nest (key_path key) v)" .
  show "\<exists>attr. \<forall>p. policy_set repr key v (Some p) =
      (case parse_policy repr (nest (key_path key) v) of Inl x \<Rightarrow> Inl x
       | Inr q \<Rightarrow> Inr (policy_setattr attr (the (policy_getattr q attr)) p))"
    unfolding agrees [symmetric]
    by (cases rule: policy_key_cases [OF key]; rule exI [of _ "the (dget
      [(''economics.policy'', ''economics_policy''), (''economics.gpu_hourly_cost_usd'', ''gpu_hr_cost''),
       (''escalation.correlation_window_ms'', ''correlation_window_secs''),
       (''escalation.correlation_node_threshold'', ''correlation_node_threshold''),
       (''tiers.b0_transport.fast_path'', ''allow_b0_fast_path''),
       (''tiers.b1_compute.max_consecutive_fallbacks'', ''max_consecutive_fallbacks'')] key)"])
       (simp_all add: policy_set_key policy_setters map_sum_result_def policy_getattr_def split: sum.split)
next
  assume "key \<notin> set (dkeys policy_keys)"
  then have "dget policy_keys key = None" by (simp add: map_of_eq_None_iff)
  then show "policy_set repr key v (Some p) = Inl ValueErr" by (simp add: policy_set_def)
qed (simp add: policy_set_def)

theorem policy_set_agrees_with_file_witness:
  "policy_set (\<lambda>_. ''v'') ''escalation.correlation_window_ms'' (PInt 3000) (Some default_policy) =
     parse_policy (\<lambda>_. ''v'') (nest (key_path ''escalation.correlation_window_ms'') (PInt 3000)) \<and>
   policy_set (\<lambda>_. ''v'') ''escalation.correlation_window_ms'' (PInt 3000) (Some default_policy) =
     Inr (default_policy\<lparr>op_correlation_window_secs := 3\<rparr>)"
proof -
  have "''escalation.correlation_window_ms'' \<in> set (dkeys policy_keys)" by (simp add: policy_keys_def)
  with policy_set_agrees_with_file [of "PInt 3000" "''escalation.correlation_window_ms''" "\<lambda>_. ''v''"]
  have "policy_set (\<lambda>_. ''v'') ''escalation.correlation_window_ms'' (PInt 3000) (Some default_policy) =
     parse_policy (\<lambda>_. ''v'') (nest (key_path ''escalation.correlation_window_ms'') (PInt 3000))" by blast
  moreover have "policy_set (\<lambda>_. ''v'') ''escalation.correlation_window_ms'' (PInt 3000) (Some default_policy) =
     Inr (default_policy\<lparr>op_correlation_window_secs := 3\<rparr>)"
    by (simp add: policy_set_key policy_setters map_sum_result_def)
  ultimately show ?thesis ..
qed

text \<open>The document an operator writes for a policy.\<close>

definition policy_document :: "operator_policy \<Rightarrow> pyval" where
  "policy_document p = PDict
    [(''cluster'', PDict [(''gpu_count'', PInt (op_gpu_count p))]),
     (''economics'', PDict [(''policy'', PStr (op_economics_policy p)),
                           (''gpu_hourly_cost_usd'', PFloat (op_gpu_hr_cost p))]),
     (''escalation'', PDict
       [(''correlation_node_threshold'', PInt (op_correlation_node_threshold p)),
        (''correlation_window_ms'', PFloat (op_correlation_window_secs p * 1000))]),
     (''tiers'', PDict
       [(''b0_transport'', PDict [(''fast_path'', PBool (op_allow_b0_fast_path p))]),
        (''b1_compute'', PDict [(''max_consecutive_fallbacks'', PInt (op_max_consecutive_fallbacks p))])])]"

text \<open>
  The policy file carries the whole policy: loading the document of a policy whose
  tier budgets are the default ones gives that policy back, through either parser, for
  every field and whatever the defaults are.
\<close>

theorem policy_document_roundtrip:
  assumes "op_tier_budget_secs p = op_tier_budget_secs default_policy"
    and "path_exists path" and "map lower_char (splitext_ext path) = ''.json''"
    and "json_load path = Inr (policy_document p)"
  shows "load_policy repr path_exists yaml_installed yaml_load json_load path = Inr p"
proof -
  have "parse_policy repr (policy_document p) = Inr p"
    using assms(1)
    by (cases p)
       (simp add: policy_document_def parse_policy_def Let_def assign_if_Inr default_policy_def
         set_gpu_hr_cost_def set_economics_policy_def set_correlation_window_ms_def
         set_correlation_node_threshold_def set_allow_b0_fast_path_def
         set_max_consecutive_fallbacks_def set_gpu_count_def map_sum_result_def)
  with assms(2-4) show ?thesis by (simp add: load_policy_def Let_def)
qed

lemma lower_json:
  "lower_char CHR ''.'' = CHR ''.''" "lower_char CHR ''J'' = CHR ''j''" "lower_char CHR ''S'' = CHR ''s''"
  "lower_char CHR ''O'' = CHR ''o''" "lower_char CHR ''N'' = CHR ''n''"
  by code_simp+

theorem policy_document_roundtrip_witness:
  "load_policy (\<lambda>_. ''v'') (\<lambda>_. True) False (\<lambda>_. Inl RuntimeErr)
     (\<lambda>_. Inr (policy_document (default_policy\<lparr>op_gpu_count := 64\<rparr>))) ''conf/aegis.JSON'' =
   Inr (default_policy\<lparr>op_gpu_count := 64\<rparr>)"
proof -
  have ext: "map lower_char (splitext_ext ''conf/aegis.JSON'') = ''.json''"
    by (simp add: splitext_ext_def Let_def lower_json)
  show ?thesis
    by (rule policy_document_roundtrip [OF _ _ ext]) (simp_all add: default_policy_def)
qed

text \<open>
  A quoted boolean switches the fast path on: both the file and \<open>policy.set\<close> coerce
  with \<open>bool\<close>, so the strings \<open>"false"\<close>, \<open>"off"\<close> and \<open>"0"\<close> turn the B0 fast path on, and
  only the empty string turns it off.
\<close>

theorem fast_path_string_is_true:
  "policy_set repr ''tiers.b0_transport.fast_path'' (PStr s) (Some p) =
     Inr (p\<lparr>op_allow_b0_fast_path := (s \<noteq> [])\<rparr>) \<and>
   parse_policy repr (nest [''tiers'', ''b0_transport'', ''fast_path''] (PStr s)) =
     Inr (default_policy\<lparr>op_allow_b0_fast_path := (s \<noteq> [])\<rparr>)"
  by (simp add: policy_set_key parse_policy_def Let_def assign_if_Inr set_allow_b0_fast_path_def)

text \<open>The text \<open>str(i)\<close> of an int in a document is read as the int.\<close>

lemma dropWhile_digits: "list_all is_digit ds \<Longrightarrow> dropWhile is_space ds = ds"
  by (cases ds) (auto simp: digit_not_space)

lemma list_all_rev [simp]: "list_all P (rev xs) = list_all P xs"
  by (simp add: list_all_iff)

lemma strip_digits: "list_all is_digit ds \<Longrightarrow> strip ds = ds"
  by (simp add: strip_def dropWhile_digits)

lemma parse_int_int_str: "parse_int (int_str i) = Some i"
proof (cases "i < 0")
  case True
  have d: "list_all is_digit (nat_str (nat (- i)))" by (rule nat_str_all_digits)
  have "strip (CHR ''-'' # nat_str (nat (- i))) = CHR ''-'' # nat_str (nat (- i))"
  proof -
    have "\<not> is_space (CHR ''-'')" by code_simp
    moreover have "dropWhile is_space (rev (nat_str (nat (- i))) @ [CHR ''-'']) =
        rev (nat_str (nat (- i))) @ [CHR ''-'']"
      using dropWhile_digits [of "rev (nat_str (nat (- i)))"] d
      by (cases "rev (nat_str (nat (- i)))") (auto simp: digit_not_space)
    ultimately show ?thesis by (simp add: strip_def)
  qed
  with True d show ?thesis
    by (simp add: parse_int_def int_str_def split_sign_def digits_val_nat_str)
next
  case False
  have d: "list_all is_digit (nat_str (nat i))" by (rule nat_str_all_digits)
  obtain c cs where cs: "nat_str (nat i) = c # cs" by (cases "nat_str (nat i)") auto
  have "c \<noteq> CHR ''-''" "c \<noteq> CHR ''+''" using d cs by (auto simp: is_digit_def)
  then have "split_sign (nat_str (nat i)) = (False, nat_str (nat i))" by (simp add: split_sign_def cs)
  with False d show ?thesis
    by (simp add: parse_int_def int_str_def strip_digits digits_val_nat_str)
qed

text \<open>
  Numbers survive being quoted: an integer setting given as the string \<open>str\<close> prints
  for it, in a document or to \<open>policy.set\<close>, has the effect of the integer itself; an
  integer \<open>i\<close> printed by Python and read by \<open>int\<close> is \<open>i\<close>, signs included.
\<close>

theorem quoted_int_is_int:
  "py_int (PStr (int_str i)) = Inr i \<and>
   policy_set repr ''escalation.correlation_node_threshold'' (PStr (int_str i)) (Some p) =
     policy_set repr ''escalation.correlation_node_threshold'' (PInt i) (Some p)"
  by (simp add: parse_int_int_str policy_set_key set_correlation_node_threshold_def)

end
