(* ===== verification/Engine.thy ===== *)
theory Engine
  imports Epochs Consensus Kpi Policy Layer_Base
begin

text \<open>
  The escalation policy engine of \<open>aegis/policy/engine.py\<close>: classification, the correlation
  window, the fault epoch, routing with escalation through the layers, the gate of the
  recovery consensus, and the audit log. The layers live in a state \<open>'s\<close> that the engine
  threads through their calls; what a layer does is a value of the layer interface. The
  readings of \<open>time.monotonic\<close> are arguments.
\<close>

record fault_record =
  fr_event :: telemetry_event
  fr_original_tier :: blast_radius
  fr_final_tier :: blast_radius
  fr_epoch :: int
  fr_result :: "recovery_result option"
  fr_escalated :: bool
  fr_timestamp :: real

definition escalation_valid :: "fault_record \<Rightarrow> bool" where
  "escalation_valid r \<longleftrightarrow> fr_original_tier r \<le> fr_final_tier r"

record 's engine =
  en_epochs :: epoch_service
  en_consensus :: urc
  en_policy :: operator_policy
  en_kpi :: "kpi_meter option"
  en_tier_to_layer :: "(blast_radius, 's recovery_layer) dict"
  en_recent_b1s :: "(real \<times> string \<times> string) list"
  en_history :: "fault_record list"
  en_observe_only :: bool
  en_world :: 's

definition build_tier_map :: "'s recovery_layer list \<Rightarrow> (blast_radius, 's recovery_layer) dict" where
  "build_tier_map layers =
    fold (\<lambda>lay m. fold (\<lambda>tier m. dset tier lay m) (rl_handled_tiers lay) m) layers []"

definition engine_init ::
  "epoch_service \<Rightarrow> urc \<Rightarrow> operator_policy \<Rightarrow> 's recovery_layer list \<Rightarrow> kpi_meter option \<Rightarrow> 's \<Rightarrow> 's engine" where
  "engine_init epochs consensus policy layers kpi world =
    \<lparr>en_epochs = epochs, en_consensus = consensus, en_policy = policy, en_kpi = kpi,
     en_tier_to_layer = build_tier_map layers, en_recent_b1s = [], en_history = [],
     en_observe_only = False, en_world = world\<rparr>"

subsection \<open>The correlation window\<close>

definition rack_of :: "telemetry_event \<Rightarrow> string" where
  "rack_of event = str_or (ev_rack event) ''unknown''"

definition apply_correlation_window ::
  "real \<Rightarrow> telemetry_event \<Rightarrow> blast_radius \<Rightarrow> 's engine \<Rightarrow> blast_radius \<times> 's engine" where
  "apply_correlation_window now event tier eng =
    (if tier \<noteq> B1 then (tier, eng)
     else
       (let rack = rack_of event;
            appended = en_recent_b1s eng @ [(now, ev_node event, rack)];
            cutoff = now - op_correlation_window_secs (en_policy eng);
            kept = dropWhile (\<lambda>(t, _, _). t < cutoff) appended;
            same_rack = length (filter (\<lambda>(_, _, r). r = rack) kept)
        in (if int same_rack \<ge> op_correlation_node_threshold (en_policy eng) then B4 else B1,
            eng\<lparr>en_recent_b1s := kept\<rparr>)))"

subsection \<open>Routing\<close>

definition urc_gate :: "fault_record \<Rightarrow> blast_radius \<Rightarrow> urc \<Rightarrow> int option" where
  "urc_gate record tier consensus =
    (if tier < B2 then None
     else
       (let active_ranks = filter (\<lambda>r. r \<noteq> ev_rank (fr_event record)) (all_ranks consensus);
            decision = agree active_ranks (fr_epoch record) consensus
        in if rd_agreed decision then Some (rd_min_valid_epoch decision) else None))"

text \<open>
  One turn of the routing loop at a tier: the record is updated before the layer runs; a
  success is reported to the consensus and to the KPI meter. The outcome \<open>Inr None\<close> is to
  escalate.
\<close>

definition try_tier ::
  "fault_record \<Rightarrow> blast_radius \<Rightarrow> 's engine \<Rightarrow>
   (pyexc + recovery_result option) \<times> fault_record \<times> 's engine" where
  "try_tier record tier eng =
    (case dget (en_tier_to_layer eng) tier of
       None \<Rightarrow> (Inr None, record, eng)
     | Some lay \<Rightarrow>
         (if \<not> rl_can_handle lay (fr_event record) tier (en_world eng) then (Inr None, record, eng)
          else
            (let record1 = (if tier \<noteq> fr_original_tier record then record\<lparr>fr_escalated := True\<rparr> else record);
                 record2 = record1\<lparr>fr_final_tier := tier\<rparr>;
                 min_valid_epoch = urc_gate record2 tier (en_consensus eng)
             in case rl_recover lay (fr_event record2) tier (fr_epoch record2) min_valid_epoch (en_world eng) of
                  (Inl x, w) \<Rightarrow> (Inl x, record2, eng\<lparr>en_world := w\<rparr>)
                | (Inr result, w) \<Rightarrow>
                    (if rr_success result
                     then (Inr (Some result), record2,
                           eng\<lparr>en_world := w,
                               en_consensus := report_epoch (ev_rank (fr_event record2)) (fr_epoch record2)
                                 (en_consensus eng),
                               en_kpi := map_option
                                 (kpi_record (fr_epoch record2) tier (rr_recovery_secs result)
                                    (op_gpu_count (en_policy eng))) (en_kpi eng)\<rparr>)
                     else (Inr None, record2, eng\<lparr>en_world := w\<rparr>)))))"

definition exhausted_result :: "fault_record \<Rightarrow> recovery_result" where
  "exhausted_result record =
    rr_failure (MsgExhausted (ev_signal (fr_event record)) (fr_epoch record))"

function route_from ::
  "fault_record \<Rightarrow> blast_radius \<Rightarrow> 's engine \<Rightarrow>
   (pyexc + recovery_result) \<times> fault_record \<times> 's engine" where
  "route_from record tier eng =
    (case try_tier record tier eng of
       (Inl x, record', eng') \<Rightarrow> (Inl x, record', eng')
     | (Inr (Some result), record', eng') \<Rightarrow> (Inr result, record', eng')
     | (Inr None, record', eng') \<Rightarrow>
         (let next_value = tier_value tier + 1
          in if next_value > tier_value B4 then (Inr (exhausted_result record'), record', eng')
             else case tier_of_value next_value of
                    None \<Rightarrow> (Inl ValueErr, record', eng')
                  | Some tier' \<Rightarrow> route_from record' tier' eng'))"
  by pat_completeness auto
termination
  by (relation "measure (\<lambda>(r, t, e). 4 - tier_value t)") (auto dest: tier_of_value_Some)

declare route_from.simps [simp del]

definition route ::
  "fault_record \<Rightarrow> 's engine \<Rightarrow> (pyexc + recovery_result) \<times> fault_record \<times> 's engine" where
  "route record eng = route_from record (fr_final_tier record) eng"

subsection \<open>The event handler\<close>

definition mk_fault_record :: "real \<Rightarrow> telemetry_event \<Rightarrow> blast_radius \<Rightarrow> int \<Rightarrow> fault_record" where
  "mk_fault_record stamp event tier epoch =
    \<lparr>fr_event = event, fr_original_tier = tier, fr_final_tier = tier, fr_epoch = epoch,
     fr_result = None, fr_escalated = False, fr_timestamp = stamp\<rparr>"

text \<open>
  \<open>_on_event\<close>. An exception of a layer leaves the handler before the record reaches the
  audit log. (The B0 fast path of the policy only writes a log line.)
\<close>

definition on_event :: "real \<Rightarrow> real \<Rightarrow> telemetry_event \<Rightarrow> 's engine \<Rightarrow> (pyexc + unit) \<times> 's engine" where
  "on_event now stamp event eng =
    (case apply_correlation_window now event (classify event) eng of (tier, eng1) \<Rightarrow>
     case next_epoch (en_epochs eng1) of (epoch, epochs') \<Rightarrow>
       (let eng2 = eng1\<lparr>en_epochs := epochs'\<rparr>;
            record = mk_fault_record stamp event tier epoch
        in if en_observe_only eng2
           then (Inr (), eng2\<lparr>en_history := en_history eng2 @
                   [record\<lparr>fr_result := Some (rr_succeeded MsgObserveOnly False 0)\<rparr>]\<rparr>)
           else case route record eng2 of
                  (Inl x, record', eng3) \<Rightarrow> (Inl x, eng3)
                | (Inr result, record', eng3) \<Rightarrow>
                    (Inr (), eng3\<lparr>en_history := en_history eng3 @ [record'\<lparr>fr_result := Some result\<rparr>]\<rparr>)))"

text \<open>
  A run of the engine under the bus: each event with its clock readings; an exception is
  contained by the dispatch loop, which goes on with the next event.
\<close>

type_synonym timed_event = "real \<times> real \<times> telemetry_event"

definition engine_run :: "timed_event list \<Rightarrow> 's engine \<Rightarrow> 's engine" where
  "engine_run evs eng = fold (\<lambda>(now, stamp, ev) eng. snd (on_event now stamp ev eng)) evs eng"

record audit_entry =
  au_epoch :: int
  au_signal :: string
  au_node :: string
  au_rank :: int
  au_original_tier :: string
  au_final_tier :: string
  au_escalated :: bool
  au_success :: bool
  au_degraded :: bool
  au_escalation_valid :: bool

definition audit_of :: "fault_record \<Rightarrow> audit_entry" where
  "audit_of r =
    \<lparr>au_epoch = fr_epoch r, au_signal = signal_value (ev_signal (fr_event r)),
     au_node = ev_node (fr_event r), au_rank = ev_rank (fr_event r),
     au_original_tier = tier_name (fr_original_tier r), au_final_tier = tier_name (fr_final_tier r),
     au_escalated = fr_escalated r,
     au_success = (case fr_result r of None \<Rightarrow> False | Some x \<Rightarrow> rr_success x),
     au_degraded = (case fr_result r of None \<Rightarrow> False | Some x \<Rightarrow> rr_degraded x),
     au_escalation_valid = escalation_valid r\<rparr>"

definition escalation_audit :: "'s engine \<Rightarrow> audit_entry list" where
  "escalation_audit eng = map audit_of (en_history eng)"

subsection \<open>A rule for the routing loop\<close>

text \<open>
  To show \<open>Q\<close> of what routing returns: keep \<open>P\<close> from tier to tier, and establish \<open>Q\<close> where
  the loop leaves, on an exception, on a success and after B4.
\<close>

lemma route_from_rule:
  assumes esc: "\<And>t t' r e r' e'. P t r e \<Longrightarrow> try_tier r t e = (Inr None, r', e') \<Longrightarrow>
      tier_value t' = tier_value t + 1 \<Longrightarrow> P t' r' e'"
    and exn: "\<And>t r e x r' e'. P t r e \<Longrightarrow> try_tier r t e = (Inl x, r', e') \<Longrightarrow> Q (Inl x) r' e'"
    and suc: "\<And>t r e res r' e'. P t r e \<Longrightarrow> try_tier r t e = (Inr (Some res), r', e') \<Longrightarrow> Q (Inr res) r' e'"
    and exh: "\<And>r e r' e'. P B4 r e \<Longrightarrow> try_tier r B4 e = (Inr None, r', e') \<Longrightarrow>
      Q (Inr (exhausted_result r')) r' e'"
    and start: "P t rc eng" and run: "route_from rc t eng = (res, rc', eng')"
  shows "Q res rc' eng'"
  using start run
proof (induction rc t eng arbitrary: res rc' eng' rule: route_from.induct)
  case (1 rc t eng)
  obtain out r1 e1 where tt: "try_tier rc t eng = (out, r1, e1)" by (cases "try_tier rc t eng") auto
  show ?case
  proof (cases out)
    case (Inl x)
    with "1.prems" exn [OF "1.prems"(1)] tt show ?thesis by (simp add: route_from.simps)
  next
    case (Inr o1)
    show ?thesis
    proof (cases o1)
      case (Some r)
      with Inr "1.prems" suc [OF "1.prems"(1)] tt show ?thesis by (simp add: route_from.simps)
    next
      case None
      with Inr tt have tt': "try_tier rc t eng = (Inr None, r1, e1)" by simp
      show ?thesis
      proof (cases "t = B4")
        case True
        with "1.prems" exh tt' show ?thesis by (auto simp: route_from.simps)
      next
        case False
        then obtain t' where t': "tier_of_value (tier_value t + 1) = Some t'"
          and v: "tier_value t' = tier_value t + 1" and le: "\<not> tier_value t + 1 > tier_value B4"
          by (cases t) (auto simp: tier_of_value_eq)
        have "route_from r1 t' e1 = (res, rc', eng')"
          using "1.prems"(2) le by (simp add: route_from.simps [of rc t eng] tt' Let_def
                t' [unfolded Suc_eq_plus1 [symmetric]])
        moreover have "P t' r1 e1" by (rule esc [OF "1.prems"(1) tt' v])
        ultimately show ?thesis
          using "1.IH" [OF tt' [symmetric] refl refl refl refl le t'] by blast
      qed
    qed
  qed
qed

subsection \<open>What routing leaves alone\<close>

definition same_fault :: "fault_record \<Rightarrow> fault_record \<Rightarrow> bool" where
  "same_fault r r' \<longleftrightarrow> fr_event r' = fr_event r \<and> fr_original_tier r' = fr_original_tier r \<and>
     fr_epoch r' = fr_epoch r \<and> fr_result r' = fr_result r \<and> fr_timestamp r' = fr_timestamp r"

definition same_engine :: "'s engine \<Rightarrow> 's engine \<Rightarrow> bool" where
  "same_engine e e' \<longleftrightarrow> en_epochs e' = en_epochs e \<and> en_policy e' = en_policy e \<and>
     en_tier_to_layer e' = en_tier_to_layer e \<and> en_recent_b1s e' = en_recent_b1s e \<and>
     en_history e' = en_history e \<and> en_observe_only e' = en_observe_only e"

lemma try_tier_frame:
  assumes "try_tier r t e = (out, r', e')"
  shows "same_fault r r' \<and> same_engine e e'"
  using assms unfolding try_tier_def Let_def same_fault_def same_engine_def
  by (auto split: option.splits if_splits sum.splits prod.splits)

lemma route_frame:
  assumes "route_from r t e = (res, r', e')"
  shows "same_fault r r' \<and> same_engine e e'"
proof (rule route_from_rule [where P = "\<lambda>_ r1 e1. same_fault r r1 \<and> same_engine e e1" and t = t
      and Q = "\<lambda>_ r1 e1. same_fault r r1 \<and> same_engine e e1", OF _ _ _ _ _ assms])
qed (auto dest!: try_tier_frame simp: same_fault_def same_engine_def)

text \<open>The audit record of a fault in progress at tier \<open>t\<close>.\<close>

definition record_at :: "blast_radius \<Rightarrow> fault_record \<Rightarrow> bool" where
  "record_at t r \<longleftrightarrow> fr_original_tier r \<le> fr_final_tier r \<and> fr_final_tier r \<le> t \<and>
     (fr_escalated r \<longleftrightarrow> fr_original_tier r \<noteq> fr_final_tier r)"

lemma record_at_valid:
  "record_at t r \<Longrightarrow> escalation_valid r \<and> fr_escalated r = (fr_original_tier r < fr_final_tier r)"
  by (auto simp: record_at_def escalation_valid_def)

lemma try_tier_record:
  assumes "record_at t r" and "fr_original_tier r \<le> t" and "try_tier r t e = (out, r', e')"
  shows "record_at t r'"
proof -
  have "r' = r \<or> r' = (if t \<noteq> fr_original_tier r then r\<lparr>fr_escalated := True\<rparr> else r)\<lparr>fr_final_tier := t\<rparr>"
    using assms(3) unfolding try_tier_def Let_def
    by (auto split: option.splits if_splits sum.splits prod.splits)
  with assms(1,2) show ?thesis by (cases "t = fr_original_tier r") (auto simp: record_at_def)
qed

lemma record_at_mono: "record_at t r \<Longrightarrow> t \<le> t' \<Longrightarrow> record_at t' r"
  by (auto simp: record_at_def)

lemma route_record:
  assumes "record_at t r" and "fr_original_tier r \<le> t" and "route_from r t e = (res, r', e')"
  shows "record_at B4 r'"
proof (rule route_from_rule [where t = t and Q = "\<lambda>_ r1 e1. record_at B4 r1"
      and P = "\<lambda>t r1 e1. record_at t r1 \<and> fr_original_tier r1 \<le> t", OF _ _ _ _ _ assms(3)])
  fix t t' r e r' e'
  assume P: "record_at t r \<and> fr_original_tier r \<le> t" and run: "try_tier r t e = (Inr None, r', e')"
    and v: "tier_value t' = tier_value t + 1"
  from v have "t \<le> t'" by (simp add: tier_order)
  moreover have "fr_original_tier r' = fr_original_tier r"
    using try_tier_frame [OF run] by (simp add: same_fault_def)
  ultimately show "record_at t' r' \<and> fr_original_tier r' \<le> t'"
    using P try_tier_record [OF _ _ run] record_at_mono by auto
qed (use assms in \<open>auto intro: record_at_mono dest: try_tier_record\<close>)

lemma mk_fault_record_simps [simp]:
  "fr_event (mk_fault_record s ev t ep) = ev" "fr_original_tier (mk_fault_record s ev t ep) = t"
  "fr_final_tier (mk_fault_record s ev t ep) = t" "fr_epoch (mk_fault_record s ev t ep) = ep"
  "fr_escalated (mk_fault_record s ev t ep) = False" "record_at t (mk_fault_record s ev t ep)"
  by (simp_all add: mk_fault_record_def record_at_def)

text \<open>Tiers whose layer is missing or refuses are passed over without an effect.\<close>

definition passes_over :: "fault_record \<Rightarrow> 's engine \<Rightarrow> blast_radius \<Rightarrow> bool" where
  "passes_over r e u \<longleftrightarrow>
    (case dget (en_tier_to_layer e) u of
       None \<Rightarrow> True | Some lay \<Rightarrow> \<not> rl_can_handle lay (fr_event r) u (en_world e))"

lemma passes_over_try: "passes_over r e u \<Longrightarrow> try_tier r u e = (Inr None, r, e)"
  by (auto simp: passes_over_def try_tier_def split: option.splits)

lemma route_passes_over:
  assumes "t \<le> v" and "\<forall>u. t \<le> u \<and> u < v \<longrightarrow> passes_over r e u"
  shows "route_from r t e = route_from r v e"
  using assms
proof (induction "tier_value v - tier_value t" arbitrary: t)
  case 0
  then have "tier_value v = tier_value t" by (simp add: tier_order)
  then show ?case by simp
next
  case (Suc n)
  then have lt: "tier_value t < tier_value v" by simp
  then obtain t' where t': "tier_of_value (tier_value t + 1) = Some t'" and v': "tier_value t' = tier_value t + 1"
    using tier_value_le_4 [of v] by (cases t) (auto simp: tier_of_value_eq)
  have le: "\<not> tier_value t + 1 > tier_value B4" using lt tier_value_le_4 [of v] by simp
  have "try_tier r t e = (Inr None, r, e)"
    by (rule passes_over_try) (use Suc.prems(2) lt in \<open>simp add: tier_order\<close>)
  then have "route_from r t e = route_from r t' e"
    using le by (simp add: route_from.simps [of r t e] Let_def t' [unfolded Suc_eq_plus1 [symmetric]])
  also have "\<dots> = route_from r v e"
  proof (rule Suc.hyps(1))
    show "n = tier_value v - tier_value t'" using Suc.hyps(2) v' by simp
    show "t' \<le> v" using lt v' by (simp add: tier_order)
    show "\<forall>u. t' \<le> u \<and> u < v \<longrightarrow> passes_over r e u"
      using Suc.prems(2) v' by (simp add: tier_order)
  qed
  finally show ?case .
qed

text \<open>A tier whose layer accepts and succeeds.\<close>

definition attempted :: "blast_radius \<Rightarrow> fault_record \<Rightarrow> fault_record" where
  "attempted t r = (if t \<noteq> fr_original_tier r then r\<lparr>fr_escalated := True\<rparr> else r)\<lparr>fr_final_tier := t\<rparr>"

lemma attempted_simps [simp]:
  "fr_event (attempted t r) = fr_event r" "fr_epoch (attempted t r) = fr_epoch r"
  "fr_original_tier (attempted t r) = fr_original_tier r" "fr_final_tier (attempted t r) = t"
  "fr_escalated (attempted t r) = (fr_escalated r \<or> t \<noteq> fr_original_tier r)"
  by (simp_all add: attempted_def)

lemma try_tier_success:
  assumes "dget (en_tier_to_layer e) t = Some lay" and "rl_can_handle lay (fr_event r) t (en_world e)"
    and "rl_recover lay (fr_event r) t (fr_epoch r) (urc_gate (attempted t r) t (en_consensus e)) (en_world e) =
      (Inr res, w)"
    and "rr_success res"
  shows "try_tier r t e = (Inr (Some res), attempted t r,
    e\<lparr>en_world := w, en_consensus := report_epoch (ev_rank (fr_event r)) (fr_epoch r) (en_consensus e),
      en_kpi := map_option (kpi_record (fr_epoch r) t (rr_recovery_secs res) (op_gpu_count (en_policy e)))
        (en_kpi e)\<rparr>)"
  using assms(2-4)
  unfolding try_tier_def assms(1) option.case Let_def attempted_def [symmetric]
  by simp

text \<open>An invariant of the layers' state that every registered layer keeps.\<close>

definition layers_keep :: "('s \<Rightarrow> bool) \<Rightarrow> (blast_radius, 's recovery_layer) dict \<Rightarrow> bool" where
  "layers_keep I m \<longleftrightarrow> (\<forall>t lay ev ep g w. dget m t = Some lay \<longrightarrow> I w \<longrightarrow> I (snd (rl_recover lay ev t ep g w)))"

lemma try_tier_keeps:
  assumes "layers_keep I (en_tier_to_layer e)" and "I (en_world e)" and "try_tier r t e = (out, r', e')"
  shows "I (en_world e')"
proof -
  have kept: "I w" if "dget (en_tier_to_layer e) t = Some lay"
      and "rl_recover lay (fr_event r) t ep g (en_world e) = (o', w)" for lay ep g o' w
    using assms(1,2) that unfolding layers_keep_def by (metis snd_conv)
  show ?thesis
  proof (cases "passes_over r e t")
    case True
    with assms(2,3) show ?thesis by (simp add: passes_over_try)
  next
    case False
    then obtain lay where lay: "dget (en_tier_to_layer e) t = Some lay"
      and can: "rl_can_handle lay (fr_event r) t (en_world e)"
      by (auto simp: passes_over_def split: option.splits)
    show ?thesis
      using assms(3) lay can kept [OF lay]
      unfolding try_tier_def Let_def by (auto split: sum.splits prod.splits if_splits)
  qed
qed

lemma route_keeps:
  assumes "layers_keep I (en_tier_to_layer e)" and "I (en_world e)" and "route_from r t e = (out, r', e')"
  shows "I (en_world e')"
proof -
  let ?P = "\<lambda>e1. I (en_world e1) \<and> en_tier_to_layer e1 = en_tier_to_layer e"
  have step: "?P e2" if "?P e1" and "try_tier r1 t1 e1 = (o1, r2, e2)" for r1 t1 e1 o1 r2 e2
    using that try_tier_keeps [of I e1 r1 t1 o1 r2 e2] try_tier_frame [OF that(2)] assms(1)
    by (simp add: same_engine_def)
  have "?P e'"
    by (rule route_from_rule [where t = t and Q = "\<lambda>_ _ e1. ?P e1" and P = "\<lambda>_ _ e1. ?P e1",
          OF _ _ _ _ _ assms(3)])
       (use step assms(2) in blast)+
  then show ?thesis by simp
qed

subsection \<open>One event\<close>

lemma correlation_frame [simp, frame_simps]:
  "en_epochs (snd (apply_correlation_window now ev t e)) = en_epochs e"
  "en_policy (snd (apply_correlation_window now ev t e)) = en_policy e"
  "en_tier_to_layer (snd (apply_correlation_window now ev t e)) = en_tier_to_layer e"
  "en_history (snd (apply_correlation_window now ev t e)) = en_history e"
  "en_observe_only (snd (apply_correlation_window now ev t e)) = en_observe_only e"
  "en_world (snd (apply_correlation_window now ev t e)) = en_world e"
  "en_consensus (snd (apply_correlation_window now ev t e)) = en_consensus e"
  "en_kpi (snd (apply_correlation_window now ev t e)) = en_kpi e"
  by (simp_all add: apply_correlation_window_def Let_def)

text \<open>The tier an event is routed from.\<close>

definition decided_tier :: "real \<Rightarrow> telemetry_event \<Rightarrow> 's engine \<Rightarrow> blast_radius" where
  "decided_tier now ev e = fst (apply_correlation_window now ev (classify ev) e)"

text \<open>The engine as it stands when an event's record is made.\<close>

definition entered :: "real \<Rightarrow> telemetry_event \<Rightarrow> 's engine \<Rightarrow> 's engine" where
  "entered now ev e = (snd (apply_correlation_window now ev (classify ev) e))
     \<lparr>en_epochs := snd (next_epoch (en_epochs e))\<rparr>"

definition new_record :: "real \<Rightarrow> real \<Rightarrow> telemetry_event \<Rightarrow> 's engine \<Rightarrow> fault_record" where
  "new_record now stamp ev e = mk_fault_record stamp ev (decided_tier now ev e) (es_epoch (en_epochs e) + 1)"

lemma entered_simps [simp]:
  "es_epoch (en_epochs (entered now ev e)) = es_epoch (en_epochs e) + 1"
  "en_policy (entered now ev e) = en_policy e"
  "en_tier_to_layer (entered now ev e) = en_tier_to_layer e"
  "en_history (entered now ev e) = en_history e"
  "en_observe_only (entered now ev e) = en_observe_only e"
  "en_world (entered now ev e) = en_world e"
  "en_consensus (entered now ev e) = en_consensus e"
  "en_kpi (entered now ev e) = en_kpi e"
  "en_recent_b1s (entered now ev e) =
     en_recent_b1s (snd (apply_correlation_window now ev (classify ev) e))"
  by (simp_all add: entered_def next_epoch_def)

lemma new_record_simps [simp]:
  "fr_event (new_record now stamp ev e) = ev"
  "fr_original_tier (new_record now stamp ev e) = decided_tier now ev e"
  "fr_final_tier (new_record now stamp ev e) = decided_tier now ev e"
  "fr_epoch (new_record now stamp ev e) = es_epoch (en_epochs e) + 1"
  "fr_escalated (new_record now stamp ev e) = False"
  "record_at (decided_tier now ev e) (new_record now stamp ev e)"
  by (simp_all add: new_record_def)

lemma on_event_observe:
  "en_observe_only e \<Longrightarrow> on_event now stamp ev e =
    (Inr (), (entered now ev e)\<lparr>en_history := en_history e @
       [(new_record now stamp ev e)\<lparr>fr_result := Some (rr_succeeded MsgObserveOnly False 0)\<rparr>]\<rparr>)"
  by (simp add: on_event_def split_beta next_epoch_def entered_def new_record_def decided_tier_def Let_def)

lemma on_event_route:
  "\<not> en_observe_only e \<Longrightarrow> on_event now stamp ev e =
    (case route (new_record now stamp ev e) (entered now ev e) of
       (Inl x, r', e') \<Rightarrow> (Inl x, e')
     | (Inr result, r', e') \<Rightarrow> (Inr (), e'\<lparr>en_history := en_history e' @ [r'\<lparr>fr_result := Some result\<rparr>]\<rparr>))"
  by (simp add: on_event_def split_beta next_epoch_def entered_def new_record_def decided_tier_def Let_def)

text \<open>What an event does to the engine's books.\<close>

lemma on_event_books:
  assumes "on_event now stamp ev e = (res, e')"
  shows "es_epoch (en_epochs e') = es_epoch (en_epochs e) + 1 \<and> en_policy e' = en_policy e \<and>
    en_tier_to_layer e' = en_tier_to_layer e \<and> en_observe_only e' = en_observe_only e \<and>
    en_recent_b1s e' = en_recent_b1s (entered now ev e) \<and>
    (case res of
       Inl x \<Rightarrow> en_history e' = en_history e
     | Inr u \<Rightarrow> \<exists>r. en_history e' = en_history e @ [r] \<and> fr_event r = ev \<and>
         fr_original_tier r = decided_tier now ev e \<and> fr_epoch r = es_epoch (en_epochs e) + 1 \<and>
         record_at B4 r \<and> fr_result r \<noteq> None)"
proof (cases "en_observe_only e")
  case True
  with assms show ?thesis
    using record_at_mono [of "decided_tier now ev e" "new_record now stamp ev e" B4]
    by (auto simp: on_event_observe record_at_def)
next
  case False
  obtain out r' e1 where rt: "route (new_record now stamp ev e) (entered now ev e) = (out, r', e1)"
    by (cases "route (new_record now stamp ev e) (entered now ev e)") auto
  then have rf: "route_from (new_record now stamp ev e) (decided_tier now ev e) (entered now ev e) = (out, r', e1)"
    by (simp add: route_def)
  have "same_fault (new_record now stamp ev e) r' \<and> same_engine (entered now ev e) e1"
    by (rule route_frame [OF rf])
  moreover have "record_at B4 r'" by (rule route_record [OF _ _ rf]) simp_all
  ultimately show ?thesis
    using assms False rt
    by (cases out) (auto simp: on_event_route same_fault_def same_engine_def record_at_def)
qed

definition audit_ok :: "'s engine \<Rightarrow> bool" where
  "audit_ok e \<longleftrightarrow> (\<forall>r \<in> set (en_history e). record_at B4 r \<and> fr_result r \<noteq> None \<and>
       fr_epoch r \<le> es_epoch (en_epochs e)) \<and>
     sorted_wrt (\<lambda>r s. fr_epoch r < fr_epoch s) (en_history e)"

lemma on_event_audit_ok: "audit_ok e \<Longrightarrow> audit_ok (snd (on_event now stamp ev e))"
proof -
  assume ok: "audit_ok e"
  obtain res e' where run: "on_event now stamp ev e = (res, e')" by force
  from on_event_books [OF run] ok show ?thesis
    unfolding run audit_ok_def
    by (cases res) (fastforce simp: sorted_wrt_append)+
qed

lemma engine_run_Nil [simp]: "engine_run [] e = e"
  by (simp add: engine_run_def)

lemma engine_run_Cons [simp]:
  "engine_run ((now, stamp, ev) # evs) e = engine_run evs (snd (on_event now stamp ev e))"
  by (simp add: engine_run_def)

lemma engine_run_append: "engine_run (xs @ ys) e = engine_run ys (engine_run xs e)"
  by (simp add: engine_run_def)

lemma engine_run_books:
  "es_epoch (en_epochs (engine_run evs e)) = es_epoch (en_epochs e) + int (length evs) \<and>
   en_policy (engine_run evs e) = en_policy e \<and>
   en_tier_to_layer (engine_run evs e) = en_tier_to_layer e \<and>
   en_observe_only (engine_run evs e) = en_observe_only e \<and>
   (\<exists>new. en_history (engine_run evs e) = en_history e @ new \<and> length new \<le> length evs)"
proof (induction evs arbitrary: e)
  case Nil
  then show ?case by simp
next
  case (Cons w evs)
  obtain now stamp ev where w: "w = (now, stamp, ev)" by (cases w) auto
  obtain res e' where run: "on_event now stamp ev e = (res, e')" by force
  from Cons.IH [of e'] obtain new where
    IH: "en_history (engine_run evs e') = en_history e' @ new" "length new \<le> length evs" by blast
  from on_event_books [OF run] have "\<exists>new0. en_history e' = en_history e @ new0 \<and> length new0 \<le> 1"
    by (cases res) auto
  with IH have "\<exists>new. en_history (engine_run evs e') = en_history e @ new \<and> length new \<le> Suc (length evs)"
    by fastforce
  with Cons.IH [of e'] on_event_books [OF run] show ?case by (simp add: w run)
qed

lemma engine_run_audit_ok: "audit_ok e \<Longrightarrow> audit_ok (engine_run evs e)"
proof (induction evs arbitrary: e)
  case (Cons w evs)
  then show ?case by (cases w) (simp add: on_event_audit_ok)
qed simp

lemma on_event_keeps:
  assumes "layers_keep I (en_tier_to_layer e)" and "I (en_world e)"
  shows "I (en_world (snd (on_event now stamp ev e)))"
proof (cases "en_observe_only e")
  case True
  with assms show ?thesis by (simp add: on_event_observe)
next
  case False
  obtain out r' e1 where rt: "route (new_record now stamp ev e) (entered now ev e) = (out, r', e1)"
    by (cases "route (new_record now stamp ev e) (entered now ev e)") auto
  have "I (en_world e1)"
    by (rule route_keeps [OF _ _ rt [unfolded route_def]]) (use assms in simp_all)
  with False rt show ?thesis by (cases out) (simp_all add: on_event_route)
qed

lemma engine_run_keeps:
  "layers_keep I (en_tier_to_layer e) \<Longrightarrow> I (en_world e) \<Longrightarrow> I (en_world (engine_run evs e))"
proof (induction evs arbitrary: e)
  case (Cons x evs)
  obtain now stamp ev where x: "x = (now, stamp, ev)" by (cases x) auto
  obtain res e' where run: "on_event now stamp ev e = (res, e')" by force
  have "I (en_world e')" using on_event_keeps [OF Cons.prems, of now stamp ev] by (simp add: run)
  with Cons.IH [of e'] on_event_books [OF run] Cons.prems(1) show ?case by (simp add: x run)
qed simp

text \<open>
  C3. The audit log is sound: after any sequence of events on a fresh engine, with any
  layers, whether or not it only observes, every record was escalated upwards only and is
  flagged escalated exactly when its final tier is above the tier it was routed from; it
  has a result; the fault epochs of the log strictly increase, one epoch was drawn for
  every event, and handling more events only appends to the log.
\<close>

theorem audit_log_sound:
  "let eng0 = (engine_init epochs consensus policy layers kpi world)\<lparr>en_observe_only := observe\<rparr>;
       eng = engine_run evs eng0
   in (\<forall>r \<in> set (en_history eng). escalation_valid r \<and>
         fr_escalated r = (fr_original_tier r < fr_final_tier r) \<and> fr_result r \<noteq> None) \<and>
      sorted_wrt (\<lambda>r s. fr_epoch r < fr_epoch s) (en_history eng) \<and>
      es_epoch (en_epochs eng) = es_epoch epochs + int (length evs) \<and>
      (\<exists>new. en_history (engine_run later eng) = en_history eng @ new \<and> length new \<le> length later)"
proof -
  define e0 where "e0 = (engine_init epochs consensus policy layers kpi world)\<lparr>en_observe_only := observe\<rparr>"
  have "audit_ok e0" by (simp add: e0_def audit_ok_def engine_init_def)
  then have ok: "audit_ok (engine_run evs e0)" by (rule engine_run_audit_ok)
  have rec: "\<forall>r \<in> set (en_history (engine_run evs e0)). escalation_valid r \<and>
      fr_escalated r = (fr_original_tier r < fr_final_tier r) \<and> fr_result r \<noteq> None"
    using ok record_at_valid unfolding audit_ok_def by blast
  have sorted: "sorted_wrt (\<lambda>r s. fr_epoch r < fr_epoch s) (en_history (engine_run evs e0))"
    using ok by (simp add: audit_ok_def)
  have ep: "es_epoch (en_epochs (engine_run evs e0)) = es_epoch epochs + int (length evs)"
    using engine_run_books [of evs e0] by (simp add: e0_def engine_init_def)
  have "\<exists>new. en_history (engine_run later (engine_run evs e0)) = en_history (engine_run evs e0) @ new \<and>
      length new \<le> length later"
    using engine_run_books [of later "engine_run evs e0"] by blast
  with rec sorted ep show ?thesis unfolding Let_def e0_def [symmetric] by blast
qed

subsection \<open>The order of recovery attempts\<close>

text \<open>
  A log of the layer calls: \<open>calls\<close> reads it off the layers' state, every registered layer
  appends its tier when its recovery runs, and the pre-flight checks are pure.
\<close>

definition logs_calls :: "('s \<Rightarrow> blast_radius list) \<Rightarrow> (blast_radius, 's recovery_layer) dict \<Rightarrow> bool" where
  "logs_calls calls m \<longleftrightarrow>
    (\<forall>tier lay ev t ep g w. dget m tier = Some lay \<longrightarrow>
       calls (snd (rl_recover lay ev t ep g w)) = calls w @ [t])"

lemma try_tier_calls:
  assumes "logs_calls calls (en_tier_to_layer e)" and "try_tier r t e = (out, r', e')"
  shows "calls (en_world e') = calls (en_world e) \<and> out = Inr None \<and> fr_final_tier r' = fr_final_tier r \<or>
    calls (en_world e') = calls (en_world e) @ [t] \<and> fr_final_tier r' = t"
proof (cases "dget (en_tier_to_layer e) t")
  case None
  with assms(2) show ?thesis by (simp add: try_tier_def)
next
  case (Some lay)
  show ?thesis
  proof (cases "rl_can_handle lay (fr_event r) t (en_world e)")
    case False
    with assms(2) Some show ?thesis by (simp add: try_tier_def)
  next
    case True
    have "\<And>ev ep g w. calls (snd (rl_recover lay ev t ep g w)) = calls w @ [t]"
      using assms(1) Some unfolding logs_calls_def by blast
    then have logged: "rl_recover lay ev t ep g w = (o', w') \<Longrightarrow> calls w' = calls w @ [t]" for ev ep g w o' w'
      by (metis snd_conv)
    with assms(2) Some True show ?thesis
      unfolding try_tier_def Let_def
      by (auto split: sum.splits prod.splits if_splits)
  qed
qed

text \<open>
  C4. Escalation only goes up: while the engine routes one fault, the layers' recoveries
  are called at strictly increasing tiers, none below the tier the fault was routed from,
  each tier at most once; the audit record's final tier is the last tier called, or the
  first tier when no layer was called. It holds whatever the layers do, failures and
  exceptions included.
\<close>

theorem layers_called_upwards:
  assumes "logs_calls calls (en_tier_to_layer eng)"
    and "route r eng = (res, r', eng')" and "fr_final_tier r = fr_original_tier r"
  shows "\<exists>ts. calls (en_world eng') = calls (en_world eng) @ ts \<and> sorted_wrt (<) ts \<and>
    (\<forall>t \<in> set ts. fr_original_tier r \<le> t) \<and>
    fr_final_tier r' = (if ts = [] then fr_original_tier r else last ts)"
proof -
  let ?I = "\<lambda>t r1 e1. en_tier_to_layer e1 = en_tier_to_layer eng \<and> fr_original_tier r \<le> t \<and>
    (\<exists>ts. calls (en_world e1) = calls (en_world eng) @ ts \<and> sorted_wrt (<) ts \<and>
       (\<forall>u \<in> set ts. fr_original_tier r \<le> u \<and> u < t) \<and>
       fr_final_tier r1 = (if ts = [] then fr_original_tier r else last ts))"
  let ?Q = "\<lambda>r1 e1. \<exists>ts. calls (en_world e1) = calls (en_world eng) @ ts \<and> sorted_wrt (<) ts \<and>
    (\<forall>u \<in> set ts. fr_original_tier r \<le> u) \<and>
    fr_final_tier r1 = (if ts = [] then fr_original_tier r else last ts)"
  have step: "en_tier_to_layer e2 = en_tier_to_layer eng \<and> (\<exists>ts. calls (en_world e2) = calls (en_world eng) @ ts \<and>
       sorted_wrt (<) ts \<and> (\<forall>u \<in> set ts. fr_original_tier r \<le> u \<and> u \<le> t) \<and>
       fr_final_tier r2 = (if ts = [] then fr_original_tier r else last ts))"
    if I: "?I t r1 e1" and run: "try_tier r1 t e1 = (out, r2, e2)" for t r1 e1 out r2 e2
  proof -
    from I obtain ts where ts: "calls (en_world e1) = calls (en_world eng) @ ts" "sorted_wrt (<) ts"
      "\<forall>u \<in> set ts. fr_original_tier r \<le> u \<and> u < t"
      "fr_final_tier r1 = (if ts = [] then fr_original_tier r else last ts)" by blast
    have "logs_calls calls (en_tier_to_layer e1)" using I assms(1) by simp
    from try_tier_calls [OF this run] ts I
    have "\<exists>ts. calls (en_world e2) = calls (en_world eng) @ ts \<and>
       sorted_wrt (<) ts \<and> (\<forall>u \<in> set ts. fr_original_tier r \<le> u \<and> u \<le> t) \<and>
       fr_final_tier r2 = (if ts = [] then fr_original_tier r else last ts)"
    proof (elim disjE)
      assume "calls (en_world e2) = calls (en_world e1) @ [t] \<and> fr_final_tier r2 = t"
      with ts I show ?thesis
        by (intro exI [of _ "ts @ [t]"]) (auto simp: sorted_wrt_append intro: less_imp_le)
    next
      assume "calls (en_world e2) = calls (en_world e1) \<and> out = Inr None \<and> fr_final_tier r2 = fr_final_tier r1"
      with ts show ?thesis by (intro exI [of _ ts]) (auto intro: less_imp_le)
    qed
    with try_tier_frame [OF run] I show ?thesis by (simp add: same_engine_def)
  qed
  show ?thesis
  proof (rule route_from_rule [where P = ?I and Q = "\<lambda>_. ?Q" and t = "fr_final_tier r"])
    show "route_from r (fr_final_tier r) eng = (res, r', eng')" using assms(2) by (simp add: route_def)
    show "?I (fr_final_tier r) r eng" using assms(3) by (auto intro: exI [of _ "[]"])
  next
    fix t t' r1 e1 r2 e2
    assume I: "?I t r1 e1" and run: "try_tier r1 t e1 = (Inr None, r2, e2)"
      and v: "tier_value t' = tier_value t + 1"
    have "\<And>u. u \<le> t \<Longrightarrow> u < t'" and "t \<le> t'" using v by (simp_all add: tier_order)
    with step [OF I run] I show "?I t' r2 e2" by (meson order_trans)
  next
    fix t r1 e1 x r2 e2
    assume "?I t r1 e1" and "try_tier r1 t e1 = (Inl x, r2, e2)"
    from step [OF this] show "?Q r2 e2" by blast
  next
    fix t r1 e1 x r2 e2
    assume "?I t r1 e1" and "try_tier r1 t e1 = (Inr (Some x), r2, e2)"
    from step [OF this] show "?Q r2 e2" by blast
  next
    fix r1 e1 r2 e2
    assume "?I B4 r1 e1" and "try_tier r1 B4 e1 = (Inr None, r2, e2)"
    from step [OF this] show "?Q r2 e2" by blast
  qed
qed

text \<open>A layer that fails below B3 and succeeds from B3 on, logging its calls.\<close>

definition demo_layer :: "blast_radius list recovery_layer" where
  "demo_layer = \<lparr>rl_handled_tiers = [B1, B2, B3], rl_can_handle = (\<lambda>ev t w. t \<noteq> B2),
    rl_recover = (\<lambda>ev t ep g w. (Inr (if t = B3 then rr_succeeded MsgEmpty False 0 else rr_failure MsgEmpty), w @ [t]))\<rparr>"

definition demo_event :: telemetry_event where
  "demo_event =
    \<lparr>ev_rank = 0, ev_node = ''node0'', ev_signal = NODE_CRASH, ev_payload = [], ev_epoch = 0,
     ev_timestamp = 0, ev_nic = None, ev_rack = Some ''rack0'', ev_source = ''unknown''\<rparr>"

definition demo_engine :: "blast_radius list engine" where
  "demo_engine = engine_init (epoch_init 0) urc_init default_policy [demo_layer] (Some (kpi_init 2)) []"

lemma demo_layer_sel:
  "rl_can_handle demo_layer = (\<lambda>ev t w. t \<noteq> B2)"
  "rl_recover demo_layer = (\<lambda>ev t ep g w.
     (Inr (if t = B3 then rr_succeeded MsgEmpty False 0 else rr_failure MsgEmpty), w @ [t]))"
  by (simp_all add: demo_layer_def)

lemma demo_map: "build_tier_map [demo_layer] = [(B1, demo_layer), (B2, demo_layer), (B3, demo_layer)]"
  by (simp add: build_tier_map_def) (simp add: demo_layer_def)

theorem layers_called_upwards_witness:
  "\<exists>res r' eng' ts. route (mk_fault_record 0 demo_event B1 1) demo_engine = (res, r', eng') \<and>
     en_world eng' = [B1, B3] \<and> sorted_wrt (<) (en_world eng') \<and> fr_final_tier r' = B3"
proof -
  let ?r = "mk_fault_record 0 demo_event B1 1"
  have logs: "logs_calls (\<lambda>w. w) (en_tier_to_layer demo_engine)"
    unfolding logs_calls_def demo_engine_def engine_init_def engine.simps demo_map
    by (auto simp: demo_layer_def split: if_splits)
  obtain res r' eng' where run: "route ?r demo_engine = (res, r', eng')"
    by (cases "route ?r demo_engine") auto
  then have w: "en_world eng' = [B1, B3]"
    by (auto simp: route_def route_from.simps [where tier = B1] route_from.simps [where tier = B2]
        route_from.simps [where tier = B3] try_tier_def demo_engine_def engine_init_def demo_map
        demo_layer_sel Let_def tier_of_value_eq urc_gate_def tier_order)
  from layers_called_upwards [OF logs run] have "\<exists>ts. en_world eng' = ts \<and> sorted_wrt (<) ts \<and>
      fr_final_tier r' = (if ts = [] then B1 else last ts)"
    by (auto simp: demo_engine_def engine_init_def)
  with w run show ?thesis by auto
qed

theorem audit_log_sound_witness:
  "\<exists>r. en_history (engine_run [(0, 0, demo_event)]
        ((engine_init (epoch_init 0) urc_init default_policy [demo_layer] (Some (kpi_init 2)) [])
           \<lparr>en_observe_only := False\<rparr>)) = [r] \<and>
     fr_original_tier r = B1 \<and> fr_final_tier r = B3 \<and> escalation_valid r \<and> fr_escalated r \<and> fr_epoch r = 1"
proof -
  let ?e = "(engine_init (epoch_init 0) urc_init default_policy [demo_layer] (Some (kpi_init 2)) ([]::blast_radius list))
      \<lparr>en_observe_only := False\<rparr>"
  have "\<exists>r. en_history (engine_run [(0, 0, demo_event)] ?e) = [r] \<and>
      fr_original_tier r = B1 \<and> fr_final_tier r = B3 \<and> fr_epoch r = 1"
    by (simp add: engine_run_def on_event_def apply_correlation_window_def classify_eq_signal demo_event_def
        rack_of_def default_policy_def next_epoch_def epoch_init_def engine_init_def demo_map
        mk_fault_record_def route_def route_from.simps [where tier = B1] route_from.simps [where tier = B2]
        route_from.simps [where tier = B3] try_tier_def demo_layer_sel Let_def tier_of_value_eq
        urc_gate_def tier_order)
  moreover note audit_log_sound [where epochs = "epoch_init 0" and consensus = urc_init and policy = default_policy
      and layers = "[demo_layer]" and kpi = "Some (kpi_init 2)" and world = "[]" and observe = False
      and evs = "[(0, 0, demo_event)]" and later = "[]", unfolded Let_def]
  ultimately show ?thesis by (auto simp: tier_order)
qed

subsection \<open>Which layer a fault is recovered by\<close>

text \<open>
  The routing over the layers alone. What the layer of a tier answers to a fault in a state of the
  layers: nothing when no layer is registered for the tier or its layer refuses, else what its
  recovery returns or raises, under the gate of the tier.
\<close>

definition tier_says ::
  "fault_record \<Rightarrow> 's engine \<Rightarrow> blast_radius \<Rightarrow> 's \<Rightarrow> ((pyexc + recovery_result) \<times> 's) option" where
  "tier_says r eng t w =
    (case dget (en_tier_to_layer eng) t of
       None \<Rightarrow> None
     | Some lay \<Rightarrow>
         if rl_can_handle lay (fr_event r) t w
         then Some (rl_recover lay (fr_event r) t (fr_epoch r) (urc_gate r t (en_consensus eng)) w)
         else None)"

text \<open>A tier that says nothing or whose recovery fails gives the fault up to the next tier.\<close>

inductive gives_up :: "fault_record \<Rightarrow> 's engine \<Rightarrow> blast_radius \<times> 's \<Rightarrow> blast_radius \<times> 's \<Rightarrow> bool" for r eng where
  silent: "tier_says r eng t w = None \<Longrightarrow> tier_value t' = tier_value t + 1 \<Longrightarrow> gives_up r eng (t, w) (t', w)"
| failed: "tier_says r eng t w = Some (Inr res, w') \<Longrightarrow> \<not> rr_success res \<Longrightarrow> tier_value t' = tier_value t + 1 \<Longrightarrow>
    gives_up r eng (t, w) (t', w')"

inductive_cases gives_upE: "gives_up r eng (t, w) c"

lemma urc_gate_cong: "fr_event r' = fr_event r \<Longrightarrow> fr_epoch r' = fr_epoch r \<Longrightarrow> urc_gate r' t u = urc_gate r t u"
  by (simp add: urc_gate_def)

lemma tier_says_Some:
  assumes "tier_says r eng t w = Some (out, w')"
  obtains lay where "dget (en_tier_to_layer eng) t = Some lay" "rl_can_handle lay (fr_event r) t w"
    "rl_recover lay (fr_event r) t (fr_epoch r) (urc_gate r t (en_consensus eng)) w = (out, w')"
  using assms by (auto simp: tier_says_def split: option.splits if_splits)

lemma try_tier_says:
  assumes "same_fault r r1"
  shows "tier_says r eng t w = None \<Longrightarrow> try_tier r1 t (eng\<lparr>en_world := w\<rparr>) = (Inr None, r1, eng\<lparr>en_world := w\<rparr>)"
    and "tier_says r eng t w = Some (Inl x, w') \<Longrightarrow>
      try_tier r1 t (eng\<lparr>en_world := w\<rparr>) = (Inl x, attempted t r1, eng\<lparr>en_world := w'\<rparr>)"
    and "tier_says r eng t w = Some (Inr res, w') \<Longrightarrow> \<not> rr_success res \<Longrightarrow>
      try_tier r1 t (eng\<lparr>en_world := w\<rparr>) = (Inr None, attempted t r1, eng\<lparr>en_world := w'\<rparr>)"
    and "tier_says r eng t w = Some (Inr res, w') \<Longrightarrow> rr_success res \<Longrightarrow>
      \<exists>e'. try_tier r1 t (eng\<lparr>en_world := w\<rparr>) = (Inr (Some res), attempted t r1, e') \<and> en_world e' = w'"
proof -
  have same: "fr_event r1 = fr_event r" "fr_epoch r1 = fr_epoch r" using assms by (simp_all add: same_fault_def)
  have gate: "urc_gate (attempted t r1) t u = urc_gate r t u" for u by (rule urc_gate_cong) (simp_all add: same)
  have layer: "dget (en_tier_to_layer (eng\<lparr>en_world := w\<rparr>)) t = Some lay" if "dget (en_tier_to_layer eng) t = Some lay" for lay
    using that by simp
  show "try_tier r1 t (eng\<lparr>en_world := w\<rparr>) = (Inr None, r1, eng\<lparr>en_world := w\<rparr>)" if "tier_says r eng t w = None"
    using that by (intro passes_over_try) (auto simp: tier_says_def passes_over_def same split: option.splits if_splits)
  show "try_tier r1 t (eng\<lparr>en_world := w\<rparr>) = (Inl x, attempted t r1, eng\<lparr>en_world := w'\<rparr>)"
    if says: "tier_says r eng t w = Some (Inl x, w')"
    using says
  proof (rule tier_says_Some)
    fix lay
    assume "dget (en_tier_to_layer eng) t = Some lay" "rl_can_handle lay (fr_event r) t w"
      "rl_recover lay (fr_event r) t (fr_epoch r) (urc_gate r t (en_consensus eng)) w = (Inl x, w')"
    then show ?thesis
      unfolding try_tier_def layer [OF \<open>dget (en_tier_to_layer eng) t = Some lay\<close>] option.case Let_def attempted_def [symmetric]
      by (simp add: same gate)
  qed
  show "try_tier r1 t (eng\<lparr>en_world := w\<rparr>) = (Inr None, attempted t r1, eng\<lparr>en_world := w'\<rparr>)"
    if says: "tier_says r eng t w = Some (Inr res, w')" "\<not> rr_success res"
    using says(1)
  proof (rule tier_says_Some)
    fix lay
    assume "dget (en_tier_to_layer eng) t = Some lay" "rl_can_handle lay (fr_event r) t w"
      "rl_recover lay (fr_event r) t (fr_epoch r) (urc_gate r t (en_consensus eng)) w = (Inr res, w')"
    then show ?thesis
      using says(2)
      unfolding try_tier_def layer [OF \<open>dget (en_tier_to_layer eng) t = Some lay\<close>] option.case Let_def attempted_def [symmetric]
      by (simp add: same gate)
  qed
  show "\<exists>e'. try_tier r1 t (eng\<lparr>en_world := w\<rparr>) = (Inr (Some res), attempted t r1, e') \<and> en_world e' = w'"
    if says: "tier_says r eng t w = Some (Inr res, w')" "rr_success res"
    using says(1)
  proof (rule tier_says_Some)
    fix lay
    assume "dget (en_tier_to_layer eng) t = Some lay" "rl_can_handle lay (fr_event r) t w"
      "rl_recover lay (fr_event r) t (fr_epoch r) (urc_gate r t (en_consensus eng)) w = (Inr res, w')"
    then show ?thesis
      using says(2)
      unfolding try_tier_def layer [OF \<open>dget (en_tier_to_layer eng) t = Some lay\<close>] option.case Let_def attempted_def [symmetric]
      by (simp add: same gate)
  qed
qed

lemma same_fault_attempted: "same_fault r r1 \<Longrightarrow> same_fault r (attempted t r1)"
  by (simp add: same_fault_def attempted_def)

lemma route_from_next:
  assumes "try_tier r t e = (Inr None, r', e')" "tier_value t' = tier_value t + 1"
  shows "route_from r t e = route_from r' t' e'"
proof -
  have "\<not> tier_value t + 1 > tier_value B4" "tier_of_value (tier_value t + 1) = Some t'"
    using assms(2) by (cases t; cases t'; simp add: tier_of_value_eq)+
  with assms(1) show ?thesis by (simp only: route_from.simps [of r t] prod.case sum.case option.case Let_def if_False)
qed

text \<open>Routing from a tier reached by giving up is what is left of the routing.\<close>

lemma route_from_given_up:
  assumes "(gives_up r eng)\<^sup>*\<^sup>* (t0, w0) (t, w)" "same_fault r r0"
  shows "\<exists>r1. same_fault r r1 \<and> route_from r0 t0 (eng\<lparr>en_world := w0\<rparr>) = route_from r1 t (eng\<lparr>en_world := w\<rparr>)"
  using assms(1)
proof (induction t w rule: rtranclp_induct2)
  case refl
  with assms(2) show ?case by blast
next
  case (step t w t' w')
  then obtain r1 where r1: "same_fault r r1" "route_from r0 t0 (eng\<lparr>en_world := w0\<rparr>) = route_from r1 t (eng\<lparr>en_world := w\<rparr>)"
    by blast
  from step.hyps(2) have v: "tier_value t' = tier_value t + 1" by (auto elim: gives_upE)
  from step.hyps(2) show ?case
  proof (cases rule: gives_up.cases)
    case silent
    from route_from_next [OF try_tier_says(1) [OF r1(1) silent(2)] v] r1 show ?thesis by (auto simp: silent(1))
  next
    case (failed res)
    from route_from_next [OF try_tier_says(3) [OF r1(1) failed(1,2)] v] r1 same_fault_attempted [OF r1(1)] show ?thesis by auto
  qed
qed

lemma route_settles:
  "\<exists>out r' eng' t w. route r eng = (out, r', eng') \<and>
     (gives_up r eng)\<^sup>*\<^sup>* (fr_final_tier r, en_world eng) (t, w) \<and>
     ((\<exists>res. tier_says r eng t w = Some (Inr res, en_world eng') \<and> rr_success res \<and> out = Inr res \<and> fr_final_tier r' = t) \<or>
      (\<exists>x. tier_says r eng t w = Some (Inl x, en_world eng') \<and> out = Inl x) \<or>
      (t = B4 \<and> out = Inr (exhausted_result r) \<and>
        (tier_says r eng t w = None \<and> en_world eng' = w \<or>
         (\<exists>res. tier_says r eng t w = Some (Inr res, en_world eng') \<and> \<not> rr_success res))))"
proof -
  obtain out r' eng' where run: "route_from r (fr_final_tier r) eng = (out, r', eng')"
    by (cases "route_from r (fr_final_tier r) eng") auto
  let ?reach = "\<lambda>t w. (gives_up r eng)\<^sup>*\<^sup>* (fr_final_tier r, en_world eng) (t, w)"
  let ?P = "\<lambda>t r1 e1. \<exists>w. same_fault r r1 \<and> e1 = eng\<lparr>en_world := w\<rparr> \<and> ?reach t w"
  let ?Q = "\<lambda>out r' e'. \<exists>t w. ?reach t w \<and>
     ((\<exists>res. tier_says r eng t w = Some (Inr res, en_world e') \<and> rr_success res \<and> out = Inr res \<and> fr_final_tier r' = t) \<or>
      (\<exists>x. tier_says r eng t w = Some (Inl x, en_world e') \<and> out = Inl x) \<or>
      (t = B4 \<and> out = Inr (exhausted_result r) \<and>
        (tier_says r eng t w = None \<and> en_world e' = w \<or>
         (\<exists>res. tier_says r eng t w = Some (Inr res, en_world e') \<and> \<not> rr_success res))))"
  have turn: "(out1 = Inr None \<and> same_fault r r2 \<and> (\<exists>w'. e2 = eng\<lparr>en_world := w'\<rparr> \<and>
        (tier_says r eng t w = None \<and> w' = w \<or> (\<exists>res. tier_says r eng t w = Some (Inr res, w') \<and> \<not> rr_success res)))) \<or>
      (\<exists>x. out1 = Inl x \<and> tier_says r eng t w = Some (Inl x, en_world e2)) \<or>
      (\<exists>res. out1 = Inr (Some res) \<and> rr_success res \<and> tier_says r eng t w = Some (Inr res, en_world e2) \<and> fr_final_tier r2 = t)"
    if same: "same_fault r r1" and tt: "try_tier r1 t (eng\<lparr>en_world := w\<rparr>) = (out1, r2, e2)" for r1 t w out1 r2 e2
  proof -
    note says = try_tier_says [OF same, of eng t w, unfolded tt]
    consider "tier_says r eng t w = None" | x w' where "tier_says r eng t w = Some (Inl x, w')"
      | res w' where "tier_says r eng t w = Some (Inr res, w')" "\<not> rr_success res"
      | res w' where "tier_says r eng t w = Some (Inr res, w')" "rr_success res"
      by (cases "tier_says r eng t w") (auto, metis old.sum.exhaust)
    then show ?thesis
    proof cases
      case 1
      with says(1) same show ?thesis by auto
    next
      case 2
      with says(2) [OF 2] show ?thesis by auto
    next
      case 3
      with says(3) [OF 3] same_fault_attempted [OF same] show ?thesis by auto
    next
      case 4
      with says(4) [OF 4] show ?thesis by auto
    qed
  qed
  have "?Q out r' eng'"
  proof (rule route_from_rule [where P = ?P and Q = ?Q, OF _ _ _ _ _ run])
    fix t t' r1 e1 r2 e2
    assume "?P t r1 e1" and tt: "try_tier r1 t e1 = (Inr None, r2, e2)" and v: "tier_value t' = tier_value t + 1"
    then obtain w where w: "same_fault r r1" "e1 = eng\<lparr>en_world := w\<rparr>" "?reach t w" by blast
    from turn [OF w(1) tt [unfolded w(2)]] obtain w' where w': "same_fault r r2" "e2 = eng\<lparr>en_world := w'\<rparr>"
      "tier_says r eng t w = None \<and> w' = w \<or> (\<exists>res. tier_says r eng t w = Some (Inr res, w') \<and> \<not> rr_success res)"
      by (elim disjE) auto
    have up: "gives_up r eng (t, w) (t', w')" using w'(3) silent [OF _ v] failed [OF _ _ v] by auto
    from rtranclp.rtrancl_into_rtrancl [OF w(3) up] w' show "?P t' r2 e2" by blast
  next
    fix t r1 e1 x r2 e2
    assume "?P t r1 e1" and tt: "try_tier r1 t e1 = (Inl x, r2, e2)"
    then obtain w where w: "same_fault r r1" "e1 = eng\<lparr>en_world := w\<rparr>" "?reach t w" by blast
    from turn [OF w(1) tt [unfolded w(2)]] w(3) show "?Q (Inl x) r2 e2" by auto
  next
    fix t r1 e1 res r2 e2
    assume "?P t r1 e1" and tt: "try_tier r1 t e1 = (Inr (Some res), r2, e2)"
    then obtain w where w: "same_fault r r1" "e1 = eng\<lparr>en_world := w\<rparr>" "?reach t w" by blast
    from turn [OF w(1) tt [unfolded w(2)]] w(3) show "?Q (Inr res) r2 e2" by auto
  next
    fix r1 e1 r2 e2
    assume "?P B4 r1 e1" and tt: "try_tier r1 B4 e1 = (Inr None, r2, e2)"
    then obtain w where w: "same_fault r r1" "e1 = eng\<lparr>en_world := w\<rparr>" "?reach B4 w" by blast
    from turn [OF w(1) tt [unfolded w(2)]] have "same_fault r r2 \<and> (\<exists>w'. e2 = eng\<lparr>en_world := w'\<rparr> \<and>
        (tier_says r eng B4 w = None \<and> w' = w \<or> (\<exists>res. tier_says r eng B4 w = Some (Inr res, w') \<and> \<not> rr_success res)))"
      by simp
    then obtain w' where w': "same_fault r r2" "e2 = eng\<lparr>en_world := w'\<rparr>"
      "tier_says r eng B4 w = None \<and> w' = w \<or> (\<exists>res. tier_says r eng B4 w = Some (Inr res, w') \<and> \<not> rr_success res)" by blast
    have "exhausted_result r2 = exhausted_result r" using w'(1) by (simp add: exhausted_result_def same_fault_def)
    with w' w(3) show "?Q (Inr (exhausted_result r2)) r2 e2" by (intro exI [of _ B4] exI [of _ w]) auto
  next
    show "?P (fr_final_tier r) r eng" by (intro exI [of _ "en_world eng"]) (simp add: same_fault_def)
  qed
  with run show ?thesis unfolding route_def by blast
qed

text \<open>
  C5. Routing stops at the first layer that settles the fault, and always returns: starting at the
  record's tier, tiers whose layer is missing, refuses or fails are given up, one tier at a time;
  at the tier then reached either the layer's recovery succeeds, and that result is returned with
  this tier as the final one, or it raises, and the exception is let out, or the tier is B4, its
  layer is missing, refuses or fails too, and the result is that all layers are exhausted. The
  state of the layers is what those calls left. A layer that succeeds is never passed over.
\<close>

theorem routing_stops_at_first_success:
  "\<exists>out r' eng' t w. route r eng = (out, r', eng') \<and>
     (gives_up r eng)\<^sup>*\<^sup>* (fr_final_tier r, en_world eng) (t, w) \<and>
     ((\<exists>res. tier_says r eng t w = Some (Inr res, en_world eng') \<and> rr_success res \<and> out = Inr res \<and> fr_final_tier r' = t) \<or>
      (\<exists>x. tier_says r eng t w = Some (Inl x, en_world eng') \<and> out = Inl x) \<or>
      (t = B4 \<and> out = Inr (exhausted_result r) \<and>
        (tier_says r eng t w = None \<and> en_world eng' = w \<or>
         (\<exists>res. tier_says r eng t w = Some (Inr res, en_world eng') \<and> \<not> rr_success res))))"
  by (rule route_settles)

text \<open>A gate that is set is a lower bound of what the survivors reported; one is set when any did.\<close>

lemma survivor_known:
  assumes "k \<noteq> ev_rank (fr_event r)" and "dget (rank_epochs u) k = Some e"
  shows "k \<in> set (filter (\<lambda>k. k \<noteq> ev_rank (fr_event r)) (all_ranks u))"
proof -
  have "k \<in> set (dkeys (rank_epochs u))" using assms(2) dget_None_iff by (metis option.distinct(1))
  with assms(1) show ?thesis by (simp add: all_ranks_def)
qed

lemma urc_gate_low:
  assumes "B2 \<le> tier" and "k \<noteq> ev_rank (fr_event r)" and "dget (rank_epochs u) k = Some e"
  obtains g where "urc_gate r tier u = Some g" and "g \<le> e"
proof -
  let ?rs = "filter (\<lambda>k. k \<noteq> ev_rank (fr_event r)) (all_ranks u)"
  have mem: "k \<in> set ?rs" by (rule survivor_known [OF assms(2,3)])
  have "rd_agreed (agree ?rs (fr_epoch r) u)" unfolding agree_agreed using mem assms(3) by blast
  then have "urc_gate r tier u = Some (rd_min_valid_epoch (agree ?rs (fr_epoch r) u))"
    using assms(1) by (simp add: urc_gate_def Let_def not_less [symmetric])
  moreover have "rd_min_valid_epoch (agree ?rs (fr_epoch r) u) \<le> e" by (rule agree_lower [OF mem assms(3)])
  ultimately show thesis by (rule that)
qed

text \<open>
  The gate is the consensus of the survivors: transport and compute are never gated;
  a storage tier is gated exactly when a rank other than the failed one has reported an
  epoch, and then at the smallest epoch those ranks reported last, so that no surviving
  rank is behind the state that is restored.
\<close>

theorem urc_gate_is_survivors_minimum:
  "(tier < B2 \<longrightarrow> urc_gate r tier u = None) \<and>
   (B2 \<le> tier \<longrightarrow>
     (urc_gate r tier u = None \<longleftrightarrow>
        (\<forall>k. k \<noteq> ev_rank (fr_event r) \<longrightarrow> dget (rank_epochs u) k = None)) \<and>
     (\<forall>g. urc_gate r tier u = Some g \<longrightarrow>
        (\<forall>k e. k \<noteq> ev_rank (fr_event r) \<longrightarrow> dget (rank_epochs u) k = Some e \<longrightarrow> g \<le> e) \<and>
        (\<exists>k. k \<noteq> ev_rank (fr_event r) \<and> dget (rank_epochs u) k = Some g)))"
proof -
  let ?rs = "filter (\<lambda>k. k \<noteq> ev_rank (fr_event r)) (all_ranks u)"
  let ?d = "agree ?rs (fr_epoch r) u"
  have mem: "k \<in> set ?rs" if "k \<noteq> ev_rank (fr_event r)" "dget (rank_epochs u) k = Some e" for k e
    by (rule survivor_known [OF that])
  have gate: "B2 \<le> tier \<Longrightarrow> urc_gate r tier u = (if rd_agreed ?d then Some (rd_min_valid_epoch ?d) else None)"
    by (simp add: urc_gate_def Let_def not_less [symmetric])
  have agreed: "rd_agreed ?d \<longleftrightarrow> (\<exists>k. k \<noteq> ev_rank (fr_event r) \<and> dget (rank_epochs u) k \<noteq> None)"
    unfolding agree_agreed using mem by fastforce
  have low: "rd_min_valid_epoch ?d \<le> e" if "k \<noteq> ev_rank (fr_event r)" "dget (rank_epochs u) k = Some e" for k e
    by (rule agree_lower [OF mem [OF that] that(2)])
  have att: "\<exists>k. k \<noteq> ev_rank (fr_event r) \<and> dget (rank_epochs u) k = Some (rd_min_valid_epoch ?d)"
    if "rd_agreed ?d"
    using agree_attained [OF that] by auto
  show ?thesis
  proof (intro conjI impI)
    assume "B2 \<le> tier"
    then show "urc_gate r tier u = None \<longleftrightarrow>
        (\<forall>k. k \<noteq> ev_rank (fr_event r) \<longrightarrow> dget (rank_epochs u) k = None)"
      using gate agreed by auto
  next
    assume "B2 \<le> tier"
    then show "\<forall>g. urc_gate r tier u = Some g \<longrightarrow>
        (\<forall>k e. k \<noteq> ev_rank (fr_event r) \<longrightarrow> dget (rank_epochs u) k = Some e \<longrightarrow> g \<le> e) \<and>
        (\<exists>k. k \<noteq> ev_rank (fr_event r) \<and> dget (rank_epochs u) k = Some g)"
      using gate low att by (auto split: if_splits)
  qed (simp add: urc_gate_def)
qed

theorem urc_gate_is_survivors_minimum_witness:
  "urc_gate (mk_fault_record 0 demo_event B2 9) B2 \<lparr>rank_epochs = [(0, 1), (4, 7), (5, 6)]\<rparr> = Some 6"
proof -
  let ?u = "\<lparr>rank_epochs = [(0, 1), (4, 7), (5, 6)]\<rparr> :: urc"
  have r: "ev_rank demo_event = 0" by (simp add: demo_event_def)
  have B2: "B2 \<le> B2" by simp
  have some: "(5 :: int) \<noteq> 0" "dget (rank_epochs ?u) 5 = Some 6" by simp_all
  note all = urc_gate_is_survivors_minimum [of B2 "mk_fault_record 0 demo_event B2 9" ?u]
  from all have "urc_gate (mk_fault_record 0 demo_event B2 9) B2 ?u \<noteq> None"
    using B2 some unfolding r mk_fault_record_simps by (metis option.distinct(1))
  then obtain g where g: "urc_gate (mk_fault_record 0 demo_event B2 9) B2 ?u = Some g" by blast
  with all have "\<exists>k. k \<noteq> 0 \<and> dget (rank_epochs ?u) k = Some g"
    and "\<forall>k e. k \<noteq> 0 \<longrightarrow> dget (rank_epochs ?u) k = Some e \<longrightarrow> g \<le> e"
    unfolding r mk_fault_record_simps using B2 by blast+
  then have "g = 7 \<or> g = 6" and "g \<le> 6" by (auto split: if_splits)
  with g show ?thesis by auto
qed

subsection \<open>The correlation window over a run\<close>

text \<open>The B1 events of a run with their clock and rack, in order.\<close>

definition b1s_of :: "timed_event list \<Rightarrow> (real \<times> string \<times> string) list" where
  "b1s_of evs = map (\<lambda>(now, stamp, ev). (now, ev_node ev, rack_of ev))
     (filter (\<lambda>(now, stamp, ev). classify ev = B1) evs)"

lemma b1s_append [simp]: "b1s_of (xs @ ys) = b1s_of xs @ b1s_of ys"
  by (simp add: b1s_of_def)

lemma b1s_single:
  "b1s_of [(now, stamp, ev)] = (if classify ev = B1 then [(now, ev_node ev, rack_of ev)] else [])"
  by (simp add: b1s_of_def)

definition clock_sorted :: "timed_event list \<Rightarrow> bool" where
  "clock_sorted evs \<longleftrightarrow> sorted_wrt (\<lambda>x y. fst x \<le> fst y) evs"

lemma b1s_sorted:
  assumes "clock_sorted evs"
  shows "sorted_wrt (\<lambda>x y. fst x \<le> fst y) (b1s_of evs)"
proof -
  have "sorted_wrt (\<lambda>x y. fst x \<le> fst y) (filter (\<lambda>(now, stamp, ev). classify ev = B1) evs)"
    using assms unfolding clock_sorted_def by (rule sorted_wrt_filter)
  then show ?thesis by (simp add: b1s_of_def sorted_wrt_map split_beta)
qed

lemma kept_is_filter:
  assumes "sorted_wrt (\<lambda>x y. fst x \<le> (fst y::real)) xs"
  shows "dropWhile (\<lambda>(t, _, _). t < c) xs = filter (\<lambda>(t, _, _). c \<le> t) xs"
  using dropWhile_sorted_filter [OF assms] by (simp add: case_prod_unfold)

text \<open>The window holds the B1 events that the last of them did not push out.\<close>

definition window_of :: "real \<Rightarrow> (real \<times> string \<times> string) list \<Rightarrow> (real \<times> string \<times> string) list" where
  "window_of w bs = filter (\<lambda>(t, _, _). fst (last bs) - w \<le> t) bs"

lemma window_step:
  assumes "sorted_wrt (\<lambda>x y. fst x \<le> fst y) (bs @ [b])"
  shows "dropWhile (\<lambda>(t, _, _). t < fst b - w) (window_of w bs @ [b]) =
    filter (\<lambda>(t, _, _). fst b - w \<le> t) (bs @ [b])"
proof -
  have "sorted_wrt (\<lambda>x y. fst x \<le> fst y) (window_of w bs @ [b])"
    using assms unfolding window_of_def
    by (auto simp: sorted_wrt_append intro: sorted_wrt_filter)
  then have "dropWhile (\<lambda>(t, _, _). t < fst b - w) (window_of w bs @ [b]) =
      filter (\<lambda>(t, _, _). fst b - w \<le> t) (window_of w bs @ [b])"
    by (rule kept_is_filter)
  also have "filter (\<lambda>(t, _, _). fst b - w \<le> t) (window_of w bs) = filter (\<lambda>(t, _, _). fst b - w \<le> t) bs"
  proof (cases "bs = []")
    case False
    then have "fst (last bs) \<le> fst b" using assms by (auto simp: sorted_wrt_append)
    then show ?thesis by (auto simp: window_of_def intro: filter_cong)
  qed (simp add: window_of_def)
  then have "filter (\<lambda>(t, _, _). fst b - w \<le> t) (window_of w bs @ [b]) =
      filter (\<lambda>(t, _, _). fst b - w \<le> t) (bs @ [b])" by simp
  finally show ?thesis .
qed

lemma correlation_on_window:
  assumes "en_recent_b1s e = window_of w bs" and "op_correlation_window_secs (en_policy e) = w"
    and "sorted_wrt (\<lambda>x y. fst x \<le> fst y) (bs @ [(now, ev_node ev, rack_of ev)])"
  shows "apply_correlation_window now ev B1 e =
    (let kept = filter (\<lambda>(t, _, _). now - w \<le> t) (bs @ [(now, ev_node ev, rack_of ev)])
     in (if int (length (filter (\<lambda>(_, _, r). r = rack_of ev) kept)) \<ge>
             op_correlation_node_threshold (en_policy e) then B4 else B1,
         e\<lparr>en_recent_b1s := kept\<rparr>))"
  using window_step [OF assms(3), of w]
  by (simp only: apply_correlation_window_def Let_def assms(1,2) fst_conv simp_thms if_False)

lemma window_run:
  assumes "clock_sorted evs" and "en_recent_b1s e = []" and "op_correlation_window_secs (en_policy e) = w"
  shows "en_recent_b1s (engine_run evs e) = window_of w (b1s_of evs)"
  using assms(1)
proof (induction evs rule: rev_induct)
  case Nil
  with assms(2) show ?case by (simp add: b1s_of_def window_of_def)
next
  case (snoc x evs)
  obtain now stamp ev where x: "x = (now, stamp, ev)" by (cases x) auto
  let ?e = "engine_run evs e"
  have srt: "clock_sorted evs" using snoc.prems by (simp add: clock_sorted_def sorted_wrt_append)
  have IH: "en_recent_b1s ?e = window_of w (b1s_of evs)" by (rule snoc.IH [OF srt])
  have pol: "op_correlation_window_secs (en_policy ?e) = w" using engine_run_books [of evs e] assms(3) by simp
  obtain res e' where run: "on_event now stamp ev ?e = (res, e')" by force
  have "en_recent_b1s e' = en_recent_b1s (snd (apply_correlation_window now ev (classify ev) ?e))"
    using on_event_books [OF run] by simp
  moreover have "\<dots> = window_of w (b1s_of (evs @ [x]))"
  proof (cases "classify ev = B1")
    case False
    with IH show ?thesis by (simp add: apply_correlation_window_def x b1s_single)
  next
    case True
    have "sorted_wrt (\<lambda>x y. fst x \<le> fst y) (b1s_of evs @ [(now, ev_node ev, rack_of ev)])"
      using b1s_sorted [OF snoc.prems] True by (simp add: x b1s_single)
    from correlation_on_window [OF IH pol this] True show ?thesis
      by (simp add: Let_def x b1s_single window_of_def)
  qed
  ultimately show ?case by (simp add: engine_run_append x run)
qed

text \<open>
  C9. The correlation window is exact: over a run whose clock does not go back, on an
  engine that starts with an empty window, an event is routed from the tier of its signal,
  but a B1 from B4 exactly when the B1 events of its rack (its own included, events without
  a rack pooled as one rack) whose clock lies within the window before it are at least the
  policy's threshold in number; events count, not distinct nodes.
\<close>

theorem correlation_window_exact:
  assumes "clock_sorted (evs @ [(now, stamp, ev)])" and "en_recent_b1s eng = []"
  shows "decided_tier now ev (engine_run evs eng) =
    (if classify ev \<noteq> B1 then classify ev
     else if op_correlation_node_threshold (en_policy eng) \<le>
          int (length (filter (\<lambda>(t, node, rack). now - op_correlation_window_secs (en_policy eng) \<le> t \<and>
                         rack = rack_of ev) (b1s_of (evs @ [(now, stamp, ev)]))))
     then B4 else B1)"
proof (cases "classify ev = B1")
  case False
  then show ?thesis by (simp add: decided_tier_def apply_correlation_window_def)
next
  case True
  let ?w = "op_correlation_window_secs (en_policy eng)"
  have srt: "clock_sorted evs" using assms(1) by (simp add: clock_sorted_def sorted_wrt_append)
  have "sorted_wrt (\<lambda>x y. fst x \<le> fst y) (b1s_of evs @ [(now, ev_node ev, rack_of ev)])"
    using b1s_sorted [OF assms(1)] True by (simp add: b1s_single)
  moreover have "en_policy (engine_run evs eng) = en_policy eng" using engine_run_books [of evs eng] by simp
  ultimately show ?thesis
    using correlation_on_window [OF window_run [OF srt assms(2) refl], of now ev] True
    by (simp add: decided_tier_def Let_def b1s_single case_prod_unfold conj_commute)
qed

theorem correlation_window_exact_witness:
  "decided_tier 12 demo_event (engine_run [(1, 1, demo_event), (8, 8, demo_event), (10, 10, demo_event)] demo_engine) = B4 \<and>
   decided_tier 14 demo_event (engine_run [(1, 1, demo_event), (8, 8, demo_event), (10, 10, demo_event)] demo_engine) = B1"
proof -
  let ?evs = "[(1, 1, demo_event), (8, 8, demo_event), (10, 10, demo_event)] :: timed_event list"
  have s: "clock_sorted (?evs @ [(12, 12, demo_event)])" "clock_sorted (?evs @ [(14, 14, demo_event)])"
    by (simp_all add: clock_sorted_def)
  have e: "en_recent_b1s demo_engine = []" "en_policy demo_engine = default_policy"
    by (simp_all add: demo_engine_def engine_init_def)
  have c: "classify demo_event = B1" by (simp add: demo_event_def classify_eq_signal)
  show ?thesis
    using correlation_window_exact [OF s(1) e(1)] correlation_window_exact [OF s(2) e(1)]
    by (simp add: e(2) c b1s_of_def default_policy_def)
qed

subsection \<open>Observe-only mode\<close>

text \<open>
  C10. Observe-only mode takes no action: whatever the events, the layers' state, the
  consensus and the KPI meter stay as they were, and the log gains one record per event, in
  order, each with the success that says no action was taken and none escalated.
\<close>

theorem observe_only_takes_no_action:
  assumes "en_observe_only eng"
  shows "en_world (engine_run evs eng) = en_world eng \<and>
    en_consensus (engine_run evs eng) = en_consensus eng \<and> en_kpi (engine_run evs eng) = en_kpi eng \<and>
    (\<exists>new. en_history (engine_run evs eng) = en_history eng @ new \<and>
       map fr_event new = map (\<lambda>(now, stamp, ev). ev) evs \<and>
       (\<forall>r \<in> set new. fr_result r = Some (rr_succeeded MsgObserveOnly False 0) \<and> \<not> fr_escalated r))"
  using assms
proof (induction evs arbitrary: eng)
  case Nil
  then show ?case by simp
next
  case (Cons x evs)
  obtain now stamp ev where x: "x = (now, stamp, ev)" by (cases x) auto
  let ?r = "(new_record now stamp ev eng)\<lparr>fr_result := Some (rr_succeeded MsgObserveOnly False 0)\<rparr>"
  let ?e = "(entered now ev eng)\<lparr>en_history := en_history eng @ [?r]\<rparr>"
  have run: "engine_run (x # evs) eng = engine_run evs ?e"
    by (simp add: x on_event_observe [OF Cons.prems])
  have "en_observe_only ?e" using Cons.prems by simp
  from Cons.IH [OF this] obtain new where new: "en_history (engine_run evs ?e) = en_history eng @ [?r] @ new"
      "map fr_event new = map (\<lambda>(now, stamp, ev). ev) evs"
      "\<forall>r \<in> set new. fr_result r = Some (rr_succeeded MsgObserveOnly False 0) \<and> \<not> fr_escalated r"
    and same: "en_world (engine_run evs ?e) = en_world eng" "en_consensus (engine_run evs ?e) = en_consensus eng"
      "en_kpi (engine_run evs ?e) = en_kpi eng"
    by auto
  show ?case
    unfolding run using new same by (intro conjI exI [of _ "?r # new"]) (simp_all add: x)
qed

theorem observe_only_takes_no_action_witness:
  "en_world (engine_run [(1, 1, demo_event)] (demo_engine\<lparr>en_observe_only := True\<rparr>)) = []"
  using observe_only_takes_no_action [of "demo_engine\<lparr>en_observe_only := True\<rparr>" "[(1, 1, demo_event)]"]
  by (simp add: demo_engine_def engine_init_def)

subsection \<open>The consensus and the KPI meter follow the log\<close>

definition recovered :: "fault_record \<Rightarrow> bool" where
  "recovered r \<longleftrightarrow> (case fr_result r of None \<Rightarrow> False | Some x \<Rightarrow> rr_success x)"

text \<open>What a routed fault reports, by its outcome.\<close>

definition reported ::
  "fault_record \<Rightarrow> (pyexc + recovery_result) \<Rightarrow> 's engine \<Rightarrow> 's engine \<Rightarrow> bool" where
  "reported r out e e' \<longleftrightarrow>
    (case out of
       Inl x \<Rightarrow> en_consensus e' = en_consensus e \<and> en_kpi e' = en_kpi e
     | Inr res \<Rightarrow>
         if rr_success res
         then en_consensus e' = report_epoch (ev_rank (fr_event r)) (fr_epoch r) (en_consensus e) \<and>
              en_kpi e' = map_option (kpi_record (fr_epoch r) (fr_final_tier r) (rr_recovery_secs res)
                                        (op_gpu_count (en_policy e))) (en_kpi e)
         else en_consensus e' = en_consensus e \<and> en_kpi e' = en_kpi e)"

lemma try_tier_reports:
  assumes "try_tier r t e = (out, r', e')"
  shows "case out of
      Inl x \<Rightarrow> reported r' (Inl x) e e'
    | Inr None \<Rightarrow> en_consensus e' = en_consensus e \<and> en_kpi e' = en_kpi e
    | Inr (Some res) \<Rightarrow> rr_success res \<and> reported r' (Inr res) e e'"
  using assms unfolding try_tier_def Let_def reported_def
  by (auto split: option.splits if_splits sum.splits prod.splits)

lemma route_reports:
  fixes e e' :: "'s engine"
  assumes "route_from r t e = (out, r', e')"
  shows "reported r' out e e'"
proof (rule route_from_rule [where t = t and Q = "\<lambda>out r1 e1. reported r1 out e e1"
      and P = "\<lambda>_ r1 e1. en_consensus e1 = en_consensus e \<and> en_kpi e1 = en_kpi e \<and> en_policy e1 = en_policy e",
      OF _ _ _ _ _ assms])
  fix t t' r r' and e1 e2 :: "'s engine"
  assume "en_consensus e1 = en_consensus e \<and> en_kpi e1 = en_kpi e \<and> en_policy e1 = en_policy e"
    and "try_tier r t e1 = (Inr None, r', e2)"
  with try_tier_reports [of r t e1 "Inr None" r' e2] try_tier_frame [of r t e1 "Inr None" r' e2]
  show "en_consensus e2 = en_consensus e \<and> en_kpi e2 = en_kpi e \<and> en_policy e2 = en_policy e"
    by (simp add: same_engine_def)
next
  fix t r x r' and e1 e2 :: "'s engine"
  assume "en_consensus e1 = en_consensus e \<and> en_kpi e1 = en_kpi e \<and> en_policy e1 = en_policy e"
    and "try_tier r t e1 = (Inl x, r', e2)"
  with try_tier_reports [of r t e1 "Inl x" r' e2] show "reported r' (Inl x) e e2"
    by (simp add: reported_def)
next
  fix t r res r' and e1 e2 :: "'s engine"
  assume "en_consensus e1 = en_consensus e \<and> en_kpi e1 = en_kpi e \<and> en_policy e1 = en_policy e"
    and "try_tier r t e1 = (Inr (Some res), r', e2)"
  with try_tier_reports [of r t e1 "Inr (Some res)" r' e2] show "reported r' (Inr res) e e2"
    by (simp add: reported_def)
next
  fix r r' and e1 e2 :: "'s engine"
  assume "en_consensus e1 = en_consensus e \<and> en_kpi e1 = en_kpi e \<and> en_policy e1 = en_policy e"
    and "try_tier r B4 e1 = (Inr None, r', e2)"
  with try_tier_reports [of r B4 e1 "Inr None" r' e2] show "reported r' (Inr (exhausted_result r')) e e2"
    by (simp add: reported_def exhausted_result_def)
qed simp

text \<open>The books agree: last recovered epoch of each rank, one KPI record per recovery.\<close>

definition last_recovered :: "int \<Rightarrow> fault_record list \<Rightarrow> int option" where
  "last_recovered k hist =
    map_option fr_epoch (find (\<lambda>r. recovered r \<and> ev_rank (fr_event r) = k) (rev hist))"

definition kpi_trail :: "kpi_meter \<Rightarrow> (int \<times> blast_radius) list" where
  "kpi_trail m = map (\<lambda>k. (fk_epoch k, fk_tier k)) (km_records m)"

definition books_agree :: "'s engine \<Rightarrow> bool" where
  "books_agree e \<longleftrightarrow>
    (\<forall>k. dget (rank_epochs (en_consensus e)) k = last_recovered k (en_history e)) \<and>
    map_option kpi_trail (en_kpi e) =
      map_option (\<lambda>_. map (\<lambda>r. (fr_epoch r, fr_final_tier r)) (filter recovered (en_history e))) (en_kpi e)"

lemma kpi_trail_record [simp]: "kpi_trail (kpi_record ep t s g m) = kpi_trail m @ [(ep, t)]"
  by (simp add: kpi_trail_def kpi_record_def mk_fault_kpi_def Let_def)

lemma last_recovered_append [simp]:
  "last_recovered k (hist @ [r]) =
    (if recovered r \<and> ev_rank (fr_event r) = k then Some (fr_epoch r) else last_recovered k hist)"
  by (simp add: last_recovered_def)

lemma on_event_books_agree:
  assumes "books_agree e" and "\<not> en_observe_only e"
  shows "books_agree (snd (on_event now stamp ev e))"
proof -
  let ?r0 = "new_record now stamp ev e" and ?e0 = "entered now ev e"
  obtain out r' e1 where rt: "route ?r0 ?e0 = (out, r', e1)" by (cases "route ?r0 ?e0") auto
  then have rf: "route_from ?r0 (fr_final_tier ?r0) ?e0 = (out, r', e1)" by (simp add: route_def)
  have h: "en_history e1 = en_history e" using route_frame [OF rf] by (simp add: same_engine_def)
  note rep = route_reports [OF rf, unfolded reported_def]
  show ?thesis
  proof (cases out)
    case (Inl x)
    with assms rep h show ?thesis by (simp add: on_event_route rt books_agree_def)
  next
    case (Inr res)
    show ?thesis
    proof (cases "rr_success res")
      case True
      then have "recovered (r'\<lparr>fr_result := Some res\<rparr>)" by (simp add: recovered_def)
      with Inr True assms rep h show ?thesis
        by (cases "en_kpi e") (simp_all add: on_event_route rt books_agree_def)
    next
      case False
      then have "\<not> recovered (r'\<lparr>fr_result := Some res\<rparr>)" by (simp add: recovered_def)
      with Inr False assms rep h show ?thesis
        by (cases "en_kpi e") (simp_all add: on_event_route rt books_agree_def)
    qed
  qed
qed

text \<open>
  C8. Consensus and KPI meter follow the audit log: over any sequence of events on a fresh
  engine that acts, whatever the layers do, the epoch the consensus holds for a rank is that
  of the rank's last recovered fault in the log, and none when the rank has none; and the
  KPI meter has exactly one record per recovered fault of the log, in order, with its epoch
  and its final tier. Faults that failed or raised leave no trace in either.
\<close>

theorem books_follow_audit_log:
  "let eng = engine_run evs (engine_init epochs urc_init policy layers (Some (kpi_init cost)) world)
   in (\<forall>k. dget (rank_epochs (en_consensus eng)) k = last_recovered k (en_history eng)) \<and>
      map_option kpi_trail (en_kpi eng) =
        Some (map (\<lambda>r. (fr_epoch r, fr_final_tier r)) (filter recovered (en_history eng)))"
proof -
  let ?e0 = "engine_init epochs urc_init policy layers (Some (kpi_init cost)) world"
  have "books_agree (engine_run evs e) \<and> en_kpi (engine_run evs e) \<noteq> None"
    if "books_agree e" "\<not> en_observe_only e" "en_kpi e \<noteq> None" for e :: "'a engine"
    using that
  proof (induction evs arbitrary: e)
    case (Cons x evs)
    obtain now stamp ev where x: "x = (now, stamp, ev)" by (cases x) auto
    obtain res e' where run: "on_event now stamp ev e = (res, e')" by force
    have "books_agree e'" using on_event_books_agree [OF Cons.prems(1,2), of now stamp ev] by (simp add: run)
    moreover have "\<not> en_observe_only e'" using on_event_books [OF run] Cons.prems(2) by simp
    moreover have "en_kpi e' \<noteq> None"
    proof -
      obtain out r' e1 where rt: "route (new_record now stamp ev e) (entered now ev e) = (out, r', e1)"
        by (cases "route (new_record now stamp ev e) (entered now ev e)") auto
      from route_reports [OF rt [unfolded route_def]] Cons.prems(3) have "en_kpi e1 \<noteq> None"
        by (cases out) (auto simp: reported_def split: if_splits)
      with run rt Cons.prems(2) show ?thesis by (cases out) (auto simp: on_event_route)
    qed
    ultimately show ?case using Cons.IH [of e'] by (simp add: x run)
  qed simp
  moreover have "books_agree ?e0" "\<not> en_observe_only ?e0" "en_kpi ?e0 \<noteq> None"
    by (simp_all add: books_agree_def engine_init_def urc_init_def last_recovered_def kpi_trail_def kpi_init_def)
  ultimately have "books_agree (engine_run evs ?e0)" "en_kpi (engine_run evs ?e0) \<noteq> None" by blast+
  then show ?thesis by (auto simp: books_agree_def Let_def)
qed

subsection \<open>An exception of a layer\<close>

lemma says_entered: "tier_says r (entered now ev eng) = tier_says r eng"
  unfolding tier_says_def entered_simps ..

lemma gives_up_entered: "gives_up r (entered now ev eng) = gives_up r eng"
  by (intro ext) (simp add: gives_up.simps says_entered)

text \<open>
  C25. A layer that raises ends the handling of its fault without a trace in the log, at whatever
  tier: when the engine acts, the handler of an event raises exactly if the tiers from the decided
  one on give the fault up, one by one, as far as a tier whose layer raises; then it raises that
  exception, the epoch is spent, no higher tier is tried, and the history, the consensus and the
  KPI meter are unchanged. The comment in the routing loop, that the record is updated before the
  recovery so that the audit log is right even then, does not hold.
\<close>

theorem raising_layer_leaves_no_record:
  assumes "\<not> en_observe_only eng"
  shows "(\<exists>eng'. on_event now stamp ev eng = (Inl x, eng') \<and> en_world eng' = w' \<and> en_history eng' = en_history eng \<and>
      es_epoch (en_epochs eng') = es_epoch (en_epochs eng) + 1 \<and>
      en_consensus eng' = en_consensus eng \<and> en_kpi eng' = en_kpi eng) \<longleftrightarrow>
    (\<exists>t w. (gives_up (new_record now stamp ev eng) eng)\<^sup>*\<^sup>* (decided_tier now ev eng, en_world eng) (t, w) \<and>
      tier_says (new_record now stamp ev eng) eng t w = Some (Inl x, w'))"
    (is "?raises \<longleftrightarrow> ?reached")
proof
  let ?r = "new_record now stamp ev eng" and ?e = "entered now ev eng"
  show ?reached if ?raises
  proof -
    obtain out r' e1 t w where rt: "route ?r ?e = (out, r', e1)"
      and reach: "(gives_up ?r eng)\<^sup>*\<^sup>* (decided_tier now ev eng, en_world eng) (t, w)"
      and says: "(\<exists>res. tier_says ?r eng t w = Some (Inr res, en_world e1) \<and> rr_success res \<and> out = Inr res) \<or>
        (\<exists>x. tier_says ?r eng t w = Some (Inl x, en_world e1) \<and> out = Inl x) \<or> (t = B4 \<and> out = Inr (exhausted_result ?r))"
      using route_settles [of ?r ?e] by (auto simp: gives_up_entered says_entered)
    from that rt assms have "out = Inl x" "en_world e1 = w'" by (auto simp: on_event_route split: sum.splits)
    with reach says show ?thesis by auto
  qed
  show ?raises if ?reached
  proof -
    from that obtain t w where reach: "(gives_up ?r ?e)\<^sup>*\<^sup>* (decided_tier now ev eng, en_world eng) (t, w)"
      and says: "tier_says ?r ?e t w = Some (Inl x, w')" by (auto simp: gives_up_entered says_entered)
    have "same_fault ?r ?r" by (simp add: same_fault_def)
    from route_from_given_up [OF reach this] obtain r1 where r1: "same_fault ?r r1"
      "route_from ?r (decided_tier now ev eng) (?e\<lparr>en_world := en_world eng\<rparr>) = route_from r1 t (?e\<lparr>en_world := w\<rparr>)" by blast
    have "e\<lparr>en_world := en_world e\<rparr> = e" for e :: "'a engine" by (cases e) simp
    from this [of ?e] have world: "?e\<lparr>en_world := en_world eng\<rparr> = ?e" by simp
    from try_tier_says(2) [OF r1(1) says] have "route ?r ?e = (Inl x, attempted t r1, ?e\<lparr>en_world := w'\<rparr>)"
      using r1(2) unfolding world by (simp add: route_def route_from.simps [of r1])
    with assms show ?thesis by (simp add: on_event_route)
  qed
qed

text \<open>A layer that fails for a crash, and one of the next tier that raises.\<close>

definition failing_layer :: "nat recovery_layer" where
  "failing_layer = \<lparr>rl_handled_tiers = [B2], rl_can_handle = (\<lambda>ev t w. True),
    rl_recover = (\<lambda>ev t ep g w. (Inr (rr_failure MsgEmpty), w + 1))\<rparr>"

definition raising_layer :: "nat recovery_layer" where
  "raising_layer = \<lparr>rl_handled_tiers = [B3], rl_can_handle = (\<lambda>ev t w. True),
    rl_recover = (\<lambda>ev t ep g w. (Inl FileNotFoundErr, w + 1))\<rparr>"

definition crash_event :: telemetry_event where
  "crash_event = demo_event\<lparr>ev_signal := CUDA_KERNEL_CRASH\<rparr>"

theorem raising_layer_leaves_no_record_witness:
  "\<exists>eng'. on_event 0 0 crash_event (engine_init (epoch_init 4) urc_init default_policy [failing_layer, raising_layer] None 0) =
     (Inl FileNotFoundErr, eng') \<and> en_history eng' = [] \<and> es_epoch (en_epochs eng') = 5 \<and> en_world eng' = 2"
proof -
  let ?e = "engine_init (epoch_init 4) urc_init default_policy [failing_layer, raising_layer] None 0"
  let ?r = "new_record 0 0 crash_event ?e"
  have d: "decided_tier 0 crash_event ?e = B2"
    by (simp add: decided_tier_def apply_correlation_window_def crash_event_def classify_eq_signal)
  have lay: "dget (en_tier_to_layer ?e) B2 = Some failing_layer" "dget (en_tier_to_layer ?e) B3 = Some raising_layer"
    by (simp_all add: engine_init_def build_tier_map_def raising_layer_def failing_layer_def)
  have e: "\<not> en_observe_only ?e" "en_world ?e = 0" "en_history ?e = []" "es_epoch (en_epochs ?e) = 4"
    by (simp_all add: engine_init_def epoch_init_def)
  have "tier_says ?r ?e B2 0 = Some (Inr (rr_failure MsgEmpty), 1)"
    unfolding tier_says_def lay option.case by (simp add: failing_layer_def)
  then have "gives_up ?r ?e (B2, 0) (B3, 1)" by (rule failed) (simp_all add: rr_failure_def)
  then have "(gives_up ?r ?e)\<^sup>*\<^sup>* (decided_tier 0 crash_event ?e, en_world ?e) (B3, 1)" unfolding d e(2) ..
  moreover have "tier_says ?r ?e B3 1 = Some (Inl FileNotFoundErr, 2)"
    unfolding tier_says_def lay option.case by (simp add: raising_layer_def)
  ultimately have "\<exists>eng'. on_event 0 0 crash_event ?e = (Inl FileNotFoundErr, eng') \<and> en_world eng' = 2 \<and>
      en_history eng' = en_history ?e \<and> es_epoch (en_epochs eng') = es_epoch (en_epochs ?e) + 1 \<and>
      en_consensus eng' = en_consensus ?e \<and> en_kpi eng' = en_kpi ?e"
    using raising_layer_leaves_no_record [OF e(1), of 0 0 crash_event FileNotFoundErr 2] by blast
  then show ?thesis by (auto simp: e(3,4))
qed

end
