(* ===== verification/Runtime.thy ===== *)
theory Runtime
  imports Bus Transport Compute Storage Engine
begin

text \<open>
  The runtime of \<open>aegis/runtime.py\<close>: the three recovery layers as the engine sees them,
  over one state that holds them side by side, wired to the telemetry bus with the engine
  as its only subscriber. The backends, the codecs and the measured times are the fields of
  \<open>runtime_env\<close>; the clock readings of the engine are a sequence \<open>clk\<close>.
\<close>

record aegis_world =
  aw_transport :: transport_layer
  aw_compute :: compute_layer
  aw_storage :: "filesystem storage_layer"

record runtime_env =
  re_migrate :: transport_backend
  re_absorb :: compute_backend
  re_codec :: codec
  re_restore_secs :: real

subsection \<open>The layers\<close>

definition transport_object :: "runtime_env \<Rightarrow> aegis_world recovery_layer" where
  "transport_object env =
    \<lparr>rl_handled_tiers = transport_tiers,
     rl_can_handle = (\<lambda>ev t w. transport_can_handle ev t (aw_transport w)),
     rl_recover = (\<lambda>ev t ep g w.
       case transport_recover (re_migrate env) ev t ep g (aw_transport w) of
         (res, l) \<Rightarrow> (res, w\<lparr>aw_transport := l\<rparr>))\<rparr>"

definition compute_object :: "runtime_env \<Rightarrow> aegis_world recovery_layer" where
  "compute_object env =
    \<lparr>rl_handled_tiers = compute_tiers,
     rl_can_handle = (\<lambda>ev t w. compute_can_handle ev t (aw_compute w)),
     rl_recover = (\<lambda>ev t ep g w.
       case compute_recover (re_absorb env) ev t ep g (aw_compute w) of
         (res, l) \<Rightarrow> (res, w\<lparr>aw_compute := l\<rparr>))\<rparr>"

definition storage_object :: "runtime_env \<Rightarrow> aegis_world recovery_layer" where
  "storage_object env =
    \<lparr>rl_handled_tiers = storage_tiers,
     rl_can_handle = (\<lambda>ev t w. storage_can_handle ev t (aw_storage w)),
     rl_recover = (\<lambda>ev t ep g w.
       case storage_recover local_filesystem_backend (re_codec env) (re_restore_secs env) ev t ep g (aw_storage w) of
         (res, l) \<Rightarrow> (res, w\<lparr>aw_storage := l\<rparr>))\<rparr>"

subsection \<open>The runtime object\<close>

text \<open>The engine is subscriber 0 of the bus.\<close>

record runtime =
  rt_utp :: "nat bus"
  rt_epe :: "aegis_world engine"
  rt_started :: bool

definition initial_world :: aegis_world where
  "initial_world =
    \<lparr>aw_transport = transport_init, aw_compute = compute_init,
     aw_storage = storage_init default_base_interval []\<rparr>"

definition runtime_init :: "runtime_env \<Rightarrow> operator_policy option \<Rightarrow> runtime" where
  "runtime_init env policy_arg =
    (let policy = (case policy_arg of None \<Rightarrow> default_policy | Some p \<Rightarrow> p)
     in \<lparr>rt_utp = subscribe 0 (bus_init default_queue_size),
         rt_epe = engine_init (epoch_init 0) urc_init policy
           [transport_object env, compute_object env, storage_object env]
           (Some (kpi_init (op_gpu_hr_cost policy))) initial_world,
         rt_started = False\<rparr>)"

text \<open>
  What the bus does when it hands an event to the engine, counting the clock readings.
\<close>

type_synonym clock = "nat \<Rightarrow> real \<times> real"

definition epe_handle ::
  "clock \<Rightarrow> nat \<Rightarrow> telemetry_event \<Rightarrow> aegis_world engine \<times> nat \<Rightarrow> pyexc option \<times> (aegis_world engine \<times> nat)" where
  "epe_handle clk sub ev s =
    (case s of (eng, n) \<Rightarrow>
     case on_event (fst (clk n)) (snd (clk n)) ev eng of
       (Inl x, eng') \<Rightarrow> (Some x, (eng', n + 1))
     | (Inr u, eng') \<Rightarrow> (None, (eng', n + 1)))"

definition runtime_publish :: "telemetry_event \<Rightarrow> runtime \<Rightarrow> runtime" where
  "runtime_publish ev rt = rt\<lparr>rt_utp := publish ev (rt_utp rt)\<rparr>"

text \<open>Letting the dispatch loop, or the drain of \<open>stop\<close>, empty the queue.\<close>

definition runtime_dispatch :: "clock \<Rightarrow> nat \<Rightarrow> runtime \<Rightarrow> runtime" where
  "runtime_dispatch clk n rt =
    (case drain (epe_handle clk) (rt_utp rt) (rt_epe rt, n) of
       (errs, b', (eng', n')) \<Rightarrow> rt\<lparr>rt_utp := b', rt_epe := eng'\<rparr>)"

definition runtime_start :: "runtime \<Rightarrow> runtime" where
  "runtime_start rt =
    (if rt_started rt then rt
     else rt\<lparr>rt_utp := (rt_utp rt)\<lparr>utp_running := True\<rparr>, rt_started := True\<rparr>)"

text \<open>
  An undisturbed stop, with no event in flight and the drain within its time limit; what a
  stop loses otherwise is the subject of the life-cycle relation of the bus.
\<close>

definition runtime_stop :: "clock \<Rightarrow> nat \<Rightarrow> runtime \<Rightarrow> runtime" where
  "runtime_stop clk n rt =
    (if \<not> rt_started rt then rt
     else (let rt' = runtime_dispatch clk n (rt\<lparr>rt_utp := (rt_utp rt)\<lparr>utp_running := False\<rparr>\<rparr>)
           in rt'\<lparr>rt_started := False\<rparr>))"

text \<open>
  The runtime as a context manager: entered, it is started; left, it is stopped, whatever the
  body returned or raised, which is passed on.
\<close>

definition runtime_session :: "clock \<Rightarrow> nat \<Rightarrow> (runtime \<Rightarrow> (pyexc + 'a) \<times> runtime) \<Rightarrow> runtime \<Rightarrow> (pyexc + 'a) \<times> runtime" where
  "runtime_session clk n body rt = (case body (runtime_start rt) of (res, rt') \<Rightarrow> (res, runtime_stop clk n rt'))"

lemma session_ends_drained:
  assumes "rt_started (snd (body (runtime_start rt)))"
  shows "\<not> rt_started (snd (runtime_session clk n body rt))"
    and "utp_queue (rt_utp (snd (runtime_session clk n body rt))) = []"
    and "fst (runtime_session clk n body rt) = fst (body (runtime_start rt))"
proof -
  obtain res rt' where body: "body (runtime_start rt) = (res, rt')" by force
  have "utp_queue (rt_utp (runtime_dispatch clk n r)) = []" for r
    by (auto simp: runtime_dispatch_def dest: drain_state split: prod.splits)
  then show "\<not> rt_started (snd (runtime_session clk n body rt))"
    "utp_queue (rt_utp (snd (runtime_session clk n body rt))) = []"
    "fst (runtime_session clk n body rt) = fst (body (runtime_start rt))"
    using assms by (simp_all add: runtime_session_def body runtime_stop_def Let_def)
qed

subsection \<open>The wiring\<close>

lemma runtime_tier_map:
  "en_tier_to_layer (rt_epe (runtime_init env p)) =
    [(B0, transport_object env), (B1, compute_object env), (B2, storage_object env),
     (B3, storage_object env), (B4, storage_object env)]"
  by (simp add: runtime_init_def Let_def engine_init_def build_tier_map_def transport_object_def
      compute_object_def storage_object_def transport_tiers_def compute_tiers_def storage_tiers_def)

definition runtime_map :: "runtime_env \<Rightarrow> (blast_radius, aegis_world recovery_layer) dict" where
  "runtime_map env = en_tier_to_layer (rt_epe (runtime_init env None))"

fun layer_at :: "runtime_env \<Rightarrow> blast_radius \<Rightarrow> aegis_world recovery_layer" where
  "layer_at env B0 = transport_object env"
| "layer_at env B1 = compute_object env"
| "layer_at env B2 = storage_object env"
| "layer_at env B3 = storage_object env"
| "layer_at env B4 = storage_object env"

lemma runtime_map_lookup [simp]: "dget (runtime_map env) t = Some (layer_at env t)"
  by (cases t) (simp_all add: runtime_map_def runtime_tier_map)

lemma runtime_map_any: "en_tier_to_layer (rt_epe (runtime_init env p)) = runtime_map env"
  by (simp only: runtime_map_def runtime_tier_map)

text \<open>Each layer object keeps the contract over the shared state.\<close>

definition world_inv :: "codec \<Rightarrow> aegis_world \<Rightarrow> bool" where
  "world_inv cd w \<longleftrightarrow> transport_inv (aw_transport w) \<and> compute_inv (aw_compute w) \<and> storage_inv cd (aw_storage w)"

lemma world_inv_initial: "world_inv cd initial_world"
  by (simp add: world_inv_def initial_world_def)

interpretation transport_obj: recovery_contract
  transport_tiers "rl_can_handle (transport_object env)" "rl_recover (transport_object env)" "world_inv cd"
  for env cd
proof
  fix t ev and s :: aegis_world
  show "t \<notin> set transport_tiers \<Longrightarrow> \<not> rl_can_handle (transport_object env) ev t s"
    by (simp add: transport_object_def transport.refuses)
next
  fix s ev t ep g
  show "world_inv cd s \<Longrightarrow> world_inv cd (snd (rl_recover (transport_object env) ev t ep g s))"
    using transport.rec_inv [of "aw_transport s"]
    by (auto simp: transport_object_def world_inv_def split_beta)
next
  fix s ev t ep g r
  show "fst (rl_recover (transport_object env) ev t ep g s) = Inr r \<Longrightarrow> \<not> rr_success r \<Longrightarrow>
      \<not> rr_degraded r \<and> rr_recovery_secs r = 0"
    using transport.failure_blank by (auto simp: transport_object_def split_beta)
qed

interpretation compute_obj: recovery_contract
  compute_tiers "rl_can_handle (compute_object env)" "rl_recover (compute_object env)" "world_inv cd"
  for env cd
proof
  fix t ev and s :: aegis_world
  show "t \<notin> set compute_tiers \<Longrightarrow> \<not> rl_can_handle (compute_object env) ev t s"
    by (simp add: compute_object_def compute.refuses)
next
  fix s ev t ep g
  show "world_inv cd s \<Longrightarrow> world_inv cd (snd (rl_recover (compute_object env) ev t ep g s))"
    using compute.rec_inv [of "aw_compute s"]
    by (auto simp: compute_object_def world_inv_def split_beta)
next
  fix s ev t ep g r
  show "fst (rl_recover (compute_object env) ev t ep g s) = Inr r \<Longrightarrow> \<not> rr_success r \<Longrightarrow>
      \<not> rr_degraded r \<and> rr_recovery_secs r = 0"
    using compute.failure_blank by (auto simp: compute_object_def split_beta)
qed

lemma storage_object_world [simp]: "snd (rl_recover (storage_object env) ev t ep g w) = w"
  by (simp add: storage_object_def split_beta)

interpretation storage_obj: recovery_contract
  storage_tiers "rl_can_handle (storage_object env)" "rl_recover (storage_object env)" "world_inv cd"
  for env cd
proof
  fix t ev and s :: aegis_world
  show "t \<notin> set storage_tiers \<Longrightarrow> \<not> rl_can_handle (storage_object env) ev t s"
    by (simp add: storage_object_def storage.refuses)
next
  fix s ev t ep g
  show "world_inv cd s \<Longrightarrow> world_inv cd (snd (rl_recover (storage_object env) ev t ep g s))" by simp
next
  fix s ev t ep g r
  show "fst (rl_recover (storage_object env) ev t ep g s) = Inr r \<Longrightarrow> \<not> rr_success r \<Longrightarrow>
      \<not> rr_degraded r \<and> rr_recovery_secs r = 0"
    using storage.failure_blank by (auto simp: storage_object_def split_beta)
qed

subsection \<open>The layers under a run\<close>

text \<open>What no recovery may touch: the checkpoints and the neighbour topology.\<close>

definition same_assets :: "aegis_world \<Rightarrow> aegis_world \<Rightarrow> bool" where
  "same_assets w w' \<longleftrightarrow> aw_storage w' = aw_storage w \<and> cl_topology (aw_compute w') = cl_topology (aw_compute w) \<and>
     fst ` set (tl_nodes (aw_transport w')) = fst ` set (tl_nodes (aw_transport w))"

lemma transport_recover_nodes:
  "fst ` set (tl_nodes (snd (transport_recover mig ev t ep g lay))) = fst ` set (tl_nodes lay)"
proof (cases "dget (tl_nodes lay) (ev_node ev)")
  case None
  then show ?thesis by (simp add: transport_recover_missing)
next
  case (Some e)
  then have "ev_node ev \<in> fst ` set (tl_nodes lay)" by (metis map_of_eq_None_iff option.distinct(1))
  then have ins: "insert (ev_node ev) (fst ` set (tl_nodes lay)) = fst ` set (tl_nodes lay)" by blast
  show ?thesis
    unfolding transport_recover_def Some option.case Let_def
    by (auto split: list.splits if_splits simp: ins)
qed

lemma compute_recover_topology:
  "cl_topology (snd (compute_recover absorb ev t ep g lay)) = cl_topology lay"
  by (simp add: compute_recover_def Let_def)

lemma layer_keeps_assets: "same_assets w0 w \<Longrightarrow> same_assets w0 (snd (rl_recover (layer_at env t') ev t ep g w))"
  using transport_recover_nodes compute_recover_topology
  by (cases t') (auto simp: same_assets_def transport_object_def compute_object_def split_beta)

lemma layer_keeps_inv: "world_inv cd w \<Longrightarrow> world_inv cd (snd (rl_recover (layer_at env t') ev t ep g w))"
  by (cases t') (simp_all add: transport_obj.rec_inv compute_obj.rec_inv)

lemma runtime_layers_keep:
  "layers_keep (\<lambda>w. world_inv cd w \<and> same_assets w0 w) (runtime_map env)"
  unfolding layers_keep_def using layer_keeps_assets layer_keeps_inv by auto

text \<open>
  C1. Fault handling never damages the layers: whatever sequence of events the runtime
  handles, with whatever outcomes of the backends, the NIC registry, the fallback counters
  and the checkpoint stores keep their invariants, no checkpoint is written or lost, the
  neighbour topology and the set of registered nodes stay as they were.
\<close>

theorem faults_keep_layers_sound:
  assumes "en_tier_to_layer eng = runtime_map env" and "world_inv cd (en_world eng)"
  shows "world_inv cd (en_world (engine_run evs eng)) \<and>
    same_assets (en_world eng) (en_world (engine_run evs eng))"
proof -
  have "layers_keep (\<lambda>w. world_inv cd w \<and> same_assets (en_world eng) w) (en_tier_to_layer eng)"
    unfolding assms(1) by (rule runtime_layers_keep)
  from engine_run_keeps [OF this] assms(2) show ?thesis by (simp add: same_assets_def)
qed

definition demo_env :: runtime_env where
  "demo_env = \<lparr>re_migrate = simulated_migrate 1, re_absorb = absorb_ok, re_codec = plain_codec, re_restore_secs = 1\<rparr>"

theorem faults_keep_layers_sound_witness:
  "world_inv plain_codec (en_world (engine_run [(0, 0, node_down), (1, 1, disk_fault)]
     (rt_epe (runtime_init demo_env None))))"
proof -
  have "world_inv plain_codec (en_world (rt_epe (runtime_init demo_env None)))"
    using world_inv_initial by (simp add: runtime_init_def Let_def engine_init_def)
  from faults_keep_layers_sound [OF runtime_map_any this] show ?thesis by blast
qed

subsection \<open>Dispatching through the bus\<close>

lemma epe_fold:
  "fold (\<lambda>e s. fold (\<lambda>sub s. snd (epe_handle clk sub e s)) [0] s) q (eng, n) =
    (engine_run (map (\<lambda>(i, ev). (fst (clk i), snd (clk i), ev)) (enumerate n q)) eng, n + length q)"
proof (induction q arbitrary: eng n)
  case (Cons e q)
  have "snd (epe_handle clk 0 e (eng, n)) = (snd (on_event (fst (clk n)) (snd (clk n)) e eng), n + 1)"
    by (simp add: epe_handle_def split: prod.splits sum.splits)
  with Cons.IH show ?case by simp
qed simp

lemma dispatch_run:
  assumes "utp_subscribers (rt_utp rt) = [0]"
  shows "rt_epe (runtime_dispatch clk n rt) =
      engine_run (map (\<lambda>(i, ev). (fst (clk i), snd (clk i), ev)) (enumerate n (utp_queue (rt_utp rt)))) (rt_epe rt) \<and>
    utp_queue (rt_utp (runtime_dispatch clk n rt)) = []"
proof -
  obtain errs b' eng' n' where dr: "drain (epe_handle clk) (rt_utp rt) (rt_epe rt, n) = (errs, b', (eng', n'))"
    by (metis prod_cases3 surj_pair)
  from drain_state [OF dr] have "b' = (rt_utp rt)\<lparr>utp_queue := []\<rparr>"
    and "(eng', n') = fold (\<lambda>e s. fold (\<lambda>sub s. snd (epe_handle clk sub e s)) [0] s) (utp_queue (rt_utp rt)) (rt_epe rt, n)"
    unfolding fan_out_state assms by simp_all
  then show ?thesis unfolding epe_fold runtime_dispatch_def dr by simp
qed

text \<open>
  The bus is transparent: letting the runtime empty its queue handles exactly the
  queued events, in the order they were published, each with its own clock reading and each
  handled in full before the next, whether or not earlier ones raised; it leaves an empty
  queue.
\<close>

theorem dispatch_is_engine_run:
  assumes "utp_subscribers (rt_utp rt) = [0]"
  shows "rt_epe (runtime_dispatch clk n rt) =
      engine_run (map (\<lambda>(i, ev). (fst (clk i), snd (clk i), ev)) (enumerate n (utp_queue (rt_utp rt)))) (rt_epe rt) \<and>
    utp_queue (rt_utp (runtime_dispatch clk n rt)) = []"
  using assms by (rule dispatch_run)

theorem dispatch_is_engine_run_witness:
  "let rt = runtime_publish disk_fault (runtime_publish node_down (runtime_init demo_env None));
       clk = (\<lambda>i. (real i, real i))
   in rt_epe (runtime_dispatch clk 0 rt) =
        engine_run [(0, 0, node_down), (1, 1, disk_fault)] (rt_epe (runtime_init demo_env None))"
proof -
  let ?rt = "runtime_publish disk_fault (runtime_publish node_down (runtime_init demo_env None))"
  have q: "utp_subscribers (rt_utp ?rt) = [0]" "utp_queue (rt_utp ?rt) = [node_down, disk_fault]"
    "rt_epe ?rt = rt_epe (runtime_init demo_env None)"
    by (simp_all add: runtime_publish_def publish_def queue_full_def runtime_init_def Let_def
        subscribe_def bus_init_def default_queue_size_def)
  from dispatch_is_engine_run [OF q(1), of "\<lambda>i. (real i, real i)" 0] show ?thesis
    by (simp add: Let_def q(2,3))
qed

subsection \<open>Which layer the runtime uses\<close>

lemma runtime_passes_over:
  "en_tier_to_layer e = runtime_map env \<Longrightarrow>
   passes_over r e u \<longleftrightarrow> \<not> rl_can_handle (layer_at env u) (fr_event r) u (en_world e)"
  by (simp add: passes_over_def)

lemma event_settles_at:
  assumes "en_tier_to_layer eng = runtime_map env" and "\<not> en_observe_only eng"
    and "t = decided_tier now ev eng" and "t \<le> v"
    and "\<forall>u. t \<le> u \<and> u < v \<longrightarrow> \<not> rl_can_handle (layer_at env u) ev u (en_world eng)"
    and "rl_can_handle (layer_at env v) ev v (en_world eng)"
    and "rl_recover (layer_at env v) ev v (es_epoch (en_epochs eng) + 1)
           (urc_gate (attempted v (new_record now stamp ev eng)) v (en_consensus eng)) (en_world eng) = (Inr res, w)"
    and "rr_success res"
  shows "\<exists>r eng'. on_event now stamp ev eng = (Inr (), eng') \<and> en_history eng' = en_history eng @ [r] \<and>
    fr_event r = ev \<and> fr_original_tier r = t \<and> fr_final_tier r = v \<and> (fr_escalated r \<longleftrightarrow> t < v) \<and>
    fr_result r = Some res \<and> en_world eng' = w \<and>
    dget (rank_epochs (en_consensus eng')) (ev_rank ev) = Some (es_epoch (en_epochs eng) + 1)"
proof -
  let ?r = "new_record now stamp ev eng" and ?e = "entered now ev eng"
  let ?r1 = "attempted v ?r"
  have "\<forall>u. t \<le> u \<and> u < v \<longrightarrow> passes_over ?r ?e u"
    using assms(1,5) by (simp add: runtime_passes_over)
  then have rt: "route ?r ?e = route_from ?r v ?e"
    using route_passes_over [OF assms(4)] by (simp add: route_def assms(3))
  have "try_tier ?r v ?e = (Inr (Some res), ?r1,
    ?e\<lparr>en_world := w, en_consensus := report_epoch (ev_rank (fr_event ?r)) (fr_epoch ?r) (en_consensus ?e),
      en_kpi := map_option (kpi_record (fr_epoch ?r) v (rr_recovery_secs res) (op_gpu_count (en_policy ?e)))
        (en_kpi ?e)\<rparr>)"
    by (rule try_tier_success [where lay = "layer_at env v"]) (use assms(1,6,7,8) in simp_all)
  then obtain e1 where e1: "try_tier ?r v ?e = (Inr (Some res), ?r1, e1)"
    and books: "en_world e1 = w" "en_history e1 = en_history eng"
      "en_consensus e1 = report_epoch (ev_rank ev) (es_epoch (en_epochs eng) + 1) (en_consensus eng)"
    by simp
  with rt have "route ?r ?e = (Inr res, ?r1, e1)" by (simp add: route_from.simps)
  with assms(2) have "on_event now stamp ev eng =
      (Inr (), e1\<lparr>en_history := en_history eng @ [?r1\<lparr>fr_result := Some res\<rparr>]\<rparr>)"
    by (simp add: on_event_route books)
  then show ?thesis using books assms(3,4) by (auto simp: less_le)
qed

text \<open>
  C6. A fault goes to the cheapest layer that can take it: on the runtime's engine, acting,
  an event whose layers refuse at every tier below \<open>v\<close>, from the tier decided for it, is
  handled at \<open>v\<close>: when the layer of \<open>v\<close> accepts and succeeds, the log gains its record
  with final tier \<open>v\<close>, flagged escalated exactly when \<open>v\<close> is above the decided tier; the
  layers' state is the one that single recovery left, and the rank is reported to the
  consensus at the new epoch.
\<close>

theorem fault_goes_to_cheapest_able_layer:
  assumes "en_tier_to_layer eng = runtime_map env" and "\<not> en_observe_only eng"
    and "t = decided_tier now ev eng" and "t \<le> v"
    and "\<forall>u. t \<le> u \<and> u < v \<longrightarrow> \<not> rl_can_handle (layer_at env u) ev u (en_world eng)"
    and "rl_can_handle (layer_at env v) ev v (en_world eng)"
    and "rl_recover (layer_at env v) ev v (es_epoch (en_epochs eng) + 1)
           (urc_gate (attempted v (new_record now stamp ev eng)) v (en_consensus eng)) (en_world eng) = (Inr res, w)"
    and "rr_success res"
  shows "\<exists>r eng'. on_event now stamp ev eng = (Inr (), eng') \<and> en_history eng' = en_history eng @ [r] \<and>
    fr_event r = ev \<and> fr_original_tier r = t \<and> fr_final_tier r = v \<and> (fr_escalated r \<longleftrightarrow> t < v) \<and>
    fr_result r = Some res \<and> en_world eng' = w \<and>
    dget (rank_epochs (en_consensus eng')) (ev_rank ev) = Some (es_epoch (en_epochs eng) + 1)"
  using assms by (rule event_settles_at)

definition crash_ready :: "aegis_world engine" where
  "crash_ready = (rt_epe (runtime_init demo_env None))
     \<lparr>en_world := initial_world\<lparr>aw_storage :=
        (storage_init 5 [])\<lparr>st_tier1 :=
           write_all local_filesystem_backend plain_codec 5 ''tier1'' [(0, ''node1'', 3, False, [1, 2])]
             (tier_store_init [])\<rparr>\<rparr>\<rparr>"

abbreviation crash_tier1 :: "filesystem tier_store" where
  "crash_tier1 \<equiv> write_all local_filesystem_backend plain_codec 5 ''tier1'' [(0, ''node1'', 3, False, [1, 2])]
     (tier_store_init [])"

lemma crash_ready_simps [simp]:
  "en_tier_to_layer crash_ready = runtime_map demo_env" "en_observe_only crash_ready = False"
  "en_history crash_ready = []" "en_recent_b1s crash_ready = []" "en_policy crash_ready = default_policy"
  "en_consensus crash_ready = urc_init"
  "en_world crash_ready = initial_world\<lparr>aw_storage := (storage_init 5 [])\<lparr>st_tier1 := crash_tier1\<rparr>\<rparr>"
  by (simp_all add: crash_ready_def runtime_map_any)
     (simp_all add: runtime_init_def Let_def engine_init_def)

lemma node_down_simps [simp]: "ev_node node_down = ''node1''" "classify node_down = B1" "ev_rank node_down = 1"
  by (simp_all add: node_down_def classify_eq_signal)

text \<open>The crash of a node that has no neighbour but a local checkpoint of epoch 3.\<close>

lemma crash_settles:
  assumes "en_consensus eng = u" and "eng = crash_ready\<lparr>en_consensus := u\<rparr>"
    and "urc_gate (attempted B2 (new_record 0 0 node_down eng)) B2 u \<in> {None, Some 4}"
  shows "B1 = decided_tier 0 node_down eng"
    and "\<forall>u. B1 \<le> u \<and> u < B2 \<longrightarrow> \<not> rl_can_handle (layer_at demo_env u) node_down u (en_world eng)"
    and "rl_can_handle (layer_at demo_env B2) node_down B2 (en_world eng)"
    and "rl_recover (layer_at demo_env B2) node_down B2 (es_epoch (en_epochs eng) + 1)
      (urc_gate (attempted B2 (new_record 0 0 node_down eng)) B2 (en_consensus eng)) (en_world eng) =
      (Inr (rr_succeeded (MsgRestored 1 ''node1'' 3 2) False 1), en_world eng)"
proof -
  show "B1 = decided_tier 0 node_down eng"
    by (simp add: decided_tier_def apply_correlation_window_def Let_def assms(2) default_policy_def)
  show "\<forall>u. B1 \<le> u \<and> u < B2 \<longrightarrow> \<not> rl_can_handle (layer_at demo_env u) node_down u (en_world eng)"
  proof (intro allI impI)
    fix u assume "B1 \<le> u \<and> u < B2"
    then have "u = B1" by (cases u) (simp_all add: tier_order)
    then show "\<not> rl_can_handle (layer_at demo_env u) node_down u (en_world eng)"
      by (simp add: assms(2) compute_object_def compute_can_handle_def initial_world_def compute_init_def)
  qed
  have ok: "node_ok local_filesystem_backend (\<lambda>r. r) plain_codec crash_tier1 (ev_node node_down) [(3, False, [1, 2])]"
    using local_fs.write_all_ok [of 5 plain_codec "tier_store_init []" "\<lambda>_. []" "''tier1''"
        "[(0, ''node1'', 3, False, [1, 2])]" "''node1''"]
    by (simp add: log_of_def)
  have cd: "codec_ok plain_codec" by (simp add: codec_ok_def plain_codec_def)
  have "length (history_of ''node1'' crash_tier1) = 1" using ok by (simp add: node_ok_def)
  then obtain c where h: "history_of ''node1'' crash_tier1 = [c]" by (auto simp: length_Suc_conv)
  have ep: "ck_epoch c = 3" using node_ok_epoch [OF ok, of 0] by (simp add: h)
  show "rl_can_handle (layer_at demo_env B2) node_down B2 (en_world eng)"
    by (simp add: assms(2) storage_object_def storage_can_handle_def h)
  have "select [c] None = Some (c, 0)" "select [c] (Some 4) = Some (c, 0)"
    by (simp_all add: select_def ep)
  then have "restore_tier1 local_filesystem_backend plain_codec 1 node_down g crash_tier1 =
      Inr (rr_succeeded (MsgRestored 1 ''node1'' 3 2) False 1)" if "g \<in> {None, Some 4}" for g
    unfolding restore_tier1_def restore_node_tier_ok [OF ok cd] using that by (auto simp: h ep)
  from this [OF assms(3)]
  show "rl_recover (layer_at demo_env B2) node_down B2 (es_epoch (en_epochs eng) + 1)
      (urc_gate (attempted B2 (new_record 0 0 node_down eng)) B2 (en_consensus eng)) (en_world eng) =
      (Inr (rr_succeeded (MsgRestored 1 ''node1'' 3 2) False 1), en_world eng)"
    by (simp add: assms storage_object_def storage_recover_def demo_env_def)
qed

lemma B1_le_B2: "B1 \<le> B2"
  by (simp add: tier_order)

theorem fault_goes_to_cheapest_able_layer_witness:
  "\<exists>r eng'. on_event 0 0 node_down crash_ready = (Inr (), eng') \<and>
     en_history eng' = [r] \<and> fr_original_tier r = B1 \<and> fr_final_tier r = B2 \<and> fr_escalated r"
proof -
  have u: "en_consensus crash_ready = urc_init" "crash_ready = crash_ready\<lparr>en_consensus := urc_init\<rparr>"
    by (simp, simp add: crash_ready_def runtime_init_def Let_def engine_init_def)
  have "urc_gate (attempted B2 (new_record 0 0 node_down crash_ready)) B2 urc_init \<in> {None, Some 4}"
    by (simp add: urc_gate_def Let_def urc_init_def all_ranks_def agree_def)
  note c = crash_settles [OF u this]
  from fault_goes_to_cheapest_able_layer [OF _ _ c(1) B1_le_B2 c(2-4)] show ?thesis
    by (auto simp: tier_order)
qed

subsection \<open>What state a fault is restored to\<close>

text \<open>The checkpoint epoch a recovery message names, if it restored a checkpoint.\<close>

fun restored_epoch :: "message \<Rightarrow> int option" where
  "restored_epoch (MsgRestored no node ep len) = Some ep"
| "restored_epoch (MsgRestoredReplica node ep) = Some ep"
| "restored_epoch (MsgRestoredBase ep) = Some ep"
| "restored_epoch _ = None"

lemma select_below_gate: "select h (Some g) = Some (c, i) \<Longrightarrow> ck_epoch c \<le> g"
  using select_gated_Some by blast

lemma storage_restores_below_gate:
  assumes "fst (storage_recover B cd s ev t ep (Some g) lay) = Inr r" and "restored_epoch (rr_message r) = Some E"
  shows "E \<le> g"
  using assms
  unfolding storage_recover_def restore_tier1_def restore_tier2_def restore_tier3_def restore_node_tier_def
  by (auto split: if_splits option.splits sum.splits prod.splits dest!: select_below_gate)

lemma transport_restores_nothing:
  "fst (transport_recover mig ev t ep g lay) = Inr r \<Longrightarrow> restored_epoch (rr_message r) = None"
  unfolding transport_recover_def Let_def by (auto split: option.splits list.splits if_splits)

lemma compute_restores_nothing:
  "fst (compute_recover absorb ev t ep g lay) = Inr r \<Longrightarrow> restored_epoch (rr_message r) = None"
  unfolding compute_recover_def Let_def by (auto split: if_splits)

lemma try_tier_success_inv:
  assumes "try_tier r t e = (Inr (Some res), r', e')"
  obtains lay ep where "dget (en_tier_to_layer e) t = Some lay"
    and "fst (rl_recover lay (fr_event r) t ep (urc_gate (attempted t r) t (en_consensus e)) (en_world e)) = Inr res"
proof (cases "passes_over r e t")
  case True
  with assms show ?thesis by (simp add: passes_over_try)
next
  case False
  then obtain lay where lay: "dget (en_tier_to_layer e) t = Some lay"
    and can: "rl_can_handle lay (fr_event r) t (en_world e)"
    by (auto simp: passes_over_def split: option.splits)
  have "fst (rl_recover lay (fr_event r) t (fr_epoch r) (urc_gate (attempted t r) t (en_consensus e)) (en_world e))
      = Inr res"
    using assms lay can unfolding try_tier_def lay option.case Let_def attempted_def [symmetric]
    by (auto split: sum.splits prod.splits if_splits)
  with lay show ?thesis by (rule that)
qed

lemma try_tier_restore_bound:
  assumes map: "en_tier_to_layer e = runtime_map env"
    and run: "try_tier r t e = (Inr (Some res), r', e')" and E: "restored_epoch (rr_message res) = Some E"
    and k: "k \<noteq> ev_rank (fr_event r)" "dget (rank_epochs (en_consensus e)) k = Some ek"
  shows "E \<le> ek"
proof -
  from run obtain lay ep where lay: "dget (en_tier_to_layer e) t = Some lay"
    and rec: "fst (rl_recover lay (fr_event r) t ep (urc_gate (attempted t r) t (en_consensus e)) (en_world e)) = Inr res"
    by (rule try_tier_success_inv)
  from lay map have lay': "lay = layer_at env t" by simp
  have t: "B2 \<le> t"
  proof (cases t)
    case B0
    with rec E show ?thesis
      using transport_restores_nothing [of _ "fr_event r"]
      by (auto simp: lay' transport_object_def split_beta)
  next
    case B1
    with rec E show ?thesis
      using compute_restores_nothing [of _ "fr_event r"]
      by (auto simp: lay' compute_object_def split_beta)
  qed (simp_all add: tier_order)
  have "k \<noteq> ev_rank (fr_event (attempted t r))" using k(1) by simp
  from urc_gate_low [OF t this k(2)] obtain g
    where g: "urc_gate (attempted t r) t (en_consensus e) = Some g" "g \<le> ek" .
  from t have "lay = storage_object env" by (cases t) (simp_all add: lay' tier_order)
  with rec g(1) E have "E \<le> g"
    using storage_restores_below_gate [of _ _ _ "fr_event r" t ep g "aw_storage (en_world e)" res E]
    by (simp add: storage_object_def split_beta)
  with g(2) show ?thesis by simp
qed

text \<open>
  C2. A restore never runs ahead of the survivors: whenever the runtime's engine handles an
  event and logs a success whose message names a restored checkpoint, from tier 1, 2 or 3,
  the epoch of that checkpoint is no newer than the last epoch that any other rank had
  reported to the consensus before the fault.
\<close>

theorem restore_never_ahead_of_survivors:
  assumes "en_tier_to_layer eng = runtime_map env" and "\<not> en_observe_only eng"
    and "on_event now stamp ev eng = (Inr (), eng')" and "en_history eng' = en_history eng @ [r]"
    and "fr_result r = Some res" and "restored_epoch (rr_message res) = Some E"
    and "k \<noteq> ev_rank ev" and "dget (rank_epochs (en_consensus eng)) k = Some ek"
  shows "E \<le> ek"
proof -
  let ?r = "new_record now stamp ev eng" and ?e = "entered now ev eng"
  obtain out r' e1 where rt: "route ?r ?e = (out, r', e1)" by (cases "route ?r ?e") auto
  then have rf: "route_from ?r (fr_final_tier ?r) ?e = (out, r', e1)" by (simp add: route_def)
  have h: "en_history e1 = en_history eng" using route_frame [OF rf] by (simp add: same_engine_def)
  have out: "out = Inr res"
    using assms(2-5) rt h by (cases out) (auto simp: on_event_route)
  let ?P = "\<lambda>(r1::fault_record) e1. en_tier_to_layer e1 = runtime_map env \<and>
    en_consensus e1 = en_consensus eng \<and> fr_event r1 = ev"
  let ?Q = "\<lambda>out. \<forall>res. out = Inr res \<longrightarrow> restored_epoch (rr_message res) = Some E \<longrightarrow> E \<le> ek"
  have "?Q out"
  proof (rule route_from_rule [where t = "fr_final_tier ?r" and P = "\<lambda>_. ?P" and Q = "\<lambda>out _ _. ?Q out",
        OF _ _ _ _ _ rf])
    fix t t' r1 r2 and e1 e2 :: "aegis_world engine"
    assume P: "?P r1 e1" and run: "try_tier r1 t e1 = (Inr None, r2, e2)"
    from try_tier_reports [OF run] try_tier_frame [OF run] P show "?P r2 e2"
      by (simp add: same_fault_def same_engine_def)
  next
    fix t r1 res1 r2 and e1 e2 :: "aegis_world engine"
    assume P: "?P r1 e1" and run: "try_tier r1 t e1 = (Inr (Some res1), r2, e2)"
    show "?Q (Inr res1)"
      using try_tier_restore_bound [OF _ run, of env E k ek] P assms(7,8) by auto
  qed (use assms(1) in \<open>auto simp: exhausted_result_def\<close>)
  with out assms(6) show ?thesis by blast
qed

theorem restore_never_ahead_of_survivors_witness:
  "\<exists>eng' r. on_event 0 0 node_down (crash_ready\<lparr>en_consensus := \<lparr>rank_epochs = [(7, 4)]\<rparr>\<rparr>) = (Inr (), eng') \<and>
     en_history eng' = [r] \<and> map_option rr_message (fr_result r) = Some (MsgRestored 1 ''node1'' 3 2) \<and>
     (3 :: int) \<le> 4"
proof -
  let ?u = "\<lparr>rank_epochs = [(7, 4)]\<rparr>"
  let ?e = "crash_ready\<lparr>en_consensus := ?u\<rparr>"
  have "urc_gate (attempted B2 (new_record 0 0 node_down ?e)) B2 ?u \<in> {None, Some 4}"
    by (simp add: urc_gate_def Let_def all_ranks_def agree_def)
  note c = crash_settles [OF _ refl this]
  from event_settles_at [OF _ _ c(1) B1_le_B2 c(2-4)] obtain r eng' where
    run: "on_event 0 0 node_down ?e = (Inr (), eng')" and h: "en_history eng' = en_history ?e @ [r]"
    and r: "fr_result r = Some (rr_succeeded (MsgRestored 1 ''node1'' 3 2) False 1)"
    by auto
  have "(3 :: int) \<le> 4"
    by (rule restore_never_ahead_of_survivors [OF _ _ run h r, of demo_env 3 7]) simp_all
  with run h r show ?thesis by auto
qed

end
