(* ===== verification/Public_Api.thy ===== *)
theory Public_Api
  imports Runtime "HOL-Library.List_Lexorder" "HOL-Library.Char_ord"
begin

text \<open>
  The public surface: the module state of \<open>aegis/_state.py\<close>, the hook registry of
  \<open>aegis/hooks.py\<close>, \<open>init\<close>, \<open>status\<close>, \<open>explain\<close>, \<open>dashboard\<close> and \<open>disable\<close> of
  \<open>aegis/__init__.py\<close>, the report of \<open>aegis/dashboard.py\<close>, the explicit checkpoint and
  transport APIs, and the command line. Arguments stand for what the operating system
  decides: whether the runtime starts in time, which background loop it gets, and the
  outcome of a subprocess. The rendering of the report as text is in \<open>Reports\<close>.
\<close>

subsection \<open>The hook registry\<close>

definition valid_hooks :: "string list" where
  "valid_hooks = [''transport'', ''compute'', ''checkpoint'', ''telemetry'', ''policy'']"

record hook_registry =
  hr_mode :: string
  hr_active :: "string set"

definition hooks_init :: "string \<Rightarrow> hook_registry" where
  "hooks_init mode = \<lparr>hr_mode = mode, hr_active = {}\<rparr>"

definition hook_install :: "string \<Rightarrow> hook_registry \<Rightarrow> pyexc + hook_registry" where
  "hook_install name h =
    (if name \<notin> set valid_hooks then Inl ValueErr else Inr (h\<lparr>hr_active := insert name (hr_active h)\<rparr>))"

definition hook_uninstall :: "string \<Rightarrow> hook_registry \<Rightarrow> hook_registry" where
  "hook_uninstall name h = h\<lparr>hr_active := hr_active h - {name}\<rparr>"

definition hook_is_active :: "string \<Rightarrow> hook_registry \<Rightarrow> bool" where
  "hook_is_active name h \<longleftrightarrow> name \<in> hr_active h"

definition hooks_disable_all :: "hook_registry \<Rightarrow> hook_registry" where
  "hooks_disable_all h = h\<lparr>hr_active := {}\<rparr>"

definition active_hooks :: "hook_registry \<Rightarrow> string list" where
  "active_hooks h = sorted_list_of_set (hr_active h)"

subsection \<open>Module state\<close>

text \<open>
  \<open>as_live\<close> is not a field of the module: it lists the background event loops that run.
\<close>

record aegis_state =
  as_runtime :: "runtime option"
  as_hooks :: "hook_registry option"
  as_mode :: string
  as_initialized :: bool
  as_loop :: "nat option"
  as_loop_thread :: "nat option"
  as_live :: "nat list"

definition aegis_state_init :: aegis_state where
  "aegis_state_init =
    \<lparr>as_runtime = None, as_hooks = None, as_mode = ''active'', as_initialized = False,
     as_loop = None, as_loop_thread = None, as_live = []\<rparr>"

definition valid_modes :: "string list" where
  "valid_modes = [''active'', ''observe_only'']"

text \<open>The loop of \<open>init\<close> over \<open>VALID_HOOKS\<close>; the registry's error becomes an init error.\<close>

fun install_hooks :: "string list \<Rightarrow> string list \<Rightarrow> hook_registry \<Rightarrow> pyexc + hook_registry" where
  "install_hooks [] disabled h = Inr h"
| "install_hooks (n # ns) disabled h =
    (if n \<notin> set disabled
     then case hook_install n h of Inl x \<Rightarrow> Inl AegisInitErr | Inr h' \<Rightarrow> install_hooks ns disabled h'
     else install_hooks ns disabled h)"

definition aegis_init ::
  "runtime_env \<Rightarrow> string list option \<Rightarrow> string \<Rightarrow> pyexc + operator_policy \<Rightarrow> operator_policy option \<Rightarrow>
   bool \<Rightarrow> nat \<Rightarrow> aegis_state \<Rightarrow> (pyexc + unit) \<times> aegis_state" where
  "aegis_init env disable mode loaded policy start_ok new_loop st =
    (if mode \<notin> set valid_modes then (Inl ValueErr, st)
     else
       (let disable_list = (case disable of None \<Rightarrow> [] | Some d \<Rightarrow> d)
        in if \<exists>h \<in> set disable_list. h \<notin> set valid_hooks then (Inl ValueErr, st)
           else case (case policy of Some p \<Rightarrow> Inr p | None \<Rightarrow> loaded) of
                  Inl x \<Rightarrow> (Inl x, st)
                | Inr resolved_policy \<Rightarrow>
                    (case install_hooks valid_hooks disable_list (hooks_init mode) of
                       Inl x \<Rightarrow> (Inl x, st)
                     | Inr hooks \<Rightarrow>
                         (let rt0 = runtime_init env (Some resolved_policy);
                              rt = (if mode = ''observe_only''
                                    then rt0\<lparr>rt_epe := (rt_epe rt0)\<lparr>en_observe_only := True\<rparr>\<rparr> else rt0)
                          in if \<not> start_ok then (Inl AegisInitErr, st)
                             else (Inr (),
                                   st\<lparr>as_runtime := Some (runtime_start rt), as_hooks := Some hooks,
                                      as_mode := mode, as_initialized := True,
                                      as_loop := Some new_loop, as_loop_thread := Some new_loop,
                                      as_live := as_live st @ [new_loop]\<rparr>)))))"

definition require_init :: "aegis_state \<Rightarrow> pyexc + runtime" where
  "require_init st =
    (if \<not> as_initialized st then Inl RuntimeErr
     else case as_runtime st of None \<Rightarrow> Inl RuntimeErr | Some rt \<Rightarrow> Inr rt)"

record status_report =
  sr_initialized :: bool
  sr_mode :: string
  sr_active_hooks :: "string list"
  sr_current_epoch :: int
  sr_kpi :: kpi_summary

text \<open>The KPI meter of the runtime is the one its engine holds.\<close>

definition rt_kpi :: "runtime \<Rightarrow> kpi_meter" where
  "rt_kpi rt = (case en_kpi (rt_epe rt) of Some m \<Rightarrow> m | None \<Rightarrow> kpi_init 0)"

definition aegis_status :: "aegis_state \<Rightarrow> pyexc + status_report" where
  "aegis_status st =
    (case require_init st of Inl x \<Rightarrow> Inl x
     | Inr rt \<Rightarrow> Inr \<lparr>sr_initialized = as_initialized st, sr_mode = as_mode st,
         sr_active_hooks = (case as_hooks st of None \<Rightarrow> [] | Some h \<Rightarrow> active_hooks h),
         sr_current_epoch = epoch_current (en_epochs (rt_epe rt)),
         sr_kpi = kpi_summarise (rt_kpi rt)\<rparr>)"

record explanation =
  ex_epoch :: int
  ex_signal :: string
  ex_node :: string
  ex_original_tier :: string
  ex_final_tier :: string
  ex_escalated :: bool
  ex_success :: bool
  ex_degraded :: bool
  ex_message :: message
  ex_observe_only :: bool

text \<open>\<open>Inl b\<close> inside the result is the answer before any fault, with its one flag.\<close>

definition aegis_explain :: "aegis_state \<Rightarrow> pyexc + (bool + explanation)" where
  "aegis_explain st =
    (case require_init st of Inl x \<Rightarrow> Inl x
     | Inr rt \<Rightarrow>
         (let history = en_history (rt_epe rt);
              observing = (as_mode st = ''observe_only'')
          in if history = [] then Inr (Inl observing)
             else (let r = last history
                   in Inr (Inr \<lparr>ex_epoch = fr_epoch r, ex_signal = signal_value (ev_signal (fr_event r)),
                        ex_node = ev_node (fr_event r), ex_original_tier = tier_name (fr_original_tier r),
                        ex_final_tier = tier_name (fr_final_tier r), ex_escalated = fr_escalated r,
                        ex_success = (case fr_result r of None \<Rightarrow> False | Some x \<Rightarrow> rr_success x),
                        ex_degraded = (case fr_result r of None \<Rightarrow> False | Some x \<Rightarrow> rr_degraded x),
                        ex_message = (case fr_result r of None \<Rightarrow> MsgEmpty | Some x \<Rightarrow> rr_message x),
                        ex_observe_only = observing\<rparr>))))"

subsection \<open>The dashboard\<close>

record dash_row =
  dr_count :: nat
  dr_escalated :: nat
  dr_degraded :: nat
  dr_failed :: nat

record dash_report =
  da_current_epoch :: int
  da_faults_processed :: nat
  da_by_tier :: "(string, dash_row) dict"
  da_violations :: nat
  da_kpi :: kpi_summary
  da_recent_faults :: "audit_entry list"

definition empty_row :: dash_row where
  "empty_row = \<lparr>dr_count = 0, dr_escalated = 0, dr_degraded = 0, dr_failed = 0\<rparr>"

definition count_entry :: "audit_entry \<Rightarrow> dash_row \<Rightarrow> dash_row" where
  "count_entry a row =
    \<lparr>dr_count = dr_count row + 1,
     dr_escalated = dr_escalated row + (if au_escalated a then 1 else 0),
     dr_degraded = dr_degraded row + (if au_degraded a then 1 else 0),
     dr_failed = dr_failed row + (if \<not> au_success a then 1 else 0)\<rparr>"

definition count_audit :: "audit_entry list \<Rightarrow> (string, dash_row) dict" where
  "count_audit audit =
    fold (\<lambda>a rows. dset (au_final_tier a) (count_entry a (dget_or rows (au_final_tier a) empty_row)) rows)
      audit (map (\<lambda>t. (tier_name t, empty_row)) all_tiers)"

definition build_report :: "runtime \<Rightarrow> dash_report" where
  "build_report rt =
    (let audit = escalation_audit (rt_epe rt);
         violations = filter (\<lambda>a. \<not> au_escalation_valid a) audit
     in \<lparr>da_current_epoch = epoch_current (en_epochs (rt_epe rt)),
         da_faults_processed = length audit,
         da_by_tier = count_audit audit,
         da_violations = length violations,
         da_kpi = kpi_summarise (rt_kpi rt),
         da_recent_faults = drop (length audit - 10) audit\<rparr>)"

text \<open>\<open>dashboard\<close>; \<open>Inl\<close> inside the result is the text of the report.\<close>

definition aegis_dashboard ::
  "(dash_report \<Rightarrow> string) \<Rightarrow> string \<Rightarrow> aegis_state \<Rightarrow> pyexc + (string + dash_report)" where
  "aegis_dashboard render_text fmt st =
    (case require_init st of Inl x \<Rightarrow> Inl x
     | Inr rt \<Rightarrow>
         (let report = build_report rt
          in if fmt = ''json'' then Inr (Inr report)
             else if fmt = ''text'' then Inr (Inl (render_text report))
             else Inl ValueErr))"

subsection \<open>Switching off\<close>

text \<open>
  \<open>disable\<close>. The argument \<open>stop\<close> is what \<open>runtime.stop()\<close>, submitted to the background loop and
  waited for at most five seconds, does to a runtime: it returns, or raises or runs out of time,
  with the runtime as it stands then; \<open>runtime_stop\<close> is the stop that nothing disturbs. An error is
  logged, and the loop is told to stop whether or not there was one. The module lets go of its
  registry and its runtime; a caller may still hold them, so they are part of the result.
\<close>

record released =
  re_hooks :: "hook_registry option"
  re_runtime :: "runtime option"
  re_logged :: "pyexc option"

definition aegis_disable :: "(runtime \<Rightarrow> (pyexc + unit) \<times> runtime) \<Rightarrow> aegis_state \<Rightarrow> released \<times> aegis_state" where
  "aegis_disable stop st =
    (if \<not> as_initialized st then (\<lparr>re_hooks = None, re_runtime = None, re_logged = None\<rparr>, st)
     else
       (let hooks = map_option hooks_disable_all (as_hooks st);
            (runtime, logged, live) =
              (case (as_runtime st, as_loop st) of
                 (Some rt, Some loop) \<Rightarrow>
                   (case stop rt of
                      (Inl x, rt') \<Rightarrow> (Some rt', Some x, remove1 loop (as_live st))
                    | (Inr u, rt') \<Rightarrow> (Some rt', None, remove1 loop (as_live st)))
               | _ \<Rightarrow> (as_runtime st, None, as_live st))
        in (\<lparr>re_hooks = hooks, re_runtime = runtime, re_logged = logged\<rparr>,
            st\<lparr>as_runtime := None, as_hooks := None, as_initialized := False, as_loop := None,
               as_loop_thread := None, as_live := live\<rparr>)))"

definition aegis_reset :: "(runtime \<Rightarrow> (pyexc + unit) \<times> runtime) \<Rightarrow> aegis_state \<Rightarrow> aegis_state" where
  "aegis_reset stop st = (snd (aegis_disable stop st))\<lparr>as_mode := ''active'', as_initialized := False\<rparr>"

subsection \<open>The explicit checkpoint and transport APIs\<close>

definition api_runtime :: "aegis_state \<Rightarrow> pyexc + runtime" where
  "api_runtime st = (case as_runtime st of None \<Rightarrow> Inl RuntimeErr | Some rt \<Rightarrow> Inr rt)"

text \<open>
  \<open>checkpoint.save\<close>: the writes at the current epoch under the node name \<open>local\<close>, each
  with its clock reading and random payload (the state that is passed in is not written).
\<close>

definition rt_storage :: "runtime \<Rightarrow> filesystem storage_layer" where
  "rt_storage rt = aw_storage (en_world (rt_epe rt))"

definition with_storage :: "filesystem storage_layer \<Rightarrow> runtime \<Rightarrow> runtime" where
  "with_storage l rt = rt\<lparr>rt_epe := (rt_epe rt)\<lparr>en_world := (en_world (rt_epe rt))\<lparr>aw_storage := l\<rparr>\<rparr>\<rparr>"

definition save_tiers ::
  "codec \<Rightarrow> string \<Rightarrow> int \<Rightarrow> real \<Rightarrow> bytes \<times> bytes \<times> bytes \<Rightarrow> filesystem storage_layer \<Rightarrow>
   (pyexc + unit) \<times> filesystem storage_layer" where
  "save_tiers cd tier epoch now rnd l =
    (let B = local_filesystem_backend; node = ''local'';
         (r1, l1) = (if tier \<in> {''auto'', ''local''}
                     then map_prod (map_sum id (\<lambda>m. ())) id
                            (write_tier1 B cd now (fst rnd) node epoch False None l)
                     else (Inr (), l))
     in case r1 of Inl x \<Rightarrow> (Inl x, l1) | Inr u1 \<Rightarrow>
        (let (r2, l2) = (if tier \<in> {''auto'', ''peer''}
                         then map_prod (map_sum id (\<lambda>m. ())) id
                                (write_tier2 B cd now (fst (snd rnd)) node epoch False None l1)
                         else (Inr (), l1))
         in case r2 of Inl x \<Rightarrow> (Inl x, l2) | Inr u2 \<Rightarrow>
            (Inr (), if tier \<in> {''auto'', ''remote''}
                     then snd (write_tier3 B cd now (snd (snd rnd)) epoch False None l2) else l2)))"

definition checkpoint_save ::
  "codec \<Rightarrow> string \<Rightarrow> real \<Rightarrow> bytes \<times> bytes \<times> bytes \<Rightarrow> aegis_state \<Rightarrow> (pyexc + unit) \<times> aegis_state" where
  "checkpoint_save cd tier now rnd st =
    (case api_runtime st of Inl x \<Rightarrow> (Inl x, st)
     | Inr rt \<Rightarrow>
         (if tier \<notin> {''auto'', ''local'', ''peer'', ''remote''} then (Inl ValueErr, st)
          else case save_tiers cd tier (epoch_current (en_epochs (rt_epe rt))) now rnd (rt_storage rt) of
                 (res, l) \<Rightarrow> (res, st\<lparr>as_runtime := Some (with_storage l rt)\<rparr>)))"

record restored_ckpt =
  rc_tier :: string
  rc_epoch :: int
  rc_fidelity_flag :: bool

definition restored_of :: "string \<Rightarrow> checkpoint_metadata \<Rightarrow> restored_ckpt" where
  "restored_of tier c = \<lparr>rc_tier = tier, rc_epoch = ck_epoch c, rc_fidelity_flag = ck_fidelity_flag c\<rparr>"

text \<open>The first node of a tier, in insertion order, that has a checkpoint.\<close>

fun first_latest :: "string \<Rightarrow> (string \<Rightarrow> checkpoint_metadata option) \<Rightarrow> string list \<Rightarrow> restored_ckpt option" where
  "first_latest tier latest [] = None"
| "first_latest tier latest (node # nodes) =
    (case latest node of None \<Rightarrow> first_latest tier latest nodes | Some c \<Rightarrow> Some (restored_of tier c))"

definition checkpoint_restore :: "pyval \<Rightarrow> aegis_state \<Rightarrow> pyexc + restored_ckpt" where
  "checkpoint_restore epoch st =
    (case api_runtime st of Inl x \<Rightarrow> Inl x
     | Inr rt \<Rightarrow>
         (let l = rt_storage rt
          in case latest_tier3 l of
               Some c \<Rightarrow> Inr (restored_of ''remote'' c)
             | None \<Rightarrow>
                 (case first_latest ''peer'' (\<lambda>n. latest_tier2 n l) (dkeys (ts_history (st_tier2 l))) of
                    Some r \<Rightarrow> Inr r
                  | None \<Rightarrow>
                      (case first_latest ''local'' (\<lambda>n. latest_tier1 n l) (dkeys (ts_history (st_tier1 l))) of
                         Some r \<Rightarrow> Inr r
                       | None \<Rightarrow> Inl RuntimeErr))))"

definition with_policy :: "operator_policy \<Rightarrow> runtime \<Rightarrow> runtime" where
  "with_policy p rt = rt\<lparr>rt_epe := (rt_epe rt)\<lparr>en_policy := p\<rparr>\<rparr>"

definition set_fast_path :: "pyval \<Rightarrow> aegis_state \<Rightarrow> (pyexc + unit) \<times> aegis_state" where
  "set_fast_path enabled st =
    (case api_runtime st of Inl x \<Rightarrow> (Inl x, st)
     | Inr rt \<Rightarrow> (Inr (), st\<lparr>as_runtime := Some (with_policy
         ((en_policy (rt_epe rt))\<lparr>op_allow_b0_fast_path := py_bool enabled\<rparr>) rt)\<rparr>))"

definition get_fast_path :: "aegis_state \<Rightarrow> pyexc + bool" where
  "get_fast_path st =
    (case api_runtime st of Inl x \<Rightarrow> Inl x | Inr rt \<Rightarrow> Inr (op_allow_b0_fast_path (en_policy (rt_epe rt))))"

definition aegis_policy_set ::
  "(pyval \<Rightarrow> string) \<Rightarrow> string \<Rightarrow> pyval \<Rightarrow> aegis_state \<Rightarrow> (pyexc + unit) \<times> aegis_state" where
  "aegis_policy_set repr key val st =
    (case policy_set repr key val (map_option (\<lambda>rt. en_policy (rt_epe rt)) (as_runtime st)) of
       Inl x \<Rightarrow> (Inl x, st)
     | Inr p \<Rightarrow> (Inr (), st\<lparr>as_runtime := map_option (with_policy p) (as_runtime st)\<rparr>))"

subsection \<open>The command line\<close>

text \<open>
  \<open>aegis run\<close>: the exit status. \<open>run_cmd\<close> is \<open>subprocess.run\<close>, \<open>None\<close> when the program
  is not found.
\<close>

definition cli_main :: "string \<Rightarrow> (string list \<Rightarrow> int option) \<Rightarrow> string list \<Rightarrow> int" where
  "cli_main executable run_cmd args =
    (if args = [] \<or> hd args \<noteq> ''run'' then 1
     else case run_cmd ([executable, ''-m'', ''torch.distributed.run''] @ tl args) of
            Some code \<Rightarrow> code
          | None \<Rightarrow> 1)"

subsection \<open>Properties of the life cycle\<close>

lemma install_hooks_valid:
  "set ns \<subseteq> set valid_hooks \<Longrightarrow>
   install_hooks ns disabled h = Inr (h\<lparr>hr_active := hr_active h \<union> (set ns - set disabled)\<rparr>)"
proof (induction ns arbitrary: h)
  case (Cons n ns)
  then show ?case by (auto simp: hook_install_def intro!: arg_cong [where f = "\<lambda>a. h\<lparr>hr_active := a\<rparr>"])
qed simp

lemma init_hooks:
  "install_hooks valid_hooks disabled (hooks_init mode) =
   Inr \<lparr>hr_mode = mode, hr_active = set valid_hooks - set disabled\<rparr>"
  by (simp add: install_hooks_valid hooks_init_def)

text \<open>Everything \<open>init\<close> checks before it commits.\<close>

definition init_accepts ::
  "string list option \<Rightarrow> string \<Rightarrow> pyexc + operator_policy \<Rightarrow> operator_policy option \<Rightarrow> bool \<Rightarrow>
   operator_policy option" where
  "init_accepts disable mode loaded policy start_ok =
    (if mode \<in> set valid_modes \<and> set (case disable of None \<Rightarrow> [] | Some d \<Rightarrow> d) \<subseteq> set valid_hooks \<and> start_ok
     then (case policy of Some p \<Rightarrow> Some p | None \<Rightarrow> (case loaded of Inl x \<Rightarrow> None | Inr p \<Rightarrow> Some p))
     else None)"

definition started_runtime :: "runtime_env \<Rightarrow> string \<Rightarrow> operator_policy \<Rightarrow> runtime" where
  "started_runtime env mode p =
    runtime_start ((runtime_init env (Some p))
      \<lparr>rt_epe := (rt_epe (runtime_init env (Some p)))\<lparr>en_observe_only := (mode = ''observe_only'')\<rparr>\<rparr>)"

lemma runtime_init_acts: "en_observe_only (rt_epe (runtime_init env p)) = False"
  by (simp add: runtime_init_def Let_def engine_init_def)

lemma observe_as_update:
  assumes "en_observe_only (rt_epe rt) = False"
  shows "(if b then rt\<lparr>rt_epe := (rt_epe rt)\<lparr>en_observe_only := True\<rparr>\<rparr> else rt) =
    rt\<lparr>rt_epe := (rt_epe rt)\<lparr>en_observe_only := b\<rparr>\<rparr>"
  using assms by (cases b; cases rt; cases "rt_epe rt") simp_all

lemma init_accepts_Some:
  assumes "init_accepts disable mode loaded policy start_ok = Some p"
  shows "mode \<in> set valid_modes" and "start_ok"
    and "\<not> (\<exists>h \<in> set (case disable of None \<Rightarrow> [] | Some d \<Rightarrow> d). h \<notin> set valid_hooks)"
    and "(case policy of Some p \<Rightarrow> Inr p | None \<Rightarrow> loaded) = Inr p"
  using assms by (auto simp: init_accepts_def split: if_splits option.splits sum.splits)

lemma aegis_init_ok:
  assumes "init_accepts disable mode loaded policy start_ok = Some p"
  shows "aegis_init env disable mode loaded policy start_ok new_loop st =
    (Inr (), st\<lparr>as_runtime := Some (started_runtime env mode p),
         as_hooks := Some \<lparr>hr_mode = mode,
            hr_active = set valid_hooks - set (case disable of None \<Rightarrow> [] | Some d \<Rightarrow> d)\<rparr>,
         as_mode := mode, as_initialized := True, as_loop := Some new_loop,
         as_loop_thread := Some new_loop, as_live := as_live st @ [new_loop]\<rparr>)"
  unfolding aegis_init_def Let_def init_hooks sum.case init_accepts_Some(4) [OF assms]
    observe_as_update [OF runtime_init_acts] started_runtime_def [symmetric]
  using init_accepts_Some(1-3) [OF assms] by (simp only: if_True if_False not_True_eq_False simp_thms)

lemma aegis_init_bad:
  assumes "init_accepts disable mode loaded policy start_ok = None"
  shows "\<exists>x. aegis_init env disable mode loaded policy start_ok new_loop st = (Inl x, st)"
proof -
  let ?dis = "case disable of None \<Rightarrow> [] | Some d \<Rightarrow> d"
  let ?pol = "case policy of Some p \<Rightarrow> Inr p | None \<Rightarrow> loaded"
  consider "mode \<notin> set valid_modes"
    | "mode \<in> set valid_modes" "\<exists>h \<in> set ?dis. h \<notin> set valid_hooks"
    | x where "mode \<in> set valid_modes" "\<not> (\<exists>h \<in> set ?dis. h \<notin> set valid_hooks)" "?pol = Inl x"
    | p where "mode \<in> set valid_modes" "\<not> (\<exists>h \<in> set ?dis. h \<notin> set valid_hooks)" "?pol = Inr p"
    by (cases ?pol) blast+
  then show ?thesis
  proof cases
    case 4
    have "\<not> start_ok"
    proof
      assume start_ok
      with 4 have "init_accepts disable mode loaded policy start_ok \<noteq> None"
        by (auto simp: init_accepts_def split: option.splits)
      with assms show False by simp
    qed
    with 4 show ?thesis
      unfolding aegis_init_def Let_def init_hooks sum.case 4(3)
      by (simp only: if_True if_False not_True_eq_False not_False_eq_True simp_thms) blast
  next
    case 3
    then show ?thesis
      unfolding aegis_init_def Let_def init_hooks sum.case 3(3)
      by (simp only: if_True if_False not_True_eq_False not_False_eq_True simp_thms) blast
  next
    case 2
    then show ?thesis
      unfolding aegis_init_def Let_def
      by (simp only: if_True if_False not_True_eq_False not_False_eq_True simp_thms) blast
  next
    case 1
    then show ?thesis
      unfolding aegis_init_def
      by (simp only: if_True if_False not_True_eq_False not_False_eq_True simp_thms) blast
  qed
qed

text \<open>
  C26. Initialisation is all or nothing and never silent: \<open>init\<close> raises and leaves the
  module state as it was unless the mode and every disabled hook are known, the policy
  loads and the runtime starts in time; otherwise it returns with a started runtime of that
  policy, acting unless the mode is to observe only, the sorted registry of the hooks that
  were not disabled, and one more background loop.
\<close>

theorem init_all_or_nothing:
  "(case init_accepts disable mode loaded policy start_ok of
      None \<Rightarrow> \<exists>x. aegis_init env disable mode loaded policy start_ok new_loop st = (Inl x, st)
    | Some p \<Rightarrow> \<exists>st' rt h. aegis_init env disable mode loaded policy start_ok new_loop st = (Inr (), st') \<and>
        require_init st' = Inr rt \<and> as_hooks st' = Some h \<and> as_mode st' = mode \<and>
        rt_started rt \<and> utp_running (rt_utp rt) \<and> utp_subscribers (rt_utp rt) = [0] \<and>
        en_policy (rt_epe rt) = p \<and> en_history (rt_epe rt) = [] \<and> es_epoch (en_epochs (rt_epe rt)) = 0 \<and>
        en_observe_only (rt_epe rt) = (mode = ''observe_only'') \<and>
        active_hooks h = sorted_list_of_set (set valid_hooks - set (case disable of None \<Rightarrow> [] | Some d \<Rightarrow> d)) \<and>
        as_live st' = as_live st @ [new_loop])"
proof (cases "init_accepts disable mode loaded policy start_ok")
  case None
  from aegis_init_bad [OF None] None show ?thesis by simp
next
  case (Some p)
  have "rt_started (started_runtime env mode p)" "utp_running (rt_utp (started_runtime env mode p))"
    "utp_subscribers (rt_utp (started_runtime env mode p)) = [0]"
    "en_policy (rt_epe (started_runtime env mode p)) = p" "en_history (rt_epe (started_runtime env mode p)) = []"
    "es_epoch (en_epochs (rt_epe (started_runtime env mode p))) = 0"
    "en_observe_only (rt_epe (started_runtime env mode p)) = (mode = ''observe_only'')"
    by (simp_all add: started_runtime_def runtime_start_def runtime_init_def Let_def engine_init_def
        subscribe_def bus_init_def epoch_init_def)
  with Some show ?thesis
    by (simp add: aegis_init_ok [OF Some] require_init_def active_hooks_def)
qed

text \<open>The states the API can be in.\<close>

definition api_inv :: "aegis_state \<Rightarrow> bool" where
  "api_inv st \<longleftrightarrow>
    (as_initialized st \<longleftrightarrow> as_runtime st \<noteq> None) \<and> (as_initialized st \<longleftrightarrow> as_hooks st \<noteq> None) \<and>
    (as_initialized st \<longleftrightarrow> as_loop st \<noteq> None) \<and> (as_initialized st \<longleftrightarrow> as_loop_thread st \<noteq> None) \<and>
    (\<forall>rt. as_runtime st = Some rt \<longrightarrow> rt_started rt)"

lemma api_inv_init: "api_inv aegis_state_init"
  by (simp add: api_inv_def aegis_state_init_def)

lemma started_runtime_started: "rt_started (started_runtime env mode p)"
  by (simp add: started_runtime_def runtime_start_def)

lemma api_inv_start:
  "api_inv st \<Longrightarrow> api_inv (snd (aegis_init env disable mode loaded policy start_ok new_loop st))"
proof (cases "init_accepts disable mode loaded policy start_ok")
  case None
  assume "api_inv st"
  moreover from aegis_init_bad [OF None] obtain x where
    "aegis_init env disable mode loaded policy start_ok new_loop st = (Inl x, st)" by blast
  ultimately show ?thesis by simp
qed (simp add: aegis_init_ok api_inv_def started_runtime_started)

text \<open>The two cases of \<open>disable\<close>.\<close>

lemma disable_uninitialized:
  "\<not> as_initialized st \<Longrightarrow> aegis_disable stop st = (\<lparr>re_hooks = None, re_runtime = None, re_logged = None\<rparr>, st)"
  by (simp add: aegis_disable_def)

lemma disable_initialized:
  assumes "api_inv st" "as_initialized st"
  obtains h rt loop where "as_hooks st = Some h" "as_runtime st = Some rt" "as_loop st = Some loop" "rt_started rt"
    "aegis_disable stop st =
      (\<lparr>re_hooks = Some (hooks_disable_all h), re_runtime = Some (snd (stop rt)),
        re_logged = (case fst (stop rt) of Inl x \<Rightarrow> Some x | Inr u \<Rightarrow> None)\<rparr>,
       st\<lparr>as_runtime := None, as_hooks := None, as_initialized := False, as_loop := None,
          as_loop_thread := None, as_live := remove1 loop (as_live st)\<rparr>)"
proof -
  from assms obtain h rt loop where st: "as_hooks st = Some h" "as_runtime st = Some rt" "as_loop st = Some loop" "rt_started rt"
    unfolding api_inv_def by blast
  with assms(2) show thesis
    by (intro that [OF st]) (auto simp: aegis_disable_def split: prod.split sum.split)
qed

lemma api_inv_disable: "api_inv st \<Longrightarrow> api_inv (snd (aegis_disable stop st))"
proof (cases "as_initialized st")
  case True
  assume "api_inv st"
  then show ?thesis by (rule disable_initialized [OF _ True, where stop = stop]) (simp add: api_inv_def)
qed (simp add: disable_uninitialized)

text \<open>A stop that nothing disturbs leaves a runtime that is off and has handled what was queued.\<close>

lemma runtime_stop_off:
  assumes "rt_started rt"
  shows "\<not> rt_started (runtime_stop clk n rt)" "\<not> utp_running (rt_utp (runtime_stop clk n rt))"
    "utp_queue (rt_utp (runtime_stop clk n rt)) = []"
  using assms
  by (auto simp: runtime_stop_def runtime_dispatch_def Let_def dest: drain_state split: prod.splits)

text \<open>No call of the API works in a state that is not initialised.\<close>

lemma api_calls_raise:
  assumes "as_runtime st = None"
  shows "aegis_status st = Inl RuntimeErr" "aegis_explain st = Inl RuntimeErr" "aegis_dashboard render fmt st = Inl RuntimeErr"
    "checkpoint_save cd tier now rnd st = (Inl RuntimeErr, st)" "checkpoint_restore ep st = Inl RuntimeErr"
    "set_fast_path val st = (Inl RuntimeErr, st)" "get_fast_path st = Inl RuntimeErr"
    "aegis_policy_set repr key val st = (Inl RuntimeErr, st)"
  using assms
  by (simp_all add: aegis_status_def aegis_explain_def aegis_dashboard_def checkpoint_save_def checkpoint_restore_def
      set_fast_path_def get_fast_path_def aegis_policy_set_def policy_set_def api_runtime_def require_init_def)

text \<open>
  C27. The kill switch works from every state: after \<open>disable\<close> nothing is initialised, every call
  of the API raises and changes nothing, a second \<open>disable\<close> changes nothing, and the loop of the
  last \<open>init\<close> no longer runs. The registry that was in force has no active hook left, whoever still
  holds it; the runtime that was in force has been stopped: it is what its \<open>stop\<close> left of it, an
  error or a timeout of which is logged and does not keep the switch from working; and when nothing
  disturbs the stop, that runtime is not started, its bus does not run and its queue is empty. In a
  state never initialised nothing changes.
\<close>

theorem disable_is_kill_switch:
  assumes "api_inv st" and "aegis_disable stop st = (gone, st')"
  shows "as_runtime st' = None \<and> as_hooks st' = None \<and> \<not> as_initialized st' \<and>
    aegis_status st' = Inl RuntimeErr \<and> aegis_explain st' = Inl RuntimeErr \<and>
    aegis_dashboard render fmt st' = Inl RuntimeErr \<and>
    checkpoint_save cd tier now rnd st' = (Inl RuntimeErr, st') \<and> checkpoint_restore ep st' = Inl RuntimeErr \<and>
    set_fast_path val st' = (Inl RuntimeErr, st') \<and> get_fast_path st' = Inl RuntimeErr \<and>
    aegis_policy_set repr key val st' = (Inl RuntimeErr, st') \<and> snd (aegis_disable stop' st') = st' \<and>
    as_live st' = (case as_loop st of None \<Rightarrow> as_live st | Some l \<Rightarrow> remove1 l (as_live st)) \<and>
    (\<not> as_initialized st \<longrightarrow> st' = st) \<and>
    (as_initialized st \<longrightarrow>
      (\<exists>h rt. re_hooks gone = Some h \<and> (\<forall>name. \<not> hook_is_active name h) \<and>
        as_runtime st = Some rt \<and> re_runtime gone = Some (snd (stop rt)) \<and>
        (\<forall>x. re_logged gone = Some x \<longleftrightarrow> fst (stop rt) = Inl x) \<and>
        (stop rt = (Inr (), runtime_stop clk n rt) \<longrightarrow>
          (\<exists>off. re_runtime gone = Some off \<and> \<not> rt_started off \<and> \<not> utp_running (rt_utp off) \<and> utp_queue (rt_utp off) = []))))"
proof (cases "as_initialized st")
  case False
  with assms have st': "st' = st" "as_runtime st = None" "as_hooks st = None" "as_loop st = None"
    by (auto simp: disable_uninitialized api_inv_def)
  with False show ?thesis by (simp add: api_calls_raise disable_uninitialized)
next
  case True
  from assms(1) True obtain h rt loop where st: "as_hooks st = Some h" "as_runtime st = Some rt" "as_loop st = Some loop"
    "rt_started rt" and gone: "aegis_disable stop st =
      (\<lparr>re_hooks = Some (hooks_disable_all h), re_runtime = Some (snd (stop rt)),
        re_logged = (case fst (stop rt) of Inl x \<Rightarrow> Some x | Inr u \<Rightarrow> None)\<rparr>,
       st\<lparr>as_runtime := None, as_hooks := None, as_initialized := False, as_loop := None,
          as_loop_thread := None, as_live := remove1 loop (as_live st)\<rparr>)"
    by (rule disable_initialized)
  with assms(2) have st': "as_runtime st' = None" "as_hooks st' = None" "\<not> as_initialized st'"
    "as_live st' = remove1 loop (as_live st)" by auto
  have "\<exists>h rt. re_hooks gone = Some h \<and> (\<forall>name. \<not> hook_is_active name h) \<and>
        as_runtime st = Some rt \<and> re_runtime gone = Some (snd (stop rt)) \<and>
        (\<forall>x. re_logged gone = Some x \<longleftrightarrow> fst (stop rt) = Inl x) \<and>
        (stop rt = (Inr (), runtime_stop clk n rt) \<longrightarrow>
          (\<exists>off. re_runtime gone = Some off \<and> \<not> rt_started off \<and> \<not> utp_running (rt_utp off) \<and> utp_queue (rt_utp off) = []))"
    using assms(2) gone st(2) runtime_stop_off [OF st(4), of clk n]
    by (intro exI [of _ "hooks_disable_all h"] exI [of _ rt])
       (auto simp: hook_is_active_def hooks_disable_all_def split: sum.splits)
  with True st st' show ?thesis by (simp add: api_calls_raise disable_uninitialized)
qed

theorem disable_is_kill_switch_witness:
  "let st = snd (aegis_init demo_env None ''active'' (Inr default_policy) None True 2 aegis_state_init);
       (gone, st') = aegis_disable (\<lambda>rt. (Inr (), runtime_stop (\<lambda>i. (0, 0)) 0 rt)) st
   in aegis_status st' = Inl RuntimeErr \<and> as_live st' = [] \<and>
      (\<exists>h off. re_hooks gone = Some h \<and> \<not> hook_is_active ''policy'' h \<and> re_runtime gone = Some off \<and> \<not> rt_started off)"
proof -
  let ?st = "snd (aegis_init demo_env None ''active'' (Inr default_policy) None True 2 aegis_state_init)"
  let ?stop = "\<lambda>rt. (Inr (), runtime_stop (\<lambda>i. (0, 0)) 0 rt)"
  have inv: "api_inv ?st" by (rule api_inv_start [OF api_inv_init])
  have acc: "init_accepts None ''active'' (Inr default_policy) None True = Some default_policy"
    by (simp add: init_accepts_def valid_modes_def)
  have st: "as_initialized ?st" "as_loop ?st = Some 2" "as_live ?st = [2]"
    by (simp_all add: aegis_init_ok [OF acc] aegis_state_init_def)
  obtain gone st' where d: "aegis_disable ?stop ?st = (gone, st')" by force
  from disable_is_kill_switch [OF inv d, where clk = "\<lambda>i. (0, 0)" and n = 0 and render = "\<lambda>r. []" and fmt = "[]" and
      cd = plain_codec and tier = "[]" and now = 0 and rnd = "([], [], [])" and ep = PNone and val = PNone and
      repr = "\<lambda>v. []" and key = "[]" and stop' = ?stop] st
  show ?thesis
    by (auto simp: Let_def d)
qed

text \<open>
  Initialising twice leaks the first runtime: after two successful calls of \<open>init\<close> and
  a \<open>disable\<close> that says AEGIS is off, the event loop of the first call still runs, and so
  does its runtime, which nothing in the module state refers to any more.
\<close>

theorem double_init_leaks_loop:
  "let st1 = snd (aegis_init env None ''active'' (Inr p) None True 1 aegis_state_init);
       st2 = snd (aegis_init env None ''active'' (Inr q) None True 2 st1);
       st3 = snd (aegis_disable stop st2)
   in \<not> as_initialized st3 \<and> as_loop st3 = None \<and> as_live st3 = [1] \<and> snd (aegis_disable stop st3) = st3"
proof -
  have acc: "init_accepts None ''active'' (Inr q) None True = Some q" for q
    by (simp add: init_accepts_def valid_modes_def)
  show ?thesis
    by (simp add: Let_def aegis_init_ok [OF acc] aegis_disable_def aegis_state_init_def split: prod.split sum.split)
qed

text \<open>
  The disable list only changes the registry: with any hooks disabled, a successful
  \<open>init\<close> starts the very same runtime, with all three layers and the policy engine wired to
  the bus, as with none disabled.
\<close>

theorem disabled_hooks_still_recover:
  "let run = (\<lambda>disable. snd (aegis_init env disable mode loaded policy start_ok new_loop st))
   in (init_accepts (Some hooks) mode loaded policy start_ok = None \<or>
       as_runtime (run (Some hooks)) = as_runtime (run None) \<and>
       map_option (en_tier_to_layer \<circ> rt_epe) (as_runtime (run (Some hooks))) = Some (runtime_map env))"
proof (cases "init_accepts (Some hooks) mode loaded policy start_ok")
  case (Some p)
  then have "init_accepts None mode loaded policy start_ok = Some p"
    by (auto simp: init_accepts_def split: if_splits)
  with Some show ?thesis
    by (simp add: Let_def aegis_init_ok started_runtime_def runtime_start_def runtime_map_any)
qed simp

subsection \<open>Properties of the dashboard\<close>

definition row_of :: "audit_entry list \<Rightarrow> dash_row \<Rightarrow> dash_row" where
  "row_of xs row =
    \<lparr>dr_count = dr_count row + length xs,
     dr_escalated = dr_escalated row + length (filter au_escalated xs),
     dr_degraded = dr_degraded row + length (filter au_degraded xs),
     dr_failed = dr_failed row + length (filter (\<lambda>a. \<not> au_success a) xs)\<rparr>"

lemma row_of_Nil [simp]: "row_of [] row = row"
  by (simp add: row_of_def)

lemma row_of_Cons: "row_of (a # xs) row = row_of xs (count_entry a row)"
  by (simp add: row_of_def count_entry_def)

lemma count_fold:
  assumes "dget rows k = Some row" and "\<forall>a \<in> set xs. au_final_tier a \<in> set (dkeys rows)"
  shows "dget (fold (\<lambda>a rows. dset (au_final_tier a)
      (count_entry a (dget_or rows (au_final_tier a) empty_row)) rows) xs rows) k =
    Some (row_of (filter (\<lambda>a. au_final_tier a = k) xs) row)"
  using assms
proof (induction xs arbitrary: rows row)
  case (Cons a xs)
  let ?rows = "dset (au_final_tier a) (count_entry a (dget_or rows (au_final_tier a) empty_row)) rows"
  have "\<forall>b \<in> set xs. au_final_tier b \<in> set (dkeys ?rows)" using Cons.prems(2) by auto
  moreover have "dget ?rows k = Some (if au_final_tier a = k then count_entry a row else row)"
    using Cons.prems(1) by (auto simp: dget_or_def)
  ultimately show ?case using Cons.IH by (simp add: row_of_Cons)
qed simp

lemma count_fold_keys:
  "\<forall>a \<in> set xs. au_final_tier a \<in> set (dkeys rows) \<Longrightarrow>
   dkeys (fold (\<lambda>a rows. dset (au_final_tier a)
      (count_entry a (dget_or rows (au_final_tier a) empty_row)) rows) xs rows) = dkeys rows"
proof (induction xs arbitrary: rows)
  case (Cons a xs)
  then have "dkeys (dset (au_final_tier a) (count_entry a (dget_or rows (au_final_tier a) empty_row)) rows) = dkeys rows"
    by (intro dkeys_dset_old) simp
  moreover from this Cons.prems have "\<forall>b \<in> set xs. au_final_tier b \<in>
      set (dkeys (dset (au_final_tier a) (count_entry a (dget_or rows (au_final_tier a) empty_row)) rows))"
    by simp
  ultimately show ?case using Cons.IH by simp
qed simp

lemma dict_by_keys: "distinct (dkeys d) \<Longrightarrow> d = map (\<lambda>k. (k, the (dget d k))) (dkeys d)"
proof (rule nth_equalityI)
  fix i assume d: "distinct (dkeys d)" and i: "i < length d"
  then have "dget d (fst (d ! i)) = Some (snd (d ! i))" by (intro dget_distinct) simp_all
  with i show "d ! i = map (\<lambda>k. (k, the (dget d k))) (dkeys d) ! i" by simp
qed simp

lemma tier_names_distinct: "distinct (map tier_name all_tiers)"
  by (simp add: all_tiers_def)

lemma count_audit_rows:
  assumes "audit = map audit_of hist"
  shows "count_audit audit =
    map (\<lambda>t. (tier_name t, row_of (filter (\<lambda>a. au_final_tier a = tier_name t) audit) empty_row)) all_tiers"
proof -
  let ?rows = "map (\<lambda>t. (tier_name t, empty_row)) all_tiers"
  have keys: "dkeys ?rows = map tier_name all_tiers" by (simp add: comp_def)
  have known: "\<forall>a \<in> set audit. au_final_tier a \<in> set (dkeys ?rows)"
    unfolding keys assms by (auto simp: audit_of_def)
  have k: "dkeys (count_audit audit) = map tier_name all_tiers"
    unfolding count_audit_def count_fold_keys [OF known] by (rule keys)
  have "dget (count_audit audit) (tier_name t) =
      Some (row_of (filter (\<lambda>a. au_final_tier a = tier_name t) audit) empty_row)" for t
    unfolding count_audit_def
  proof (rule count_fold [OF _ known])
    show "dget ?rows (tier_name t) = Some empty_row"
      by (rule dget_distinct) (simp only: keys tier_names_distinct, simp)
  qed
  then have "map (\<lambda>k. (k, the (dget (count_audit audit) k))) (map tier_name all_tiers) =
      map (\<lambda>t. (tier_name t, row_of (filter (\<lambda>a. au_final_tier a = tier_name t) audit) empty_row)) all_tiers"
    by simp
  moreover have "distinct (dkeys (count_audit audit))" by (simp only: k tier_names_distinct)
  from dict_by_keys [OF this] have "count_audit audit =
      map (\<lambda>k. (k, the (dget (count_audit audit) k))) (map tier_name all_tiers)" unfolding k .
  ultimately show ?thesis by (rule trans [rotated])
qed

lemma sum_rows:
  "sum_list (map (\<lambda>t. length (filter P (filter (\<lambda>a. au_final_tier a = tier_name t) (map audit_of hist)))) all_tiers) =
   length (filter P (map audit_of hist))"
proof -
  have len: "length (filter Q xs) = sum_list (map (\<lambda>x. if Q x then 1 else 0::nat) xs)" for Q and xs :: "audit_entry list"
    by (induction xs) auto
  have one: "length (filter P (filter (\<lambda>a. au_final_tier a = tier_name t) xs)) =
      sum_list (map (\<lambda>x. if P x then 1 else 0::nat) (filter (\<lambda>a. au_final_tier a = tier_name t) xs))" for t xs
    by (rule len)
  have "sum_list (map (\<lambda>n. sum_list (map (\<lambda>x. if P x then 1 else 0::nat)
        (filter (\<lambda>a. au_final_tier a = n) (map audit_of hist)))) (map tier_name all_tiers)) =
      sum_list (map (\<lambda>x. if P x then 1 else 0::nat) (map audit_of hist))"
    by (rule sum_list_by_class [OF tier_names_distinct]) (auto simp: audit_of_def)
  then show ?thesis unfolding one len [of P "map audit_of hist"] by (simp add: comp_def)
qed

text \<open>
  The dashboard accounts for every fault: for the runtime's engine after any sequence
  of events, acting or observing, the report lists the five tiers in order, the row of a
  tier counts the log's records that ended there, the rows add up to the faults processed,
  to the escalated, degraded and failed records of the log, and no violation of one-way
  escalation is ever shown.
\<close>

theorem dashboard_adds_up:
  "let eng = engine_run evs ((rt_epe (runtime_init env policy))\<lparr>en_observe_only := observe\<rparr>);
       rep = build_report (rt\<lparr>rt_epe := eng\<rparr>); rows = da_by_tier rep; log = escalation_audit eng
   in dkeys rows = map tier_name all_tiers \<and>
      (\<forall>t. map_option dr_count (dget rows (tier_name t)) =
         Some (length (filter (\<lambda>r. fr_final_tier r = t) (en_history eng)))) \<and>
      sum_list (map (dr_count \<circ> snd) rows) = da_faults_processed rep \<and>
      sum_list (map (dr_escalated \<circ> snd) rows) = length (filter au_escalated log) \<and>
      sum_list (map (dr_degraded \<circ> snd) rows) = length (filter au_degraded log) \<and>
      sum_list (map (dr_failed \<circ> snd) rows) = length (filter (\<lambda>a. \<not> au_success a) log) \<and>
      da_violations rep = 0 \<and> da_faults_processed rep = length (en_history eng)"
proof -
  define eng where "eng = engine_run evs ((rt_epe (runtime_init env policy))\<lparr>en_observe_only := observe\<rparr>)"
  let ?h = "en_history eng"
  have "audit_ok ((rt_epe (runtime_init env policy))\<lparr>en_observe_only := observe\<rparr>)"
    by (simp add: audit_ok_def runtime_init_def Let_def engine_init_def)
  then have "audit_ok eng" unfolding eng_def by (rule engine_run_audit_ok)
  then have valid: "\<forall>r \<in> set ?h. escalation_valid r" using record_at_valid unfolding audit_ok_def by blast
  have log: "escalation_audit eng = map audit_of ?h" by (simp add: escalation_audit_def)
  let ?log = "map audit_of ?h"
  let ?row = "\<lambda>t. row_of (filter (\<lambda>a. au_final_tier a = tier_name t) ?log) empty_row"
  have rows: "count_audit ?log = map (\<lambda>t. (tier_name t, ?row t)) all_tiers"
    by (rule count_audit_rows [OF refl])
  have keys: "dkeys (count_audit ?log) = map tier_name all_tiers" by (simp add: rows comp_def)
  have tally: "dget (count_audit ?log) (tier_name t) = Some (?row t)" for t
    by (rule dget_distinct) (simp only: keys tier_names_distinct, simp add: rows)
  have count: "map_option dr_count (dget (count_audit ?log) (tier_name t)) =
      Some (length (filter (\<lambda>r. fr_final_tier r = t) ?h))" for t
    unfolding tally by (simp add: row_of_def empty_row_def filter_map comp_def audit_of_def)
  have sums: "sum_list (map (dr_count \<circ> snd) (count_audit ?log)) = length ?log"
    "sum_list (map (dr_escalated \<circ> snd) (count_audit ?log)) = length (filter au_escalated ?log)"
    "sum_list (map (dr_degraded \<circ> snd) (count_audit ?log)) = length (filter au_degraded ?log)"
    "sum_list (map (dr_failed \<circ> snd) (count_audit ?log)) = length (filter (\<lambda>a. \<not> au_success a) ?log)"
    unfolding rows map_map comp_def snd_conv row_of_def empty_row_def dash_row.simps add_0
    using sum_rows [of "\<lambda>a. True" ?h] sum_rows [of au_escalated ?h] sum_rows [of au_degraded ?h]
      sum_rows [of "\<lambda>a. \<not> au_success a" ?h]
    by (simp_all only: filter_True simp_thms) simp
  have viol: "filter (\<lambda>a. \<not> au_escalation_valid a) ?log = []"
    using valid by (auto simp: filter_empty_conv audit_of_def)
  have audit: "escalation_audit (rt_epe (rt\<lparr>rt_epe := eng\<rparr>)) = ?log" by (simp add: log)
  show ?thesis
    unfolding Let_def eng_def [symmetric] build_report_def audit log dash_report.simps
    using keys count sums viol by (simp only: list.size length_map simp_thms)
qed

subsection \<open>The KPI rate is fixed at construction\<close>

lemma on_event_kpi:
  assumes "en_kpi e = Some m" and "kpi_ok m" and "on_event now stamp ev e = (res, e')"
  shows "\<exists>m'. en_kpi e' = Some m' \<and> kpi_ok m' \<and> km_gpu_hr_cost m' = km_gpu_hr_cost m"
proof (cases "en_observe_only e")
  case True
  with assms show ?thesis by (auto simp: on_event_observe)
next
  case False
  obtain out r' e1 where rt: "route (new_record now stamp ev e) (entered now ev e) = (out, r', e1)"
    by (cases "route (new_record now stamp ev e) (entered now ev e)") auto
  from route_reports [OF rt [unfolded route_def]] assms(1,2)
  have "\<exists>m'. en_kpi e1 = Some m' \<and> kpi_ok m' \<and> km_gpu_hr_cost m' = km_gpu_hr_cost m"
    by (cases out) (auto simp: reported_def split: if_splits)
  with assms(3) False rt show ?thesis by (cases out) (auto simp: on_event_route)
qed

lemma engine_run_kpi:
  "en_kpi e = Some m \<Longrightarrow> kpi_ok m \<Longrightarrow>
   \<exists>m'. en_kpi (engine_run evs e) = Some m' \<and> kpi_ok m' \<and> km_gpu_hr_cost m' = km_gpu_hr_cost m"
proof (induction evs arbitrary: e m)
  case (Cons x evs)
  obtain now stamp ev where x: "x = (now, stamp, ev)" by (cases x) auto
  obtain res e' where run: "on_event now stamp ev e = (res, e')" by force
  from on_event_kpi [OF Cons.prems run] obtain m' where
    "en_kpi e' = Some m'" "kpi_ok m'" "km_gpu_hr_cost m' = km_gpu_hr_cost m" by blast
  with Cons.IH [of e' m'] show ?case by (simp add: x run)
qed simp

text \<open>
  A live change of the GPU-hour price never reaches the savings: whatever policy
  \<open>policy.set\<close> puts in place between two sequences of events, every dollar the KPI meter
  reports is a GPU-hour saved times the price of the policy the runtime was built with.
\<close>

theorem live_price_change_ignored:
  "let eng1 = engine_run before (rt_epe (runtime_init env (Some p)));
       eng2 = engine_run after (eng1\<lparr>en_policy := q\<rparr>)
   in \<exists>m. en_kpi eng2 = Some m \<and>
        total_dollars_saved m = total_gpu_hrs_saved m * op_gpu_hr_cost p"
proof -
  let ?e0 = "rt_epe (runtime_init env (Some p))"
  have "en_kpi ?e0 = Some (kpi_init (op_gpu_hr_cost p))"
    by (simp add: runtime_init_def Let_def engine_init_def)
  from engine_run_kpi [OF this kpi_ok_init, of before] obtain m1 where
    m1: "en_kpi (engine_run before ?e0) = Some m1" "kpi_ok m1" "km_gpu_hr_cost m1 = op_gpu_hr_cost p"
    by (auto simp: kpi_init_def)
  have "en_kpi ((engine_run before ?e0)\<lparr>en_policy := q\<rparr>) = Some m1" using m1(1) by simp
  from engine_run_kpi [OF this m1(2), of after] m1(3) show ?thesis
    unfolding Let_def using kpi_ok_dollars by auto
qed

subsection \<open>Properties of the checkpoint API\<close>

lemma write_node_tier_appends:
  assumes "\<forall>n. node_ok local_filesystem_backend (\<lambda>r. r) cd ts n (L n)" and "iv \<noteq> 0"
  shows "\<exists>m ts'. write_node_tier local_filesystem_backend cd iv now tname node e f p ts = (Inr m, ts') \<and>
    ck_epoch m = e \<and> history_of node ts' = history_of node ts @ [m] \<and>
    (\<exists>L'. \<forall>n. node_ok local_filesystem_backend (\<lambda>r. r) cd ts' n (L' n))"
proof -
  have okn: "node_ok local_filesystem_backend (\<lambda>r. r) cd ts node (L node)" using assms(1) by blast
  obtain m stored where run: "write_node_tier local_filesystem_backend cd iv now tname node e f p ts =
       (Inr m, ts\<lparr>ts_store := snd (cb_write_bytes local_filesystem_backend (ckpt_relpath node e (length (L node))) stored (ts_store ts)),
                  ts_history := dset node (history_of node ts @ [m]) (dset node (history_of node ts) (ts_history ts)),
                  ts_base_index := (if local_fs.writes_base iv node ts then dset node (length (L node)) (ts_base_index ts)
                                    else ts_base_index ts),
                  ts_write_count := dset node (length (L node) + 1) (ts_write_count ts)\<rparr>)"
    and ep: "ck_epoch m = e"
    by (rule local_fs.write_shape [OF okn assms(2), where now = now and tname = tname and e = e and f = f and p = p]) blast
  let ?ts' = "snd (write_node_tier local_filesystem_backend cd iv now tname node e f p ts)"
  have "\<forall>n. node_ok local_filesystem_backend (\<lambda>r. r) cd ?ts' n ((L(node := L node @ [(e, f, p)])) n)"
    using local_fs.write_keeps_node [OF okn assms(2)] local_fs.write_keeps_other [OF _ okn assms(2)] assms(1)
    by simp
  moreover have "history_of node ?ts' = history_of node ts @ [m]" unfolding run by (simp add: history_of_def)
  ultimately show ?thesis using run ep by (metis snd_conv)
qed

lemma write_tier1_ok:
  assumes "storage_inv cd l" and "st_base_interval l \<noteq> 0"
  shows "\<exists>m l'. write_tier1 local_filesystem_backend cd now rnd node e f p l = (Inr m, l') \<and> storage_inv cd l' \<and>
    st_base_interval l' = st_base_interval l \<and> map_option ck_epoch (latest_tier1 node l') = Some e \<and>
    st_tier2 l' = st_tier2 l"
proof -
  from assms(1) obtain L where L: "\<forall>n. node_ok local_filesystem_backend (\<lambda>r. r) cd (st_tier1 l) n (L n)"
    by (auto simp: storage_inv_def)
  from write_node_tier_appends [OF L assms(2)] obtain m ts' L' where
    w: "write_node_tier local_filesystem_backend cd (st_base_interval l) now ''tier1'' node e f (payload_or p rnd) (st_tier1 l) = (Inr m, ts')"
    and "ck_epoch m = e" "history_of node ts' = history_of node (st_tier1 l) @ [m]"
    and "\<forall>n. node_ok local_filesystem_backend (\<lambda>r. r) cd ts' n (L' n)" by blast
  with assms(1) show ?thesis
    by (auto simp: write_tier1_def w storage_inv_def latest_tier1_def last_opt_def base_ok_def)
qed

lemma write_tier2_ok:
  assumes "storage_inv cd l" and "st_base_interval l \<noteq> 0"
  shows "\<exists>m l'. write_tier2 local_filesystem_backend cd now rnd node e f p l = (Inr m, l') \<and> storage_inv cd l' \<and>
    st_base_interval l' = st_base_interval l \<and> map_option ck_epoch (latest_tier2 node l') = Some e \<and>
    st_tier1 l' = st_tier1 l"
proof -
  from assms(1) obtain L where L: "\<forall>n. node_ok local_filesystem_backend (\<lambda>r. r) cd (st_tier2 l) n (L n)"
    by (auto simp: storage_inv_def)
  from write_node_tier_appends [OF L assms(2)] obtain m ts' L' where
    w: "write_node_tier local_filesystem_backend cd (st_base_interval l) now ''tier2'' node e f (payload_or p rnd) (st_tier2 l) = (Inr m, ts')"
    and "ck_epoch m = e" "history_of node ts' = history_of node (st_tier2 l) @ [m]"
    and "\<forall>n. node_ok local_filesystem_backend (\<lambda>r. r) cd ts' n (L' n)" by blast
  with assms(1) show ?thesis
    by (auto simp: write_tier2_def w storage_inv_def latest_tier2_def last_opt_def base_ok_def)
qed

lemma write_tier3_inv:
  assumes "storage_inv cd l"
  shows "storage_inv cd (snd (write_tier3 local_filesystem_backend cd now rnd e f p l)) \<and>
    latest_tier3 (snd (write_tier3 local_filesystem_backend cd now rnd e f p l)) =
      Some (fst (write_tier3 local_filesystem_backend cd now rnd e f p l)) \<and>
    restored_of ''remote'' (fst (write_tier3 local_filesystem_backend cd now rnd e f p l)) =
      \<lparr>rc_tier = ''remote'', rc_epoch = e, rc_fidelity_flag = f\<rparr> \<and>
    st_tier1 (snd (write_tier3 local_filesystem_backend cd now rnd e f p l)) = st_tier1 l \<and>
    st_tier2 (snd (write_tier3 local_filesystem_backend cd now rnd e f p l)) = st_tier2 l"
proof -
  let ?l' = "snd (write_tier3 local_filesystem_backend cd now rnd e f p l)"
  from assms obtain L3 where "base_ok local_filesystem_backend (\<lambda>r. r) cd l L3" by (auto simp: storage_inv_def)
  then have "base_ok local_filesystem_backend (\<lambda>r. r) cd ?l' (L3 @ [(e, f, payload_or p rnd)])"
    by (rule local_fs.write_tier3_ok)
  moreover have "st_tier1 ?l' = st_tier1 l" "st_tier2 ?l' = st_tier2 l"
    by (simp_all add: write_tier3_def Let_def split_beta)
  ultimately show ?thesis using assms
    by (auto simp: storage_inv_def) (simp_all add: write_tier3_def Let_def split_beta latest_tier3_def last_opt_def restored_of_def)
qed

text \<open>
  A saved checkpoint can be restored: with consistent stores, \<open>save\<close> to the automatic
  choice of tiers never raises, writes the current epoch to all three tiers, keeps the
  stores consistent, and a \<open>restore\<close>, whatever epoch it is asked for, then names the remote
  checkpoint of the current epoch, with full fidelity.
\<close>

theorem save_auto_then_restore:
  assumes "as_runtime st = Some rt" and "storage_inv cd (rt_storage rt)"
    and "st_base_interval (rt_storage rt) \<noteq> 0"
  shows "\<exists>st' rt'. checkpoint_save cd ''auto'' now rnd st = (Inr (), st') \<and> as_runtime st' = Some rt' \<and>
    storage_inv cd (rt_storage rt') \<and>
    (let e = epoch_current (en_epochs (rt_epe rt))
     in map_option ck_epoch (latest_tier1 ''local'' (rt_storage rt')) = Some e \<and>
        map_option ck_epoch (latest_tier2 ''local'' (rt_storage rt')) = Some e \<and>
        checkpoint_restore ep st' = Inr \<lparr>rc_tier = ''remote'', rc_epoch = e, rc_fidelity_flag = False\<rparr>)"
proof -
  let ?B = local_filesystem_backend and ?e = "epoch_current (en_epochs (rt_epe rt))"
  obtain m1 l1 where w1: "write_tier1 ?B cd now (fst rnd) ''local'' ?e False None (rt_storage rt) = (Inr m1, l1)"
    and l1: "storage_inv cd l1" "st_base_interval l1 = st_base_interval (rt_storage rt)"
      "map_option ck_epoch (latest_tier1 ''local'' l1) = Some ?e"
    using write_tier1_ok [OF assms(2,3)] by blast
  have "st_base_interval l1 \<noteq> 0" using l1(2) assms(3) by simp
  from write_tier2_ok [OF l1(1) this] obtain m2 l2 where
    w2: "write_tier2 ?B cd now (fst (snd rnd)) ''local'' ?e False None l1 = (Inr m2, l2)"
    and l2: "storage_inv cd l2" "map_option ck_epoch (latest_tier2 ''local'' l2) = Some ?e" "st_tier1 l2 = st_tier1 l1"
    by blast
  let ?l3 = "snd (write_tier3 ?B cd now (snd (snd rnd)) ?e False None l2)"
  note w3 = write_tier3_inv [OF l2(1), of now "snd (snd rnd)" ?e False None]
  have save: "save_tiers cd ''auto'' ?e now rnd (rt_storage rt) = (Inr (), ?l3)"
    by (simp add: save_tiers_def Let_def w1 w2)
  have st: "rt_storage (with_storage ?l3 rt) = ?l3" by (simp add: rt_storage_def with_storage_def)
  have "latest_tier1 ''local'' ?l3 = latest_tier1 ''local'' l1" "latest_tier2 ''local'' ?l3 = latest_tier2 ''local'' l2"
    using w3 l2(3) by (simp_all add: latest_tier1_def latest_tier2_def)
  with w3 l1(3) l2(2) save assms(1) st show ?thesis
    by (simp add: checkpoint_save_def api_runtime_def Let_def checkpoint_restore_def)
qed

theorem save_auto_then_restore_witness:
  "\<exists>st'. checkpoint_save plain_codec ''auto'' 0 ([1], [2], [3])
      (snd (aegis_init demo_env None ''active'' (Inr default_policy) None True 1 aegis_state_init)) = (Inr (), st') \<and>
     checkpoint_restore (PInt 99) st' = Inr \<lparr>rc_tier = ''remote'', rc_epoch = 0, rc_fidelity_flag = False\<rparr>"
proof -
  let ?st = "snd (aegis_init demo_env None ''active'' (Inr default_policy) None True 1 aegis_state_init)"
  let ?rt = "started_runtime demo_env ''active'' default_policy"
  have acc: "init_accepts None ''active'' (Inr default_policy) None True = Some default_policy"
    by (simp add: init_accepts_def valid_modes_def)
  have rt: "as_runtime ?st = Some ?rt" by (simp add: aegis_init_ok [OF acc])
  have st: "rt_storage ?rt = storage_init 5 []" "es_epoch (en_epochs (rt_epe ?rt)) = 0"
    by (simp_all add: rt_storage_def started_runtime_def runtime_start_def runtime_init_def Let_def
        engine_init_def initial_world_def default_base_interval_def epoch_init_def)
  have iv: "st_base_interval (rt_storage ?rt) \<noteq> 0" by (simp add: st storage_init_def)
  have inv: "storage_inv plain_codec (rt_storage ?rt)" by (simp add: st)
  from save_auto_then_restore [OF rt inv iv, of 0 "([1], [2], [3])" "PInt 99"] show ?thesis
    by (auto simp: Let_def epoch_current_def st)
qed

text \<open>
  \<open>restore\<close> does not look for the most recent checkpoint: with a remote checkpoint of
  epoch 3 and a later local one of epoch 9, a restore that asks for epoch 9 names the remote
  one of epoch 3.
\<close>

theorem restore_prefers_old_remote:
  "let l1 = snd (save_tiers cd ''remote'' 3 now rnd (storage_init 5 []));
       l2 = snd (save_tiers cd ''local'' 9 now rnd l1)
   in checkpoint_restore (PInt 9) (st\<lparr>as_runtime := Some (with_storage l2 rt)\<rparr>) =
        Inr \<lparr>rc_tier = ''remote'', rc_epoch = 3, rc_fidelity_flag = False\<rparr> \<and>
      map_option ck_epoch (latest_tier1 ''local'' l2) = Some 9"
  by (simp add: save_tiers_def Let_def checkpoint_restore_def api_runtime_def rt_storage_def with_storage_def
      write_tier1_def write_tier3_def write_node_tier_def storage_init_def tier_store_init_def history_of_def
      local_filesystem_backend_def latest_tier3_def latest_tier1_def last_opt_def restored_of_def dget_or_def)

end
