(* ===== verification/Handler_Steps.thy ===== *)
theory Handler_Steps
  imports Runtime
begin

text \<open>
  The handler of an event as a coroutine. Of everything a handler awaits, only the migration
  backend of the transport layer really suspends (\<open>TransportLayer.recover\<close> in
  \<open>aegis/layers/transport.py\<close>); the rest of \<open>_on_event\<close> (\<open>aegis/policy/engine.py\<close>) runs
  without giving up the event loop. While the dispatch task waits there, the drain of a \<open>stop\<close>
  (\<open>aegis/telemetry/bus.py\<close>) handles the events behind it, and the task may be cancelled. Here
  the handler is cut at that point: what runs before the wait, what runs after it, and any
  interleaving of such halves. The entry of a node is one shared object, found under its name:
  no node is registered anew while a migration of it is pending.
\<close>

subsection \<open>The two halves of a migration\<close>

record migration =
  mg_failed :: string
  mg_backup :: string
  mg_total :: real
  mg_remaining :: "(string, real) dict"

text \<open>Up to the call of the backend: an outcome without it, or the migration to wait for.\<close>

definition transport_begin ::
  "telemetry_event \<Rightarrow> transport_layer \<Rightarrow> ((pyexc + recovery_result) + migration) \<times> transport_layer" where
  "transport_begin event lay =
    (case dget (tl_nodes lay) (ev_node event) of
       None \<Rightarrow> (Inl (Inr (rr_failure (MsgNoNics (ev_node event)))), lay)
     | Some entry \<Rightarrow>
         (let failed_nic = blamed_nic event entry
          in case filter (\<lambda>n. n \<noteq> failed_nic) (healthy_nics entry) of
               [] \<Rightarrow>
                 (Inl (Inr (rr_failure (MsgNoBackupNic (ev_node event) failed_nic))),
                  lay\<lparr>tl_nodes := dset (ev_node event) (entry\<lparr>nn_state := FAILED\<rparr>) (tl_nodes lay)\<rparr>)
             | backup_nic # _ \<Rightarrow>
                 (let entry1 = entry\<lparr>nn_state := MIGRATING, nn_failed := insert failed_nic (nn_failed entry)\<rparr>;
                      lay1 = lay\<lparr>tl_nodes := dset (ev_node event) entry1 (tl_nodes lay)\<rparr>
                  in if \<exists>n \<in> set (healthy_nics entry1). dget (nn_bandwidth entry1) n = None then (Inl (Inl KeyErr), lay1)
                     else (Inr \<lparr>mg_failed = failed_nic, mg_backup = backup_nic,
                             mg_total = sum_list (dvals (nn_bandwidth entry1)),
                             mg_remaining = dict_comp (\<lambda>n. the (dget (nn_bandwidth entry1) n)) (healthy_nics entry1)\<rparr>,
                           lay1))))"

text \<open>From the return of the backend on; the entry is written as it stands then.\<close>

definition transport_finish ::
  "transport_backend \<Rightarrow> telemetry_event \<Rightarrow> migration \<Rightarrow> transport_layer \<Rightarrow> recovery_result \<times> transport_layer" where
  "transport_finish migrate event m lay =
    (let result = migrate (ev_node event) (mg_failed m) (mg_backup m) (mg_total m) (mg_remaining m);
         update = (\<lambda>f. lay\<lparr>tl_last_migration := Some result,
           tl_nodes := (case dget (tl_nodes lay) (ev_node event) of
             None \<Rightarrow> tl_nodes lay | Some entry \<Rightarrow> dset (ev_node event) (f entry) (tl_nodes lay))\<rparr>)
     in if \<not> mr_success result
        then (rr_failure (MsgMigrationFailed (mg_failed m) (mg_backup m) (ev_node event)),
              update (\<lambda>entry. entry\<lparr>nn_state := FAILED\<rparr>))
        else (rr_succeeded (MsgMigrated (mg_failed m) (mg_backup m) (ev_node event) (mr_throughput_retained_pct result))
                False (mr_migration_secs result),
              update (\<lambda>entry. entry\<lparr>nn_active := mg_backup m, nn_state := MIGRATED\<rparr>)))"

lemma dset_dset: "dset k v (dset k u d) = dset k v d"
  by (induction d) auto

lemma transport_recover_split:
  "transport_recover mig ev t ep g lay =
    (case transport_begin ev lay of
       (Inl res, lay') \<Rightarrow> (res, lay')
     | (Inr m, lay') \<Rightarrow> (case transport_finish mig ev m lay' of (res, lay'') \<Rightarrow> (Inr res, lay'')))"
  by (auto simp: transport_recover_def transport_begin_def transport_finish_def Let_def dset_dset split: option.split list.split)

subsection \<open>The two halves of a handler\<close>

record suspended =
  sp_record :: fault_record
  sp_migration :: migration

definition with_transport :: "transport_layer \<Rightarrow> aegis_world engine \<Rightarrow> aegis_world engine" where
  "with_transport lay eng = eng\<lparr>en_world := (en_world eng)\<lparr>aw_transport := lay\<rparr>\<rparr>"

abbreviation transport_of :: "aegis_world engine \<Rightarrow> transport_layer" where
  "transport_of eng \<equiv> aw_transport (en_world eng)"

text \<open>The migration a handler would wait for, with the layer as it leaves it.\<close>

definition migration_of :: "real \<Rightarrow> telemetry_event \<Rightarrow> aegis_world engine \<Rightarrow> (migration \<times> transport_layer) option" where
  "migration_of now event eng =
    (if en_observe_only eng \<or> decided_tier now event eng \<noteq> B0 \<or> \<not> transport_can_handle event B0 (transport_of eng) then None
     else case transport_begin event (transport_of eng) of (Inl res, lay) \<Rightarrow> None | (Inr m, lay) \<Rightarrow> Some (m, lay))"

text \<open>A handler that reaches no migration runs to its end.\<close>

definition begin_event ::
  "real \<Rightarrow> real \<Rightarrow> telemetry_event \<Rightarrow> aegis_world engine \<Rightarrow> (suspended + (pyexc + unit)) \<times> aegis_world engine" where
  "begin_event now stamp event eng =
    (case migration_of now event eng of
       None \<Rightarrow> (case on_event now stamp event eng of (out, eng') \<Rightarrow> (Inr out, eng'))
     | Some (m, lay) \<Rightarrow>
         (Inl \<lparr>sp_record = attempted B0 (new_record now stamp event eng), sp_migration = m\<rparr>,
          with_transport lay (entered now event eng)))"

text \<open>After the wait: book the success and record it, or escalate from B1 on.\<close>

definition conclude ::
  "(pyexc + recovery_result) \<times> fault_record \<times> 's engine \<Rightarrow> (pyexc + unit) \<times> 's engine" where
  "conclude routed =
    (case routed of
       (Inl x, record, eng) \<Rightarrow> (Inl x, eng)
     | (Inr result, record, eng) \<Rightarrow>
         (Inr (), eng\<lparr>en_history := en_history eng @ [record\<lparr>fr_result := Some result\<rparr>]\<rparr>))"

definition resume_event :: "runtime_env \<Rightarrow> suspended \<Rightarrow> aegis_world engine \<Rightarrow> (pyexc + unit) \<times> aegis_world engine" where
  "resume_event env sp eng =
    (let record = sp_record sp
     in case transport_finish (re_migrate env) (fr_event record) (sp_migration sp) (transport_of eng) of
          (result, lay) \<Rightarrow>
            (let eng1 = with_transport lay eng
             in conclude
               (if rr_success result
                then (Inr result, record,
                      eng1\<lparr>en_consensus := report_epoch (ev_rank (fr_event record)) (fr_epoch record) (en_consensus eng1),
                        en_kpi := map_option (kpi_record (fr_epoch record) B0 (rr_recovery_secs result)
                          (op_gpu_count (en_policy eng1))) (en_kpi eng1)\<rparr>)
                else route_from record B1 eng1)))"

lemma begin_event_None: "migration_of now ev eng = None \<Longrightarrow>
  begin_event now stamp ev eng = (Inr (fst (on_event now stamp ev eng)), snd (on_event now stamp ev eng))"
  by (simp add: begin_event_def split: prod.split)

lemma migration_of_Some:
  assumes "migration_of now ev eng = Some (m, lay)"
  shows "\<not> en_observe_only eng" "decided_tier now ev eng = B0" "transport_can_handle ev B0 (transport_of eng)"
    "transport_begin ev (transport_of eng) = (Inr m, lay)"
  using assms by (auto simp: migration_of_def split: if_splits prod.splits sum.splits)

subsection \<open>Together they are the handler\<close>

lemma map_B0: "dget (runtime_map env) B0 = Some (transport_object env)"
  by simp

lemma handler_halves:
  assumes "en_tier_to_layer eng = runtime_map env"
  shows "on_event now stamp event eng =
    (case begin_event now stamp event eng of
       (Inr out, eng') \<Rightarrow> (out, eng')
     | (Inl sp, eng') \<Rightarrow> resume_event env sp eng')"
proof (cases "migration_of now event eng")
  case None
  then show ?thesis by (simp add: begin_event_None)
next
  case (Some p)
  obtain m lay where p: "p = (m, lay)" by (cases p)
  let ?r = "new_record now stamp event eng" and ?e = "entered now event eng"
  note half = migration_of_Some [OF Some [unfolded p]]
  obtain result lay' where fin: "transport_finish (re_migrate env) event m lay = (result, lay')" by force
  let ?e1 = "with_transport lay' (with_transport lay ?e)"
  have recover: "rl_recover (transport_object env) event B0 ep g (en_world eng) = (Inr result, (en_world eng)\<lparr>aw_transport := lay'\<rparr>)"
    for ep g by (simp add: transport_object_def transport_recover_split half(4) fin)
  have accept: "rl_can_handle (transport_object env) event B0 (en_world eng)" using half(3) by (simp add: transport_object_def)
  have e1: "?e1 = ?e\<lparr>en_world := (en_world eng)\<lparr>aw_transport := lay'\<rparr>\<rparr>" by (simp add: with_transport_def)
  have turn: "try_tier ?r B0 ?e = (if rr_success result
      then (Inr (Some result), attempted B0 ?r,
        ?e1\<lparr>en_consensus := report_epoch (ev_rank event) (fr_epoch ?r) (en_consensus ?e1),
          en_kpi := map_option (kpi_record (fr_epoch ?r) B0 (rr_recovery_secs result) (op_gpu_count (en_policy ?e1))) (en_kpi ?e1)\<rparr>)
      else (Inr None, attempted B0 ?r, ?e1))"
    using accept assms(1)
    unfolding try_tier_def Let_def attempted_def [symmetric] by (simp add: recover e1)
  show ?thesis
  proof (cases "rr_success result")
    case True
    with turn have "route ?r ?e = (Inr result, attempted B0 ?r,
        ?e1\<lparr>en_consensus := report_epoch (ev_rank event) (fr_epoch ?r) (en_consensus ?e1),
          en_kpi := map_option (kpi_record (fr_epoch ?r) B0 (rr_recovery_secs result) (op_gpu_count (en_policy ?e1))) (en_kpi ?e1)\<rparr>)"
      by (simp add: route_def half(2) route_from.simps [of ?r B0])
    with True half(1) fin show ?thesis
      by (simp add: on_event_route begin_event_def Some p resume_event_def conclude_def Let_def
          with_transport_def [of lay ?e, THEN arg_cong, of transport_of, simplified])
  next
    case False
    with turn have "route ?r ?e = route_from (attempted B0 ?r) B1 ?e1"
      by (simp add: route_def half(2) route_from.simps [of ?r B0] tier_of_value_eq)
    with False half(1) fin show ?thesis
      by (simp add: on_event_route begin_event_def Some p resume_event_def conclude_def Let_def
          with_transport_def [of lay ?e, THEN arg_cong, of transport_of, simplified])
  qed
qed

subsection \<open>Handlers side by side\<close>

text \<open>
  The engine with the handlers that wait, oldest first: one of the dispatch task and one of the
  drain of each \<open>stop\<close>. The epochs of the handlers that raised and of those that were cancelled
  are history variables, as is the number begun.
\<close>

record handlers =
  hd_engine :: "aegis_world engine"
  hd_waiting :: "suspended list"
  hd_begun :: nat
  hd_raised :: "int list"
  hd_cancelled :: "int list"

definition handlers_init :: "aegis_world engine \<Rightarrow> handlers" where
  "handlers_init eng = \<lparr>hd_engine = eng, hd_waiting = [], hd_begun = 0, hd_raised = [], hd_cancelled = []\<rparr>"

datatype move = Begin real real telemetry_event | Resume nat | Cancel nat

definition without :: "nat \<Rightarrow> 'a list \<Rightarrow> 'a list" where
  "without i xs = take i xs @ drop (Suc i) xs"

abbreviation sp_epoch :: "suspended \<Rightarrow> int" where
  "sp_epoch sp \<equiv> fr_epoch (sp_record sp)"

text \<open>A move, when the handler it names waits.\<close>

fun make_move :: "runtime_env \<Rightarrow> move \<Rightarrow> handlers \<Rightarrow> handlers option" where
  "make_move env (Begin now stamp event) s =
    (case begin_event now stamp event (hd_engine s) of
       (Inl sp, eng) \<Rightarrow> Some (s\<lparr>hd_engine := eng, hd_begun := hd_begun s + 1, hd_waiting := hd_waiting s @ [sp]\<rparr>)
     | (Inr out, eng) \<Rightarrow> Some (s\<lparr>hd_engine := eng, hd_begun := hd_begun s + 1,
         hd_raised := (case out of Inl x \<Rightarrow> hd_raised s @ [epoch_current (en_epochs eng)] | Inr u \<Rightarrow> hd_raised s)\<rparr>))"
| "make_move env (Resume i) s =
    (if i < length (hd_waiting s)
     then (case resume_event env (hd_waiting s ! i) (hd_engine s) of
             (out, eng) \<Rightarrow> Some (s\<lparr>hd_engine := eng, hd_waiting := without i (hd_waiting s),
               hd_raised := (case out of Inl x \<Rightarrow> hd_raised s @ [sp_epoch (hd_waiting s ! i)] | Inr u \<Rightarrow> hd_raised s)\<rparr>))
     else None)"
| "make_move env (Cancel i) s =
    (if i < length (hd_waiting s)
     then Some (s\<lparr>hd_waiting := without i (hd_waiting s), hd_cancelled := hd_cancelled s @ [sp_epoch (hd_waiting s ! i)]\<rparr>)
     else None)"

fun make_moves :: "runtime_env \<Rightarrow> move list \<Rightarrow> handlers \<Rightarrow> handlers option" where
  "make_moves env [] s = Some s"
| "make_moves env (m # ms) s = (case make_move env m s of None \<Rightarrow> None | Some s' \<Rightarrow> make_moves env ms s')"

lemma make_moves_induct [consumes 1, case_names start move]:
  assumes "make_moves env ms s = Some s'" and "P s"
    and "\<And>m s s'. m \<in> set ms \<Longrightarrow> P s \<Longrightarrow> make_move env m s = Some s' \<Longrightarrow> P s'"
  shows "P s'"
  using assms
proof (induction ms arbitrary: s)
  case (Cons m ms)
  from Cons.prems(1) obtain s1 where s1: "make_move env m s = Some s1" "make_moves env ms s1 = Some s'"
    by (auto split: option.splits)
  have "P s1" using Cons.prems(3) [OF _ Cons.prems(2) s1(1)] by simp
  from Cons.IH [OF s1(2) this] Cons.prems(3) show ?case by auto
qed simp

lemma mset_without: "i < length xs \<Longrightarrow> mset xs = add_mset (xs ! i) (mset (without i xs))"
  by (simp add: without_def flip: id_take_nth_drop mset.simps(2)) (metis id_take_nth_drop mset.simps(2) mset_append union_mset_add_mset_right)

text \<open>One event at a time, the moves are the run of the engine.\<close>

fun one_by_one :: "aegis_world engine \<Rightarrow> runtime_env \<Rightarrow> timed_event list \<Rightarrow> move list" where
  "one_by_one eng env [] = []"
| "one_by_one eng env ((now, stamp, event) # evs) =
    Begin now stamp event # (if migration_of now event eng = None then [] else [Resume 0]) @
      one_by_one (snd (on_event now stamp event eng)) env evs"

lemma one_by_one_runs:
  "en_tier_to_layer (hd_engine s) = runtime_map env \<Longrightarrow> hd_waiting s = [] \<Longrightarrow>
   \<exists>s'. make_moves env (one_by_one (hd_engine s) env evs) s = Some s' \<and> hd_engine s' = engine_run evs (hd_engine s) \<and>
     hd_waiting s' = [] \<and> hd_cancelled s' = hd_cancelled s"
proof (induction evs arbitrary: s)
  case (Cons te evs)
  obtain now stamp event where te: "te = (now, stamp, event)" by (cases te)
  let ?eng = "hd_engine s" and ?after = "snd (on_event now stamp event (hd_engine s))"
  have map: "en_tier_to_layer ?after = runtime_map env"
    using on_event_books [of now stamp event ?eng "fst (on_event now stamp event ?eng)" ?after] Cons.prems(1) by simp
  let ?here = "Begin now stamp event # (if migration_of now event ?eng = None then [] else [Resume 0])"
  have "\<exists>s1. make_moves env ?here s = Some s1 \<and> hd_engine s1 = ?after \<and> hd_waiting s1 = [] \<and> hd_cancelled s1 = hd_cancelled s"
  proof (cases "migration_of now event ?eng")
    case None
    then show ?thesis using Cons.prems(2) by (simp add: begin_event_None)
  next
    case (Some p)
    obtain sp eng1 where b: "begin_event now stamp event ?eng = (Inl sp, eng1)"
      using Some by (cases p) (simp add: begin_event_def)
    with handler_halves [OF Cons.prems(1), of now stamp event]
    have "snd (resume_event env sp eng1) = ?after" by simp
    then show ?thesis
      using Some Cons.prems(2) b by (auto simp: without_def split: prod.split)
  qed
  then obtain s1 where s1: "make_moves env ?here s = Some s1" "hd_engine s1 = ?after" "hd_waiting s1 = []"
    "hd_cancelled s1 = hd_cancelled s" by blast
  have app: "make_moves env (xs @ ys) s = (case make_moves env xs s of None \<Rightarrow> None | Some s' \<Rightarrow> make_moves env ys s')" for xs ys s
    by (induction xs arbitrary: s) (auto split: option.split)
  from Cons.IH [of s1] s1 map show ?case by (auto simp: te app simp flip: append_Cons simp del: make_moves.simps)
qed simp

subsection \<open>Every handler is accounted for\<close>

lemma begin_event_books:
  assumes "begin_event now stamp event eng = (Inl sp, eng')"
  shows "es_epoch (en_epochs eng') = es_epoch (en_epochs eng) + 1 \<and> en_history eng' = en_history eng \<and>
    sp_epoch sp = es_epoch (en_epochs eng) + 1 \<and> record_at B0 (sp_record sp) \<and> fr_original_tier (sp_record sp) = B0 \<and>
    fr_event (sp_record sp) = event"
proof -
  from assms obtain m lay where mig: "migration_of now event eng = Some (m, lay)"
    by (cases "migration_of now event eng") (auto simp: begin_event_def split: prod.splits)
  with assms migration_of_Some(2) [OF mig] show ?thesis
    by (auto simp: begin_event_def with_transport_def record_at_def)
qed

lemma resume_event_books:
  assumes "resume_event env sp eng = (out, eng')" "record_at B0 (sp_record sp)" "fr_original_tier (sp_record sp) = B0"
  shows "en_epochs eng' = en_epochs eng \<and>
    (case out of Inl x \<Rightarrow> en_history eng' = en_history eng
     | Inr u \<Rightarrow> \<exists>r. en_history eng' = en_history eng @ [r] \<and> fr_epoch r = sp_epoch sp \<and> record_at B4 r \<and> fr_result r \<noteq> None \<and>
         fr_event r = fr_event (sp_record sp))"
proof -
  obtain result lay where fin: "transport_finish (re_migrate env) (fr_event (sp_record sp)) (sp_migration sp) (transport_of eng) = (result, lay)"
    by force
  let ?e1 = "with_transport lay eng"
  have e1: "en_epochs ?e1 = en_epochs eng" "en_history ?e1 = en_history eng" by (simp_all add: with_transport_def)
  have B4: "record_at B4 (sp_record sp)" by (rule record_at_mono [OF assms(2)]) simp
  obtain res r' e2 where rt: "route_from (sp_record sp) B1 ?e1 = (res, r', e2)" by (metis prod_cases3)
  have "record_at B4 r'" using route_record [OF record_at_mono [OF assms(2)] _ rt] assms(3) by simp
  moreover have "fr_epoch r' = sp_epoch sp" "fr_event r' = fr_event (sp_record sp)" "en_epochs e2 = en_epochs eng" "en_history e2 = en_history eng"
    using route_frame [OF rt] e1 by (simp_all add: same_fault_def same_engine_def)
  ultimately show ?thesis
    using assms(1) B4 e1 rt
    by (cases res; cases "rr_success result")
       (auto simp: resume_event_def fin Let_def conclude_def record_at_def split: sum.splits)
qed

definition drawn :: "int \<Rightarrow> nat \<Rightarrow> int multiset" where
  "drawn e0 n = mset (map (\<lambda>i. e0 + 1 + int i) [0..<n])"

lemma drawn_Suc: "drawn e0 (Suc n) = add_mset (e0 + 1 + int n) (drawn e0 n)"
  by (simp add: drawn_def)

definition accounted :: "aegis_world engine \<Rightarrow> handlers \<Rightarrow> bool" where
  "accounted eng0 s \<longleftrightarrow>
    es_epoch (en_epochs (hd_engine s)) = es_epoch (en_epochs eng0) + int (hd_begun s) \<and>
    (\<forall>sp \<in> set (hd_waiting s). record_at B0 (sp_record sp) \<and> fr_original_tier (sp_record sp) = B0) \<and>
    (\<exists>new. en_history (hd_engine s) = en_history eng0 @ new \<and> (\<forall>r \<in> set new. record_at B4 r \<and> fr_result r \<noteq> None) \<and>
      mset (map fr_epoch new) + mset (map sp_epoch (hd_waiting s)) + mset (hd_raised s) + mset (hd_cancelled s) =
        drawn (es_epoch (en_epochs eng0)) (hd_begun s))"

lemma set_without: "set (without i xs) \<subseteq> set xs"
  by (auto simp: without_def dest: in_set_takeD in_set_dropD)

lemma accounted_begin:
  assumes "accounted eng0 s" "make_move env (Begin now stamp event) s = Some s'"
  shows "accounted eng0 s'"
proof -
  obtain b eng' where b: "begin_event now stamp event (hd_engine s) = (b, eng')" by force
  from assms(1) obtain new where new: "en_history (hd_engine s) = en_history eng0 @ new"
    "\<forall>r \<in> set new. record_at B4 r \<and> fr_result r \<noteq> None"
    "mset (map fr_epoch new) + mset (map sp_epoch (hd_waiting s)) + mset (hd_raised s) + mset (hd_cancelled s) =
        drawn (es_epoch (en_epochs eng0)) (hd_begun s)" by (auto simp: accounted_def)
  show ?thesis
  proof (cases b)
    case (Inl sp)
    with begin_event_books b have "es_epoch (en_epochs eng') = es_epoch (en_epochs (hd_engine s)) + 1"
      "en_history eng' = en_history (hd_engine s)" "sp_epoch sp = es_epoch (en_epochs (hd_engine s)) + 1"
      "record_at B0 (sp_record sp)" "fr_original_tier (sp_record sp) = B0" by blast+
    with assms new b Inl show ?thesis by (auto simp: accounted_def drawn_Suc)
  next
    case (Inr out)
    then have run: "on_event now stamp event (hd_engine s) = (out, eng')"
      using b by (auto simp: begin_event_def split: option.splits prod.splits)
    show ?thesis
    proof (cases out)
      case (Inl x)
      with on_event_books [OF run] assms new b Inr show ?thesis by (auto simp: accounted_def drawn_Suc epoch_current_def)
    next
      case (Inr u)
      with on_event_books [OF run] obtain r where "en_history eng' = en_history (hd_engine s) @ [r]"
        "fr_epoch r = es_epoch (en_epochs (hd_engine s)) + 1" "record_at B4 r" "fr_result r \<noteq> None"
        "es_epoch (en_epochs eng') = es_epoch (en_epochs (hd_engine s)) + 1" by auto
      with assms new b \<open>b = Inr out\<close> Inr show ?thesis
        unfolding accounted_def by (auto simp: drawn_Suc intro!: exI [of _ "new @ [r]"])
    qed
  qed
qed

lemma accounted_settle:
  assumes "accounted eng0 s" "i < length (hd_waiting s)" "make_move env m s = Some s'" "m = Resume i \<or> m = Cancel i"
  shows "accounted eng0 s'"
proof -
  let ?sp = "hd_waiting s ! i"
  from assms(1) obtain new where new: "en_history (hd_engine s) = en_history eng0 @ new"
    "\<forall>r \<in> set new. record_at B4 r \<and> fr_result r \<noteq> None"
    "mset (map fr_epoch new) + mset (map sp_epoch (hd_waiting s)) + mset (hd_raised s) + mset (hd_cancelled s) =
        drawn (es_epoch (en_epochs eng0)) (hd_begun s)" by (auto simp: accounted_def)
  have sp: "mset (map sp_epoch (hd_waiting s)) = add_mset (sp_epoch ?sp) (mset (map sp_epoch (without i (hd_waiting s))))"
    using mset_without [OF assms(2)] by simp
  have rest: "set (without i (hd_waiting s)) \<subseteq> set (hd_waiting s)" by (rule set_without)
  have B0: "record_at B0 (sp_record ?sp)" "fr_original_tier (sp_record ?sp) = B0"
    using assms(1,2) by (simp_all add: accounted_def)
  from assms(4) show ?thesis
  proof
    assume m: "m = Resume i"
    obtain out eng' where r: "resume_event env ?sp (hd_engine s) = (out, eng')" by force
    show ?thesis
    proof (cases out)
      case (Inl x)
      with resume_event_books [OF r B0] assms new r m sp rest show ?thesis by (auto simp: accounted_def)
    next
      case (Inr u)
      with resume_event_books [OF r B0] obtain rec where "en_history eng' = en_history (hd_engine s) @ [rec]"
        "fr_epoch rec = sp_epoch ?sp" "record_at B4 rec" "fr_result rec \<noteq> None" "en_epochs eng' = en_epochs (hd_engine s)" by auto
      with assms new r m sp rest Inr show ?thesis
        unfolding accounted_def by (auto intro!: exI [of _ "new @ [rec]"])
    qed
  next
    assume "m = Cancel i"
    with assms new sp rest show ?thesis by (auto simp: accounted_def)
  qed
qed

lemma make_moves_accounted:
  assumes "make_moves env ms (handlers_init eng0) = Some s"
  shows "accounted eng0 s"
  using assms
proof (rule make_moves_induct)
  show "accounted eng0 (handlers_init eng0)" by (simp add: accounted_def handlers_init_def drawn_def)
next
  fix m s s'
  assume acc: "accounted eng0 s" and move: "make_move env m s = Some s'"
  show "accounted eng0 s'"
  proof (cases m)
    case (Begin now stamp event)
    then show ?thesis using accounted_begin [OF acc] move by simp
  next
    case (Resume i)
    then have "i < length (hd_waiting s)" using move by (simp split: if_splits)
    from accounted_settle [OF acc this move] Resume show ?thesis by simp
  next
    case (Cancel i)
    then have "i < length (hd_waiting s)" using move by (simp split: if_splits)
    from accounted_settle [OF acc this move] Cancel show ?thesis by simp
  qed
qed

subsection \<open>Migrations that finish in their order\<close>

text \<open>What holds of an entry even while migrations of its node are pending.\<close>

definition nics_ok :: "node_nics \<Rightarrow> bool" where
  "nics_ok e \<longleftrightarrow> (nn_nics e = [] \<or> nn_active e \<in> set (nn_nics e)) \<and> nn_failed e \<subseteq> set (nn_nics e) \<and>
     set (nn_nics e) \<subseteq> fst ` set (nn_bandwidth e) \<and> distinct (dkeys (nn_bandwidth e))"

lemma node_inv_nics_ok:
  "node_inv e \<longleftrightarrow> nics_ok e \<and> (nn_state e = STABLE \<or> nn_state e = MIGRATED \<longrightarrow> nn_nics e \<noteq> [] \<longrightarrow> nn_active e \<notin> nn_failed e)"
  by (auto simp: node_inv_def nics_ok_def)

text \<open>From B1 on, routing leaves the transport layer alone.\<close>

lemma try_tier_upper:
  assumes "en_tier_to_layer e = runtime_map env" "B1 \<le> t" "try_tier r t e = (out, r', e')"
  shows "transport_of e' = transport_of e"
proof -
  have "t \<noteq> B0" using assms(2) by (auto simp: tier_order)
  then show ?thesis
    using assms(1,3)
    by (cases t) (auto simp: try_tier_def compute_object_def storage_object_def Let_def split: if_splits sum.splits prod.splits)
qed

lemma route_upper:
  assumes "en_tier_to_layer e = runtime_map env" "B1 \<le> t" "route_from r t e = (res, r', e')"
  shows "transport_of e' = transport_of e"
proof -
  let ?same = "\<lambda>e1. transport_of e1 = transport_of e \<and> en_tier_to_layer e1 = runtime_map env"
  have step: "?same e2" if "B1 \<le> t1" "?same e1" "try_tier r1 t1 e1 = (o1, r2, e2)" for r1 t1 e1 o1 r2 e2
    using that try_tier_upper [OF _ that(1,3)] try_tier_frame [OF that(3)] by (simp add: same_engine_def)
  have "?same e'"
  proof (rule route_from_rule [where t = t and Q = "\<lambda>_ _ e1. ?same e1" and P = "\<lambda>t _ e1. B1 \<le> t \<and> ?same e1", OF _ _ _ _ _ assms(3)])
    fix t1 t2 r1 e1 r2 e2
    assume at: "B1 \<le> t1 \<and> ?same e1" "try_tier r1 t1 e1 = (Inr None, r2, e2)" and "tier_value t2 = tier_value t1 + 1"
    then have "B1 \<le> t2" by (simp add: tier_order)
    with step [of t1 e1] at show "B1 \<le> t2 \<and> ?same e2" by blast
  qed (use step assms(1,2) in blast)+
  then show ?thesis by simp
qed

lemma transport_begin_cases:
  assumes "transport_begin ev lay = (Inr m, lay')"
  obtains e where "dget (tl_nodes lay) (ev_node ev) = Some e" "mg_backup m \<in> set (healthy_nics e)"
    "mg_backup m \<noteq> blamed_nic ev e"
    "lay' = lay\<lparr>tl_nodes := dset (ev_node ev) (e\<lparr>nn_state := MIGRATING, nn_failed := insert (blamed_nic ev e) (nn_failed e)\<rparr>) (tl_nodes lay)\<rparr>"
proof -
  from assms obtain e where e: "dget (tl_nodes lay) (ev_node ev) = Some e"
    by (auto simp: transport_begin_def split: option.splits)
  obtain n ns where b: "filter (\<lambda>n. n \<noteq> blamed_nic ev e) (healthy_nics e) = n # ns"
    using assms by (cases "filter (\<lambda>n. n \<noteq> blamed_nic ev e) (healthy_nics e)") (auto simp: transport_begin_def e Let_def)
  then have "n \<in> set (filter (\<lambda>n. n \<noteq> blamed_nic ev e) (healthy_nics e))" by simp
  then have "n \<in> set (healthy_nics e)" "n \<noteq> blamed_nic ev e" by simp_all
  with that [OF e] assms show ?thesis by (auto simp: transport_begin_def e b Let_def split: if_splits)
qed

text \<open>A handler that does not wait leaves the layer alone or marks its node failed.\<close>

definition node_failed_or_same :: "string \<Rightarrow> transport_layer \<Rightarrow> transport_layer \<Rightarrow> bool" where
  "node_failed_or_same node lay lay' \<longleftrightarrow> lay' = lay \<or>
    (\<exists>e. dget (tl_nodes lay) node = Some e \<and> lay' = lay\<lparr>tl_nodes := dset node (e\<lparr>nn_state := FAILED\<rparr>) (tl_nodes lay)\<rparr>)"

lemma transport_begin_refused:
  assumes "transport_begin ev lay = (Inl res, lay')" "\<And>e. dget (tl_nodes lay) (ev_node ev) = Some e \<Longrightarrow> nics_ok e"
  shows "node_failed_or_same (ev_node ev) lay lay' \<and> (\<exists>r. res = Inr r \<and> \<not> rr_success r)"
proof (cases "dget (tl_nodes lay) (ev_node ev)")
  case None
  with assms(1) show ?thesis by (auto simp: transport_begin_def node_failed_or_same_def rr_failure_def)
next
  case (Some e)
  let ?e1 = "e\<lparr>nn_state := MIGRATING, nn_failed := insert (blamed_nic ev e) (nn_failed e)\<rparr>"
  have "dget (nn_bandwidth e) n \<noteq> None" if "n \<in> set (nn_nics e)" for n
    using assms(2) [OF Some] that by (auto simp: nics_ok_def map_of_eq_None_iff)
  then have none: "(\<exists>n \<in> set (healthy_nics ?e1). dget (nn_bandwidth ?e1) n = None) = False"
    by (auto simp: healthy_nics_def)
  show ?thesis
    using assms(1) unfolding transport_begin_def Some option.case Let_def none if_False
    by (cases "filter (\<lambda>n. n \<noteq> blamed_nic ev e) (healthy_nics e)")
       (auto simp: Some node_failed_or_same_def rr_failure_def)
qed

lemma on_event_transport:
  assumes "en_tier_to_layer eng = runtime_map env" "migration_of now ev eng = None" "on_event now stamp ev eng = (out, eng')"
    and ok: "\<And>e. dget (tl_nodes (transport_of eng)) (ev_node ev) = Some e \<Longrightarrow> nics_ok e"
  shows "node_failed_or_same (ev_node ev) (transport_of eng) (transport_of eng')"
proof (cases "en_observe_only eng")
  case True
  with assms(3) show ?thesis by (auto simp: on_event_observe node_failed_or_same_def)
next
  case False
  let ?r = "new_record now stamp ev eng" and ?e = "entered now ev eng"
  obtain res r' e1 where rt: "route ?r ?e = (res, r', e1)" by (metis prod_cases3)
  with assms(3) False have world: "transport_of eng' = transport_of e1"
    by (cases res) (auto simp: on_event_route)
  have map: "en_tier_to_layer ?e = runtime_map env" using assms(1) by simp
  consider "decided_tier now ev eng \<noteq> B0" | "decided_tier now ev eng = B0" "\<not> transport_can_handle ev B0 (transport_of eng)"
    | res' lay where "decided_tier now ev eng = B0" "transport_can_handle ev B0 (transport_of eng)"
      "transport_begin ev (transport_of eng) = (Inl res', lay)"
    using assms(2) False by (auto simp: migration_of_def split: if_splits prod.splits sum.splits)
  then show ?thesis
  proof cases
    case 1
    then have "B1 \<le> decided_tier now ev eng" by (cases "decided_tier now ev eng") (simp_all add: tier_order)
    from route_upper [OF map this] rt world show ?thesis by (simp add: route_def node_failed_or_same_def)
  next
    case 2
    then have "try_tier ?r B0 ?e = (Inr None, ?r, ?e)"
      using map by (intro passes_over_try) (simp add: passes_over_def transport_object_def)
    then have "route_from ?r B1 ?e = (res, r', e1)"
      using rt 2(1) by (simp add: route_def route_from.simps [of ?r B0] tier_of_value_eq)
    from route_upper [OF map _ this] world show ?thesis by (simp add: node_failed_or_same_def)
  next
    case 3
    from transport_begin_refused [OF 3(3) ok] obtain r where r: "node_failed_or_same (ev_node ev) (transport_of eng) lay"
      "res' = Inr r" "\<not> rr_success r" by blast
    have recover: "rl_recover (transport_object env) ev B0 ep g (en_world eng) = (Inr r, (en_world eng)\<lparr>aw_transport := lay\<rparr>)" for ep g
      by (simp add: transport_object_def transport_recover_split 3(3) r(2))
    have "rl_can_handle (transport_object env) ev B0 (en_world eng)" using 3(2) by (simp add: transport_object_def)
    then have "try_tier ?r B0 ?e = (Inr None, attempted B0 ?r, with_transport lay ?e)"
      using map r(3) unfolding try_tier_def Let_def attempted_def [symmetric] by (simp add: recover with_transport_def)
    then have "route_from (attempted B0 ?r) B1 (with_transport lay ?e) = (res, r', e1)"
      using rt 3(1) by (simp add: route_def route_from.simps [of ?r B0] tier_of_value_eq)
    from route_upper [OF _ _ this] map have "transport_of e1 = lay" by (simp add: with_transport_def)
    with r(1) world show ?thesis by simp
  qed
qed

text \<open>The handlers waiting on a node, and the invariant of an orderly interleaving.\<close>

definition waiting_on :: "string \<Rightarrow> suspended list \<Rightarrow> suspended list" where
  "waiting_on node sps = filter (\<lambda>sp. ev_node (fr_event (sp_record sp)) = node) sps"

definition node_orderly :: "suspended list \<Rightarrow> node_nics \<Rightarrow> bool" where
  "node_orderly sps e \<longleftrightarrow> nics_ok e \<and> (\<forall>sp \<in> set sps. mg_backup (sp_migration sp) \<in> set (nn_nics e)) \<and>
    (if sps = [] then node_inv e else mg_backup (sp_migration (last sps)) \<notin> nn_failed e)"

definition orderly :: "runtime_env \<Rightarrow> handlers \<Rightarrow> bool" where
  "orderly env s \<longleftrightarrow> en_tier_to_layer (hd_engine s) = runtime_map env \<and>
    (\<forall>node e. dget (tl_nodes (transport_of (hd_engine s))) node = Some e \<longrightarrow> node_orderly (waiting_on node (hd_waiting s)) e)"

fun in_order :: "move \<Rightarrow> bool" where
  "in_order (Begin now stamp event) = True"
| "in_order (Resume i) = (i = 0)"
| "in_order (Cancel i) = False"

lemma node_orderly_failed: "node_orderly sps e \<Longrightarrow> node_orderly sps (e\<lparr>nn_state := FAILED\<rparr>)"
  by (auto simp: node_orderly_def nics_ok_def node_inv_def)

lemma node_failed_or_sameD:
  assumes "node_failed_or_same node lay lay'" "dget (tl_nodes lay') k = Some e'"
  shows "\<exists>e. dget (tl_nodes lay) k = Some e \<and> (e' = e \<or> e' = e\<lparr>nn_state := FAILED\<rparr>)"
  using assms by (auto simp: node_failed_or_same_def split: if_splits)

lemma waiting_on_simps [simp]:
  "waiting_on node [] = []" "waiting_on node (sps @ sps') = waiting_on node sps @ waiting_on node sps'"
  "waiting_on node (sp # sps) = (if ev_node (fr_event (sp_record sp)) = node then [sp] else []) @ waiting_on node sps"
  by (simp_all add: waiting_on_def)

lemma orderly_begin:
  assumes "orderly env s" "make_move env (Begin now stamp event) s = Some s'"
  shows "orderly env s'"
proof (cases "migration_of now event (hd_engine s)")
  case None
  let ?eng' = "snd (on_event now stamp event (hd_engine s))"
  obtain out where run: "on_event now stamp event (hd_engine s) = (out, ?eng')" by (metis prod.collapse)
  have s': "hd_engine s' = ?eng'" "hd_waiting s' = hd_waiting s"
    using assms(2) by (auto simp: begin_event_None [OF None])
  have map: "en_tier_to_layer (hd_engine s) = runtime_map env" using assms(1) by (simp add: orderly_def)
  have "node_failed_or_same (ev_node event) (transport_of (hd_engine s)) (transport_of ?eng')"
    by (rule on_event_transport [OF map None run]) (use assms(1) in \<open>auto simp: orderly_def node_orderly_def\<close>)
  then have "node_orderly (waiting_on node (hd_waiting s)) e" if "dget (tl_nodes (transport_of ?eng')) node = Some e" for node e
    using node_failed_or_sameD [OF _ that] assms(1) node_orderly_failed unfolding orderly_def by blast
  moreover have "en_tier_to_layer ?eng' = runtime_map env" using on_event_books [OF run] map by simp
  ultimately show ?thesis by (simp add: orderly_def s')
next
  case (Some p)
  obtain m lay where p: "p = (m, lay)" by (cases p)
  let ?sp = "\<lparr>sp_record = attempted B0 (new_record now stamp event (hd_engine s)), sp_migration = m\<rparr>"
  from transport_begin_cases [OF migration_of_Some(4) [OF Some [unfolded p]]] obtain e where
    e: "dget (tl_nodes (transport_of (hd_engine s))) (ev_node event) = Some e" "mg_backup m \<in> set (healthy_nics e)"
      "mg_backup m \<noteq> blamed_nic event e"
      "lay = (transport_of (hd_engine s))\<lparr>tl_nodes := dset (ev_node event)
        (e\<lparr>nn_state := MIGRATING, nn_failed := insert (blamed_nic event e) (nn_failed e)\<rparr>) (tl_nodes (transport_of (hd_engine s)))\<rparr>"
    by blast
  have s': "hd_engine s' = with_transport lay (entered now event (hd_engine s))" "hd_waiting s' = hd_waiting s @ [?sp]"
    using assms(2) by (auto simp: begin_event_def Some p)
  have old: "node_orderly (waiting_on (ev_node event) (hd_waiting s)) e" using assms(1) e(1) by (simp add: orderly_def)
  have in_nics: "mg_backup m \<in> set (nn_nics e)" "mg_backup m \<notin> nn_failed e" using e(2) by (auto simp: set_healthy)
  have "blamed_nic event e \<in> set (nn_nics e)"
    using in_nics(1) old by (auto simp: blamed_nic_def Let_def node_orderly_def nics_ok_def)
  with old in_nics e(3) have "node_orderly (waiting_on (ev_node event) (hd_waiting s) @ [?sp])
      (e\<lparr>nn_state := MIGRATING, nn_failed := insert (blamed_nic event e) (nn_failed e)\<rparr>)"
    by (auto simp: node_orderly_def nics_ok_def)
  then show ?thesis using assms(1) s' by (auto simp: orderly_def with_transport_def e(4))
qed

text \<open>What finishing a migration does to the entry of its node.\<close>

definition settled_entry :: "bool \<Rightarrow> string \<Rightarrow> node_nics \<Rightarrow> node_nics" where
  "settled_entry moved backup e = (if moved then e\<lparr>nn_active := backup, nn_state := MIGRATED\<rparr> else e\<lparr>nn_state := FAILED\<rparr>)"

lemma transport_finish_nodes:
  assumes "transport_finish mig ev m lay = (result, lay')"
  shows "\<exists>moved. tl_nodes lay' = (case dget (tl_nodes lay) (ev_node ev) of None \<Rightarrow> tl_nodes lay
    | Some e \<Rightarrow> dset (ev_node ev) (settled_entry moved (mg_backup m) e) (tl_nodes lay))"
proof (cases "mr_success (mig (ev_node ev) (mg_failed m) (mg_backup m) (mg_total m) (mg_remaining m))")
  case True
  then show ?thesis
    using assms by (intro exI [of _ True]) (auto simp: transport_finish_def Let_def settled_entry_def split: option.split)
next
  case False
  then show ?thesis
    using assms by (intro exI [of _ False]) (auto simp: transport_finish_def Let_def settled_entry_def split: option.split)
qed

lemma resume_event_transport:
  assumes "resume_event env sp eng = (out, eng')" "en_tier_to_layer eng = runtime_map env"
  shows "en_tier_to_layer eng' = runtime_map env \<and>
    (\<exists>moved. tl_nodes (transport_of eng') =
      (let node = ev_node (fr_event (sp_record sp)) in case dget (tl_nodes (transport_of eng)) node of
         None \<Rightarrow> tl_nodes (transport_of eng)
       | Some e \<Rightarrow> dset node (settled_entry moved (mg_backup (sp_migration sp)) e) (tl_nodes (transport_of eng))))"
proof -
  let ?r = "sp_record sp"
  obtain result lay where fin: "transport_finish (re_migrate env) (fr_event ?r) (sp_migration sp) (transport_of eng) = (result, lay)"
    by force
  have nodes: "\<exists>moved. tl_nodes lay =
      (let node = ev_node (fr_event ?r) in case dget (tl_nodes (transport_of eng)) node of
         None \<Rightarrow> tl_nodes (transport_of eng)
       | Some e \<Rightarrow> dset node (settled_entry moved (mg_backup (sp_migration sp)) e) (tl_nodes (transport_of eng)))"
    using transport_finish_nodes [OF fin] by (simp add: Let_def)
  have map: "en_tier_to_layer (with_transport lay eng) = runtime_map env" using assms(2) by (simp add: with_transport_def)
  obtain res r' e2 where rt: "route_from ?r B1 (with_transport lay eng) = (res, r', e2)" by (metis prod_cases3)
  have up: "transport_of e2 = lay" "en_tier_to_layer e2 = runtime_map env"
    using route_upper [OF map _ rt] route_frame [OF rt] map by (simp_all add: with_transport_def same_engine_def)
  have "transport_of eng' = lay \<and> en_tier_to_layer eng' = runtime_map env"
    using assms rt up by (cases res; cases "rr_success result")
      (auto simp: resume_event_def fin Let_def conclude_def with_transport_def split: sum.splits)
  with nodes show ?thesis by simp
qed

lemma orderly_resume:
  assumes "orderly env s" "make_move env (Resume 0) s = Some s'"
  shows "orderly env s'"
proof -
  from assms(2) obtain sp sps where w: "hd_waiting s = sp # sps" by (cases "hd_waiting s") auto
  obtain out eng' where r: "resume_event env sp (hd_engine s) = (out, eng')" by force
  have s': "hd_engine s' = eng'" "hd_waiting s' = sps" using assms(2) by (auto simp: w r without_def)
  have map: "en_tier_to_layer (hd_engine s) = runtime_map env" using assms(1) by (simp add: orderly_def)
  let ?node = "ev_node (fr_event (sp_record sp))" and ?b = "mg_backup (sp_migration sp)"
  let ?nodes = "tl_nodes (transport_of (hd_engine s))"
  from resume_event_transport [OF r map] obtain moved where
    map': "en_tier_to_layer eng' = runtime_map env" and
    nodes: "tl_nodes (transport_of eng') =
      (case dget ?nodes ?node of None \<Rightarrow> ?nodes | Some e \<Rightarrow> dset ?node (settled_entry moved ?b e) ?nodes)"
    unfolding Let_def by blast
  have "node_orderly (waiting_on node sps) e'" if e': "dget (tl_nodes (transport_of eng')) node = Some e'" for node e'
  proof (cases "node = ?node")
    case False
    with e' nodes have "dget ?nodes node = Some e'" by (simp split: option.splits)
    with assms(1) have "node_orderly (waiting_on node (hd_waiting s)) e'" by (simp add: orderly_def)
    with False show ?thesis by (simp add: w)
  next
    case True
    with e' nodes obtain e where e: "dget ?nodes ?node = Some e" "e' = settled_entry moved ?b e"
      by (auto split: option.splits)
    from assms(1) e(1) have "node_orderly (waiting_on ?node (hd_waiting s)) e" by (simp add: orderly_def)
    then have "node_orderly (sp # waiting_on ?node sps) e" by (simp add: w)
    then show ?thesis
      by (auto simp: True e(2) node_orderly_def nics_ok_def node_inv_def settled_entry_def split: if_splits)
  qed
  with map' show ?thesis by (simp add: orderly_def s')
qed

lemma in_order_orderly:
  assumes "make_moves env ms s = Some s'" "orderly env s" "\<forall>m \<in> set ms. in_order m"
  shows "orderly env s'"
  using assms(1,2)
proof (rule make_moves_induct)
  fix m s s'
  assume m: "m \<in> set ms" and old: "orderly env s" and move: "make_move env m s = Some s'"
  from m assms(3) have fifo: "in_order m" by blast
  show "orderly env s'"
  proof (cases m)
    case (Begin now stamp event)
    with orderly_begin [OF old] move show ?thesis by simp
  next
    case (Resume i)
    with fifo have "m = Resume 0" by simp
    with orderly_resume [OF old] move show ?thesis by (simp del: make_move.simps)
  qed (use fifo in simp)
qed

text \<open>
  A handler interrupted where it can be is the handler: on an engine wired as the runtime
  wires it, beginning each event and resuming its handler, when it waits for a migration, before
  the next event begins, is the run of the engine over those events; every handler ends and
  none is cancelled.
\<close>

theorem interrupted_handlers_refine_run:
  assumes "en_tier_to_layer eng = runtime_map env"
  shows "\<exists>s. make_moves env (one_by_one eng env evs) (handlers_init eng) = Some s \<and>
    hd_engine s = engine_run evs eng \<and> hd_waiting s = [] \<and> hd_cancelled s = []"
  using one_by_one_runs [of "handlers_init eng" env evs] assms by (simp add: handlers_init_def)

text \<open>
  C16. Every handler is accounted for, whatever the interleaving: after any moves, in any order
  and with cancellations, from an engine at rest, each event begun has drawn one epoch, and each of
  those epochs belongs to exactly one of the records added to the audit log, the handlers that
  still wait, those that raised and those that were cancelled; what the log held is kept, and every
  record added was escalated upwards only and has a result.
\<close>

theorem interleaved_handlers_accounted:
  assumes "make_moves env ms (handlers_init eng) = Some s"
  shows "\<exists>new. en_history (hd_engine s) = en_history eng @ new \<and>
    (\<forall>r \<in> set new. escalation_valid r \<and> fr_escalated r = (fr_original_tier r < fr_final_tier r) \<and> fr_result r \<noteq> None) \<and>
    mset (map fr_epoch new) + mset (map sp_epoch (hd_waiting s)) + mset (hd_raised s) + mset (hd_cancelled s) =
      mset (map (\<lambda>i. es_epoch (en_epochs eng) + 1 + int i) [0..<hd_begun s]) \<and>
    es_epoch (en_epochs (hd_engine s)) = es_epoch (en_epochs eng) + int (hd_begun s)"
proof -
  from make_moves_accounted [OF assms] obtain new where "en_history (hd_engine s) = en_history eng @ new"
    "\<forall>r \<in> set new. record_at B4 r \<and> fr_result r \<noteq> None"
    "mset (map fr_epoch new) + mset (map sp_epoch (hd_waiting s)) + mset (hd_raised s) + mset (hd_cancelled s) =
        drawn (es_epoch (en_epochs eng)) (hd_begun s)"
    "es_epoch (en_epochs (hd_engine s)) = es_epoch (en_epochs eng) + int (hd_begun s)"
    by (auto simp: accounted_def)
  then show ?thesis using record_at_valid unfolding drawn_def by blast
qed

text \<open>
  C18. Migrations that finish in the order they began leave every connection on a healthy NIC:
  however the handlers of any events overlap, as long as they resume oldest first and none is
  cancelled, a node on which no migration is pending runs on a healthy NIC if its connection is
  stable or migrated, and the newest of several pending migrations moves to a NIC that is
  healthy now.
\<close>

theorem in_order_migrations_safe:
  assumes "en_tier_to_layer eng = runtime_map env" "transport_inv (transport_of eng)"
    and "make_moves env ms (handlers_init eng) = Some s" "\<forall>m \<in> set ms. in_order m"
    and "dget (tl_nodes (transport_of (hd_engine s))) node = Some e"
  shows "(waiting_on node (hd_waiting s) = [] \<longrightarrow> nn_state e = STABLE \<or> nn_state e = MIGRATED \<longrightarrow> nn_nics e \<noteq> [] \<longrightarrow>
      nn_active e \<in> set (healthy_nics e)) \<and>
    (waiting_on node (hd_waiting s) \<noteq> [] \<longrightarrow>
      mg_backup (sp_migration (last (waiting_on node (hd_waiting s)))) \<in> set (healthy_nics e))"
proof -
  have "orderly env (handlers_init eng)"
    using assms(1,2) by (auto simp: orderly_def handlers_init_def node_orderly_def transport_inv_def node_inv_nics_ok)
  from in_order_orderly [OF assms(3) this assms(4)] assms(5) have "node_orderly (waiting_on node (hd_waiting s)) e"
    by (simp add: orderly_def)
  then show ?thesis
    by (auto simp: node_orderly_def node_inv_def nics_ok_def set_healthy split: if_splits)
qed

subsection \<open>Three NICs, two faults\<close>

definition three_nics :: "aegis_world engine" where
  "three_nics = with_transport (register_node_nics ''n'' [''a'', ''b'', ''c''] [] transport_init) (rt_epe (runtime_init demo_env None))"

definition nic_down :: "string \<Rightarrow> telemetry_event" where
  "nic_down nic = two_nic_event\<lparr>ev_node := ''n'', ev_nic := Some nic\<rparr>"

lemma three_nics_wired: "en_tier_to_layer three_nics = runtime_map demo_env" "transport_inv (transport_of three_nics)"
  by (simp_all add: three_nics_def with_transport_def runtime_map_any transport_inv_register)

lemmas handler_eval = handlers_init_def begin_event_def migration_of_def decided_tier_def apply_correlation_window_def
  transport_can_handle_def transport_begin_def transport_finish_def resume_event_def conclude_def blamed_nic_def healthy_nics_def
  Let_def with_transport_def nic_down_def two_nic_event_def classify_eq_signal demo_env_def simulated_migrate_def
  rr_succeeded_def without_def

lemma three_nics_eval:
  "en_observe_only three_nics = False" "en_history three_nics = []" "es_epoch (en_epochs three_nics) = 0"
  "tl_nodes (transport_of three_nics) = [(''n'', mk_node_nics [''a'', ''b'', ''c''] [])]"
  by (simp_all add: three_nics_def with_transport_def runtime_init_def Let_def engine_init_def epoch_init_def
      register_node_nics_def transport_init_def)

text \<open>
  Overtaken: the migration to the NIC that has failed meanwhile finishes last, and the node ends
  up migrated onto it; the audit log has the later epoch first.
\<close>

lemma overtaken_migration_lands_on_failed_nic:
  "\<exists>s e. make_moves demo_env [Begin 0 0 (nic_down ''a''), Begin 0 0 (nic_down ''b''), Resume 1, Resume 0] (handlers_init three_nics) = Some s \<and>
     dget (tl_nodes (transport_of (hd_engine s))) ''n'' = Some e \<and> nn_state e = MIGRATED \<and> nn_active e \<in> nn_failed e \<and>
     map fr_epoch (en_history (hd_engine s)) = [2, 1]"
  by (simp add: handler_eval three_nics_eval mk_node_nics_def set_default_bandwidths_def)

text \<open>
  Cancelled: the node stays in the state MIGRATING with its NIC marked failed, the epoch is drawn
  and there is no record.
\<close>

lemma cancelled_migration_leaves_no_record:
  "\<exists>s e. make_moves demo_env [Begin 0 0 (nic_down ''a''), Cancel 0] (handlers_init three_nics) = Some s \<and>
     dget (tl_nodes (transport_of (hd_engine s))) ''n'' = Some e \<and> nn_state e = MIGRATING \<and> ''a'' \<in> nn_failed e \<and>
     en_history (hd_engine s) = [] \<and> es_epoch (en_epochs (hd_engine s)) = 1"
  by (simp add: handler_eval three_nics_eval mk_node_nics_def set_default_bandwidths_def)

theorem interrupted_handlers_refine_run_witness:
  "\<exists>s. make_moves demo_env [Begin 0 0 (nic_down ''a''), Resume 0] (handlers_init three_nics) = Some s \<and>
     hd_engine s = engine_run [(0, 0, nic_down ''a'')] three_nics \<and> hd_waiting s = []"
proof -
  have "migration_of 0 (nic_down ''a'') three_nics \<noteq> None"
    by (simp add: handler_eval three_nics_eval mk_node_nics_def set_default_bandwidths_def)
  then have moves: "one_by_one three_nics demo_env [(0, 0, nic_down ''a'')] = [Begin 0 0 (nic_down ''a''), Resume 0]" by simp
  from interrupted_handlers_refine_run [OF three_nics_wired(1), of "[(0, 0, nic_down ''a'')]", unfolded moves]
  show ?thesis by blast
qed

theorem interleaved_handlers_accounted_witness:
  "\<exists>s new. make_moves demo_env [Begin 0 0 (nic_down ''a''), Begin 0 0 (nic_down ''b''), Resume 1, Resume 0]
       (handlers_init three_nics) = Some s \<and> en_history (hd_engine s) = new \<and> (\<forall>r \<in> set new. escalation_valid r) \<and> length new = 2"
proof -
  from overtaken_migration_lands_on_failed_nic obtain s where
    s: "make_moves demo_env [Begin 0 0 (nic_down ''a''), Begin 0 0 (nic_down ''b''), Resume 1, Resume 0]
       (handlers_init three_nics) = Some s" "map fr_epoch (en_history (hd_engine s)) = [2, 1]"
    by (elim exE conjE)
  from interleaved_handlers_accounted [OF s(1)] obtain new where
    new: "en_history (hd_engine s) = en_history three_nics @ new" "\<forall>r \<in> set new. escalation_valid r" by blast
  then have "\<forall>r \<in> set (en_history (hd_engine s)). escalation_valid r" by (simp add: three_nics_eval)
  moreover have "length (en_history (hd_engine s)) = 2" using arg_cong [OF s(2), of length] by simp
  ultimately show ?thesis using s(1) by blast
qed

lemma in_order_run:
  "\<exists>s e. make_moves demo_env [Begin 0 0 (nic_down ''a''), Begin 0 0 (nic_down ''b''), Resume 0, Resume 0] (handlers_init three_nics) = Some s \<and>
     dget (tl_nodes (transport_of (hd_engine s))) ''n'' = Some e \<and> nn_state e = MIGRATED \<and> nn_active e = ''c'' \<and>
     nn_nics e \<noteq> [] \<and> hd_waiting s = []"
  by (simp add: handler_eval three_nics_eval mk_node_nics_def set_default_bandwidths_def)

theorem in_order_migrations_safe_witness:
  "\<exists>s e. make_moves demo_env [Begin 0 0 (nic_down ''a''), Begin 0 0 (nic_down ''b''), Resume 0, Resume 0] (handlers_init three_nics) = Some s \<and>
     dget (tl_nodes (transport_of (hd_engine s))) ''n'' = Some e \<and> ''c'' \<in> set (healthy_nics e)"
proof -
  from in_order_run obtain s e where
    s: "make_moves demo_env [Begin 0 0 (nic_down ''a''), Begin 0 0 (nic_down ''b''), Resume 0, Resume 0] (handlers_init three_nics) = Some s"
    and e: "dget (tl_nodes (transport_of (hd_engine s))) ''n'' = Some e" "nn_state e = MIGRATED" "nn_active e = ''c''" "nn_nics e \<noteq> []"
      "hd_waiting s = []" by blast
  have fifo: "\<forall>m \<in> set [Begin 0 0 (nic_down ''a''), Begin 0 0 (nic_down ''b''), Resume 0, Resume 0]. in_order m" by simp
  from in_order_migrations_safe [OF three_nics_wired s fifo e(1)] e(2-4) have "''c'' \<in> set (healthy_nics e)"
    by (simp add: e(5))
  with s e(1) show ?thesis by blast
qed

end
