(* ===== verification/Fault_Flow.thy ===== *)
theory Fault_Flow
  imports Handler_Steps Public_Api
begin

text \<open>
  The running program as one system: the life cycle of the bus (\<open>aegis/telemetry/bus.py\<close>), the
  handlers of its only subscriber, the engine (\<open>aegis/policy/engine.py\<close>), and the calls of the
  public API made meanwhile (\<open>aegis/policy/__init__.py\<close>, \<open>aegis/transport.py\<close>,
  \<open>aegis/checkpoint.py\<close>). A step is one thing that happens between two points at which the event
  loop is given up, or one access of a call of the API: the calls run in the threads of their
  callers, so a save is not one step but reads the epoch and then writes one tier after another,
  with steps of the loop and accesses of other calls in between. What one step does is taken as
  indivisible.
\<close>

subsection \<open>The accesses of the API\<close>

text \<open>
  A change of the policy stores one; a save, named by a number, reads the epoch, then writes its
  tiers in order, with the epoch it read and a clock reading and random payload for each.
\<close>

datatype tier_write = Write_Local | Write_Peer | Write_Remote

datatype api_access =
    Set_Policy operator_policy
  | Read_Epoch nat string int
  | Write_Tier nat tier_write int real bytes

definition engine_store :: "aegis_world engine \<Rightarrow> filesystem storage_layer" where
  "engine_store eng = aw_storage (en_world eng)"

definition with_engine_store :: "filesystem storage_layer \<Rightarrow> aegis_world engine \<Rightarrow> aegis_world engine" where
  "with_engine_store l eng = eng\<lparr>en_world := (en_world eng)\<lparr>aw_storage := l\<rparr>\<rparr>"

definition save_writes :: "string \<Rightarrow> tier_write list" where
  "save_writes tier =
    (if tier \<in> {''auto'', ''local''} then [Write_Local] else []) @
    (if tier \<in> {''auto'', ''peer''} then [Write_Peer] else []) @
    (if tier \<in> {''auto'', ''remote''} then [Write_Remote] else [])"

fun write_one :: "codec \<Rightarrow> tier_write \<Rightarrow> int \<Rightarrow> real \<Rightarrow> bytes \<Rightarrow> filesystem storage_layer \<Rightarrow>
    (pyexc + unit) \<times> filesystem storage_layer" where
  "write_one cd Write_Local epoch now rnd l =
    map_prod (map_sum id (\<lambda>m. ())) id (write_tier1 local_filesystem_backend cd now rnd ''local'' epoch False None l)"
| "write_one cd Write_Peer epoch now rnd l =
    map_prod (map_sum id (\<lambda>m. ())) id (write_tier2 local_filesystem_backend cd now rnd ''local'' epoch False None l)"
| "write_one cd Write_Remote epoch now rnd l =
    (Inr (), snd (write_tier3 local_filesystem_backend cd now rnd epoch False None l))"

fun apply_access :: "runtime_env \<Rightarrow> api_access \<Rightarrow> aegis_world engine \<Rightarrow> aegis_world engine" where
  "apply_access env (Set_Policy p) eng = eng\<lparr>en_policy := p\<rparr>"
| "apply_access env (Read_Epoch i tier epoch) eng = eng"
| "apply_access env (Write_Tier i w epoch now rnd) eng =
    with_engine_store (snd (write_one (re_codec env) w epoch now rnd (engine_store eng))) eng"

text \<open>The saves under way: the epoch each has read and the writes it has still to make.\<close>

type_synonym saves = "nat \<Rightarrow> (int \<times> tier_write list) option"

fun save_of :: "api_access \<Rightarrow> nat option" where
  "save_of (Set_Policy p) = None"
| "save_of (Read_Epoch i tier epoch) = Some i"
| "save_of (Write_Tier i w epoch now rnd) = Some i"

text \<open>
  Which access may come next: a save begins under a number not used before, reads the epoch of
  that moment, and then makes the first of its writes; one that raises is its last.
\<close>

fun saves_after :: "runtime_env \<Rightarrow> api_access \<Rightarrow> aegis_world engine \<Rightarrow> api_access list \<Rightarrow> saves \<Rightarrow> saves option" where
  "saves_after env (Set_Policy p) eng past saves = Some saves"
| "saves_after env (Read_Epoch i tier epoch) eng past saves =
    (if tier \<in> {''auto'', ''local'', ''peer'', ''remote''} \<and> Some i \<notin> set (map save_of past) \<and>
        epoch = epoch_current (en_epochs eng)
     then Some (saves(i \<mapsto> (epoch, save_writes tier))) else None)"
| "saves_after env (Write_Tier i w epoch now rnd) eng past saves =
    (case saves i of
       Some (ep, v # rest) \<Rightarrow>
         (if epoch = ep \<and> w = v
          then Some (saves(i := (case fst (write_one (re_codec env) w epoch now rnd (engine_store eng)) of
                 Inl x \<Rightarrow> None | Inr u \<Rightarrow> Some (ep, rest))))
          else None)
     | _ \<Rightarrow> None)"

text \<open>A save by itself is its writes one after the other, up to the first that raises.\<close>

fun write_tiers :: "codec \<Rightarrow> tier_write list \<Rightarrow> int \<Rightarrow> real \<Rightarrow> (tier_write \<Rightarrow> bytes) \<Rightarrow> filesystem storage_layer \<Rightarrow>
    (pyexc + unit) \<times> filesystem storage_layer" where
  "write_tiers cd [] epoch now rnd l = (Inr (), l)"
| "write_tiers cd (w # ws) epoch now rnd l =
    (case write_one cd w epoch now (rnd w) l of
       (Inl x, l1) \<Rightarrow> (Inl x, l1) | (Inr u, l1) \<Rightarrow> write_tiers cd ws epoch now rnd l1)"

fun random_for :: "bytes \<times> bytes \<times> bytes \<Rightarrow> tier_write \<Rightarrow> bytes" where
  "random_for (b1, b2, b3) Write_Local = b1"
| "random_for (b1, b2, b3) Write_Peer = b2"
| "random_for (b1, b2, b3) Write_Remote = b3"

lemma save_tiers_writes:
  "save_tiers cd tier epoch now rnd l = write_tiers cd (save_writes tier) epoch now (random_for rnd) l"
  by (cases rnd) (simp add: save_tiers_def save_writes_def Let_def split: prod.split sum.split)

text \<open>What the functions of the API do to the engine is made of such accesses.\<close>

lemma policy_functions_are_accesses:
  assumes "as_runtime st = Some rt"
  shows "\<exists>p rt'. as_runtime (snd (set_fast_path enabled st)) = Some rt' \<and> rt_epe rt' = apply_access env (Set_Policy p) (rt_epe rt)"
    and "aegis_policy_set repr key val st = (Inr (), st') \<Longrightarrow>
      \<exists>p rt'. as_runtime st' = Some rt' \<and> rt_epe rt' = apply_access env (Set_Policy p) (rt_epe rt)"
  using assms
  by (auto simp: set_fast_path_def api_runtime_def with_policy_def aegis_policy_set_def split: sum.splits prod.split)

lemma apply_access_frame [simp]:
  "en_epochs (apply_access env c eng) = en_epochs eng" "en_history (apply_access env c eng) = en_history eng"
  "en_tier_to_layer (apply_access env c eng) = en_tier_to_layer eng" "transport_of (apply_access env c eng) = transport_of eng"
  "en_recent_b1s (apply_access env c eng) = en_recent_b1s eng" "en_observe_only (apply_access env c eng) = en_observe_only eng"
  by (cases c; simp add: with_engine_store_def)+

subsection \<open>The system\<close>

datatype task = Loop_Task | Drain_Task

fun idle_at :: "task \<Rightarrow> bus_sys \<Rightarrow> bool" where
  "idle_at Loop_Task b = (bs_loop b = AtTop)"
| "idle_at Drain_Task b = (bs_stop b = Draining)"

fun busy_with :: "task \<Rightarrow> telemetry_event \<Rightarrow> bus_sys \<Rightarrow> bool" where
  "busy_with Loop_Task e b = (bs_loop b = Dispatching e)"
| "busy_with Drain_Task e b = (bs_stop b = DrainDispatch e)"

text \<open>A task takes an event off the queue, puts it down handled, or abandons it.\<close>

fun take_up :: "task \<Rightarrow> telemetry_event list \<Rightarrow> telemetry_event \<Rightarrow> bus_sys \<Rightarrow> bus_sys" where
  "take_up Loop_Task rest e b = (take_event rest e b)\<lparr>bs_loop := Dispatching e\<rparr>"
| "take_up Drain_Task rest e b = (take_event rest e b)\<lparr>bs_stop := DrainDispatch e\<rparr>"

fun put_down :: "task \<Rightarrow> telemetry_event \<Rightarrow> bus_sys \<Rightarrow> bus_sys" where
  "put_down Loop_Task e b = b\<lparr>bs_loop := AtTop, bs_done := bs_done b @ [e]\<rparr>"
| "put_down Drain_Task e b = b\<lparr>bs_stop := Draining, bs_done := bs_done b @ [e]\<rparr>"

fun may_abandon :: "task \<Rightarrow> bus_sys \<Rightarrow> bool" where
  "may_abandon Loop_Task b = (bs_stop b = Cancelling)"
| "may_abandon Drain_Task b = True"

fun abandon :: "task \<Rightarrow> telemetry_event \<Rightarrow> bus_sys \<Rightarrow> bus_sys" where
  "abandon Loop_Task e b = b\<lparr>bs_stop := NotStopping, bs_loop := NoTask, bs_lost := bs_lost b @ [e]\<rparr>"
| "abandon Drain_Task e b = b\<lparr>bs_stop := Cancelling, bs_lost := bs_lost b @ [e], bs_timeouts := bs_timeouts b + 1\<rparr>"

text \<open>
  \<open>rn_tasks\<close> names the task of each waiting handler. The handlers that ended, with whether they
  left a record, and the accesses of the API are history variables; \<open>rn_saves\<close> holds the saves
  under way.
\<close>

record running =
  rn_bus :: bus_sys
  rn_handlers :: handlers
  rn_tasks :: "task list"
  rn_outcomes :: "(telemetry_event \<times> bool) list"
  rn_calls :: "api_access list"
  rn_saves :: saves

definition running_init :: "int \<Rightarrow> aegis_world engine \<Rightarrow> running" where
  "running_init n eng =
    \<lparr>rn_bus = bus_sys_init n, rn_handlers = handlers_init eng, rn_tasks = [], rn_outcomes = [], rn_calls = [], rn_saves = Map.empty\<rparr>"

definition suspends :: "handlers \<Rightarrow> handlers \<Rightarrow> bool" where
  "suspends h h' \<longleftrightarrow> length (hd_waiting h) < length (hd_waiting h')"

definition outcome :: "telemetry_event \<Rightarrow> handlers \<Rightarrow> handlers \<Rightarrow> telemetry_event \<times> bool" where
  "outcome e h h' = (e, hd_raised h' = hd_raised h)"

text \<open>A step of the bus alone is one in which no event is taken, handled or abandoned.\<close>

definition bus_alone :: "bus_sys \<Rightarrow> bus_sys \<Rightarrow> bool" where
  "bus_alone b b' \<longleftrightarrow> bus_step b b' \<and> bs_taken b' = bs_taken b \<and> bs_done b' = bs_done b \<and> bs_lost b' = bs_lost b"

inductive running_step :: "runtime_env \<Rightarrow> running \<Rightarrow> running \<Rightarrow> bool" for env where
  bus_moves: "bus_alone (rn_bus s) b' \<Longrightarrow> running_step env s (s\<lparr>rn_bus := b'\<rparr>)"
| handler_ends: "idle_at t (rn_bus s) \<Longrightarrow> utp_queue (bs_bus (rn_bus s)) = e # rest \<Longrightarrow>
    make_move env (Begin now stamp e) (rn_handlers s) = Some h' \<Longrightarrow> \<not> suspends (rn_handlers s) h' \<Longrightarrow>
    running_step env s (s\<lparr>rn_bus := put_down t e (take_up t rest e (rn_bus s)), rn_handlers := h',
      rn_outcomes := rn_outcomes s @ [outcome e (rn_handlers s) h']\<rparr>)"
| handler_waits: "idle_at t (rn_bus s) \<Longrightarrow> utp_queue (bs_bus (rn_bus s)) = e # rest \<Longrightarrow>
    make_move env (Begin now stamp e) (rn_handlers s) = Some h' \<Longrightarrow> suspends (rn_handlers s) h' \<Longrightarrow>
    running_step env s (s\<lparr>rn_bus := take_up t rest e (rn_bus s), rn_handlers := h', rn_tasks := rn_tasks s @ [t]\<rparr>)"
| handler_resumes: "i < length (rn_tasks s) \<Longrightarrow> rn_tasks s ! i = t \<Longrightarrow> busy_with t e (rn_bus s) \<Longrightarrow>
    make_move env (Resume i) (rn_handlers s) = Some h' \<Longrightarrow>
    running_step env s (s\<lparr>rn_bus := put_down t e (rn_bus s), rn_handlers := h', rn_tasks := without i (rn_tasks s),
      rn_outcomes := rn_outcomes s @ [outcome e (rn_handlers s) h']\<rparr>)"
| handler_abandoned: "i < length (rn_tasks s) \<Longrightarrow> rn_tasks s ! i = t \<Longrightarrow> busy_with t e (rn_bus s) \<Longrightarrow>
    may_abandon t (rn_bus s) \<Longrightarrow> make_move env (Cancel i) (rn_handlers s) = Some h' \<Longrightarrow>
    running_step env s (s\<lparr>rn_bus := abandon t e (rn_bus s), rn_handlers := h', rn_tasks := without i (rn_tasks s)\<rparr>)"
| api_accesses: "saves_after env c (hd_engine (rn_handlers s)) (rn_calls s) (rn_saves s) = Some saves \<Longrightarrow>
    running_step env s (s\<lparr>rn_handlers := (rn_handlers s)\<lparr>hd_engine := apply_access env c (hd_engine (rn_handlers s))\<rparr>,
      rn_calls := rn_calls s @ [c], rn_saves := saves\<rparr>)"

inductive running_reach :: "runtime_env \<Rightarrow> int \<Rightarrow> aegis_world engine \<Rightarrow> running \<Rightarrow> bool" for env n eng where
  run_start: "running_reach env n eng (running_init n eng)"
| run_more: "running_reach env n eng s \<Longrightarrow> running_step env s s' \<Longrightarrow> running_reach env n eng s'"

subsection \<open>The saves keep their order\<close>

definition save_trace :: "nat \<Rightarrow> api_access list \<Rightarrow> api_access list" where
  "save_trace i cs = filter (\<lambda>c. save_of c = Some i) cs"

text \<open>A save that has made the writes \<open>ws\<close> and has \<open>rest\<close> to make.\<close>

definition save_at :: "nat \<Rightarrow> api_access list \<Rightarrow> int \<Rightarrow> tier_write list \<Rightarrow> bool" where
  "save_at i cs epoch rest \<longleftrightarrow>
    (\<exists>tier ws. tier \<in> {''auto'', ''local'', ''peer'', ''remote''} \<and>
      save_trace i cs = Read_Epoch i tier epoch # map (\<lambda>(w, now, rnd). Write_Tier i w epoch now rnd) ws \<and>
      map fst ws @ rest = save_writes tier)"

text \<open>
  The accesses of each save among those of all calls: the epoch is read first, then come the first
  of the writes the tier asks for, in order and each with the epoch read.
\<close>

definition saves_in_order :: "api_access list \<Rightarrow> bool" where
  "saves_in_order cs \<longleftrightarrow> (\<forall>i. save_trace i cs = [] \<or> (\<exists>epoch rest. save_at i cs epoch rest))"

definition saves_match :: "api_access list \<Rightarrow> saves \<Rightarrow> bool" where
  "saves_match cs saves \<longleftrightarrow> saves_in_order cs \<and> (\<forall>i epoch rest. saves i = Some (epoch, rest) \<longrightarrow> save_at i cs epoch rest)"

lemma save_trace_snoc:
  "save_trace i (cs @ [c]) = save_trace i cs @ (if save_of c = Some i then [c] else [])"
  by (simp add: save_trace_def)

lemma save_at_other: "save_of c \<noteq> Some i \<Longrightarrow> save_at i (cs @ [c]) = save_at i cs"
  by (simp add: save_at_def save_trace_snoc fun_eq_iff)

lemma save_at_read:
  assumes "Some i \<notin> set (map save_of cs)" "tier \<in> {''auto'', ''local'', ''peer'', ''remote''}"
  shows "save_at i (cs @ [Read_Epoch i tier epoch]) epoch (save_writes tier)"
proof -
  have "save_trace i cs = []" using assms(1) by (auto simp: save_trace_def filter_empty_conv image_iff)
  with assms(2) show ?thesis unfolding save_at_def
    by (intro exI [of _ tier] exI [of _ "[]"]) (simp add: save_trace_snoc)
qed

lemma save_at_write:
  assumes "save_at i cs epoch (w # rest)"
  shows "save_at i (cs @ [Write_Tier i w epoch now rnd]) epoch rest"
proof -
  from assms obtain tier ws where ws: "tier \<in> {''auto'', ''local'', ''peer'', ''remote''}"
    "save_trace i cs = Read_Epoch i tier epoch # map (\<lambda>(w, now, rnd). Write_Tier i w epoch now rnd) ws"
    "map fst ws @ w # rest = save_writes tier" unfolding save_at_def by blast
  then show ?thesis unfolding save_at_def
    by (intro exI [of _ tier] exI [of _ "ws @ [(w, now, rnd)]"]) (simp add: save_trace_snoc)
qed

lemma saves_match_after:
  assumes "saves_match cs saves" "saves_after env c eng cs saves = Some saves'"
  shows "saves_match (cs @ [c]) saves'"
proof -
  have old: "save_trace j cs = [] \<or> (\<exists>epoch rest. save_at j cs epoch rest)"
    "saves j = Some (epoch, rest) \<Longrightarrow> save_at j cs epoch rest" for j epoch rest
    using assms(1) by (auto simp: saves_match_def saves_in_order_def)
  have keep: "saves_in_order (cs @ [c])" if "\<And>i. save_of c = Some i \<Longrightarrow> \<exists>epoch rest. save_at i (cs @ [c]) epoch rest"
    unfolding saves_in_order_def
  proof
    fix j
    show "save_trace j (cs @ [c]) = [] \<or> (\<exists>epoch rest. save_at j (cs @ [c]) epoch rest)"
      using old(1) [of j] that [of j] by (cases "save_of c = Some j") (simp_all add: save_trace_snoc save_at_other)
  qed
  show ?thesis
  proof (cases c)
    case (Set_Policy p)
    with assms(2) keep old(2) show ?thesis by (auto simp: saves_match_def save_at_other)
  next
    case (Read_Epoch i tier epoch)
    with assms(2) have new: "save_at i (cs @ [c]) epoch (save_writes tier)" "saves' = saves(i \<mapsto> (epoch, save_writes tier))"
      using save_at_read [of i cs tier epoch] by (auto split: if_splits)
    with keep Read_Epoch have "saves_in_order (cs @ [c])" by auto
    with new old(2) Read_Epoch show ?thesis by (auto simp: saves_match_def save_at_other split: if_splits)
  next
    case (Write_Tier i w epoch now rnd)
    with assms(2) obtain rest where s: "saves i = Some (epoch, w # rest)"
      "saves' = saves(i := (case fst (write_one (re_codec env) w epoch now rnd (engine_store eng)) of
        Inl x \<Rightarrow> None | Inr u \<Rightarrow> Some (epoch, rest)))"
      by (auto split: option.splits list.splits if_splits)
    have "save_at i (cs @ [c]) epoch rest" unfolding Write_Tier using save_at_write old(2) s(1) by blast
    moreover from this have "saves_in_order (cs @ [c])" using keep Write_Tier by auto
    ultimately show ?thesis using old(2) Write_Tier s(2)
      by (auto simp: saves_match_def save_at_other split: if_splits sum.splits)
  qed
qed

lemma running_saves: "running_reach env n eng s \<Longrightarrow> saves_match (rn_calls s) (rn_saves s)"
proof (induction rule: running_reach.induct)
  case run_start
  show ?case by (simp add: running_init_def saves_match_def saves_in_order_def save_trace_def)
next
  case (run_more s s')
  from run_more.hyps(2) run_more.IH show ?case
    by (induction rule: running_step.induct) (simp_all add: saves_match_after)
qed

text \<open>A save during which nothing else happens is the save of the API.\<close>

lemma writes_run:
  assumes "running_reach env n eng s" "rn_saves s i = Some (epoch, ws)"
  shows "\<exists>s'. running_reach env n eng s' \<and> rn_bus s' = rn_bus s \<and>
    hd_engine (rn_handlers s') = with_engine_store
      (snd (write_tiers (re_codec env) ws epoch now rnd (engine_store (hd_engine (rn_handlers s))))) (hd_engine (rn_handlers s))"
  using assms
proof (induction ws arbitrary: s)
  case Nil
  then show ?case by (intro exI [of _ s]) (simp add: with_engine_store_def engine_store_def)
next
  case (Cons w ws)
  let ?eng = "hd_engine (rn_handlers s)" and ?c = "Write_Tier i w epoch now (rnd w)"
  let ?h = "(rn_handlers s)\<lparr>hd_engine := apply_access env ?c ?eng\<rparr>"
  obtain r l1 where w: "write_one (re_codec env) w epoch now (rnd w) (engine_store ?eng) = (r, l1)" by force
  let ?saves = "(rn_saves s)(i := (case r of Inl x \<Rightarrow> None | Inr u \<Rightarrow> Some (epoch, ws)))"
  let ?s1 = "s\<lparr>rn_handlers := ?h, rn_calls := rn_calls s @ [?c], rn_saves := ?saves\<rparr>"
  have 1: "running_reach env n eng ?s1" by (rule run_more [OF Cons.prems(1) api_accesses]) (simp add: Cons.prems(2) w)
  have st: "engine_store (with_engine_store l e) = l" "with_engine_store l' (with_engine_store l e) = with_engine_store l' e"
    for l l' e by (simp_all add: engine_store_def with_engine_store_def)
  show ?case
  proof (cases r)
    case (Inl x)
    with 1 w show ?thesis by (intro exI [of _ ?s1]) simp
  next
    case (Inr u)
    from Cons.IH [OF 1] Inr obtain s' where "running_reach env n eng s'" "rn_bus s' = rn_bus s"
      "hd_engine (rn_handlers s') = with_engine_store (snd (write_tiers (re_codec env) ws epoch now rnd l1)) ?eng"
      using w by (auto simp: st)
    with Inr w show ?thesis by (intro exI [of _ s']) simp
  qed
qed

lemma save_alone:
  assumes "running_reach env n eng s" "tier \<in> {''auto'', ''local'', ''peer'', ''remote''}"
    and "as_runtime st = Some rt" "rt_epe rt = hd_engine (rn_handlers s)"
  shows "\<exists>s' rt'. running_reach env n eng s' \<and> rn_bus s' = rn_bus s \<and>
    as_runtime (snd (checkpoint_save (re_codec env) tier now rnd st)) = Some rt' \<and> rt_epe rt' = hd_engine (rn_handlers s')"
proof -
  let ?eng = "hd_engine (rn_handlers s)" and ?ids = "map save_of (rn_calls s)"
  obtain i where i: "Some i \<notin> set ?ids"
    using ex_new_if_finite [OF infinite_UNIV_nat, of "{i. Some i \<in> set ?ids}"]
      finite_vimageI [of "set ?ids" Some] by (auto simp: vimage_def)
  let ?ep = "epoch_current (en_epochs ?eng)"
  let ?s1 = "s\<lparr>rn_handlers := (rn_handlers s)\<lparr>hd_engine := ?eng\<rparr>, rn_calls := rn_calls s @ [Read_Epoch i tier ?ep],
    rn_saves := (rn_saves s)(i \<mapsto> (?ep, save_writes tier))\<rparr>"
  have "running_reach env n eng ?s1"
    using run_more [OF assms(1) api_accesses [of env "Read_Epoch i tier ?ep"]] i assms(2) by simp
  from writes_run [OF this, of i ?ep "save_writes tier" now "random_for rnd"] obtain s' where s':
    "running_reach env n eng s'" "rn_bus s' = rn_bus s" "hd_engine (rn_handlers s') =
      with_engine_store (snd (save_tiers (re_codec env) tier ?ep now rnd (engine_store ?eng))) ?eng"
    by (auto simp: save_tiers_writes)
  then show ?thesis using assms(2-4)
    by (intro exI [of _ s']) (auto simp: checkpoint_save_def api_runtime_def with_storage_def rt_storage_def engine_store_def
      with_engine_store_def split: prod.split)
qed

subsection \<open>The bus sees its own life cycle\<close>

lemma take_up_steps: "idle_at t b \<Longrightarrow> utp_queue (bs_bus b) = e # rest \<Longrightarrow> bus_step b (take_up t rest e b)"
  by (cases t) (auto intro: loop_get drain_get)

lemma put_down_steps: "busy_with t e b \<Longrightarrow> bus_step b (put_down t e b)"
  by (cases t) (auto intro: loop_done drain_done)

lemma abandon_steps: "busy_with t e b \<Longrightarrow> may_abandon t b \<Longrightarrow> bus_step b (abandon t e b)"
  using drain_timeout_busy [of b e] cancel_busy [of b e] by (cases t) auto

lemma take_up_busy: "busy_with t e (take_up t rest e b)"
  by (cases t) simp_all

lemma running_step_bus:
  assumes "running_step env s s'"
  shows "bus_step\<^sup>*\<^sup>* (rn_bus s) (rn_bus s')"
  using assms
proof (induction rule: running_step.induct)
  case (handler_ends t s e rest now stamp h')
  show ?case
    using converse_rtranclp_into_rtranclp [OF take_up_steps [OF handler_ends.hyps(1,2)] r_into_rtranclp [of bus_step, OF put_down_steps [OF take_up_busy]]]
    by simp
qed (auto simp: bus_alone_def intro: r_into_rtranclp take_up_steps put_down_steps abandon_steps)

lemma bus_reach_more: "bus_step\<^sup>*\<^sup>* b b' \<Longrightarrow> bus_reach n b \<Longrightarrow> bus_reach n b'"
  by (induction rule: rtranclp_induct) (auto intro: bus_more)

lemma running_bus: "running_reach env n eng s \<Longrightarrow> bus_reach n (rn_bus s)"
proof (induction rule: running_reach.induct)
  case run_start
  show ?case by (simp add: running_init_def bus_start)
next
  case (run_more s s')
  then show ?case using bus_reach_more [OF running_step_bus] by blast
qed

lemma stops_grow: "bus_step\<^sup>*\<^sup>* b b' \<Longrightarrow> bs_stops b \<le> bs_stops b'"
proof (induction rule: rtranclp_induct)
  case (step b1 b2)
  from step.hyps(2) have "bs_stops b1 \<le> bs_stops b2" by (induction rule: bus_step.induct) (simp_all add: take_event_def)
  with step.IH show ?case by simp
qed simp

subsection \<open>Whose handler waits\<close>

text \<open>The event a task has in hand.\<close>

fun in_hand :: "bus_sys \<Rightarrow> task \<Rightarrow> telemetry_event option" where
  "in_hand b Loop_Task = (case bs_loop b of Dispatching e \<Rightarrow> Some e | _ \<Rightarrow> None)"
| "in_hand b Drain_Task = (case bs_stop b of DrainDispatch e \<Rightarrow> Some e | _ \<Rightarrow> None)"

lemma busy_in_hand: "busy_with t e b \<longleftrightarrow> in_hand b t = Some e"
  by (cases t) (auto split: loop_pc.split stop_pc.split)

lemma idle_in_hand: "idle_at t b \<Longrightarrow> in_hand b t = None"
  by (cases t) auto

lemma in_hand_moves:
  "in_hand (take_up t rest e b) = (in_hand b)(t \<mapsto> e)"
  "in_hand (put_down t e b) = (in_hand b)(t := None)"
  "may_abandon t b \<Longrightarrow> in_hand (abandon t e b) = (in_hand b)(t := None)"
  by (rule ext, rename_tac u, case_tac t; case_tac u; simp add: take_event_def)+

lemma in_hand_alone:
  assumes "bus_alone b b'"
  shows "in_hand b' = in_hand b"
proof (rule ext)
  fix t
  from assms have "bus_step b b'" and same: "bs_taken b' = bs_taken b" "bs_done b' = bs_done b" "bs_lost b' = bs_lost b"
    by (simp_all add: bus_alone_def)
  then show "in_hand b' t = in_hand b t"
    by (cases t; cases rule: bus_step.cases) (auto simp: take_event_def)
qed

text \<open>The waiting handlers, each with its task.\<close>

definition in_flight :: "running \<Rightarrow> (task \<times> telemetry_event) list" where
  "in_flight s = zip (rn_tasks s) (map (\<lambda>sp. fr_event (sp_record sp)) (hd_waiting (rn_handlers s)))"

definition tasks_match :: "running \<Rightarrow> bool" where
  "tasks_match s \<longleftrightarrow> length (rn_tasks s) = length (hd_waiting (rn_handlers s)) \<and> distinct (rn_tasks s) \<and>
    map_of (in_flight s) = in_hand (rn_bus s)"

lemma without_zip: "length xs = length ys \<Longrightarrow> zip (without i xs) (without i ys) = without i (zip xs ys)"
  by (simp add: without_def take_zip drop_zip)

lemma without_map: "without i (map f xs) = map f (without i xs)"
  by (simp add: without_def take_map drop_map)

lemma length_without: "i < length xs \<Longrightarrow> length (without i xs) = length xs - 1"
  by (simp add: without_def)

lemma distinct_without: "distinct xs \<Longrightarrow> distinct (without i xs)"
  by (auto simp: without_def dest: set_take_disj_set_drop_if_distinct [of xs i "Suc i"])

lemma map_of_without:
  assumes "distinct (map fst xs)" "i < length xs"
  shows "map_of (without i xs) = (map_of xs)(fst (xs ! i) := None)"
proof -
  obtain k v where kv: "xs ! i = (k, v)" by force
  have split: "xs = take i xs @ (k, v) # drop (Suc i) xs" using id_take_nth_drop [OF assms(2)] kv by simp
  from assms(1) have "k \<notin> fst ` set (take i xs)" "k \<notin> fst ` set (drop (Suc i) xs)"
    by (subst (asm) split, simp)+
  then have "map_of (take i xs) k = None" "map_of (drop (Suc i) xs) k = None" by (simp_all add: map_of_eq_None_iff)
  then show ?thesis
    unfolding without_def kv fst_conv by (subst (3) split) (auto simp: map_add_def fun_eq_iff split: option.split)
qed

lemma begin_move:
  assumes "make_move env (Begin now stamp e) h = Some h'"
  obtains (waits) sp where "suspends h h'" "begin_event now stamp e (hd_engine h) = (Inl sp, hd_engine h')"
      "hd_waiting h' = hd_waiting h @ [sp]" "fr_event (sp_record sp) = e"
  | (ends) out where "\<not> suspends h h'" "on_event now stamp e (hd_engine h) = (out, hd_engine h')" "hd_waiting h' = hd_waiting h"
      "hd_raised h' = (case out of Inl x \<Rightarrow> hd_raised h @ [epoch_current (en_epochs (hd_engine h'))] | Inr u \<Rightarrow> hd_raised h)"
proof -
  obtain b eng where b: "begin_event now stamp e (hd_engine h) = (b, eng)" by force
  show ?thesis
  proof (cases b)
    case (Inl sp)
    with begin_event_books b have "fr_event (sp_record sp) = e" by blast
    with assms b Inl waits [of sp] show ?thesis by (auto simp: suspends_def)
  next
    case (Inr out)
    then have "on_event now stamp e (hd_engine h) = (out, eng)" using b
      by (auto simp: begin_event_def split: option.splits prod.splits)
    with assms b Inr show ?thesis by (intro ends [of out]) (auto simp: suspends_def split: sum.splits)
  qed
qed

lemma settle_move:
  assumes "make_move env m h = Some h'" "m = Resume i \<or> m = Cancel i"
  shows "i < length (hd_waiting h)" "hd_waiting h' = without i (hd_waiting h)"
  using assms by (auto split: if_splits prod.splits)

lemma tasks_match_fst: "tasks_match s \<Longrightarrow> map fst (in_flight s) = rn_tasks s"
  by (simp add: tasks_match_def in_flight_def)

lemma tasks_match_without:
  assumes "tasks_match s" "i < length (rn_tasks s)" "hd_waiting h' = without i (hd_waiting (rn_handlers s))"
    and "in_hand b' = (in_hand (rn_bus s))(rn_tasks s ! i := None)"
  shows "tasks_match (s\<lparr>rn_bus := b', rn_handlers := h', rn_tasks := without i (rn_tasks s), rn_outcomes := out\<rparr>)"
proof -
  have len: "length (rn_tasks s) = length (hd_waiting (rn_handlers s))" and dist: "distinct (rn_tasks s)"
    and mp: "map_of (in_flight s) = in_hand (rn_bus s)" using assms(1) by (simp_all add: tasks_match_def)
  let ?s' = "s\<lparr>rn_bus := b', rn_handlers := h', rn_tasks := without i (rn_tasks s), rn_outcomes := out\<rparr>"
  have fl: "in_flight ?s' = without i (in_flight s)"
    using len by (simp add: in_flight_def assms(3) without_zip flip: without_map)
  have "fst (in_flight s ! i) = rn_tasks s ! i" using assms(2) len by (simp add: in_flight_def)
  moreover have "distinct (map fst (in_flight s))" using tasks_match_fst [OF assms(1)] dist by simp
  moreover have "i < length (in_flight s)" using assms(2) len by (simp add: in_flight_def)
  ultimately have "map_of (in_flight ?s') = in_hand b'" unfolding fl assms(4) by (simp add: map_of_without mp)
  with len dist assms(2,3) show ?thesis by (simp add: tasks_match_def distinct_without length_without)
qed

lemma tasks_match_step:
  assumes "running_step env s s'" "tasks_match s"
  shows "tasks_match s'"
  using assms
proof (induction rule: running_step.induct)
  case (bus_moves s b')
  then show ?case by (simp add: tasks_match_def in_flight_def in_hand_alone)
next
  case (handler_ends t s e rest now stamp h')
  from handler_ends.hyps(3) have "hd_waiting h' = hd_waiting (rn_handlers s)"
    by (rule begin_move) (use handler_ends.hyps(4) in simp_all)
  with handler_ends.prems idle_in_hand [OF handler_ends.hyps(1)] show ?case
    by (simp add: tasks_match_def in_flight_def in_hand_moves fun_upd_idem)
next
  case (handler_waits t s e rest now stamp h')
  from handler_waits.hyps(3) obtain sp where sp: "hd_waiting h' = hd_waiting (rn_handlers s) @ [sp]" "fr_event (sp_record sp) = e"
    by (rule begin_move) (use handler_waits.hyps(4) in simp_all)
  have "map_of (in_flight s) t = None"
    using handler_waits.prems idle_in_hand [OF handler_waits.hyps(1)] by (simp add: tasks_match_def)
  then have "t \<notin> set (rn_tasks s)"
    using tasks_match_fst [OF handler_waits.prems] by (metis map_of_eq_None_iff set_map)
  with sp handler_waits.prems \<open>map_of (in_flight s) t = None\<close> show ?case
    by (auto simp: tasks_match_def in_flight_def in_hand_moves map_add_def fun_eq_iff split: option.split)
next
  case (handler_resumes i s t e h')
  from tasks_match_without [OF handler_resumes.prems handler_resumes.hyps(1) settle_move(2) [OF handler_resumes.hyps(4)]]
  show ?case by (simp add: handler_resumes.hyps(2) in_hand_moves)
next
  case (handler_abandoned i s t e h')
  from tasks_match_without [OF handler_abandoned.prems handler_abandoned.hyps(1) settle_move(2) [OF handler_abandoned.hyps(5)],
      where out = "rn_outcomes s"]
  show ?case by (simp add: handler_abandoned.hyps(2,4) in_hand_moves)
next
  case (api_accesses c s saves)
  then show ?case by (simp add: tasks_match_def in_flight_def)
qed

lemma running_tasks: "running_reach env n eng s \<Longrightarrow> tasks_match s"
proof (induction rule: running_reach.induct)
  case run_start
  have "in_hand (bus_sys_init n) t = None" for t by (cases t) (simp_all add: bus_sys_init_def)
  then show ?case by (auto simp: tasks_match_def running_init_def handlers_init_def in_flight_def)
qed (rule tasks_match_step)

subsection \<open>What the log holds\<close>

text \<open>A handler that ends leaves one record of its event, or none when it raised.\<close>

definition leaves_record :: "telemetry_event \<Rightarrow> handlers \<Rightarrow> handlers \<Rightarrow> bool" where
  "leaves_record e h h' \<longleftrightarrow> (\<exists>rs. en_history (hd_engine h') = en_history (hd_engine h) @ rs \<and>
     map fr_event rs = (if snd (outcome e h h') then [e] else []))"

lemma begin_leaves_record:
  assumes "make_move env (Begin now stamp e) h = Some h'" "\<not> suspends h h'"
  shows "leaves_record e h h'"
  using assms(1)
proof (cases rule: begin_move)
  case (ends out)
  show ?thesis
  proof (cases out)
    case (Inl x)
    with on_event_books [OF ends(2)] ends(4) show ?thesis by (simp add: leaves_record_def outcome_def)
  next
    case (Inr u)
    with on_event_books [OF ends(2)] ends(4) show ?thesis by (auto simp: leaves_record_def outcome_def)
  qed
qed (use assms(2) in simp)

lemma resume_leaves_record:
  assumes "make_move env (Resume i) h = Some h'" "accounted eng0 h" "fr_event (sp_record (hd_waiting h ! i)) = e"
  shows "leaves_record e h h'"
proof -
  let ?sp = "hd_waiting h ! i"
  have i: "i < length (hd_waiting h)" using settle_move(1) [OF assms(1)] by simp
  then have B0: "record_at B0 (sp_record ?sp)" "fr_original_tier (sp_record ?sp) = B0"
    using assms(2) by (simp_all add: accounted_def)
  obtain out eng' where r: "resume_event env ?sp (hd_engine h) = (out, eng')" by force
  with assms(1) i have h': "hd_engine h' = eng'"
    "hd_raised h' = (case out of Inl x \<Rightarrow> hd_raised h @ [sp_epoch ?sp] | Inr u \<Rightarrow> hd_raised h)" by auto
  show ?thesis
    using resume_event_books [OF r B0] h' assms(3) by (cases out) (auto simp: leaves_record_def outcome_def)
qed

lemma abandon_keeps_log: "make_move env (Cancel i) h = Some h' \<Longrightarrow> en_history (hd_engine h') = en_history (hd_engine h)"
  by (auto split: if_splits)

definition log_matches :: "aegis_world engine \<Rightarrow> running \<Rightarrow> bool" where
  "log_matches eng0 s \<longleftrightarrow> bs_done (rn_bus s) = map fst (rn_outcomes s) \<and>
    (\<exists>new. en_history (hd_engine (rn_handlers s)) = en_history eng0 @ new \<and>
      map fr_event new = map fst (filter snd (rn_outcomes s))) \<and>
    hd_begun (rn_handlers s) = length (bs_taken (rn_bus s))"

lemma log_matches_end:
  assumes "log_matches eng0 s" "leaves_record e (rn_handlers s) h'" "bs_done b' = bs_done (rn_bus s) @ [e]"
    and "hd_begun h' = length (bs_taken b')"
  shows "log_matches eng0 (s\<lparr>rn_bus := b', rn_handlers := h', rn_tasks := ts,
    rn_outcomes := rn_outcomes s @ [outcome e (rn_handlers s) h']\<rparr>)"
proof -
  have "fst (outcome e (rn_handlers s) h') = e" by (simp add: outcome_def)
  with assms show ?thesis
    by (cases "snd (outcome e (rn_handlers s) h')") (auto simp: log_matches_def leaves_record_def)
qed

lemma put_down_done [simp]: "bs_done (put_down t e b) = bs_done b @ [e]" "bs_done (take_up t rest e b) = bs_done b"
  "bs_done (abandon t e b) = bs_done b" "bs_taken (put_down t e b) = bs_taken b"
  "bs_taken (take_up t rest e b) = bs_taken b @ [e]" "bs_taken (abandon t e b) = bs_taken b"
  by (cases t; simp add: take_event_def)+

lemma begun_move [simp]:
  "make_move env (Begin now stamp e) h = Some h' \<Longrightarrow> hd_begun h' = hd_begun h + 1"
  "make_move env (Resume i) h = Some h' \<Longrightarrow> hd_begun h' = hd_begun h"
  "make_move env (Cancel i) h = Some h' \<Longrightarrow> hd_begun h' = hd_begun h"
  by (auto split: prod.splits sum.splits if_splits)

lemma resumed_event:
  assumes "tasks_match s" "i < length (rn_tasks s)" "busy_with (rn_tasks s ! i) e (rn_bus s)"
  shows "fr_event (sp_record (hd_waiting (rn_handlers s) ! i)) = e"
proof -
  have "distinct (map fst (in_flight s))" using tasks_match_fst [OF assms(1)] assms(1) by (simp add: tasks_match_def)
  moreover have "in_flight s ! i \<in> set (in_flight s)" "in_flight s ! i = (rn_tasks s ! i, fr_event (sp_record (hd_waiting (rn_handlers s) ! i)))"
    using assms(1,2) by (auto simp: tasks_match_def in_flight_def in_set_conv_nth)
  ultimately have "map_of (in_flight s) (rn_tasks s ! i) = Some (fr_event (sp_record (hd_waiting (rn_handlers s) ! i)))"
    by (simp add: map_of_eq_Some_iff)
  with assms(1,3) show ?thesis by (simp add: tasks_match_def busy_in_hand)
qed

lemma accounted_call: "accounted eng0 h \<Longrightarrow> accounted eng0 (h\<lparr>hd_engine := apply_access env c (hd_engine h)\<rparr>)"
  by (simp add: accounted_def)

lemma running_step_log:
  assumes "running_step env s s'" "tasks_match s" "accounted eng0 (rn_handlers s) \<and> log_matches eng0 s"
  shows "accounted eng0 (rn_handlers s') \<and> log_matches eng0 s'"
  using assms
proof (induction rule: running_step.induct)
  case (bus_moves s b')
  then show ?case by (simp add: log_matches_def bus_alone_def)
next
  case (handler_ends t s e rest now stamp h')
  let ?b = "put_down t e (take_up t rest e (rn_bus s))"
  have acc: "accounted eng0 (rn_handlers s)" "log_matches eng0 s" using handler_ends.prems(2) by simp_all
  from acc(2) begun_move(1) [OF handler_ends.hyps(3)] have "hd_begun h' = length (bs_taken ?b)" by (simp add: log_matches_def)
  with log_matches_end [OF acc(2) begin_leaves_record [OF handler_ends.hyps(3,4)], of ?b "rn_tasks s"]
    accounted_begin [OF acc(1) handler_ends.hyps(3)]
  show ?case by simp
next
  case (handler_waits t s e rest now stamp h')
  from handler_waits.hyps(3) obtain sp where b: "begin_event now stamp e (hd_engine (rn_handlers s)) = (Inl sp, hd_engine h')"
    by (rule begin_move) (use handler_waits.hyps(4) in simp_all)
  from begin_event_books [OF b] handler_waits.prems(2) accounted_begin [OF _ handler_waits.hyps(3)]
    begun_move(1) [OF handler_waits.hyps(3)] show ?case
    by (simp add: log_matches_def del: make_move.simps)
next
  case (handler_resumes i s t e h')
  have ev: "fr_event (sp_record (hd_waiting (rn_handlers s) ! i)) = e"
    using resumed_event [OF handler_resumes.prems(1) handler_resumes.hyps(1)] handler_resumes.hyps(2,3) by simp
  have acc: "accounted eng0 (rn_handlers s)" "log_matches eng0 s" using handler_resumes.prems(2) by simp_all
  from acc(2) begun_move(2) [OF handler_resumes.hyps(4)] have "hd_begun h' = length (bs_taken (put_down t e (rn_bus s)))"
    by (simp add: log_matches_def)
  with log_matches_end [OF acc(2) resume_leaves_record [OF handler_resumes.hyps(4) acc(1) ev], of "put_down t e (rn_bus s)"]
    accounted_settle [OF acc(1) settle_move(1) [OF handler_resumes.hyps(4)] handler_resumes.hyps(4)]
  show ?case by simp
next
  case (handler_abandoned i s t e h')
  have acc: "accounted eng0 (rn_handlers s)" "log_matches eng0 s" using handler_abandoned.prems(2) by simp_all
  from accounted_settle [OF acc(1) settle_move(1) [OF handler_abandoned.hyps(5)] handler_abandoned.hyps(5)] acc(2)
    abandon_keeps_log [OF handler_abandoned.hyps(5)] begun_move(3) [OF handler_abandoned.hyps(5)]
  show ?case by (simp add: log_matches_def)
next
  case (api_accesses c s saves)
  then show ?case by (simp add: accounted_call log_matches_def)
qed

lemma running_log: "running_reach env n eng s \<Longrightarrow> accounted eng (rn_handlers s) \<and> log_matches eng s"
proof (induction rule: running_reach.induct)
  case run_start
  show ?case
    by (simp add: running_init_def handlers_init_def accounted_def drawn_def log_matches_def bus_sys_init_def)
next
  case (run_more s s')
  then show ?case using running_step_log [OF _ running_tasks] by blast
qed

subsection \<open>The run behind an interleaving\<close>

text \<open>One thing after another: an event handled from its start to its end, or an access of the API.\<close>

datatype operation = Handle real real telemetry_event | Access api_access

fun apply_op :: "runtime_env \<Rightarrow> operation \<Rightarrow> aegis_world engine \<Rightarrow> aegis_world engine" where
  "apply_op env (Handle now stamp e) eng = snd (on_event now stamp e eng)"
| "apply_op env (Access c) eng = apply_access env c eng"

fun op_events :: "operation list \<Rightarrow> telemetry_event list" where
  "op_events [] = []"
| "op_events (Handle now stamp e # ops) = e # op_events ops"
| "op_events (Access c # ops) = op_events ops"

fun op_calls :: "operation list \<Rightarrow> api_access list" where
  "op_calls [] = []"
| "op_calls (Handle now stamp e # ops) = op_calls ops"
| "op_calls (Access c # ops) = c # op_calls ops"

text \<open>
  A save reads the epoch of its moment, or the next one, when it begins while a migration is
  awaited.
\<close>

fun access_timely :: "api_access \<Rightarrow> aegis_world engine \<Rightarrow> bool" where
  "access_timely (Read_Epoch i tier epoch) eng =
    (epoch = epoch_current (en_epochs eng) \<or> epoch = epoch_current (en_epochs eng) + 1)"
| "access_timely c eng = True"

fun op_timely :: "operation \<Rightarrow> aegis_world engine \<Rightarrow> bool" where
  "op_timely (Handle now stamp e) eng = True"
| "op_timely (Access c) eng = access_timely c eng"

fun run_ops :: "runtime_env \<Rightarrow> operation list \<Rightarrow> aegis_world engine \<Rightarrow> aegis_world engine" where
  "run_ops env [] eng = eng"
| "run_ops env (p # ps) eng = run_ops env ps (apply_op env p eng)"

fun ops_timely :: "runtime_env \<Rightarrow> operation list \<Rightarrow> aegis_world engine \<Rightarrow> bool" where
  "ops_timely env [] eng = True"
| "ops_timely env (p # ps) eng =
    (op_timely p eng \<and> ops_timely env ps (apply_op env p eng))"

lemma run_ops_snoc: "run_ops env (ps @ [p]) eng = apply_op env p (run_ops env ps eng)"
  by (induction ps arbitrary: eng) simp_all

lemma ops_timely_snoc: "ops_timely env (ps @ [p]) eng \<longleftrightarrow>
  ops_timely env ps eng \<and> op_timely p (run_ops env ps eng)"
  by (induction ps arbitrary: eng) simp_all

lemma op_events_append: "op_events (ps @ qs) = op_events ps @ op_events qs"
  by (induction ps rule: op_events.induct) simp_all

lemma op_calls_append: "op_calls (ps @ qs) = op_calls ps @ op_calls qs"
  by (induction ps rule: op_calls.induct) simp_all

lemma run_ops_wired: "en_tier_to_layer (run_ops env ps eng) = en_tier_to_layer eng"
proof (induction ps arbitrary: eng)
  case (Cons p ps)
  have "en_tier_to_layer (apply_op env p eng) = en_tier_to_layer eng"
  proof (cases p)
    case (Handle now stamp e)
    with on_event_books [of now stamp e eng "fst (on_event now stamp e eng)" "snd (on_event now stamp e eng)"] show ?thesis by simp
  qed simp
  with Cons.IH show ?case by simp
qed simp

text \<open>What a handler does before its wait reads neither the policy nor the stored checkpoints.\<close>

lemma decided_B0: "decided_tier now ev eng = B0 \<longleftrightarrow> classify ev = B0"
  by (simp add: decided_tier_def apply_correlation_window_def Let_def)

lemma waiting_call_commutes:
  assumes "begin_event now stamp e eng = (Inl sp, eng')"
  shows "begin_event now stamp e (apply_access env c eng) = (Inl sp, apply_access env c eng')"
proof -
  obtain m lay where mig: "migration_of now e eng = Some (m, lay)"
    using assms by (cases "migration_of now e eng") (auto simp: begin_event_def split: prod.splits)
  have B0: "classify e = B0" using migration_of_Some(2) [OF mig] by (simp add: decided_B0)
  have mig': "migration_of now e (apply_access env c eng) = Some (m, lay)"
    using migration_of_Some [OF mig] B0 by (simp add: migration_of_def decided_B0)
  have "apply_access env c (with_transport lay (entered now e eng)) = with_transport lay (entered now e (apply_access env c eng))"
    by (cases c) (simp_all add: with_transport_def entered_def apply_correlation_window_def B0 engine_store_def with_engine_store_def)
  moreover have "new_record now stamp e (apply_access env c eng) = new_record now stamp e eng"
    using B0 by (simp add: new_record_def decided_tier_def apply_correlation_window_def)
  ultimately show ?thesis using assms by (auto simp: begin_event_def mig mig')
qed

text \<open>The engine is that of a run of whole operations, or of one and the first half of a handler.\<close>

definition behind :: "runtime_env \<Rightarrow> aegis_world engine \<Rightarrow> running \<Rightarrow> operation list \<Rightarrow> bool" where
  "behind env eng0 s ops \<longleftrightarrow>
    op_events ops = bs_done (rn_bus s) \<and> op_calls ops = rn_calls s \<and> ops_timely env ops eng0 \<and>
    (case hd_waiting (rn_handlers s) of
       [] \<Rightarrow> hd_engine (rn_handlers s) = run_ops env ops eng0
     | [sp] \<Rightarrow> \<exists>now stamp e. begin_event now stamp e (run_ops env ops eng0) = (Inl sp, hd_engine (rn_handlers s))
     | _ \<Rightarrow> False)"

lemma unstopped_tasks:
  assumes "running_reach env n eng s" "bs_stops (rn_bus s) = 0"
  shows "in_hand (rn_bus s) Drain_Task = None" "bs_stop (rn_bus s) = NotStopping" "set (rn_tasks s) \<subseteq> {Loop_Task}" "bs_lost (rn_bus s) = []"
proof -
  have inv: "bus_inv n (rn_bus s)" using bus_reach_inv [OF running_bus [OF assms(1)]] .
  then show stop: "bs_stop (rn_bus s) = NotStopping" and "bs_lost (rn_bus s) = []" using assms(2) by (simp_all add: bus_inv_def)
  then show hand: "in_hand (rn_bus s) Drain_Task = None" by simp
  have "map_of (in_flight s) Drain_Task = None" using hand running_tasks [OF assms(1)] by (simp add: tasks_match_def)
  then have "Drain_Task \<notin> set (rn_tasks s)"
    using tasks_match_fst [OF running_tasks [OF assms(1)]] by (metis map_of_eq_None_iff set_map)
  then show "set (rn_tasks s) \<subseteq> {Loop_Task}" by (auto intro: task.exhaust)
qed

lemma unstopped_waiting:
  assumes "running_reach env n eng s" "bs_stops (rn_bus s) = 0"
  shows "(hd_waiting (rn_handlers s) = [] \<and> in_hand (rn_bus s) Loop_Task = None) \<or>
    (\<exists>sp. hd_waiting (rn_handlers s) = [sp] \<and> in_hand (rn_bus s) Loop_Task = Some (fr_event (sp_record sp)) \<and> rn_tasks s = [Loop_Task])"
proof -
  have tm: "length (rn_tasks s) = length (hd_waiting (rn_handlers s))" "distinct (rn_tasks s)" "map_of (in_flight s) = in_hand (rn_bus s)"
    using running_tasks [OF assms(1)] by (simp_all add: tasks_match_def)
  have sub: "set (rn_tasks s) \<subseteq> {Loop_Task}" using unstopped_tasks [OF assms] by blast
  consider "rn_tasks s = []" | "rn_tasks s = [Loop_Task]" | t u ts where "rn_tasks s = t # u # ts"
    using sub by (cases "rn_tasks s" rule: remdups_adj.cases) auto
  then show ?thesis
  proof cases
    case 1
    then have "in_hand (rn_bus s) Loop_Task = None" by (simp add: in_flight_def del: in_hand.simps flip: tm(3))
    with 1 tm(1) show ?thesis by simp
  next
    case 2
    with tm(1) obtain sp where sp: "hd_waiting (rn_handlers s) = [sp]" by (cases "hd_waiting (rn_handlers s)") auto
    with tm(3) 2 have "in_hand (rn_bus s) = [Loop_Task \<mapsto> fr_event (sp_record sp)]" by (simp add: in_flight_def)
    with sp 2 show ?thesis by simp
  next
    case 3
    with sub tm(2) show ?thesis by auto
  qed
qed

lemma behind_api:
  assumes "behind env eng0 s ops" "saves_after env c (hd_engine (rn_handlers s)) past saves = Some saves'"
  shows "behind env eng0 (s\<lparr>rn_handlers := (rn_handlers s)\<lparr>hd_engine := apply_access env c (hd_engine (rn_handlers s))\<rparr>,
      rn_calls := rn_calls s @ [c], rn_saves := saves'\<rparr>) (ops @ [Access c])"
proof -
  let ?x = "run_ops env ops eng0" and ?w = "hd_waiting (rn_handlers s)"
  have books: "op_events ops = bs_done (rn_bus s)" "op_calls ops = rn_calls s" "ops_timely env ops eng0"
    using assms(1) by (simp_all add: behind_def)
  consider "?w = []" "hd_engine (rn_handlers s) = ?x"
    | sp now stamp e where "?w = [sp]" "begin_event now stamp e ?x = (Inl sp, hd_engine (rn_handlers s))"
    using assms(1) by (auto simp: behind_def split: list.splits)
  then show ?thesis
  proof cases
    case 1
    with assms(2) have "access_timely c ?x" by (cases c) (simp_all split: if_splits)
    with 1 books show ?thesis by (simp add: behind_def op_events_append op_calls_append ops_timely_snoc run_ops_snoc)
  next
    case 2
    with assms(2) begin_event_books [OF 2(2)] have "access_timely c ?x"
      by (cases c) (simp_all add: epoch_current_def split: if_splits)
    moreover have "begin_event now stamp e (apply_access env c ?x) = (Inl sp, apply_access env c (hd_engine (rn_handlers s)))"
      by (rule waiting_call_commutes [OF 2(2)])
    ultimately show ?thesis using 2(1) books
      by (auto simp: behind_def op_events_append op_calls_append ops_timely_snoc run_ops_snoc)
  qed
qed

lemma behind_resume:
  assumes "en_tier_to_layer eng0 = runtime_map env" "behind env eng0 s ops" "hd_waiting (rn_handlers s) = [sp]"
    and "fr_event (sp_record sp) = e" "make_move env (Resume 0) (rn_handlers s) = Some h'"
    and "bs_done b' = bs_done (rn_bus s) @ [e]"
  shows "\<exists>now stamp. behind env eng0 (s\<lparr>rn_bus := b', rn_handlers := h', rn_tasks := ts, rn_outcomes := out\<rparr>) (ops @ [Handle now stamp e])"
proof -
  let ?x = "run_ops env ops eng0"
  obtain now stamp e' where half: "begin_event now stamp e' ?x = (Inl sp, hd_engine (rn_handlers s))"
    using assms(2,3) by (auto simp: behind_def)
  with begin_event_books assms(4) have e': "e' = e" by blast
  have "en_tier_to_layer ?x = runtime_map env" using run_ops_wired assms(1) by simp
  from handler_halves [OF this, of now stamp e'] half
  have "on_event now stamp e ?x = resume_event env sp (hd_engine (rn_handlers s))" by (simp add: e')
  with assms(3,5) have h': "hd_engine h' = snd (on_event now stamp e ?x)" "hd_waiting h' = []"
    by (auto simp: without_def split: prod.splits)
  then have "behind env eng0 (s\<lparr>rn_bus := b', rn_handlers := h', rn_tasks := ts, rn_outcomes := out\<rparr>) (ops @ [Handle now stamp e])"
    using assms(2,6) by (simp add: behind_def op_events_append op_calls_append ops_timely_snoc run_ops_snoc)
  then show ?thesis by blast
qed

lemma running_step_behind:
  assumes "running_step env s s'" "running_reach env n eng0 s" "en_tier_to_layer eng0 = runtime_map env"
    and "bs_stops (rn_bus s) = 0" "behind env eng0 s ops"
  shows "\<exists>ops'. behind env eng0 s' ops'"
proof -
  note idle = unstopped_waiting [OF assms(2,4)] and stop = unstopped_tasks [OF assms(2,4)]
  have loop: "t = Loop_Task" if "idle_at t (rn_bus s) \<or> busy_with t e (rn_bus s)" for t e
    using that stop(2) by (cases t) auto
  have rest: "hd_waiting (rn_handlers s) = []" if "idle_at t (rn_bus s)" for t
    using idle loop [of t] idle_in_hand [OF that] that by auto
  from assms(1) show ?thesis
  proof (cases rule: running_step.cases)
    case (bus_moves b')
    with assms(5) have "behind env eng0 s' ops" by (simp add: behind_def bus_alone_def split: list.splits)
    then show ?thesis ..
  next
    case (handler_ends t e rest' now stamp h')
    from handler_ends(4) obtain out where "on_event now stamp e (hd_engine (rn_handlers s)) = (out, hd_engine h')"
      "hd_waiting h' = hd_waiting (rn_handlers s)" by (rule begin_move) (use handler_ends(5) in simp_all)
    with assms(5) rest [OF handler_ends(2)] have "behind env eng0 s' (ops @ [Handle now stamp e])"
      by (simp add: handler_ends(1) behind_def op_events_append op_calls_append ops_timely_snoc run_ops_snoc)
    then show ?thesis ..
  next
    case (handler_waits t e rest' now stamp h')
    from handler_waits(4) obtain sp where "begin_event now stamp e (hd_engine (rn_handlers s)) = (Inl sp, hd_engine h')"
      "hd_waiting h' = hd_waiting (rn_handlers s) @ [sp]" by (rule begin_move) (use handler_waits(5) in simp_all)
    with assms(5) rest [OF handler_waits(2)] have "behind env eng0 s' ops"
      by (auto simp: handler_waits(1) behind_def)
    then show ?thesis ..
  next
    case (handler_resumes i t e h')
    then have t: "t = Loop_Task" using loop by blast
    with handler_resumes(4) have "in_hand (rn_bus s) Loop_Task = Some e" by (simp add: busy_in_hand)
    with idle obtain sp where sp: "hd_waiting (rn_handlers s) = [sp]" "fr_event (sp_record sp) = e" "rn_tasks s = [Loop_Task]"
      by auto
    with handler_resumes(2) have "i = 0" by simp
    with handler_resumes(5) have move: "make_move env (Resume 0) (rn_handlers s) = Some h'" by simp
    from behind_resume [OF assms(3,5) sp(1,2) move, of "put_down t e (rn_bus s)"] show ?thesis
      by (auto simp: handler_resumes(1))
  next
    case (handler_abandoned i t e h')
    then have "t = Loop_Task" using loop by blast
    with handler_abandoned(5) stop(2) show ?thesis by simp
  next
    case (api_accesses c saves)
    with behind_api [OF assms(5) api_accesses(2)] show ?thesis by blast
  qed
qed

lemma running_behind:
  assumes "running_reach env n eng0 s" "en_tier_to_layer eng0 = runtime_map env" "bs_stops (rn_bus s) = 0"
  shows "\<exists>ops. behind env eng0 s ops"
  using assms(1,3)
proof (induction rule: running_reach.induct)
  case run_start
  show ?case by (intro exI [of _ "[]"]) (simp add: behind_def running_init_def handlers_init_def bus_sys_init_def)
next
  case (run_more s s')
  have "bs_stops (rn_bus s) = 0" using stops_grow [OF running_step_bus [OF run_more.hyps(2)]] run_more.prems by simp
  with run_more.IH running_step_behind [OF run_more.hyps(2,1) assms(2)] show ?case by blast
qed

subsection \<open>The system as a whole\<close>

abbreviation waiting_events :: "running \<Rightarrow> telemetry_event list" where
  "waiting_events s \<equiv> map (\<lambda>sp. fr_event (sp_record sp)) (hd_waiting (rn_handlers s))"

lemma set_in_flight:
  assumes "tasks_match s"
  shows "set (in_flight s) = {(t, e). in_hand (rn_bus s) t = Some e}"
proof -
  have "distinct (map fst (in_flight s))" "map_of (in_flight s) = in_hand (rn_bus s)"
    using tasks_match_fst [OF assms] assms by (simp_all add: tasks_match_def)
  then have "(t, e) \<in> set (in_flight s) \<longleftrightarrow> in_hand (rn_bus s) t = Some e" for t e by (metis map_of_eq_Some_iff)
  then show ?thesis by auto
qed

lemma waiting_in_hand:
  assumes "tasks_match s"
  shows "mset (waiting_events s) = mset (loop_event (bs_loop (rn_bus s))) + mset (drain_event (bs_stop (rn_bus s)))"
proof -
  let ?hand = "map (Pair Loop_Task) (loop_event (bs_loop (rn_bus s))) @ map (Pair Drain_Task) (drain_event (bs_stop (rn_bus s)))"
  have "distinct (in_flight s)"
    using tasks_match_fst [OF assms] assms by (metis distinct_map tasks_match_def)
  moreover have "distinct ?hand" by (cases "bs_loop (rn_bus s)"; cases "bs_stop (rn_bus s)") simp_all
  moreover have "x \<in> set (in_flight s) \<longleftrightarrow> x \<in> set ?hand" for x
  proof -
    obtain t e where x: "x = (t, e)" by force
    show ?thesis unfolding set_in_flight [OF assms] x
      by (cases t; cases "bs_loop (rn_bus s)"; cases "bs_stop (rn_bus s)") auto
  qed
  ultimately have "mset (in_flight s) = mset ?hand" using set_eq_iff_mset_eq_distinct by blast
  then have "mset (map snd (in_flight s)) = mset (map snd ?hand)" by (simp only: mset_map)
  moreover have "map snd (in_flight s) = waiting_events s" using assms by (simp add: in_flight_def tasks_match_def)
  ultimately show ?thesis by (simp add: comp_def)
qed

lemma orderly_call: "orderly env h \<Longrightarrow> orderly env (h\<lparr>hd_engine := apply_access env c (hd_engine h)\<rparr>)"
  by (simp add: orderly_def)

lemma running_step_orderly:
  assumes "running_step env s s'" "running_reach env n eng0 s" "bs_stops (rn_bus s) = 0" "orderly env (rn_handlers s)"
  shows "orderly env (rn_handlers s')"
  using assms(1)
proof (cases rule: running_step.cases)
  case (handler_resumes i t e h')
  have "length (rn_tasks s) \<le> 1"
    using unstopped_waiting [OF assms(2,3)] running_tasks [OF assms(2)] by (auto simp: tasks_match_def)
  with handler_resumes(2) have "i = 0" by simp
  with orderly_resume [OF assms(4)] handler_resumes(1,5) show ?thesis by simp
next
  case (handler_abandoned i t e h')
  from handler_abandoned(4,5) unstopped_tasks(2) [OF assms(2,3)] show ?thesis by (cases t) simp_all
qed (use assms(4) orderly_begin orderly_call in \<open>simp_all del: make_move.simps\<close>)

lemma running_orderly:
  assumes "running_reach env n eng0 s" "orderly env (handlers_init eng0)" "bs_stops (rn_bus s) = 0"
  shows "orderly env (rn_handlers s)"
  using assms(1,3)
proof (induction rule: running_reach.induct)
  case run_start
  show ?case using assms(2) by (simp add: running_init_def)
next
  case (run_more s s')
  have "bs_stops (rn_bus s) = 0" using stops_grow [OF running_step_bus [OF run_more.hyps(2)]] run_more.prems by simp
  with run_more.IH running_step_orderly [OF run_more.hyps(2,1)] show ?case by blast
qed

text \<open>
  C14. No fault of a running system is unaccounted for: in every state that the bus, the handlers
  of the engine and the accesses of the API reach together, in whatever order they interleave and
  with any number of stops, each event the bus accepted is handled to its end, awaited by a handler
  that is suspended, abandoned by a stop, or queued; one fault epoch was drawn for each event taken
  off the queue; and the records added to the audit log are, in order, those of the handled events
  whose handler did not raise, each escalated upwards only and with a result.
\<close>

theorem every_fault_accounted:
  assumes "running_reach env n eng s"
  shows "\<exists>new. en_history (hd_engine (rn_handlers s)) = en_history eng @ new \<and>
    map fr_event new = map fst (filter snd (rn_outcomes s)) \<and>
    (\<forall>r \<in> set new. escalation_valid r \<and> fr_result r \<noteq> None) \<and>
    es_epoch (en_epochs (hd_engine (rn_handlers s))) = es_epoch (en_epochs eng) + int (length (bs_taken (rn_bus s))) \<and>
    bs_taken (rn_bus s) @ utp_queue (bs_bus (rn_bus s)) = bs_accepted (rn_bus s) \<and>
    length (bs_accepted (rn_bus s)) + utp_drop_count (bs_bus (rn_bus s)) = bs_published (rn_bus s) \<and>
    mset (bs_accepted (rn_bus s)) = mset (map fst (rn_outcomes s)) + mset (waiting_events s) +
      mset (bs_lost (rn_bus s)) + mset (utp_queue (bs_bus (rn_bus s)))"
proof -
  have acc: "accounted eng (rn_handlers s)" and log: "log_matches eng s" using running_log [OF assms] by simp_all
  have inv: "bus_inv n (rn_bus s)" using bus_reach_inv [OF running_bus [OF assms]] .
  from log obtain new where new: "en_history (hd_engine (rn_handlers s)) = en_history eng @ new"
    "map fr_event new = map fst (filter snd (rn_outcomes s))" by (auto simp: log_matches_def)
  with acc have "\<forall>r \<in> set new. escalation_valid r \<and> fr_result r \<noteq> None"
    using record_at_valid by (auto simp: accounted_def)
  moreover have order: "bs_taken (rn_bus s) @ utp_queue (bs_bus (rn_bus s)) = bs_accepted (rn_bus s)"
    "length (bs_accepted (rn_bus s)) + utp_drop_count (bs_bus (rn_bus s)) = bs_published (rn_bus s)"
    using inv by (auto simp: bus_inv_def)
  moreover have "mset (bs_accepted (rn_bus s)) = mset (map fst (rn_outcomes s)) + mset (waiting_events s) +
      mset (bs_lost (rn_bus s)) + mset (utp_queue (bs_bus (rn_bus s)))"
    using inv log waiting_in_hand [OF running_tasks [OF assms]]
    by (simp add: bus_inv_def log_matches_def flip: order(1))
  moreover have "es_epoch (en_epochs (hd_engine (rn_handlers s))) = es_epoch (en_epochs eng) + int (length (bs_taken (rn_bus s)))"
    using acc log by (simp add: accounted_def log_matches_def)
  ultimately show ?thesis using new by blast
qed

text \<open>
  C15. Until a stop is called, the interleaving of the event loop and of the calls of the API is
  as good as a sequence: in every state the system reaches, for an engine wired as the runtime
  wires it, there is an order of events handled whole, in the order they were published, and of
  the accesses the calls make, in the order they were made, such that the engine is what these
  leave one after the other, or, while a handler waits for its migration, that followed by the
  first half of the handler. A call of \<open>save\<close> is not one of these operations: it reads the epoch
  and then writes its tiers one by one, and handlers, policy changes and the writes of other saves
  may come in between; but the accesses of each save are those of its code in their order, up to
  the first write that raises, all with the epoch it read, and that epoch is the one of the place
  of the read in the sequence or the next one. What is taken for granted is that the four kinds
  of elementary step are indivisible although no lock of the code makes them so: the stretch of a
  handler between two waits, the store of a policy, the read of the epoch, the write of one tier.
\<close>

theorem running_runtime_linearizable:
  assumes "running_reach env n eng s" "en_tier_to_layer eng = runtime_map env" "bs_stops (rn_bus s) = 0"
  shows "\<exists>ops. op_calls ops = rn_calls s \<and> op_events ops = map fst (rn_outcomes s) \<and>
    op_events ops @ waiting_events s @ utp_queue (bs_bus (rn_bus s)) = bs_accepted (rn_bus s) \<and>
    ops_timely env ops eng \<and> saves_in_order (rn_calls s) \<and>
    (hd_waiting (rn_handlers s) = [] \<and> hd_engine (rn_handlers s) = run_ops env ops eng \<or>
     (\<exists>sp now stamp e. hd_waiting (rn_handlers s) = [sp] \<and>
        begin_event now stamp e (run_ops env ops eng) = (Inl sp, hd_engine (rn_handlers s))))"
proof -
  obtain ops where ops: "behind env eng s ops" using running_behind [OF assms] by blast
  have inv: "bus_inv n (rn_bus s)" using bus_reach_inv [OF running_bus [OF assms(1)]] .
  have log: "bs_done (rn_bus s) = map fst (rn_outcomes s)" using running_log [OF assms(1)] by (simp add: log_matches_def)
  have "waiting_events s = loop_event (bs_loop (rn_bus s))"
    using unstopped_waiting [OF assms(1,3)] by (auto split: loop_pc.splits)
  then have "op_events ops @ waiting_events s @ utp_queue (bs_bus (rn_bus s)) = bs_accepted (rn_bus s)"
    using inv assms(3) ops by (auto simp: bus_inv_def behind_def)
  moreover have "saves_in_order (rn_calls s)" using running_saves [OF assms(1)] by (simp add: saves_match_def)
  ultimately show ?thesis using ops log unfolding behind_def by (intro exI [of _ ops]) (auto split: list.splits)
qed

text \<open>
  C17. Until a stop is called, a running node runs on a healthy NIC: whatever events are
  published and whatever the calls of the API access meanwhile, a node whose connection is stable
  or migrated has a working NIC in use, unless a handler awaits a migration of that node.
\<close>

theorem running_nics_healthy:
  assumes "running_reach env n eng s" "en_tier_to_layer eng = runtime_map env" "transport_inv (transport_of eng)"
    and "bs_stops (rn_bus s) = 0" "dget (tl_nodes (transport_of (hd_engine (rn_handlers s)))) node = Some e"
    and "nn_state e = STABLE \<or> nn_state e = MIGRATED" "nn_nics e \<noteq> []" "node \<notin> set (map ev_node (waiting_events s))"
  shows "nn_active e \<in> set (healthy_nics e)"
proof -
  have "orderly env (handlers_init eng)"
    using assms(2,3) by (auto simp: orderly_def handlers_init_def node_orderly_def transport_inv_def node_inv_nics_ok)
  from running_orderly [OF assms(1) this assms(4)] assms(5)
  have "node_orderly (waiting_on node (hd_waiting (rn_handlers s))) e" by (simp add: orderly_def)
  moreover have "waiting_on node (hd_waiting (rn_handlers s)) = []" using assms(8) by (auto simp: waiting_on_def filter_empty_conv)
  ultimately show ?thesis using assms(6,7) by (auto simp: node_orderly_def node_inv_def set_healthy)
qed

subsection \<open>A policy call while a migration is awaited\<close>

lemma demo_waiting:
  "\<exists>s. running_reach demo_env 10 three_nics s \<and> bs_loop (rn_bus s) = Dispatching (nic_down ''a'') \<and> rn_tasks s = [Loop_Task] \<and>
     bs_accepted (rn_bus s) = [nic_down ''a''] \<and> bs_stops (rn_bus s) = 0 \<and> bs_stop (rn_bus s) = NotStopping \<and>
     make_move demo_env (Begin 0 0 (nic_down ''a'')) (handlers_init three_nics) = Some (rn_handlers s) \<and> rn_outcomes s = [] \<and> rn_calls s = [] \<and> utp_queue (bs_bus (rn_bus s)) = []"
proof -
  let ?e = "nic_down ''a''" and ?s0 = "running_init 10 three_nics"
  have hand: "rn_handlers ?s0 = handlers_init three_nics" by (simp add: running_init_def)
  have "\<exists>h. make_move demo_env (Begin 0 0 ?e) (handlers_init three_nics) = Some h \<and> length (hd_waiting h) = 1"
    by (simp add: handler_eval three_nics_eval mk_node_nics_def set_default_bandwidths_def)
  then obtain h where h: "make_move demo_env (Begin 0 0 ?e) (handlers_init three_nics) = Some h" "length (hd_waiting h) = 1" by blast
  let ?b0 = "bus_sys_init 10"
  let ?b1 = "?b0\<lparr>bs_bus := publish ?e (bs_bus ?b0), bs_accepted := (if queue_full (bs_bus ?b0) then bs_accepted ?b0 else bs_accepted ?b0 @ [?e]),
      bs_published := bs_published ?b0 + 1\<rparr>"
  let ?b2 = "?b1\<lparr>bs_bus := (bs_bus ?b1)\<lparr>utp_running := True\<rparr>, bs_loop := AtTop\<rparr>"
  have "bus_alone ?b0 ?b1" unfolding bus_alone_def by (intro conjI publish_step) simp_all
  then have 1: "running_reach demo_env 10 three_nics (?s0\<lparr>rn_bus := ?b1\<rparr>)"
    using run_more [OF run_start bus_moves [of ?s0]] by (simp add: running_init_def)
  have "bus_alone ?b1 ?b2" unfolding bus_alone_def by (intro conjI start_step) (simp_all add: bus_sys_init_def)
  then have 2: "running_reach demo_env 10 three_nics (?s0\<lparr>rn_bus := ?b2\<rparr>)"
    using run_more [OF 1 bus_moves [of "?s0\<lparr>rn_bus := ?b1\<rparr>"]] by simp
  let ?s3 = "?s0\<lparr>rn_bus := take_up Loop_Task [] ?e ?b2, rn_handlers := h, rn_tasks := [Loop_Task]\<rparr>"
  have "running_step demo_env (?s0\<lparr>rn_bus := ?b2\<rparr>) ?s3"
    using handler_waits [of Loop_Task "?s0\<lparr>rn_bus := ?b2\<rparr>" ?e "[]" demo_env 0 0 h] h
    by (simp add: hand suspends_def running_init_def bus_run_simps handlers_init_def del: make_move.simps)
  from run_more [OF 2 this] show ?thesis
    by (rule_tac exI [of _ ?s3]) (simp add: h(1) running_init_def bus_run_simps del: make_move.simps)
qed

lemma demo_halves:
  "\<exists>h h' e. make_move demo_env (Begin 0 0 (nic_down ''a'')) (handlers_init three_nics) = Some h \<and> length (hd_waiting h) = 1 \<and>
     make_move demo_env (Resume 0) (h\<lparr>hd_engine := apply_access demo_env (Set_Policy p) (hd_engine h)\<rparr>) = Some h' \<and>
     hd_waiting h' = [] \<and> hd_raised h' = hd_raised h \<and>
     dget (tl_nodes (transport_of (hd_engine h'))) ''n'' = Some e \<and> nn_state e = MIGRATED \<and> nn_active e = ''b'' \<and> nn_nics e \<noteq> []"
  by (simp add: handler_eval three_nics_eval mk_node_nics_def set_default_bandwidths_def)

lemma demo_handler:
  assumes "make_move demo_env (Begin 0 0 (nic_down ''a'')) (handlers_init three_nics) = Some h"
  shows "length (hd_waiting h) = 1"
    and "\<exists>h' e. make_move demo_env (Resume 0) (h\<lparr>hd_engine := apply_access demo_env (Set_Policy p) (hd_engine h)\<rparr>) = Some h' \<and>
      hd_waiting h' = [] \<and> hd_raised h' = hd_raised h \<and>
      dget (tl_nodes (transport_of (hd_engine h'))) ''n'' = Some e \<and> nn_state e = MIGRATED \<and> nn_active e = ''b'' \<and> nn_nics e \<noteq> []"
  using demo_halves [of p] unfolding assms option.inject by blast+

text \<open>The fault of one NIC, with a change of the policy while its migration is awaited.\<close>

lemma demo_running:
  "\<exists>s e. running_reach demo_env 10 three_nics s \<and> rn_outcomes s = [(nic_down ''a'', True)] \<and> rn_calls s = [Set_Policy p] \<and>
     bs_stops (rn_bus s) = 0 \<and> hd_waiting (rn_handlers s) = [] \<and> bs_accepted (rn_bus s) = [nic_down ''a''] \<and>
     utp_queue (bs_bus (rn_bus s)) = [] \<and> dget (tl_nodes (transport_of (hd_engine (rn_handlers s)))) ''n'' = Some e \<and>
     nn_state e = MIGRATED \<and> nn_active e = ''b'' \<and> nn_nics e \<noteq> []"
proof -
  obtain s where s: "running_reach demo_env 10 three_nics s" "bs_loop (rn_bus s) = Dispatching (nic_down ''a'')" "rn_tasks s = [Loop_Task]"
    "bs_accepted (rn_bus s) = [nic_down ''a'']" "bs_stops (rn_bus s) = 0"
    "make_move demo_env (Begin 0 0 (nic_down ''a'')) (handlers_init three_nics) = Some (rn_handlers s)" "rn_outcomes s = []"
    "rn_calls s = []" "utp_queue (bs_bus (rn_bus s)) = []"
    using demo_waiting by (elim exE conjE)
  let ?h = "(rn_handlers s)\<lparr>hd_engine := apply_access demo_env (Set_Policy p) (hd_engine (rn_handlers s))\<rparr>"
  let ?s1 = "s\<lparr>rn_handlers := ?h, rn_calls := rn_calls s @ [Set_Policy p], rn_saves := rn_saves s\<rparr>"
  have 1: "running_reach demo_env 10 three_nics ?s1" by (rule run_more [OF s(1) api_accesses]) simp
  obtain h' e where h': "make_move demo_env (Resume 0) ?h = Some h'" "hd_waiting h' = []" "hd_raised h' = hd_raised (rn_handlers s)"
    "dget (tl_nodes (transport_of (hd_engine h'))) ''n'' = Some e" "nn_state e = MIGRATED" "nn_active e = ''b''" "nn_nics e \<noteq> []"
    using demo_handler(2) [OF s(6), of p] by (elim exE conjE)
  let ?s2 = "?s1\<lparr>rn_bus := put_down Loop_Task (nic_down ''a'') (rn_bus s), rn_handlers := h', rn_tasks := without 0 (rn_tasks s),
    rn_outcomes := rn_outcomes s @ [outcome (nic_down ''a'') ?h h']\<rparr>"
  have "running_step demo_env ?s1 ?s2"
    using handler_resumes [of 0 ?s1 Loop_Task "nic_down ''a''" demo_env h'] s(2,3) h'(1) by (simp del: make_move.simps)
  from run_more [OF 1 this] show ?thesis
    using s(4,5,7-9) h'(2-7) by (intro exI [of _ ?s2] exI [of _ e]) (simp add: outcome_def)
qed

text \<open>The same fault, abandoned by a stop.\<close>

lemma demo_abandoned:
  "\<exists>s. running_reach demo_env 10 three_nics s \<and> bs_lost (rn_bus s) = [nic_down ''a''] \<and> rn_outcomes s = []"
proof -
  obtain s where s: "running_reach demo_env 10 three_nics s" "bs_loop (rn_bus s) = Dispatching (nic_down ''a'')" "rn_tasks s = [Loop_Task]"
    "bs_stops (rn_bus s) = 0" "bs_stop (rn_bus s) = NotStopping"
    "make_move demo_env (Begin 0 0 (nic_down ''a'')) (handlers_init three_nics) = Some (rn_handlers s)" "rn_outcomes s = []"
    "utp_queue (bs_bus (rn_bus s)) = []"
    using demo_waiting by (elim exE conjE)
  have lost: "bs_lost (rn_bus s) = []" by (rule unstopped_tasks(4) [OF s(1,4)])
  let ?b1 = "(rn_bus s)\<lparr>bs_bus := (bs_bus (rn_bus s))\<lparr>utp_running := False\<rparr>, bs_stop := Draining, bs_stops := bs_stops (rn_bus s) + 1\<rparr>"
  let ?b2 = "?b1\<lparr>bs_stop := Cancelling\<rparr>"
  have "bus_alone (rn_bus s) ?b1" unfolding bus_alone_def using s(2,5) by (intro conjI stop_step) simp_all
  then have 1: "running_reach demo_env 10 three_nics (s\<lparr>rn_bus := ?b1\<rparr>)" by (rule run_more [OF s(1) bus_moves])
  have "bus_alone ?b1 ?b2" unfolding bus_alone_def using s(8) by (intro conjI drain_empty) simp_all
  then have 2: "running_reach demo_env 10 three_nics (s\<lparr>rn_bus := ?b2\<rparr>)"
    using run_more [OF 1 bus_moves [of "s\<lparr>rn_bus := ?b1\<rparr>"]] by simp
  obtain h' where h': "make_move demo_env (Cancel 0) (rn_handlers s) = Some h'"
    using demo_handler(1) [OF s(6)] by simp
  let ?s3 = "s\<lparr>rn_bus := abandon Loop_Task (nic_down ''a'') ?b2, rn_handlers := h', rn_tasks := without 0 (rn_tasks s)\<rparr>"
  have "running_step demo_env (s\<lparr>rn_bus := ?b2\<rparr>) ?s3"
    using handler_abandoned [of 0 "s\<lparr>rn_bus := ?b2\<rparr>" Loop_Task "nic_down ''a''" demo_env h'] s(2,3) h' by (simp del: make_move.simps)
  from run_more [OF 2 this] show ?thesis using lost s(7) by (intro exI [of _ ?s3]) simp
qed

theorem every_fault_accounted_witness:
  "\<exists>s. running_reach demo_env 10 three_nics s \<and> bs_lost (rn_bus s) = [nic_down ''a''] \<and>
     en_history (hd_engine (rn_handlers s)) = [] \<and> nic_down ''a'' \<in># mset (bs_accepted (rn_bus s))"
proof -
  obtain s where s: "running_reach demo_env 10 three_nics s" "bs_lost (rn_bus s) = [nic_down ''a'']" "rn_outcomes s = []"
    using demo_abandoned by blast
  from every_fault_accounted [OF s(1)] s(2,3) have "en_history (hd_engine (rn_handlers s)) = en_history three_nics"
    "nic_down ''a'' \<in># mset (bs_accepted (rn_bus s))" by auto
  with s(1,2) show ?thesis by (auto simp: three_nics_eval)
qed

theorem running_runtime_linearizable_witness:
  "\<exists>s ops. running_reach demo_env 10 three_nics s \<and> op_calls ops = [Set_Policy default_policy] \<and> op_events ops = [nic_down ''a''] \<and>
     hd_engine (rn_handlers s) = run_ops demo_env ops three_nics"
proof -
  obtain s e where s: "running_reach demo_env 10 three_nics s" "rn_outcomes s = [(nic_down ''a'', True)]" "rn_calls s = [Set_Policy default_policy]"
    "bs_stops (rn_bus s) = 0" "hd_waiting (rn_handlers s) = []"
    using demo_running [of default_policy] by (elim exE conjE)
  from running_runtime_linearizable [OF s(1) three_nics_wired(1) s(4)] s(2,3,5) show ?thesis using s(1) by auto
qed

theorem running_nics_healthy_witness:
  "\<exists>s e. running_reach demo_env 10 three_nics s \<and> dget (tl_nodes (transport_of (hd_engine (rn_handlers s)))) ''n'' = Some e \<and>
     ''b'' \<in> set (healthy_nics e)"
proof -
  obtain s e where s: "running_reach demo_env 10 three_nics s" "bs_stops (rn_bus s) = 0" "hd_waiting (rn_handlers s) = []"
    and e: "dget (tl_nodes (transport_of (hd_engine (rn_handlers s)))) ''n'' = Some e" "nn_state e = MIGRATED" "nn_active e = ''b''" "nn_nics e \<noteq> []"
    using demo_running [of default_policy] by (elim exE conjE)
  from running_nics_healthy [OF s(1) three_nics_wired s(2) e(1)] e s(3) have "''b'' \<in> set (healthy_nics e)" by simp
  with s(1) e(1) show ?thesis by blast
qed

end
