(* ===== verification/Chaos.thy ===== *)
theory Chaos
  imports Bus Epochs
begin

text \<open>
  The fault injection harness of \<open>chaos_inject/harness.py\<close> and \<open>faults.py\<close>. The harness
  awaits between its publications, so the dispatch loop runs in between: \<open>others i\<close> is what
  happens to the bus before the \<open>i\<close>-th publication and \<open>epoch_at i\<close> what the epoch service
  reads then; publications are numbered over the life of the harness. The clock readings of
  the rate loop are a list.
\<close>

record fault_spec =
  fs_signal :: fault_signal
  fs_rank :: int
  fs_node :: string
  fs_nic :: "string option"
  fs_rack :: "string option"
  fs_delay_secs :: real
  fs_repeat :: nat
  fs_repeat_interval_secs :: real

definition mk_fault_spec ::
  "fault_signal \<Rightarrow> int \<Rightarrow> string \<Rightarrow> string option \<Rightarrow> string option \<Rightarrow> fault_spec" where
  "mk_fault_spec signal rank node nic rack =
    \<lparr>fs_signal = signal, fs_rank = rank, fs_node = node, fs_nic = nic, fs_rack = rack,
     fs_delay_secs = 0, fs_repeat = 1, fs_repeat_interval_secs = 1 / 10\<rparr>"

record burst_spec =
  bu_faults :: "fault_spec list"
  bu_inter_fault_delay_secs :: real

record 'sub harness =
  ch_utp :: "'sub bus"
  ch_injected :: "telemetry_event list"

definition harness_init :: "'sub bus \<Rightarrow> 'sub harness" where
  "harness_init utp = \<lparr>ch_utp = utp, ch_injected = []\<rparr>"

record 'sub surroundings =
  su_others :: "nat \<Rightarrow> 'sub bus \<Rightarrow> 'sub bus"
  su_epoch_at :: "nat \<Rightarrow> int"
  su_stamp :: "nat \<Rightarrow> real"

definition spec_event :: "fault_spec \<Rightarrow> nat \<Rightarrow> int \<Rightarrow> real \<Rightarrow> telemetry_event" where
  "spec_event spec i epoch stamp =
    \<lparr>ev_rank = fs_rank spec, ev_node = fs_node spec, ev_signal = fs_signal spec,
     ev_payload = [(''injected'', PBool True), (''repetition'', PInt (int i))],
     ev_epoch = epoch, ev_timestamp = stamp, ev_nic = fs_nic spec, ev_rack = fs_rack spec,
     ev_source = ''chaos_inject''\<rparr>"

text \<open>One pass of the loop of \<open>inject\<close>.\<close>

definition inject_once ::
  "'sub surroundings \<Rightarrow> fault_spec \<Rightarrow> nat \<Rightarrow> 'sub harness \<Rightarrow> telemetry_event \<times> 'sub harness" where
  "inject_once su spec i h =
    (let k = length (ch_injected h);
         event = spec_event spec i (su_epoch_at su k) (su_stamp su k)
     in (event, h\<lparr>ch_utp := publish event (su_others su k (ch_utp h)), ch_injected := ch_injected h @ [event]\<rparr>))"

fun inject_from ::
  "'sub surroundings \<Rightarrow> fault_spec \<Rightarrow> nat list \<Rightarrow> 'sub harness \<Rightarrow> telemetry_event list \<times> 'sub harness" where
  "inject_from su spec [] h = ([], h)"
| "inject_from su spec (i # is) h =
    (case inject_once su spec i h of (event, h1) \<Rightarrow>
     case inject_from su spec is h1 of (events, h2) \<Rightarrow> (event # events, h2))"

definition inject ::
  "'sub surroundings \<Rightarrow> fault_spec \<Rightarrow> 'sub harness \<Rightarrow> telemetry_event list \<times> 'sub harness" where
  "inject su spec h = inject_from su spec [0..<fs_repeat spec] h"

fun burst_loop ::
  "'sub surroundings \<Rightarrow> fault_spec list \<Rightarrow> 'sub harness \<Rightarrow> telemetry_event list \<times> 'sub harness" where
  "burst_loop su [] h = ([], h)"
| "burst_loop su (spec # specs) h =
    (case inject su spec h of (events, h1) \<Rightarrow>
     case burst_loop su specs h1 of (rest, h2) \<Rightarrow> (events @ rest, h2))"

definition inject_burst ::
  "'sub surroundings \<Rightarrow> burst_spec \<Rightarrow> 'sub harness \<Rightarrow> telemetry_event list \<times> 'sub harness" where
  "inject_burst su burst h = burst_loop su (bu_faults burst) h"

text \<open>
  \<open>inject_rate\<close> over the readings of the clock, the first of which sets the deadline. Only
  the five identifying fields of the specification are used; a rate of 0 raises.
\<close>

fun rate_loop ::
  "'sub surroundings \<Rightarrow> fault_spec \<Rightarrow> real \<Rightarrow> real list \<Rightarrow> 'sub harness \<Rightarrow> telemetry_event list \<times> 'sub harness" where
  "rate_loop su spec deadline [] h = ([], h)"
| "rate_loop su spec deadline (now # readings) h =
    (if now < deadline
     then case inject su (mk_fault_spec (fs_signal spec) (fs_rank spec) (fs_node spec) (fs_nic spec) (fs_rack spec)) h of
            (events, h1) \<Rightarrow> case rate_loop su spec deadline readings h1 of (rest, h2) \<Rightarrow> (events @ rest, h2)
     else ([], h))"

definition inject_rate ::
  "'sub surroundings \<Rightarrow> fault_spec \<Rightarrow> real \<Rightarrow> real \<Rightarrow> real \<Rightarrow> real list \<Rightarrow> 'sub harness \<Rightarrow>
   (pyexc + telemetry_event list) \<times> 'sub harness" where
  "inject_rate su spec rate_per_sec duration_secs start readings h =
    (if rate_per_sec = 0 then (Inl ZeroDivisionErr, h)
     else case rate_loop su spec (start + duration_secs) readings h of (events, h') \<Rightarrow> (Inr events, h'))"

definition injected_count :: "'sub harness \<Rightarrow> nat" where
  "injected_count h = length (ch_injected h)"

subsection \<open>What the harness counts\<close>

text \<open>Between publications the bus only loses events from its queue to the dispatcher.\<close>

definition others_dispatch :: "'sub surroundings \<Rightarrow> bool" where
  "others_dispatch su \<longleftrightarrow>
    (\<forall>k b. utp_event_count (su_others su k b) = utp_event_count b \<and>
           utp_drop_count (su_others su k b) = utp_drop_count b)"

text \<open>The publications the bus has seen: accepted and dropped.\<close>

definition seen :: "'sub bus \<Rightarrow> nat" where
  "seen b = utp_event_count b + utp_drop_count b"

lemma inject_once_seen:
  "others_dispatch su \<Longrightarrow> inject_once su spec i h = (e, h') \<Longrightarrow>
   seen (ch_utp h') = seen (ch_utp h) + 1 \<and> ch_injected h' = ch_injected h @ [e]"
  by (auto simp: inject_once_def Let_def seen_def others_dispatch_def publish_counts)

lemma inject_from_seen:
  "others_dispatch su \<Longrightarrow> inject_from su spec is h = (es, h') \<Longrightarrow>
   seen (ch_utp h') = seen (ch_utp h) + length is \<and> ch_injected h' = ch_injected h @ es \<and> length es = length is"
proof (induction "is" arbitrary: h es h')
  case (Cons i "is")
  obtain e h1 where one: "inject_once su spec i h = (e, h1)" by force
  obtain es' h2 where rest: "inject_from su spec is h1 = (es', h2)" by force
  from Cons.IH [OF Cons.prems(1) rest] inject_once_seen [OF Cons.prems(1) one] Cons.prems(2) one rest
  show ?case by auto
qed simp

lemma inject_seen:
  assumes "others_dispatch su" and "inject su spec h = (es, h')"
  shows "seen (ch_utp h') = seen (ch_utp h) + fs_repeat spec \<and> ch_injected h' = ch_injected h @ es \<and>
    length es = fs_repeat spec"
  using inject_from_seen [OF assms(1) assms(2) [unfolded inject_def]] by simp

lemma burst_loop_accounts:
  assumes "others_dispatch su" and "burst_loop su specs h = (es, h')"
  shows "length es = sum_list (map fs_repeat specs) \<and> ch_injected h' = ch_injected h @ es \<and>
    seen (ch_utp h') = seen (ch_utp h) + length es \<and>
    map ev_node es = concat (map (\<lambda>s. replicate (fs_repeat s) (fs_node s)) specs)"
  using assms(2)
proof (induction specs arbitrary: h es h')
  case (Cons spec specs)
  obtain es1 h1 where one: "inject su spec h = (es1, h1)" by force
  obtain es2 h2 where rest: "burst_loop su specs h1 = (es2, h2)" by force
  have nodes: "inject_from su spec is g = (es, g') \<Longrightarrow> map ev_node es = replicate (length is) (fs_node spec)"
    for "is" and g g' :: "'a harness" and es
  proof (induction "is" arbitrary: g es g')
    case (Cons i "is")
    then show ?case by (auto simp: inject_once_def Let_def spec_event_def split: prod.splits)
  qed simp
  have "map ev_node es1 = replicate (fs_repeat spec) (fs_node spec)"
    using nodes [OF one [unfolded inject_def]] by simp
  with Cons.IH [OF rest] inject_seen [OF assms(1) one] one rest Cons.prems show ?case by auto
qed simp

text \<open>
  The harness does not notice drops: whatever the dispatcher does in between, a burst
  publishes every repetition of every fault, in order, returns and records exactly those
  events, and the bus has counted each one as accepted or as dropped; the harness's own
  count includes the dropped ones.
\<close>

theorem burst_accounts_for_every_fault:
  assumes "others_dispatch su" and "inject_burst su burst h = (es, h')"
  shows "length es = sum_list (map fs_repeat (bu_faults burst)) \<and> ch_injected h' = ch_injected h @ es \<and>
    injected_count h' = injected_count h + length es \<and>
    utp_event_count (ch_utp h') + utp_drop_count (ch_utp h') =
      utp_event_count (ch_utp h) + utp_drop_count (ch_utp h) + length es \<and>
    map ev_node es = concat (map (\<lambda>s. replicate (fs_repeat s) (fs_node s)) (bu_faults burst))"
  using burst_loop_accounts [OF assms(1) assms(2) [unfolded inject_burst_def]]
  by (simp add: injected_count_def seen_def)

definition quiet :: "nat surroundings" where
  "quiet = \<lparr>su_others = (\<lambda>k b. b), su_epoch_at = (\<lambda>k. 0), su_stamp = real\<rparr>"

definition crash_twice :: burst_spec where
  "crash_twice = \<lparr>bu_faults = [(mk_fault_spec NODE_CRASH 4 ''node2'' None (Some ''rack1''))\<lparr>fs_repeat := 2\<rparr>,
     mk_fault_spec NODE_CRASH 6 ''node3'' None (Some ''rack1'')], bu_inter_fault_delay_secs = 1 / 20\<rparr>"

theorem burst_accounts_for_every_fault_witness:
  "let h' = snd (inject_burst quiet crash_twice (harness_init (bus_init 1)))
   in injected_count h' = 3 \<and> utp_event_count (ch_utp h') + utp_drop_count (ch_utp h') = 3"
proof -
  have q: "others_dispatch quiet" by (simp add: others_dispatch_def quiet_def)
  obtain es h' where run: "inject_burst quiet crash_twice (harness_init (bus_init 1)) = (es, h')" by force
  have n: "sum_list (map fs_repeat (bu_faults crash_twice)) = 3"
    by (simp add: crash_twice_def mk_fault_spec_def)
  have z: "injected_count (harness_init (bus_init 1)) = 0"
    "utp_event_count (ch_utp (harness_init (bus_init 1))) = 0"
    "utp_drop_count (ch_utp (harness_init (bus_init 1))) = 0"
    by (simp_all add: harness_init_def injected_count_def bus_init_def)
  from burst_accounts_for_every_fault [OF q run] show ?thesis
    unfolding Let_def run snd_conv n z by linarith
qed

end
