(* ===== verification/Bench.thy ===== *)
theory Bench
  imports Events
begin

text \<open>
  The benchmark suite of \<open>bench/\<close>: workloads, fault traces, cost tables, the adapters of the
  baseline systems, the simulation engine, the metrics and the runner. Random draws of the
  trace generators are arguments; text notes of an outcome are values of \<open>bench_note\<close>. The
  adapter that drives the real runtime is in the theory \<open>Bench_Aegis\<close>.
\<close>

subsection \<open>Workloads\<close>

record workload =
  wl_name :: string
  wl_model_name :: string
  wl_params_billions :: real
  wl_gpu_count :: int
  wl_steps_per_second :: real
  wl_checkpoint_interval_steps :: int
  wl_checkpoint_write_secs :: real
  wl_checkpoint_restore_secs :: real
  wl_parallelism :: string
  wl_step_duration_secs :: real

definition mk_workload ::
  "string \<Rightarrow> string \<Rightarrow> real \<Rightarrow> int \<Rightarrow> real \<Rightarrow> int \<Rightarrow> real \<Rightarrow> real \<Rightarrow> string \<Rightarrow> pyexc + workload" where
  "mk_workload name model params gpus sps interval wr rst par =
    (if sps = 0 then Inl ZeroDivisionErr
     else Inr \<lparr>wl_name = name, wl_model_name = model, wl_params_billions = params, wl_gpu_count = gpus,
       wl_steps_per_second = sps, wl_checkpoint_interval_steps = interval,
       wl_checkpoint_write_secs = wr, wl_checkpoint_restore_secs = rst, wl_parallelism = par,
       wl_step_duration_secs = 1 / sps\<rparr>)"

definition checkpoint_interval_secs :: "workload \<Rightarrow> real" where
  "checkpoint_interval_secs w = of_int (wl_checkpoint_interval_steps w) * wl_step_duration_secs w"

definition vanilla_rollback_secs :: "workload \<Rightarrow> int \<Rightarrow> int \<Rightarrow> real" where
  "vanilla_rollback_secs w fault_step last_checkpoint_step =
    (let lost_steps = max 0 (fault_step - last_checkpoint_step)
     in of_int lost_steps * wl_step_duration_secs w + wl_checkpoint_restore_secs w)"

definition W1 :: "pyexc + workload" where
  "W1 = mk_workload ''W1'' ''LLaMA-7B'' 7 8 (5 / 2) 1000 30 120 ''DP+PP''"

definition W2 :: "pyexc + workload" where
  "W2 = mk_workload ''W2'' ''LLaMA-13B'' 13 32 (6 / 5) 500 60 240 ''DP+PP+TP''"

definition W3 :: "pyexc + workload" where
  "W3 = mk_workload ''W3'' ''LLaMA-40B'' 40 64 (2 / 5) 200 120 600 ''FSDP/HSDP''"

subsection \<open>Traces\<close>

record trace_fault_event =
  tf_step :: int
  tf_signal :: fault_signal
  tf_rank :: int
  tf_node :: string
  tf_nic :: "string option"
  tf_rack :: "string option"
  tf_duration_secs :: real
  tf_expected_tier :: blast_radius

record fault_trace =
  ft_name :: string
  ft_events :: "trace_fault_event list"

definition mk_trace_event ::
  "int \<Rightarrow> fault_signal \<Rightarrow> int \<Rightarrow> string \<Rightarrow> string option \<Rightarrow> string option \<Rightarrow> real \<Rightarrow> blast_radius \<Rightarrow>
   trace_fault_event" where
  "mk_trace_event step signal rank node nic rack duration tier =
    \<lparr>tf_step = step, tf_signal = signal, tf_rank = rank, tf_node = node, tf_nic = nic, tf_rack = rack,
     tf_duration_secs = duration, tf_expected_tier = tier\<rparr>"

definition FT_B0 :: fault_trace where
  "FT_B0 = \<lparr>ft_name = ''FT-B0'', ft_events =
    [mk_trace_event 5000 NIC_PORT_FLAP 0 ''node0'' (Some ''nic0'') (Some ''rack0'') 30 B0]\<rparr>"

definition FT_B1 :: fault_trace where
  "FT_B1 = \<lparr>ft_name = ''FT-B1'', ft_events =
    [mk_trace_event 5000 NODE_CRASH 2 ''node1'' None (Some ''rack0'') 0 B1]\<rparr>"

definition FT_B2 :: fault_trace where
  "FT_B2 = \<lparr>ft_name = ''FT-B2'', ft_events =
    [mk_trace_event 8000 CUDA_KERNEL_CRASH 3 ''node1'' None (Some ''rack0'') 0 B2]\<rparr>"

definition FT_B3 :: fault_trace where
  "FT_B3 = \<lparr>ft_name = ''FT-B3'', ft_events =
    [mk_trace_event 10000 NODE_UNRECOVERABLE 4 ''node2'' None (Some ''rack1'') 0 B3]\<rparr>"

definition FT_B4 :: fault_trace where
  "FT_B4 = \<lparr>ft_name = ''FT-B4'', ft_events =
    [mk_trace_event 12500 RACK_POWER_LOSS 4 ''node2'' None (Some ''rack1'') 0 B4,
     mk_trace_event 12500 RACK_POWER_LOSS 6 ''node3'' None (Some ''rack1'') 0 B4]\<rparr>"

text \<open>A fault class of the random traces: signal, expected tier, node, NIC and rack.\<close>

type_synonym fault_class = "fault_signal \<times> blast_radius \<times> string \<times> string option \<times> string option"

definition poisson_pool :: "fault_class list" where
  "poisson_pool =
    [(NIC_PORT_FLAP, B0, ''node0'', Some ''nic0'', Some ''rack0''),
     (LINK_FLUCTUATION, B0, ''node1'', Some ''nic1'', Some ''rack0''),
     (NODE_CRASH, B1, ''node1'', None, Some ''rack0''),
     (GPU_FELL_OFF_BUS, B1, ''node0'', None, Some ''rack0''),
     (CUDA_KERNEL_CRASH, B2, ''node2'', None, Some ''rack1''),
     (HUNG_RANK, B2, ''node3'', None, Some ''rack1''),
     (NODE_UNRECOVERABLE, B3, ''node2'', None, Some ''rack1''),
     (RACK_POWER_LOSS, B4, ''node3'', None, Some ''rack1'')]"

definition production_profile :: "(nat \<times> fault_class) list" where
  "production_profile =
    [(35, NIC_PORT_FLAP, B0, ''node0'', Some ''nic0'', Some ''rack0''),
     (20, LINK_FLUCTUATION, B0, ''node1'', Some ''nic1'', Some ''rack0''),
     (15, RDMA_TIMEOUT, B0, ''node2'', Some ''nic0'', Some ''rack1''),
     (12, NODE_CRASH, B1, ''node1'', None, Some ''rack0''),
     (8, GPU_FELL_OFF_BUS, B1, ''node0'', None, Some ''rack0''),
     (4, CUDA_KERNEL_CRASH, B2, ''node2'', None, Some ''rack1''),
     (3, HUNG_RANK, B2, ''node3'', None, Some ''rack1''),
     (2, NODE_UNRECOVERABLE, B3, ''node2'', None, Some ''rack1''),
     (1, RACK_POWER_LOSS, B4, ''node3'', None, Some ''rack1'')]"

text \<open>
  The loop of both random traces. One draw is the next gap, the class and the rank; the
  class is picked from the pool by index (for the weighted trace by an index that stands
  for what \<open>rng.choices\<close> returns). \<open>None\<close> means that the draws ran out before the steps.
\<close>

type_synonym fault_draw = "real \<times> nat \<times> int"

definition draw_event :: "fault_class list \<Rightarrow> real \<Rightarrow> nat \<Rightarrow> int \<Rightarrow> trace_fault_event" where
  "draw_event pool step c rank =
    (case pool ! (c mod length pool) of (signal, tier, node, nic, rack) \<Rightarrow>
       mk_trace_event \<lfloor>step\<rfloor> signal rank node nic rack 0 tier)"

fun random_events :: "fault_class list \<Rightarrow> real \<Rightarrow> real \<Rightarrow> fault_draw list \<Rightarrow> trace_fault_event list option" where
  "random_events pool total_steps step [] = (if step < total_steps then None else Some [])"
| "random_events pool total_steps step ((gap, c, rank) # draws) =
    (if step < total_steps
     then map_option (\<lambda>es. draw_event pool step c rank # es)
            (random_events pool total_steps (step + gap) draws)
     else Some [])"

definition make_ft_poisson :: "real \<Rightarrow> real \<Rightarrow> fault_draw list \<Rightarrow> fault_trace option" where
  "make_ft_poisson total_steps first draws =
    map_option (\<lambda>es. \<lparr>ft_name = ''FT-POISSON'', ft_events = es\<rparr>)
      (random_events poisson_pool total_steps first draws)"

definition make_ft_production :: "real \<Rightarrow> fault_draw list \<Rightarrow> fault_trace option" where
  "make_ft_production first draws =
    map_option (\<lambda>es. \<lparr>ft_name = ''FT-PRODUCTION'', ft_events = es\<rparr>)
      (random_events (map snd production_profile) 200000 first draws)"

definition make_ft_burst :: fault_trace where
  "make_ft_burst = \<lparr>ft_name = ''FT-BURST'', ft_events =
    [mk_trace_event 3000 NIC_PORT_FLAP 0 ''node0'' (Some ''nic0'') (Some ''rack0'') 0 B0] @
    map (\<lambda>(i, node, rank, rack). mk_trace_event (8000 + int i * 2) NODE_CRASH rank node None (Some rack) 0 B1)
      (enumerate 0 [(''node2'', 4, ''rack1''), (''node3'', 6, ''rack1''), (''node2'', 5, ''rack1'')]) @
    [mk_trace_event 15000 RACK_POWER_LOSS 4 ''node2'' None (Some ''rack1'') 0 B4]\<rparr>"

subsection \<open>Cost tables\<close>

definition aegis_recovery_secs :: "(blast_radius, real) dict" where
  "aegis_recovery_secs = [(B0, 5), (B1, 25), (B2, 8), (B3, 55), (B4, 270)]"

definition r2ccl_recovery_secs :: "(blast_radius, real) dict" where
  "r2ccl_recovery_secs = [(B0, 5)]"

definition mecefo_recovery_secs :: "(blast_radius, real) dict" where
  "mecefo_recovery_secs = [(B1, 30)]"

definition tiercheck_recovery_secs :: "(blast_radius, real) dict" where
  "tiercheck_recovery_secs = [(B2, 10), (B3, 60), (B4, 300)]"

definition torchft_recovery_secs :: "(blast_radius, real) dict" where
  "torchft_recovery_secs = [(B0, 60), (B1, 45), (B2, 90), (B3, 300), (B4, 1800)]"

subsection \<open>Outcomes\<close>

datatype bench_note =
    NoteRollback int real
  | NoteForced string string
  | NoteHandled string string string
  | NoteNoAudit
  | NoteRouted string string

record recovery_outcome =
  ro_recovery_time_secs :: real
  ro_idle_gpu_hours :: real
  ro_dollars_wasted :: real
  ro_succeeded :: bool
  ro_tier_handled :: string
  ro_forced_restart :: bool
  ro_notes :: bench_note

definition from_recovery_time ::
  "real \<Rightarrow> int \<Rightarrow> real \<Rightarrow> string \<Rightarrow> bool \<Rightarrow> bool \<Rightarrow> bench_note \<Rightarrow> recovery_outcome" where
  "from_recovery_time secs gpu_count gpu_hr_cost tier succeeded forced notes =
    (let idle_gpu_hours = secs * of_int gpu_count / 3600;
         dollars_wasted = idle_gpu_hours * gpu_hr_cost
     in \<lparr>ro_recovery_time_secs = secs, ro_idle_gpu_hours = idle_gpu_hours,
         ro_dollars_wasted = dollars_wasted, ro_succeeded = succeeded, ro_tier_handled = tier,
         ro_forced_restart = forced, ro_notes = notes\<rparr>)"

text \<open>The last checkpoint before a step; an interval of 0 raises.\<close>

definition last_checkpoint :: "workload \<Rightarrow> int \<Rightarrow> pyexc + int" where
  "last_checkpoint w step =
    (if wl_checkpoint_interval_steps w = 0 then Inl ZeroDivisionErr
     else Inr ((step div wl_checkpoint_interval_steps w) * wl_checkpoint_interval_steps w))"

subsection \<open>The baseline adapters\<close>

datatype bench_system = Vanilla | TorchFT | MeCeFO | R2CCL | TierCheck

fun system_name :: "bench_system \<Rightarrow> string" where
  "system_name Vanilla = ''B-VANILLA''"
| "system_name TorchFT = ''B-TORCHFT''"
| "system_name MeCeFO = ''B-MECEFO''"
| "system_name R2CCL = ''B-R2CCL''"
| "system_name TierCheck = ''B-TIERCHECK''"

definition vanilla_fallback ::
  "bench_system \<Rightarrow> trace_fault_event \<Rightarrow> workload \<Rightarrow> real \<Rightarrow> pyexc + recovery_outcome" where
  "vanilla_fallback sys fault w gpu_hr_cost =
    (case last_checkpoint w (tf_step fault) of Inl x \<Rightarrow> Inl x
     | Inr last_ckpt \<Rightarrow>
         Inr (from_recovery_time (vanilla_rollback_secs w (tf_step fault) last_ckpt) (wl_gpu_count w)
                gpu_hr_cost ''full_restart'' True True
                (NoteForced (system_name sys) (tier_name (tf_expected_tier fault)))))"

definition vanilla_handle :: "trace_fault_event \<Rightarrow> workload \<Rightarrow> real \<Rightarrow> pyexc + recovery_outcome" where
  "vanilla_handle fault w gpu_hr_cost =
    (case last_checkpoint w (tf_step fault) of Inl x \<Rightarrow> Inl x
     | Inr last_ckpt \<Rightarrow>
         (let recovery_secs = vanilla_rollback_secs w (tf_step fault) last_ckpt;
              lost_steps = tf_step fault - last_ckpt
          in Inr (from_recovery_time recovery_secs (wl_gpu_count w) gpu_hr_cost ''full_restart'' True True
                    (NoteRollback lost_steps recovery_secs))))"

definition torchft_handle :: "trace_fault_event \<Rightarrow> workload \<Rightarrow> real \<Rightarrow> pyexc + recovery_outcome" where
  "torchft_handle fault w gpu_hr_cost =
    (let tier = tf_expected_tier fault;
         recovery_secs = dget_or torchft_recovery_secs tier (the (dget torchft_recovery_secs B4))
     in Inr (from_recovery_time recovery_secs (wl_gpu_count w) gpu_hr_cost (tier_name tier) True False
               (NoteHandled ''TorchFT'' (tier_name tier) ''elastic training'')))"

definition mecefo_handle :: "trace_fault_event \<Rightarrow> workload \<Rightarrow> real \<Rightarrow> pyexc + recovery_outcome" where
  "mecefo_handle fault w gpu_hr_cost =
    (let tier = tf_expected_tier fault
     in case dget mecefo_recovery_secs tier of
          Some secs \<Rightarrow> Inr (from_recovery_time secs (wl_gpu_count w) gpu_hr_cost (tier_name tier) True False
                             (NoteHandled ''MeCeFO'' (tier_name tier) ''neighbor-absorb''))
        | None \<Rightarrow> vanilla_fallback MeCeFO fault w gpu_hr_cost)"

definition r2ccl_handle :: "trace_fault_event \<Rightarrow> workload \<Rightarrow> real \<Rightarrow> pyexc + recovery_outcome" where
  "r2ccl_handle fault w gpu_hr_cost =
    (let tier = tf_expected_tier fault
     in case dget r2ccl_recovery_secs tier of
          Some secs \<Rightarrow> Inr (from_recovery_time secs (wl_gpu_count w) gpu_hr_cost (tier_name tier) True False
                             (NoteHandled ''R2CCL'' (tier_name tier) ''NIC migration''))
        | None \<Rightarrow> vanilla_fallback R2CCL fault w gpu_hr_cost)"

text \<open>The label is a dictionary indexed by the tier.\<close>

definition tiercheck_labels :: "(blast_radius, string) dict" where
  "tiercheck_labels = [(B2, ''T1-local''), (B3, ''T2-peer''), (B4, ''T3-cluster'')]"

definition tiercheck_handle :: "trace_fault_event \<Rightarrow> workload \<Rightarrow> real \<Rightarrow> pyexc + recovery_outcome" where
  "tiercheck_handle fault w gpu_hr_cost =
    (let tier = tf_expected_tier fault
     in case dget tiercheck_recovery_secs tier of
          Some secs \<Rightarrow>
            (case dget tiercheck_labels tier of None \<Rightarrow> Inl KeyErr
             | Some lbl \<Rightarrow> Inr (from_recovery_time secs (wl_gpu_count w) gpu_hr_cost (tier_name tier) True False
                             (NoteHandled ''TierCheck'' (tier_name tier) lbl)))
        | None \<Rightarrow> vanilla_fallback TierCheck fault w gpu_hr_cost)"

fun handle_fault :: "bench_system \<Rightarrow> trace_fault_event \<Rightarrow> workload \<Rightarrow> real \<Rightarrow> pyexc + recovery_outcome" where
  "handle_fault Vanilla = vanilla_handle"
| "handle_fault TorchFT = torchft_handle"
| "handle_fault MeCeFO = mecefo_handle"
| "handle_fault R2CCL = r2ccl_handle"
| "handle_fault TierCheck = tiercheck_handle"

subsection \<open>The simulation engine\<close>

record simulation_result =
  si_system_name :: string
  si_workload_name :: string
  si_trace_name :: string
  si_fault_outcomes :: "recovery_outcome list"
  si_total_recovery_secs :: real
  si_total_idle_gpu_hours :: real
  si_total_dollars_wasted :: real
  si_goodput :: real

type_synonym fault_handler = "trace_fault_event \<Rightarrow> workload \<Rightarrow> real \<Rightarrow> pyexc + recovery_outcome"

fun run_faults :: "fault_handler \<Rightarrow> workload \<Rightarrow> real \<Rightarrow> trace_fault_event list \<Rightarrow> pyexc + recovery_outcome list" where
  "run_faults handle w cost [] = Inr []"
| "run_faults handle w cost (fault # faults) =
    (case handle fault w cost of Inl x \<Rightarrow> Inl x
     | Inr outcome \<Rightarrow>
         (case run_faults handle w cost faults of Inl x \<Rightarrow> Inl x | Inr os \<Rightarrow> Inr (outcome # os)))"

definition simulate ::
  "string \<Rightarrow> fault_handler \<Rightarrow> workload \<Rightarrow> fault_trace \<Rightarrow> real \<Rightarrow> int \<Rightarrow> pyexc + simulation_result" where
  "simulate name handle w trace gpu_hr_cost total_steps =
    (case run_faults handle w gpu_hr_cost (ft_events trace) of Inl x \<Rightarrow> Inl x
     | Inr outcomes \<Rightarrow>
         (if total_steps = 0 then Inl ZeroDivisionErr
          else
            (let recovery_steps_wasted =
                   sum_list (map (\<lambda>o'. ro_recovery_time_secs o' * wl_steps_per_second w) outcomes);
                 productive_steps = max 0 (of_int total_steps - recovery_steps_wasted)
             in Inr \<lparr>si_system_name = name, si_workload_name = wl_name w, si_trace_name = ft_name trace,
                  si_fault_outcomes = outcomes,
                  si_total_recovery_secs = sum_list (map ro_recovery_time_secs outcomes),
                  si_total_idle_gpu_hours = sum_list (map ro_idle_gpu_hours outcomes),
                  si_total_dollars_wasted = sum_list (map ro_dollars_wasted outcomes),
                  si_goodput = min 1 (max 0 (productive_steps / of_int total_steps))\<rparr>)))"

subsection \<open>Metrics\<close>

record metrics_row =
  me_system_name :: string
  me_workload_name :: string
  me_trace_name :: string
  me_total_recovery_secs :: real
  me_total_idle_gpu_hours :: real
  me_total_dollars_wasted :: real
  me_goodput :: real
  me_fault_count :: nat
  me_forced_restart_count :: nat

record savings =
  sv_dollars_saved :: real
  sv_gpu_hours_saved :: real
  sv_goodput_improvement :: real
  sv_recovery_time_reduction_pct :: real

definition compute_metrics :: "simulation_result \<Rightarrow> metrics_row" where
  "compute_metrics r =
    \<lparr>me_system_name = si_system_name r, me_workload_name = si_workload_name r,
     me_trace_name = si_trace_name r, me_total_recovery_secs = si_total_recovery_secs r,
     me_total_idle_gpu_hours = si_total_idle_gpu_hours r,
     me_total_dollars_wasted = si_total_dollars_wasted r, me_goodput = si_goodput r,
     me_fault_count = length (si_fault_outcomes r),
     me_forced_restart_count = length (filter ro_forced_restart (si_fault_outcomes r))\<rparr>"

definition compute_savings_vs_baseline :: "simulation_result \<Rightarrow> simulation_result \<Rightarrow> savings" where
  "compute_savings_vs_baseline sys base =
    \<lparr>sv_dollars_saved = si_total_dollars_wasted base - si_total_dollars_wasted sys,
     sv_gpu_hours_saved = si_total_idle_gpu_hours base - si_total_idle_gpu_hours sys,
     sv_goodput_improvement = si_goodput sys - si_goodput base,
     sv_recovery_time_reduction_pct =
       (if si_total_recovery_secs base > 0
        then (si_total_recovery_secs base - si_total_recovery_secs sys) / si_total_recovery_secs base * 100
        else 0)\<rparr>"

definition no_savings :: savings where
  "no_savings = \<lparr>sv_dollars_saved = 0, sv_gpu_hours_saved = 0, sv_goodput_improvement = 0,
     sv_recovery_time_reduction_pct = 0\<rparr>"

definition compare_systems ::
  "(string, simulation_result) dict \<Rightarrow> string \<Rightarrow> (metrics_row \<times> savings) list" where
  "compare_systems results baseline_name =
    (let baseline = dget results baseline_name;
         rows = map (\<lambda>(name, result).
           (compute_metrics result,
            case baseline of
              Some b \<Rightarrow> if name \<noteq> baseline_name then compute_savings_vs_baseline result b else no_savings
            | None \<Rightarrow> no_savings)) results
     in sort_key (\<lambda>row. me_total_dollars_wasted (fst row)) rows)"

subsection \<open>The runner\<close>

text \<open>
  For each system, \<open>n_repeats\<close> runs; the last one's result is stored under the system's
  name, and nothing when there are no repeats.
\<close>

fun repeat_runs :: "nat \<Rightarrow> (nat \<Rightarrow> pyexc + simulation_result) \<Rightarrow> simulation_result option \<Rightarrow> nat \<Rightarrow>
  pyexc + simulation_result option" where
  "repeat_runs 0 run last_result k = Inr last_result"
| "repeat_runs (Suc n) run last_result k =
    (case run k of Inl x \<Rightarrow> Inl x | Inr r \<Rightarrow> repeat_runs n run (Some r) (k + 1))"

fun run_benchmark ::
  "(string \<times> fault_handler) list \<Rightarrow> workload \<Rightarrow> fault_trace \<Rightarrow> real \<Rightarrow> int \<Rightarrow> nat \<Rightarrow>
   (string, simulation_result) dict \<Rightarrow> pyexc + (string, simulation_result) dict" where
  "run_benchmark [] w trace cost total_steps n results = Inr results"
| "run_benchmark ((name, handle) # systems) w trace cost total_steps n results =
    (case repeat_runs n (\<lambda>_. simulate name handle w trace cost total_steps) None 0 of Inl x \<Rightarrow> Inl x
     | Inr None \<Rightarrow> run_benchmark systems w trace cost total_steps n results
     | Inr (Some r) \<Rightarrow> run_benchmark systems w trace cost total_steps n (dset name r results))"


subsection \<open>What every adapter promises\<close>

text \<open>
  A workload the configurations describe: a positive step rate with the step duration that
  belongs to it, a positive checkpoint interval, no negative restore time or GPU count.
\<close>

definition workload_ok :: "workload \<Rightarrow> bool" where
  "workload_ok w \<longleftrightarrow> 0 < wl_steps_per_second w \<and> wl_step_duration_secs w = 1 / wl_steps_per_second w \<and>
     0 < wl_checkpoint_interval_steps w \<and> 0 \<le> wl_checkpoint_restore_secs w \<and> 0 \<le> wl_gpu_count w"

lemma mk_workload_ok:
  assumes "mk_workload name model params gpus sps interval wr rst par = Inr w"
    and "0 < sps" "0 < interval" "0 \<le> rst" "0 \<le> gpus"
  shows "workload_ok w"
  using assms by (auto simp: mk_workload_def workload_ok_def split: if_splits)

lemma W1_ok: "workload_ok (projr W1)"
  by (simp add: W1_def mk_workload_def workload_ok_def)

lemma from_recovery_time_sel [simp]:
  "ro_recovery_time_secs (from_recovery_time s g c t ok fr n) = s"
  "ro_idle_gpu_hours (from_recovery_time s g c t ok fr n) = s * of_int g / 3600"
  "ro_dollars_wasted (from_recovery_time s g c t ok fr n) = s * of_int g / 3600 * c"
  "ro_succeeded (from_recovery_time s g c t ok fr n) = ok"
  "ro_tier_handled (from_recovery_time s g c t ok fr n) = t"
  "ro_forced_restart (from_recovery_time s g c t ok fr n) = fr"
  "ro_notes (from_recovery_time s g c t ok fr n) = n"
  by (simp_all add: from_recovery_time_def Let_def)

locale system_adapter =
  fixes handle :: fault_handler
  assumes answers: "workload_ok w \<Longrightarrow> \<exists>out. handle f w cost = Inr out"
    and priced: "handle f w cost = Inr out \<Longrightarrow>
      ro_idle_gpu_hours out = ro_recovery_time_secs out * of_int (wl_gpu_count w) / 3600 \<and>
      ro_dollars_wasted out = ro_idle_gpu_hours out * cost"
    and stalls: "workload_ok w \<Longrightarrow> handle f w cost = Inr out \<Longrightarrow> 0 \<le> ro_recovery_time_secs out"
begin

lemma run_faults_answers:
  assumes "workload_ok w"
  shows "\<exists>outs. run_faults handle w cost fs = Inr outs \<and> list_all2 (\<lambda>f out. handle f w cost = Inr out) fs outs"
proof (induction fs)
  case (Cons f fs)
  from answers [OF assms, of f cost] obtain out where "handle f w cost = Inr out" by blast
  with Cons.IH show ?case by auto
qed simp

lemma outcomes_sum:
  assumes "list_all2 (\<lambda>f out. handle f w cost = Inr out) fs outs"
  shows "sum_list (map ro_idle_gpu_hours outs) =
      sum_list (map ro_recovery_time_secs outs) * of_int (wl_gpu_count w) / 3600"
    "sum_list (map ro_dollars_wasted outs) = sum_list (map ro_idle_gpu_hours outs) * cost"
  using assms by (induction rule: list_all2_induct) (auto dest!: priced simp: distrib_right add_divide_distrib)

lemma outcomes_nonneg:
  assumes "list_all2 (\<lambda>f out. handle f w cost = Inr out) fs outs" "workload_ok w"
  shows "0 \<le> sum_list (map ro_recovery_time_secs outs)"
  using assms(1) by (induction rule: list_all2_induct) (auto dest: stalls [OF assms(2)] intro: add_nonneg_nonneg)

lemma simulate_adds_up:
  assumes w: "workload_ok w" and n: "0 < total_steps"
  shows "\<exists>r. simulate name handle w trace cost total_steps = Inr r \<and>
    list_all2 (\<lambda>f out. handle f w cost = Inr out) (ft_events trace) (si_fault_outcomes r) \<and>
    0 \<le> si_total_recovery_secs r \<and>
    si_total_idle_gpu_hours r = si_total_recovery_secs r * of_int (wl_gpu_count w) / 3600 \<and>
    si_total_dollars_wasted r = si_total_idle_gpu_hours r * cost \<and>
    si_goodput r = max 0 (1 - si_total_recovery_secs r * wl_steps_per_second w / of_int total_steps)"
proof -
  from run_faults_answers [OF w] obtain outs where run: "run_faults handle w cost (ft_events trace) = Inr outs"
    and outs: "list_all2 (\<lambda>f out. handle f w cost = Inr out) (ft_events trace) outs" by blast
  let ?secs = "sum_list (map ro_recovery_time_secs outs)" and ?t = "of_int total_steps :: real"
  have pos: "0 \<le> ?secs" by (rule outcomes_nonneg [OF outs w])
  then have "0 \<le> ?secs * wl_steps_per_second w" using w by (simp add: workload_ok_def)
  then have "min 1 (max 0 (max 0 (?t - ?secs * wl_steps_per_second w) / ?t)) =
      max 0 (1 - ?secs * wl_steps_per_second w / ?t)"
    using n by (auto simp: max_def min_def field_simps)
  then show ?thesis
    using n run outs pos outcomes_sum [OF outs] by (simp add: simulate_def Let_def sum_list_mult_right)
qed

end

subsection \<open>The baseline systems as adapters\<close>

text \<open>The tiers a baseline claims to recover itself, with its cost for each.\<close>

fun claimed_secs :: "bench_system \<Rightarrow> blast_radius \<Rightarrow> real option" where
  "claimed_secs Vanilla tier = None"
| "claimed_secs TorchFT tier = dget torchft_recovery_secs tier"
| "claimed_secs MeCeFO tier = dget mecefo_recovery_secs tier"
| "claimed_secs R2CCL tier = dget r2ccl_recovery_secs tier"
| "claimed_secs TierCheck tier = dget tiercheck_recovery_secs tier"

lemmas recovery_tables = torchft_recovery_secs_def mecefo_recovery_secs_def r2ccl_recovery_secs_def
  tiercheck_recovery_secs_def tiercheck_labels_def

lemmas adapters = vanilla_handle_def torchft_handle_def mecefo_handle_def r2ccl_handle_def
  tiercheck_handle_def vanilla_fallback_def

lemma handle_claimed:
  assumes "claimed_secs sys (tf_expected_tier f) = Some secs"
  shows "\<exists>note. handle_fault sys f w cost = Inr (from_recovery_time secs (wl_gpu_count w) cost
    (tier_name (tf_expected_tier f)) True False note)"
proof (cases sys)
  case TierCheck
  with assms show ?thesis
    by (cases "tf_expected_tier f") (auto simp: adapters recovery_tables Let_def)
qed (use assms in \<open>auto simp: adapters Let_def dget_or_def\<close>)

lemma handle_unclaimed:
  assumes "claimed_secs sys (tf_expected_tier f) = None"
  shows "\<exists>note. handle_fault sys f w cost = (case last_checkpoint w (tf_step f) of Inl x \<Rightarrow> Inl x
    | Inr c \<Rightarrow> Inr (from_recovery_time (vanilla_rollback_secs w (tf_step f) c) (wl_gpu_count w) cost
        ''full_restart'' True True (note c)))"
proof (cases sys)
  case TorchFT
  with assms show ?thesis by (cases "tf_expected_tier f") (simp_all add: recovery_tables)
qed (use assms in \<open>auto simp: adapters Let_def split: sum.splits intro: exI [of _ "\<lambda>c. NoteRollback _ _"]\<close>)

lemma rollback_bounds:
  assumes "workload_ok w" "last_checkpoint w step = Inr c"
  shows "wl_checkpoint_restore_secs w \<le> vanilla_rollback_secs w step c"
    "vanilla_rollback_secs w step c < wl_checkpoint_restore_secs w + checkpoint_interval_secs w"
proof -
  let ?i = "wl_checkpoint_interval_steps w"
  have i: "0 < ?i" "0 < wl_step_duration_secs w" using assms(1) by (simp_all add: workload_ok_def)
  have c: "c = step div ?i * ?i" using assms(2) i by (simp add: last_checkpoint_def)
  then have lost: "step - c = step mod ?i" by (simp add: minus_div_mult_eq_mod)
  then have "0 \<le> step - c" "step - c < ?i" using i by simp_all
  moreover from this have "real_of_int (step - c) * wl_step_duration_secs w < of_int ?i * wl_step_duration_secs w"
    using i by (intro mult_strict_right_mono) simp_all
  ultimately show "wl_checkpoint_restore_secs w \<le> vanilla_rollback_secs w step c"
    "vanilla_rollback_secs w step c < wl_checkpoint_restore_secs w + checkpoint_interval_secs w"
    using i by (simp_all add: vanilla_rollback_secs_def checkpoint_interval_secs_def max_def)
qed

lemma last_checkpoint_ok: "workload_ok w \<Longrightarrow> \<exists>c. last_checkpoint w step = Inr c"
  by (simp add: last_checkpoint_def workload_ok_def)

lemma claimed_nonneg: "claimed_secs sys tier = Some secs \<Longrightarrow> 0 \<le> secs"
  by (cases sys; cases tier) (auto simp: recovery_tables)

interpretation baseline: system_adapter "handle_fault sys" for sys
proof
  fix w cost out and f :: trace_fault_event
  let ?t = "tf_expected_tier f"
  {
    assume w: "workload_ok w"
    show "\<exists>out. handle_fault sys f w cost = Inr out"
    proof (cases "claimed_secs sys ?t")
      case None
      from handle_unclaimed [where sys = sys, OF None, of w cost] last_checkpoint_ok [OF w, of "tf_step f"]
      show ?thesis by auto
    qed (use handle_claimed [of sys f _ w cost] in blast)
  }
  {
    assume "handle_fault sys f w cost = Inr out"
    then have "\<exists>s t ok fr n. out = from_recovery_time s (wl_gpu_count w) cost t ok fr n"
      using handle_claimed [of sys f _ w cost] handle_unclaimed [of sys f w cost]
      by (cases "claimed_secs sys ?t") (fastforce split: sum.splits)+
    then show "ro_idle_gpu_hours out = ro_recovery_time_secs out * of_int (wl_gpu_count w) / 3600 \<and>
        ro_dollars_wasted out = ro_idle_gpu_hours out * cost" by auto
  }
  {
    assume w: "workload_ok w" and out: "handle_fault sys f w cost = Inr out"
    show "0 \<le> ro_recovery_time_secs out"
    proof (cases "claimed_secs sys ?t")
      case None
      from last_checkpoint_ok [OF w] obtain c where c: "last_checkpoint w (tf_step f) = Inr c" by blast
      have "0 \<le> wl_checkpoint_restore_secs w" using w by (simp add: workload_ok_def)
      with handle_unclaimed [where sys = sys, OF None, of w cost] out c rollback_bounds(1) [OF w c] show ?thesis by auto
    next
      case (Some secs)
      with handle_claimed [OF Some, of w cost] out claimed_nonneg [OF Some] show ?thesis by auto
    qed
  }
qed

text \<open>
  A specialist recovers its own tiers and restarts for the rest: on a well-formed workload
  every baseline answers every fault; a tier the system claims costs its table entry, is
  reported under that tier and forces no restart, and any other one is a forced full restart
  whose cost is exactly the vanilla system's, at least the restore time and less than that
  plus one checkpoint interval.
\<close>

theorem specialists_restart_outside_their_tiers:
  assumes "workload_ok w"
  shows "\<exists>out van. handle_fault sys f w cost = Inr out \<and> handle_fault Vanilla f w cost = Inr van \<and>
    (case claimed_secs sys (tf_expected_tier f) of
       Some secs \<Rightarrow> ro_recovery_time_secs out = secs \<and> \<not> ro_forced_restart out \<and>
         ro_tier_handled out = tier_name (tf_expected_tier f)
     | None \<Rightarrow> ro_forced_restart out \<and> ro_tier_handled out = ''full_restart'' \<and>
         ro_dollars_wasted out = ro_dollars_wasted van \<and>
         ro_recovery_time_secs out = ro_recovery_time_secs van) \<and>
    wl_checkpoint_restore_secs w \<le> ro_recovery_time_secs van \<and>
    ro_recovery_time_secs van < wl_checkpoint_restore_secs w + checkpoint_interval_secs w"
proof -
  from last_checkpoint_ok [OF assms] obtain c where c: "last_checkpoint w (tf_step f) = Inr c" by blast
  have "claimed_secs Vanilla (tf_expected_tier f) = None" by simp
  from handle_unclaimed [OF this, of w cost] c obtain n where van: "handle_fault Vanilla f w cost =
      Inr (from_recovery_time (vanilla_rollback_secs w (tf_step f) c) (wl_gpu_count w) cost ''full_restart'' True True n)"
    by auto
  show ?thesis
  proof (cases "claimed_secs sys (tf_expected_tier f)")
    case None
    with handle_unclaimed [OF None, of w cost] c van rollback_bounds [OF assms c] show ?thesis by auto
  next
    case (Some secs)
    with handle_claimed [OF Some, of w cost] van rollback_bounds [OF assms c] show ?thesis by auto
  qed
qed

theorem specialists_restart_outside_their_tiers_witness:
  "\<exists>out van. handle_fault MeCeFO (hd (ft_events FT_B2)) (projr W1) 2 = Inr out \<and>
     handle_fault Vanilla (hd (ft_events FT_B2)) (projr W1) 2 = Inr van \<and>
     ro_forced_restart out \<and> ro_recovery_time_secs out = ro_recovery_time_secs van \<and>
     120 \<le> ro_recovery_time_secs van \<and> ro_recovery_time_secs van < 520"
proof -
  have "workload_ok (projr W1)" by (rule W1_ok)
  from specialists_restart_outside_their_tiers [OF this, of MeCeFO "hd (ft_events FT_B2)" 2]
  show ?thesis
    by (simp add: FT_B2_def mk_trace_event_def mecefo_recovery_secs_def W1_def mk_workload_def
        checkpoint_interval_secs_def) blast
qed

text \<open>
  A simulation adds up: for every baseline, every well-formed workload and every trace, the
  simulation returns one outcome per fault, in order, each the adapter's answer; the GPU
  hours are the total stall times the GPUs, the dollars the hours at the given price, and the
  goodput is the share of the steps not lost to recovery, cut off at 0.
\<close>

theorem simulation_adds_up:
  assumes "workload_ok w" "0 < total_steps"
  shows "\<exists>r. simulate (system_name sys) (handle_fault sys) w trace cost total_steps = Inr r \<and>
    list_all2 (\<lambda>f out. handle_fault sys f w cost = Inr out) (ft_events trace) (si_fault_outcomes r) \<and>
    0 \<le> si_total_recovery_secs r \<and>
    si_total_idle_gpu_hours r = si_total_recovery_secs r * of_int (wl_gpu_count w) / 3600 \<and>
    si_total_dollars_wasted r = si_total_idle_gpu_hours r * cost \<and>
    si_goodput r = max 0 (1 - si_total_recovery_secs r * wl_steps_per_second w / of_int total_steps)"
  by (rule baseline.simulate_adds_up [OF assms])

theorem simulation_adds_up_witness:
  "\<exists>r out. simulate ''B-R2CCL'' (handle_fault R2CCL) (projr W1) FT_B0 2 50000 = Inr r \<and>
     si_fault_outcomes r = [out] \<and> ro_recovery_time_secs out = 5 \<and>
     si_total_idle_gpu_hours r = si_total_recovery_secs r * 8 / 3600"
proof -
  have "workload_ok (projr W1)" by (rule W1_ok)
  from simulation_adds_up [OF this, of 50000 R2CCL FT_B0 2] obtain r where
    r: "simulate (system_name R2CCL) (handle_fault R2CCL) (projr W1) FT_B0 2 50000 = Inr r"
      "list_all2 (\<lambda>f out. handle_fault R2CCL f (projr W1) 2 = Inr out) (ft_events FT_B0) (si_fault_outcomes r)"
      "si_total_idle_gpu_hours r = si_total_recovery_secs r * of_int (wl_gpu_count (projr W1)) / 3600" by auto
  from r(2) obtain out where "si_fault_outcomes r = [out]"
      "handle_fault R2CCL (hd (ft_events FT_B0)) (projr W1) 2 = Inr out"
    by (auto simp: FT_B0_def list_all2_Cons1)
  with r show ?thesis
    by (auto simp: FT_B0_def mk_trace_event_def r2ccl_handle_def r2ccl_recovery_secs_def W1_def mk_workload_def)
qed

subsection \<open>The comparison and the runner\<close>

text \<open>
  The ranking is fair: the rows of a comparison are the metrics of all the results, each
  once, from the least to the most money wasted; against a baseline that is among the
  results, every row's waste plus its savings is the baseline's waste, and the baseline's
  own savings are 0. Rows that waste the same keep the order of the results.
\<close>

theorem comparison_ranks_all_systems:
  assumes "distinct (dkeys results)"
  shows "let rows = compare_systems results base
    in sorted (map (me_total_dollars_wasted \<circ> fst) rows) \<and>
       mset (map fst rows) = mset (map (compute_metrics \<circ> snd) results) \<and>
       (\<forall>d. filter (\<lambda>m. me_total_dollars_wasted m = d) (map fst rows) =
          filter (\<lambda>m. me_total_dollars_wasted m = d) (map (compute_metrics \<circ> snd) results)) \<and>
       (\<forall>b row. dget results base = Some b \<longrightarrow> row \<in> set rows \<longrightarrow>
          me_total_dollars_wasted (fst row) + sv_dollars_saved (snd row) = si_total_dollars_wasted b \<and>
          me_total_idle_gpu_hours (fst row) + sv_gpu_hours_saved (snd row) = si_total_idle_gpu_hours b)"
proof -
  define row where "row = (\<lambda>(name, result). (compute_metrics result, case dget results base of
      Some b \<Rightarrow> if name \<noteq> base then compute_savings_vs_baseline result b else no_savings | None \<Rightarrow> no_savings))"
  let ?k = "\<lambda>r :: metrics_row \<times> savings. me_total_dollars_wasted (fst r)"
  have rows: "compare_systems results base = sort_key ?k (map row results)"
    by (simp add: compare_systems_def row_def)
  have fsts: "map fst (map row results) = map (compute_metrics \<circ> snd) results"
    by (simp add: row_def case_prod_unfold)
  have perm: "mset (map fst (sort_key ?k (map row results))) = mset (map fst (map row results))"
    by (metis mset_map mset_sort)
  have stable: "filter (\<lambda>m. me_total_dollars_wasted m = d) (map fst (sort_key ?k (map row results))) =
      filter (\<lambda>m. me_total_dollars_wasted m = d) (map fst (map row results))" for d
  proof -
    have "filter (\<lambda>r. ?k r = d) (sort_key ?k (map row results)) = filter (\<lambda>r. ?k r = d) (map row results)"
      by (rule sort_key_stable)
    then show ?thesis unfolding filter_map comp_def by (rule arg_cong)
  qed
  have "?k r + sv_dollars_saved (snd r) = si_total_dollars_wasted b \<and>
      me_total_idle_gpu_hours (fst r) + sv_gpu_hours_saved (snd r) = si_total_idle_gpu_hours b"
    if "dget results base = Some b" and r: "r \<in> row ` set results" for b r
  proof -
    from r obtain name res where nr: "(name, res) \<in> set results" "r = row (name, res)" by auto
    from dget_distinct [OF assms nr(1)] that(1) have "name = base \<Longrightarrow> res = b" by simp
    then show ?thesis
      by (simp add: nr(2) row_def that(1) compute_metrics_def compute_savings_vs_baseline_def no_savings_def)
  qed
  then have save: "\<forall>b r. dget results base = Some b \<longrightarrow> r \<in> set (sort_key ?k (map row results)) \<longrightarrow>
      ?k r + sv_dollars_saved (snd r) = si_total_dollars_wasted b \<and>
      me_total_idle_gpu_hours (fst r) + sv_gpu_hours_saved (snd r) = si_total_idle_gpu_hours b"
    by simp
  have "sorted (map (me_total_dollars_wasted \<circ> fst) (sort_key ?k (map row results)))"
    unfolding comp_def by (rule sorted_sort_key)
  then show ?thesis
    unfolding rows Let_def using perm [unfolded fsts] stable [unfolded fsts] save by blast
qed

theorem comparison_ranks_all_systems_witness:
  "\<exists>r v. simulate ''B-R2CCL'' (handle_fault R2CCL) (projr W1) FT_B0 2 50000 = Inr r \<and>
     simulate ''B-VANILLA'' (handle_fault Vanilla) (projr W1) FT_B0 2 50000 = Inr v \<and>
     sorted (map (me_total_dollars_wasted \<circ> fst) (compare_systems [(''B-VANILLA'', v), (''B-R2CCL'', r)] ''B-VANILLA'')) \<and>
     mset (map fst (compare_systems [(''B-VANILLA'', v), (''B-R2CCL'', r)] ''B-VANILLA'')) =
       {#compute_metrics v, compute_metrics r#}"
proof -
  from baseline.simulate_adds_up [OF W1_ok, of 50000 "''B-R2CCL''" R2CCL FT_B0 2] obtain r where
    r: "simulate ''B-R2CCL'' (handle_fault R2CCL) (projr W1) FT_B0 2 50000 = Inr r" by auto
  from baseline.simulate_adds_up [OF W1_ok, of 50000 "''B-VANILLA''" Vanilla FT_B0 2] obtain v where
    v: "simulate ''B-VANILLA'' (handle_fault Vanilla) (projr W1) FT_B0 2 50000 = Inr v" by auto
  have "distinct (dkeys [(''B-VANILLA'', v), (''B-R2CCL'', r)])" by simp
  from comparison_ranks_all_systems [OF this, of "''B-VANILLA''"] r v show ?thesis
    unfolding Let_def by (intro exI [of _ r] exI [of _ v]) simp
qed

lemma repeat_runs_const:
  assumes "\<And>i. run i = Inr r"
  shows "repeat_runs n run prev k = Inr (if n = 0 then prev else Some r)"
  by (induction n arbitrary: prev k) (simp_all add: assms)

lemma run_benchmark_results:
  assumes "\<And>name h. (name, h) \<in> set systems \<Longrightarrow> \<exists>r. simulate name h w trace cost steps = Inr r"
    and "distinct (map fst systems)" "set (map fst systems) \<inter> set (dkeys acc) = {}" "0 < n"
  shows "\<exists>res. run_benchmark systems w trace cost steps n acc = Inr res \<and>
    dkeys res = dkeys acc @ map fst systems \<and>
    (\<forall>name \<in> set (dkeys acc). dget res name = dget acc name) \<and>
    (\<forall>(name, h) \<in> set systems. map_option Inr (dget res name) = Some (simulate name h w trace cost steps))"
  using assms
proof (induction systems arbitrary: acc)
  case (Cons s systems)
  obtain name h where s: "s = (name, h)" by (cases s)
  from Cons.prems(1) [of name h] obtain r where r: "simulate name h w trace cost steps = Inr r" by (auto simp: s)
  have rep: "repeat_runs n (\<lambda>_. simulate name h w trace cost steps) None 0 = Inr (Some r)"
    using repeat_runs_const [where run = "\<lambda>_. simulate name h w trace cost steps", OF r] Cons.prems(4) by simp
  have new: "name \<notin> set (dkeys acc)" "name \<notin> set (map fst systems)" using Cons.prems(2,3) by (auto simp: s)
  have "set (map fst systems) \<inter> set (dkeys (dset name r acc)) = {}"
    using Cons.prems(2,3) new by (auto simp: s)
  from Cons.IH [OF _ _ this Cons.prems(4)] Cons.prems(1,2) obtain res where
    res: "run_benchmark systems w trace cost steps n (dset name r acc) = Inr res"
      "dkeys res = dkeys (dset name r acc) @ map fst systems"
      "\<forall>k \<in> set (dkeys (dset name r acc)). dget res k = dget (dset name r acc) k"
      "\<forall>(name, h) \<in> set systems. map_option Inr (dget res name) = Some (simulate name h w trace cost steps)"
    by (auto simp: s)
  have "dget res name = Some r" using res(3) by simp
  moreover have "\<forall>k \<in> set (dkeys acc). dget res k = dget acc k" using res(3) new by auto
  moreover have "dkeys res = dkeys acc @ map fst (s # systems)" using res(2) new by (simp add: s dkeys_dset_new)
  ultimately show ?case
    using rep res(1) res(4) r unfolding s by (intro exI [of _ res]) simp
qed simp

text \<open>
  The runner reports what was simulated: for baselines in any order without repetition, a
  well-formed workload and at least one repeat, the benchmark returns one result per system,
  in order, under the system's name, and that result is the system's simulation of the
  trace, whatever the number of repeats.
\<close>

lemma system_name_inj: "inj system_name"
proof (rule injI)
  fix x y show "system_name x = system_name y \<Longrightarrow> x = y" by (cases x; cases y) simp_all
qed

theorem benchmark_reports_every_system:
  assumes "workload_ok w" "0 < total_steps" "distinct systems" "0 < n"
  shows "\<exists>res. run_benchmark (map (\<lambda>s. (system_name s, handle_fault s)) systems) w trace cost total_steps n [] = Inr res \<and>
    dkeys res = map system_name systems \<and>
    (\<forall>s \<in> set systems. \<exists>r. dget res (system_name s) = Some r \<and>
       simulate (system_name s) (handle_fault s) w trace cost total_steps = Inr r)"
proof -
  let ?ss = "map (\<lambda>s. (system_name s, handle_fault s)) systems"
  have sim: "\<exists>r. simulate name h w trace cost total_steps = Inr r" if "(name, h) \<in> set ?ss" for name h
    using that baseline.simulate_adds_up [OF assms(1,2)] by fastforce
  have d: "distinct (map fst ?ss)"
    using assms(3) by (simp add: comp_def distinct_map inj_on_subset [OF system_name_inj])
  from run_benchmark_results [OF sim d _ assms(4), of "[]"] obtain res where
    res: "run_benchmark ?ss w trace cost total_steps n [] = Inr res" "dkeys res = map system_name systems"
      "\<forall>(name, h) \<in> set ?ss. map_option Inr (dget res name) = Some (simulate name h w trace cost total_steps)"
    by (auto simp: comp_def)
  moreover have "\<exists>r. dget res (system_name s) = Some r \<and>
      simulate (system_name s) (handle_fault s) w trace cost total_steps = Inr r" if "s \<in> set systems" for s
    using res(3) that by (fastforce simp: map_option_case split: option.splits)
  ultimately show ?thesis by blast
qed

theorem benchmark_reports_every_system_witness:
  "\<exists>res r. run_benchmark (map (\<lambda>s. (system_name s, handle_fault s)) [Vanilla, R2CCL]) (projr W1) FT_B1 2 50000 3 [] = Inr res \<and>
     dkeys res = [''B-VANILLA'', ''B-R2CCL''] \<and> dget res ''B-R2CCL'' = Some r \<and>
     simulate ''B-R2CCL'' (handle_fault R2CCL) (projr W1) FT_B1 2 50000 = Inr r"
proof -
  have "workload_ok (projr W1)" by (rule W1_ok)
  from benchmark_reports_every_system [OF this, of 50000 "[Vanilla, R2CCL]" 3 FT_B1 2] show ?thesis by auto
qed

subsection \<open>The random traces\<close>

text \<open>The classes of a pool carry the tier the classifier gives their signal.\<close>

definition pool_ok :: "fault_class list \<Rightarrow> bool" where
  "pool_ok pool \<longleftrightarrow> pool \<noteq> [] \<and>
     list_all (\<lambda>(signal, tier, node, nic, rack). classify_signal signal = tier \<and>
       node \<in> {''node0'', ''node1'', ''node2'', ''node3''}) pool"

lemma pools_ok: "pool_ok poisson_pool" "pool_ok (map snd production_profile)"
  by (simp_all add: pool_ok_def poisson_pool_def production_profile_def classify_signal_def signal_to_tier_def
      dget_or_def)

definition trace_event_ok :: "trace_fault_event \<Rightarrow> bool" where
  "trace_event_ok e \<longleftrightarrow> tf_expected_tier e = classify_signal (tf_signal e) \<and>
     tf_node e \<in> {''node0'', ''node1'', ''node2'', ''node3''}"

lemma draw_event_ok:
  assumes "pool_ok pool"
  shows "trace_event_ok (draw_event pool step c rank)" "tf_step (draw_event pool step c rank) = \<lfloor>step\<rfloor>"
proof -
  obtain signal tier node nic rack where p: "pool ! (c mod length pool) = (signal, tier, node, nic, rack)"
    by (cases "pool ! (c mod length pool)") auto
  have "c mod length pool < length pool" using assms by (simp add: pool_ok_def)
  then have "(signal, tier, node, nic, rack) \<in> set pool" using p nth_mem by metis
  then have "classify_signal signal = tier \<and> node \<in> {''node0'', ''node1'', ''node2'', ''node3''}"
    using assms by (auto simp: pool_ok_def list_all_iff)
  then show "trace_event_ok (draw_event pool step c rank)" "tf_step (draw_event pool step c rank) = \<lfloor>step\<rfloor>"
    by (simp_all add: draw_event_def p mk_trace_event_def trace_event_ok_def)
qed

lemma random_events_enough:
  assumes "0 < g" "\<forall>(gap, c, rank) \<in> set draws. g \<le> gap" "total_steps \<le> step + g * real (length draws)"
  shows "random_events pool total_steps step draws \<noteq> None"
  using assms(2,3)
proof (induction draws arbitrary: step)
  case (Cons d draws)
  obtain gap c rank where d: "d = (gap, c, rank)" by (cases d)
  have "total_steps \<le> (step + gap) + g * real (length draws)"
    using Cons.prems by (simp add: d algebra_simps)
  from Cons.IH [OF _ this] Cons.prems(1) show ?case by (simp add: d)
qed simp

lemma random_events_ok:
  assumes "pool_ok pool" "\<forall>(gap, c, rank) \<in> set draws. 0 \<le> gap" "0 \<le> step"
    "random_events pool total_steps step draws = Some es"
  shows "list_all trace_event_ok es" "sorted (map tf_step es)"
    "\<forall>e \<in> set es. \<lfloor>step\<rfloor> \<le> tf_step e \<and> of_int (tf_step e) < total_steps"
proof -
  have "list_all trace_event_ok es \<and> sorted (map tf_step es) \<and>
      (\<forall>e \<in> set es. \<lfloor>step\<rfloor> \<le> tf_step e \<and> of_int (tf_step e) < total_steps)"
    using assms(2-)
  proof (induction draws arbitrary: step es)
    case Nil then show ?case by (auto split: if_splits)
  next
    case (Cons d draws)
    obtain gap c rank where d: "d = (gap, c, rank)" by (cases d)
    show ?case
    proof (cases "step < total_steps")
      case True
      with Cons.prems(3) obtain fs where fs: "random_events pool total_steps (step + gap) draws = Some fs"
        and es: "es = draw_event pool step c rank # fs" by (auto simp: d)
      have g: "0 \<le> gap" using Cons.prems(1) by (simp add: d)
      with Cons.IH [OF _ _ fs] Cons.prems(1,2)
      have ih: "list_all trace_event_ok fs" "sorted (map tf_step fs)"
        "\<forall>e \<in> set fs. \<lfloor>step + gap\<rfloor> \<le> tf_step e \<and> of_int (tf_step e) < total_steps" by auto
      have le: "\<lfloor>step\<rfloor> \<le> \<lfloor>step + gap\<rfloor>" using g by (simp add: floor_mono)
      have "of_int \<lfloor>step\<rfloor> < total_steps" using True of_int_floor_le [of step] by linarith
      with ih le draw_event_ok [OF assms(1), of step c rank] show ?thesis by (force simp: es)
    qed (use Cons.prems(3) in \<open>simp add: d\<close>)
  qed
  then show "list_all trace_event_ok es" "sorted (map tf_step es)"
    "\<forall>e \<in> set es. \<lfloor>step\<rfloor> \<le> tf_step e \<and> of_int (tf_step e) < total_steps" by auto
qed

text \<open>
  C29. The random traces are usable: with draws whose gaps are at least some positive step and
  that suffice to pass the end, both generators return; the faults come in the order of
  their steps, inside the training run, and every fault's expected tier is the one the
  classifier gives its signal, on one of the four nodes of the topology.
\<close>

theorem random_traces_well_formed:
  assumes "0 < g" "\<forall>(gap, c, rank) \<in> set draws. g \<le> gap" "0 \<le> first"
    and "total_steps \<le> first + g * real (length draws)" "200000 \<le> first + g * real (length draws)"
  shows "\<exists>p q. make_ft_poisson total_steps first draws = Some p \<and> make_ft_production first draws = Some q \<and>
    list_all trace_event_ok (ft_events p @ ft_events q) \<and>
    sorted (map tf_step (ft_events p)) \<and> sorted (map tf_step (ft_events q)) \<and>
    (\<forall>e \<in> set (ft_events p). 0 \<le> tf_step e \<and> of_int (tf_step e) < total_steps) \<and>
    (\<forall>e \<in> set (ft_events q). 0 \<le> tf_step e \<and> tf_step e < 200000)"
proof -
  have gaps: "\<forall>(gap, c, rank) \<in> set draws. 0 \<le> gap" using assms(1,2) by fastforce
  from random_events_enough [OF assms(1,2,4)] obtain es where
    es: "random_events poisson_pool total_steps first draws = Some es" by blast
  from random_events_enough [OF assms(1,2,5)] obtain fs where
    fs: "random_events (map snd production_profile) 200000 first draws = Some fs" by blast
  have z: "0 \<le> \<lfloor>first\<rfloor>" using assms(3) by simp
  note ok = random_events_ok [OF pools_ok(1) gaps assms(3) es] random_events_ok [OF pools_ok(2) gaps assms(3) fs]
  have "\<forall>e \<in> set es. 0 \<le> tf_step e \<and> of_int (tf_step e) < total_steps" using ok(3) by (blast intro: order_trans [OF z])
  moreover have "\<forall>e \<in> set fs. 0 \<le> tf_step e \<and> tf_step e < 200000"
  proof (intro ballI conjI)
    fix e assume e: "e \<in> set fs"
    with ok(6) show "0 \<le> tf_step e" by (blast intro: order_trans [OF z])
    from e ok(6) have "real_of_int (tf_step e) < 200000" by blast
    then show "tf_step e < 200000" by linarith
  qed
  ultimately show ?thesis
    using ok(1,2,4,5) es fs by (simp add: make_ft_poisson_def make_ft_production_def)
qed

theorem random_traces_well_formed_witness:
  "\<exists>p. make_ft_poisson 20000 7000 [(150000, 2, 3), (150000, 0, 5)] = Some p \<and>
     map tf_step (ft_events p) = [7000] \<and> map tf_expected_tier (ft_events p) = [classify_signal NODE_CRASH]"
proof -
  have "\<forall>(gap, c, rank) \<in> set [(150000 :: real, 2 :: nat, 3 :: int), (150000, 0, 5)]. 150000 \<le> gap" by simp
  from random_traces_well_formed [OF _ this, of 7000 20000] obtain p where
    p: "make_ft_poisson 20000 7000 [(150000, 2, 3), (150000, 0, 5)] = Some p"
      "list_all trace_event_ok (ft_events p)" by auto
  from p(1) have "ft_events p = [draw_event poisson_pool 7000 2 3]"
    by (auto simp: make_ft_poisson_def)
  with p show ?thesis
    by (simp add: draw_event_def poisson_pool_def mk_trace_event_def trace_event_ok_def)
qed

end
