(* ===== verification/Bench_Aegis.thy ===== *)
theory Bench_Aegis
  imports Runtime Chaos Bench
begin

text \<open>
  The benchmark adapter of \<open>bench/systems/aegis_adapter.py\<close> that drives the real runtime: a
  fresh runtime on the standard topology, one fault injected through the chaos harness, the
  audit log read after a pause. The clocks, the random payloads and whether the handler ended
  within the pause are fields of \<open>adapter_env\<close>.
\<close>

record adapter_env =
  ae_runtime :: runtime_env
  ae_now :: real
  ae_payload :: "string \<Rightarrow> nat \<Rightarrow> bytes"
  ae_clock :: clock
  ae_settled :: bool

subsection \<open>The standard topology\<close>

definition topology_nodes :: "string list" where
  "topology_nodes = [''node0'', ''node1'', ''node2'', ''node3'']"

definition seed_node :: "adapter_env \<Rightarrow> string \<Rightarrow> filesystem storage_layer \<Rightarrow> pyexc + filesystem storage_layer" where
  "seed_node ae node lay =
    (let B = local_filesystem_backend; cd = re_codec (ae_runtime ae)
     in case write_tier1 B cd (ae_now ae) (ae_payload ae node 1) node 0 False None lay of
          (Inl x, lay1) \<Rightarrow> Inl x
        | (Inr m, lay1) \<Rightarrow>
            (case write_tier2 B cd (ae_now ae) (ae_payload ae node 2) node 0 False None lay1 of
               (Inl x, lay2) \<Rightarrow> Inl x | (Inr m2, lay2) \<Rightarrow> Inr lay2))"

fun seed_nodes :: "adapter_env \<Rightarrow> string list \<Rightarrow> filesystem storage_layer \<Rightarrow> pyexc + filesystem storage_layer" where
  "seed_nodes ae [] lay = Inr lay"
| "seed_nodes ae (node # nodes) lay =
    (case seed_node ae node lay of Inl x \<Rightarrow> Inl x | Inr lay' \<Rightarrow> seed_nodes ae nodes lay')"

definition ring_neighbors :: "string list \<Rightarrow> (string \<times> string) list" where
  "ring_neighbors nodes = map (\<lambda>(i, node). (node, nodes ! ((i + 1) mod length nodes))) (enumerate 0 nodes)"

definition configure_runtime :: "adapter_env \<Rightarrow> runtime \<Rightarrow> pyexc + runtime" where
  "configure_runtime ae rt =
    (let w = en_world (rt_epe rt);
         transport = fold (\<lambda>node. register_node_nics node [''nic0'', ''nic1''] []) topology_nodes (aw_transport w);
         compute = fold (\<lambda>(node, neighbor). register_neighbor node neighbor) (ring_neighbors topology_nodes) (aw_compute w)
     in case seed_nodes ae topology_nodes (aw_storage w) of
          Inl x \<Rightarrow> Inl x
        | Inr storage1 \<Rightarrow>
            (let storage2 = snd (write_tier3 local_filesystem_backend (re_codec (ae_runtime ae)) (ae_now ae)
                   (ae_payload ae ''global'' 3) 0 False None storage1);
                 consensus = fold (\<lambda>i. report_epoch (int i) 0) [0..<length topology_nodes] (en_consensus (rt_epe rt))
             in Inr (rt\<lparr>rt_epe := (rt_epe rt)\<lparr>en_world := \<lparr>aw_transport = transport, aw_compute = compute,
                  aw_storage = storage2\<rparr>, en_consensus := consensus\<rparr>\<rparr>)))"

subsection \<open>One fault\<close>

definition adapter_policy :: "operator_policy option \<Rightarrow> operator_policy" where
  "adapter_policy policy = (case policy of Some p \<Rightarrow> p
    | None \<Rightarrow> default_policy\<lparr>op_correlation_window_secs := 1, op_correlation_node_threshold := 3\<rparr>)"

text \<open>The audit log after the pause, read in the runtime's context; leaving it stops the runtime.\<close>

definition adapter_audit :: "adapter_env \<Rightarrow> operator_policy \<Rightarrow> trace_fault_event \<Rightarrow> pyexc + audit_entry list" where
  "adapter_audit ae policy fault =
    (case configure_runtime ae (runtime_init (ae_runtime ae) (Some policy)) of
       Inl x \<Rightarrow> Inl x
     | Inr rt0 \<Rightarrow>
         fst (runtime_session (ae_clock ae) (if ae_settled ae then 1 else 0) (\<lambda>rt1.
           let su = \<lparr>su_others = (\<lambda>k b. b), su_epoch_at = (\<lambda>k. epoch_current (en_epochs (rt_epe rt1))),
                    su_stamp = (\<lambda>k. ae_now ae)\<rparr>;
               spec = mk_fault_spec (tf_signal fault) (tf_rank fault) (tf_node fault) (tf_nic fault) (tf_rack fault);
               chaos = snd (inject su spec (harness_init (rt_utp rt1)));
               rt2 = rt1\<lparr>rt_utp := ch_utp chaos\<rparr>;
               rt3 = (if ae_settled ae then runtime_dispatch (ae_clock ae) 0 rt2 else rt2)
           in (Inr (escalation_audit (rt_epe rt3)), rt3)) rt0))"

definition tier_of_name :: "(string, blast_radius) dict" where
  "tier_of_name = [(''B0'', B0), (''B1'', B1), (''B2'', B2), (''B3'', B3), (''B4'', B4)]"

definition aegis_handle :: "adapter_env \<Rightarrow> operator_policy \<Rightarrow> fault_handler" where
  "aegis_handle ae policy fault w gpu_hr_cost =
    (case adapter_audit ae policy fault of
       Inl x \<Rightarrow> Inl x
     | Inr audit \<Rightarrow>
         (if audit = []
          then (case last_checkpoint w (tf_step fault) of
                  Inl x \<Rightarrow> Inl x
                | Inr last_ckpt \<Rightarrow>
                    Inr (from_recovery_time (vanilla_rollback_secs w (tf_step fault) last_ckpt) (wl_gpu_count w)
                      gpu_hr_cost ''full_restart'' False True NoteNoAudit))
          else
            (let last_entry = last audit;
                 tier = dget_or tier_of_name (au_final_tier last_entry) B4
             in case dget aegis_recovery_secs tier of
                  None \<Rightarrow> Inl KeyErr
                | Some secs \<Rightarrow>
                    Inr (from_recovery_time secs (wl_gpu_count w) gpu_hr_cost (au_final_tier last_entry)
                      (au_success last_entry) False
                      (NoteRouted (au_signal last_entry) (au_final_tier last_entry))))))"

subsection \<open>The topology in place\<close>

abbreviation fs_node_ok :: "codec \<Rightarrow> filesystem tier_store \<Rightarrow> string \<Rightarrow> ckpt_log \<Rightarrow> bool" where
  "fs_node_ok \<equiv> node_ok local_filesystem_backend (\<lambda>r. r)"

abbreviation seeded :: "adapter_env \<Rightarrow> string set \<Rightarrow> nat \<Rightarrow> string \<Rightarrow> ckpt_log" where
  "seeded ae D k n \<equiv> (if n \<in> D then [(0, False, ae_payload ae n k)] else [])"

lemma write_node_tier_returns:
  assumes "fs_node_ok cd ts node []" "iv \<noteq> 0"
  shows "\<exists>m ts'. write_node_tier local_filesystem_backend cd iv now tname node e f p ts = (Inr m, ts')"
  by (rule local_fs.write_shape [OF assms, where now = now and tname = tname and e = e and f = f and p = p]) auto

lemma seed_write:
  assumes "\<forall>n. fs_node_ok cd ts n (seeded ae D k n)" and "node \<notin> D" and "iv \<noteq> 0"
  shows "\<exists>m ts'. write_node_tier local_filesystem_backend cd iv now tname node 0 False
      (payload_or None (ae_payload ae node k)) ts = (Inr m, ts') \<and>
    (\<forall>n. fs_node_ok cd ts' n (seeded ae (insert node D) k n))"
proof -
  have ok: "fs_node_ok cd ts node []" using spec [OF assms(1), of node] assms(2) by simp
  let ?p = "payload_or None (ae_payload ae node k)"
  from write_node_tier_returns [OF ok assms(3)] obtain m ts' where
    run: "write_node_tier local_filesystem_backend cd iv now tname node 0 False ?p ts = (Inr m, ts')" by blast
  have "fs_node_ok cd ts' n (seeded ae (insert node D) k n)" for n
  proof (cases "n = node")
    case True
    with local_fs.write_keeps_node [OF ok assms(3), of now tname 0 False ?p] run show ?thesis
      by (simp add: payload_or_def)
  next
    case False
    with local_fs.write_keeps_other [OF spec [OF assms(1)] ok assms(3) False, of now tname 0 False ?p] run
    show ?thesis by simp
  qed
  with run show ?thesis by blast
qed

lemma seed_nodes_ok:
  assumes "\<forall>n. fs_node_ok (re_codec (ae_runtime ae)) (st_tier1 lay) n (seeded ae D 1 n)"
    and "\<forall>n. fs_node_ok (re_codec (ae_runtime ae)) (st_tier2 lay) n (seeded ae D 2 n)"
    and "distinct nodes" "set nodes \<inter> D = {}" "st_base_interval lay \<noteq> 0"
  shows "\<exists>lay'. seed_nodes ae nodes lay = Inr lay' \<and>
    (\<forall>n. fs_node_ok (re_codec (ae_runtime ae)) (st_tier1 lay') n (seeded ae (D \<union> set nodes) 1 n)) \<and>
    (\<forall>n. fs_node_ok (re_codec (ae_runtime ae)) (st_tier2 lay') n (seeded ae (D \<union> set nodes) 2 n)) \<and>
    st_tier3 lay' = st_tier3 lay \<and> st_store3 lay' = st_store3 lay"
  using assms
proof (induction nodes arbitrary: lay D)
  case (Cons node nodes)
  let ?cd = "re_codec (ae_runtime ae)"
  have new: "node \<notin> D" using Cons.prems(4) by simp
  from seed_write [OF Cons.prems(1) new Cons.prems(5), of "ae_now ae" "''tier1''"] obtain m1 ts1 where
    w1: "write_node_tier local_filesystem_backend ?cd (st_base_interval lay) (ae_now ae) ''tier1'' node 0 False
      (payload_or None (ae_payload ae node 1)) (st_tier1 lay) = (Inr m1, ts1)"
      "\<forall>n. fs_node_ok ?cd ts1 n (seeded ae (insert node D) 1 n)" by blast
  from seed_write [OF Cons.prems(2) new Cons.prems(5), of "ae_now ae" "''tier2''"] obtain m2 ts2 where
    w2: "write_node_tier local_filesystem_backend ?cd (st_base_interval lay) (ae_now ae) ''tier2'' node 0 False
      (payload_or None (ae_payload ae node 2)) (st_tier2 lay) = (Inr m2, ts2)"
      "\<forall>n. fs_node_ok ?cd ts2 n (seeded ae (insert node D) 2 n)" by blast
  let ?lay = "lay\<lparr>st_tier1 := ts1, st_tier2 := ts2\<rparr>"
  have "seed_node ae node lay = Inr ?lay"
    using w1(1) w2(1) by (simp add: seed_node_def Let_def write_tier1_def write_tier2_def)
  moreover have "set nodes \<inter> insert node D = {}" using Cons.prems(3,4) by auto
  with Cons.IH [of ?lay "insert node D"] w1(2) w2(2) Cons.prems(3,5) obtain lay' where
    "seed_nodes ae nodes ?lay = Inr lay'"
    "\<forall>n. fs_node_ok ?cd (st_tier1 lay') n (seeded ae (insert node D \<union> set nodes) 1 n)"
    "\<forall>n. fs_node_ok ?cd (st_tier2 lay') n (seeded ae (insert node D \<union> set nodes) 2 n)"
    "st_tier3 lay' = st_tier3 lay" "st_store3 lay' = st_store3 lay" by auto
  ultimately show ?case by simp
qed simp

text \<open>What a configured runtime provides to any fault.\<close>

definition ready :: "adapter_env \<Rightarrow> operator_policy \<Rightarrow> runtime \<Rightarrow> bool" where
  "ready ae policy rt \<longleftrightarrow>
    (let eng = rt_epe rt; w = en_world eng; cd = re_codec (ae_runtime ae)
     in utp_subscribers (rt_utp rt) = [0] \<and> utp_queue (rt_utp rt) = [] \<and> \<not> queue_full (rt_utp rt) \<and>
        en_tier_to_layer eng = runtime_map (ae_runtime ae) \<and> \<not> en_observe_only eng \<and> en_history eng = [] \<and>
        en_recent_b1s eng = [] \<and> en_policy eng = policy \<and> es_epoch (en_epochs eng) = 0 \<and>
        (\<forall>n. dget (tl_nodes (aw_transport w)) n =
           (if n \<in> set topology_nodes then Some (mk_node_nics [''nic0'', ''nic1''] []) else None)) \<and>
        (\<forall>n. n \<in> set (dkeys (cl_topology (aw_compute w))) \<longleftrightarrow> n \<in> set topology_nodes) \<and>
        (\<forall>n \<in> set topology_nodes. dget (cl_topology (aw_compute w)) n \<noteq> Some []) \<and>
        (\<forall>n. fs_node_ok cd (st_tier1 (aw_storage w)) n (seeded ae (set topology_nodes) 1 n)) \<and>
        (\<forall>n. fs_node_ok cd (st_tier2 (aw_storage w)) n (seeded ae (set topology_nodes) 2 n)) \<and>
        base_ok local_filesystem_backend (\<lambda>r. r) cd (aw_storage w) [(0, False, ae_payload ae ''global'' 3)] \<and>
        (\<forall>r. dget (rank_epochs (en_consensus eng)) r = (if 0 \<le> r \<and> r < 4 then Some 0 else None)))"

lemma register_all:
  "dget (tl_nodes (fold (\<lambda>node. register_node_nics node nics bw) nodes lay)) n =
    (if n \<in> set nodes then Some (mk_node_nics nics bw) else dget (tl_nodes lay) n)"
  by (induction nodes arbitrary: lay) (auto simp: register_node_nics_def)

lemma report_all:
  "dget (rank_epochs (fold (\<lambda>i. report_epoch (int i) e) is u)) r =
    (if r \<in> int ` set is then Some e else dget (rank_epochs u) r)"
  by (induction "is" arbitrary: u) auto

lemma configured:
  "\<exists>rt. configure_runtime ae (runtime_init (ae_runtime ae) (Some policy)) = Inr rt \<and> ready ae policy rt"
proof -
  let ?cd = "re_codec (ae_runtime ae)" and ?rt = "runtime_init (ae_runtime ae) (Some policy)"
  let ?lay = "storage_init 5 [] :: filesystem storage_layer"
  have w: "en_world (rt_epe ?rt) = initial_world" "en_consensus (rt_epe ?rt) = urc_init"
    by (simp_all add: runtime_init_def Let_def engine_init_def)
  have lay: "aw_storage initial_world = ?lay" by (simp add: initial_world_def default_base_interval_def)
  have "\<forall>n. fs_node_ok ?cd (st_tier1 ?lay) n (seeded ae {} 1 n)" "\<forall>n. fs_node_ok ?cd (st_tier2 ?lay) n (seeded ae {} 2 n)"
    "distinct topology_nodes" "set topology_nodes \<inter> {} = {}" "st_base_interval ?lay \<noteq> 0"
    by (simp_all add: storage_init_def topology_nodes_def)
  from seed_nodes_ok [OF this] obtain lay1 where s: "seed_nodes ae topology_nodes ?lay = Inr lay1"
      "\<forall>n. fs_node_ok ?cd (st_tier1 lay1) n (seeded ae (set topology_nodes) 1 n)"
      "\<forall>n. fs_node_ok ?cd (st_tier2 lay1) n (seeded ae (set topology_nodes) 2 n)"
      "st_tier3 lay1 = []" by (auto simp: storage_init_def)
  have "base_ok local_filesystem_backend (\<lambda>r. r) ?cd lay1 []" using s(4) by (simp add: base_ok_def)
  from local_fs.write_tier3_ok [OF this, of "ae_now ae" "ae_payload ae ''global'' 3" 0 False None]
  have base: "base_ok local_filesystem_backend (\<lambda>r. r) ?cd
      (snd (write_tier3 local_filesystem_backend ?cd (ae_now ae) (ae_payload ae ''global'' 3) 0 False None lay1))
      [(0, False, ae_payload ae ''global'' 3)]" by (simp add: payload_or_def)
  have tiers: "st_tier1 (snd (write_tier3 B cd now rnd e f p l)) = st_tier1 l"
    "st_tier2 (snd (write_tier3 B cd now rnd e f p l)) = st_tier2 l" for B :: "filesystem checkpoint_backend"
    and cd now rnd e f p l
    by (simp_all add: write_tier3_def Let_def split_beta)
  have ring: "ring_neighbors topology_nodes =
      [(''node0'', ''node1''), (''node1'', ''node2''), (''node2'', ''node3''), (''node3'', ''node0'')]"
    by (simp add: ring_neighbors_def topology_nodes_def)
  let ?comp = "fold (\<lambda>(node, neighbor). register_neighbor node neighbor) (ring_neighbors topology_nodes) compute_init"
  have comp: "cl_topology ?comp =
      [(''node0'', ''node1''), (''node1'', ''node2''), (''node2'', ''node3''), (''node3'', ''node0'')]"
    by (simp add: ring register_neighbor_def compute_init_def)
  let ?w = "\<lparr>aw_transport = fold (\<lambda>node. register_node_nics node [''nic0'', ''nic1''] []) topology_nodes transport_init,
      aw_compute = ?comp,
      aw_storage = snd (write_tier3 local_filesystem_backend ?cd (ae_now ae) (ae_payload ae ''global'' 3) 0 False None lay1)\<rparr>"
  define rt where "rt = ?rt\<lparr>rt_epe := (rt_epe ?rt)\<lparr>en_world := ?w,
      en_consensus := fold (\<lambda>i. report_epoch (int i) 0) [0..<length topology_nodes] urc_init\<rparr>\<rparr>"
  have parts: "aw_transport initial_world = transport_init" "aw_compute initial_world = compute_init"
    by (simp_all add: initial_world_def)
  have conf: "configure_runtime ae ?rt = Inr rt"
    unfolding configure_runtime_def Let_def w lay s(1) parts rt_def by simp
  have ranks: "r \<in> int ` set [0..<length topology_nodes] \<longleftrightarrow> 0 \<le> r \<and> r < 4" for r
    by (auto simp: topology_nodes_def intro: image_eqI [of _ _ "nat r"])
  have eng: "en_tier_to_layer (rt_epe ?rt) = runtime_map (ae_runtime ae)" "\<not> en_observe_only (rt_epe ?rt)"
    "en_history (rt_epe ?rt) = []" "en_recent_b1s (rt_epe ?rt) = []" "en_policy (rt_epe ?rt) = policy"
    "es_epoch (en_epochs (rt_epe ?rt)) = 0"
    by (simp_all only: runtime_map_any) (simp_all add: runtime_init_def Let_def engine_init_def epoch_init_def)
  have bus: "utp_subscribers (rt_utp ?rt) = [0]" "utp_queue (rt_utp ?rt) = []" "\<not> queue_full (rt_utp ?rt)"
    by (simp_all add: runtime_init_def Let_def subscribe_def bus_init_def default_queue_size_def queue_full_def)
  have nics: "\<forall>n. dget (tl_nodes (fold (\<lambda>node. register_node_nics node [''nic0'', ''nic1''] []) topology_nodes transport_init)) n =
      (if n \<in> set topology_nodes then Some (mk_node_nics [''nic0'', ''nic1''] []) else None)"
    unfolding register_all by (simp add: transport_init_def)
  have rep: "\<forall>r. dget (rank_epochs (fold (\<lambda>i. report_epoch (int i) 0) [0..<length topology_nodes] urc_init)) r =
      (if 0 \<le> r \<and> r < 4 then Some 0 else None)"
    unfolding report_all ranks by (simp add: urc_init_def)
  have keys: "\<forall>n. n \<in> set (dkeys (cl_topology ?comp)) \<longleftrightarrow> n \<in> set topology_nodes"
    "\<forall>n \<in> set topology_nodes. dget (cl_topology ?comp) n \<noteq> Some []"
    unfolding comp by (auto simp: topology_nodes_def)
  have "ready ae policy rt"
    unfolding ready_def Let_def rt_def using eng bus nics rep keys s(2,3) base by (simp add: tiers)
  with conf show ?thesis by blast
qed

subsection \<open>One fault on the configured runtime\<close>

abbreviation fault_event :: "adapter_env \<Rightarrow> trace_fault_event \<Rightarrow> telemetry_event" where
  "fault_event ae fault \<equiv> spec_event
     (mk_fault_spec (tf_signal fault) (tf_rank fault) (tf_node fault) (tf_nic fault) (tf_rack fault)) 0 0 (ae_now ae)"

lemma fault_event_simps [simp]:
  "ev_node (fault_event ae f) = tf_node f" "ev_rank (fault_event ae f) = tf_rank f"
  "ev_signal (fault_event ae f) = tf_signal f" "ev_nic (fault_event ae f) = tf_nic f"
  "classify (fault_event ae f) = classify_signal (tf_signal f)"
  by (simp_all add: spec_event_def mk_fault_spec_def classify_eq_signal)

lemma ready_gate:
  assumes "ready ae policy rt"
  shows "urc_gate r t (en_consensus (rt_epe rt)) \<in> {None, Some 0}"
proof -
  let ?u = "en_consensus (rt_epe rt)"
  have val: "dget (rank_epochs ?u) k = Some e \<Longrightarrow> e = 0" for k e
    using assms by (auto simp: ready_def Let_def split: if_splits)
  define d where "d = agree (filter (\<lambda>k. k \<noteq> ev_rank (fr_event r)) (all_ranks ?u)) (fr_epoch r) ?u"
  have "rd_agreed d \<Longrightarrow> rd_min_valid_epoch d = 0"
    unfolding d_def using agree_attained val by blast
  then show ?thesis
    unfolding urc_gate_def Let_def d_def [symmetric] by auto
qed

lemma ready_node_tier:
  assumes "fs_node_ok cd ts (ev_node ev) [(0, False, p)]" "codec_ok cd" "g \<in> {None, Some 0}"
  shows "\<exists>res. restore_node_tier no restored local_filesystem_backend cd secs ev g ts = Inr res \<and> rr_success res"
    and "history_of (ev_node ev) ts \<noteq> []"
proof -
  have "length (history_of (ev_node ev) ts) = 1" using assms(1) by (simp add: node_ok_def)
  then obtain c where h: "history_of (ev_node ev) ts = [c]" by (auto simp: length_Suc_conv)
  have "ck_epoch c = 0" using node_ok_epoch [OF assms(1), of 0] by (simp add: h)
  then have "select [c] g = Some (c, 0)" using assms(3) by (auto simp: select_def)
  then show "\<exists>res. restore_node_tier no restored local_filesystem_backend cd secs ev g ts = Inr res \<and> rr_success res"
    unfolding restore_node_tier_ok [OF assms(1,2)] h by simp
  show "history_of (ev_node ev) ts \<noteq> []" by (simp add: h)
qed

lemma ready_base:
  assumes "base_ok local_filesystem_backend (\<lambda>r. r) cd lay [(0, False, p)]" "g \<in> {None, Some 0}"
  shows "\<exists>res. restore_tier3 local_filesystem_backend cd secs g lay = Inr res \<and> rr_success res"
    and "st_tier3 lay \<noteq> []"
proof -
  have "length (st_tier3 lay) = 1" using assms(1) by (simp add: base_ok_def)
  then obtain c where h: "st_tier3 lay = [c]" by (auto simp: length_Suc_conv)
  have c: "ck_epoch c = 0" "ck_checksum c = cd_sha256 cd p"
      "cb_read_bytes local_filesystem_backend (ck_path c) (st_store3 lay) = Inr p"
    using assms(1) unfolding base_ok_def by (auto simp: h)
  then have "select [c] g = Some (c, 0)" using assms(2) by (auto simp: select_def)
  then show "\<exists>res. restore_tier3 local_filesystem_backend cd secs g lay = Inr res \<and> rr_success res"
    by (simp add: restore_tier3_def h c)
  show "st_tier3 lay \<noteq> []" by (simp add: h)
qed

text \<open>Backends that succeed, and a codec with its documented round trip.\<close>

definition backends_work :: "runtime_env \<Rightarrow> bool" where
  "backends_work env \<longleftrightarrow> codec_ok (re_codec env) \<and>
    (\<forall>node a b t r. mr_success (re_migrate env node a b t r)) \<and> (\<forall>node nb. ab_success (re_absorb env node nb))"

definition settling_tier :: "trace_fault_event \<Rightarrow> blast_radius" where
  "settling_tier f = (if tf_node f \<in> set topology_nodes then classify_signal (tf_signal f) else B4)"

lemma ready_tiers:
  assumes "ready ae policy rt"
  shows "fs_node_ok (re_codec (ae_runtime ae)) (st_tier1 (aw_storage (en_world (rt_epe rt)))) n (seeded ae (set topology_nodes) 1 n)"
    and "fs_node_ok (re_codec (ae_runtime ae)) (st_tier2 (aw_storage (en_world (rt_epe rt)))) n (seeded ae (set topology_nodes) 2 n)"
    and "base_ok local_filesystem_backend (\<lambda>r. r) (re_codec (ae_runtime ae)) (aw_storage (en_world (rt_epe rt)))
      [(0, False, ae_payload ae ''global'' 3)]"
  using assms unfolding ready_def Let_def by blast+

lemma ready_history:
  assumes "ready ae policy rt"
  shows "length (history_of n (st_tier1 (aw_storage (en_world (rt_epe rt))))) = (if n \<in> set topology_nodes then 1 else 0)"
    and "length (history_of n (st_tier2 (aw_storage (en_world (rt_epe rt))))) = (if n \<in> set topology_nodes then 1 else 0)"
proof -
  have "length (history_of n (st_tier1 (aw_storage (en_world (rt_epe rt))))) = length (seeded ae (set topology_nodes) 1 n)"
    "length (history_of n (st_tier2 (aw_storage (en_world (rt_epe rt))))) = length (seeded ae (set topology_nodes) 2 n)"
    using ready_tiers(1,2) [OF assms, of n] unfolding node_ok_def by blast+
  then show "length (history_of n (st_tier1 (aw_storage (en_world (rt_epe rt))))) = (if n \<in> set topology_nodes then 1 else 0)"
    "length (history_of n (st_tier2 (aw_storage (en_world (rt_epe rt))))) = (if n \<in> set topology_nodes then 1 else 0)"
    by simp_all
qed

lemma ready_can_handle:
  assumes "ready ae policy rt"
  shows "rl_can_handle (layer_at (ae_runtime ae) u) (fault_event ae f) u (en_world (rt_epe rt)) \<longleftrightarrow>
    tf_node f \<in> set topology_nodes \<or> u = B4"
proof -
  let ?w = "en_world (rt_epe rt)" and ?cd = "re_codec (ae_runtime ae)"
  have t1: "history_of (tf_node f) (st_tier1 (aw_storage ?w)) \<noteq> [] \<longleftrightarrow> tf_node f \<in> set topology_nodes"
    and t2: "history_of (tf_node f) (st_tier2 (aw_storage ?w)) \<noteq> [] \<longleftrightarrow> tf_node f \<in> set topology_nodes"
    using ready_history [OF assms, of "tf_node f"] by (simp_all flip: length_greater_0_conv)
  have t3: "st_tier3 (aw_storage ?w) \<noteq> []" using assms by (auto simp: ready_def Let_def base_ok_def)
  show ?thesis
  proof (cases u)
    case B0
    have "2 \<le> length (healthy_nics (mk_node_nics [''nic0'', ''nic1''] []))"
      by (simp add: healthy_nics_def mk_node_nics_def)
    with B0 assms show ?thesis
      by (simp add: ready_def Let_def transport_object_def transport_can_handle_def)
  next
    case B1
    with assms show ?thesis by (simp add: ready_def Let_def compute_object_def compute_can_handle_def)
  qed (use t1 t2 t3 in \<open>simp_all add: storage_object_def storage_can_handle_def\<close>)
qed

text \<open>The layer that accepts the fault also recovers it.\<close>

lemma ready_recovers:
  assumes rt: "ready ae policy rt" and ok: "backends_work (ae_runtime ae)"
    and node: "tf_node f \<in> set topology_nodes \<or> u = B4" and g: "g \<in> {None, Some 0}"
  shows "\<exists>res w. rl_recover (layer_at (ae_runtime ae) u) (fault_event ae f) u ep g (en_world (rt_epe rt)) = (Inr res, w) \<and>
    rr_success res"
proof -
  let ?w = "en_world (rt_epe rt)" and ?cd = "re_codec (ae_runtime ae)" and ?ev = "fault_event ae f"
  have cd: "codec_ok ?cd" using ok by (simp add: backends_work_def)
  have tier: "fs_node_ok ?cd (st_tier1 (aw_storage ?w)) (ev_node ?ev) [(0, False, ae_payload ae (tf_node f) 1)]"
    "fs_node_ok ?cd (st_tier2 (aw_storage ?w)) (ev_node ?ev) [(0, False, ae_payload ae (tf_node f) 2)]"
    if "tf_node f \<in> set topology_nodes"
    using ready_tiers(1,2) [OF rt, of "tf_node f"] that by simp_all
  show ?thesis
  proof (cases u)
    case B0
    let ?e = "mk_node_nics [''nic0'', ''nic1''] []"
    have e: "dget (tl_nodes (aw_transport ?w)) (ev_node ?ev) = Some ?e"
      using rt node B0 by (simp add: ready_def Let_def)
    obtain n ns where b: "backups ?ev ?e = n # ns"
      by (cases "backups ?ev ?e") (auto simp: backups_def healthy_nics_def mk_node_nics_def split: if_splits)
    have "mr_success (migration_call (re_migrate (ae_runtime ae)) ?ev ?e)"
      using ok by (simp add: backends_work_def migration_call_def)
    then show ?thesis
      using transport_recover_backup [OF _ e b, of "re_migrate (ae_runtime ae)"] node_inv_mk [of "[]"]
      by (simp add: B0 transport_object_def)
  next
    case B1
    have "tf_node f \<in> set (dkeys (cl_topology (aw_compute ?w)))" "dget (cl_topology (aw_compute ?w)) (tf_node f) \<noteq> Some []"
      using rt node B1 unfolding ready_def Let_def by blast+
    then obtain nb where "dget (cl_topology (aw_compute ?w)) (tf_node f) = Some nb" "nb \<noteq> []"
      using dget_None_iff by (metis not_None_eq)
    moreover have "ab_success (re_absorb (ae_runtime ae) a b)" for a b using ok by (simp add: backends_work_def)
    ultimately show ?thesis by (simp add: B1 compute_object_def compute_recover_def Let_def)
  next
    case B2
    with node have "tf_node f \<in> set topology_nodes" by simp
    from ready_node_tier(1) [OF tier(1) [OF this] cd g] show ?thesis
      by (auto simp: B2 storage_object_def storage_recover_def restore_tier1_def)
  next
    case B3
    with node have "tf_node f \<in> set topology_nodes" by simp
    from ready_node_tier(1) [OF tier(2) [OF this] cd g] show ?thesis
      by (auto simp: B3 storage_object_def storage_recover_def restore_tier2_def)
  next
    case B4
    from ready_base(1) [OF ready_tiers(3) [OF rt] g] show ?thesis
      by (simp add: B4 storage_object_def storage_recover_def)
  qed
qed

lemma ready_decides:
  assumes "ready ae policy rt" "1 < op_correlation_node_threshold policy"
  shows "decided_tier now ev (rt_epe rt) = classify ev"
proof -
  have "en_recent_b1s (rt_epe rt) = []" "en_policy (rt_epe rt) = policy"
    using assms(1) unfolding ready_def Let_def by blast+
  with assms(2) show ?thesis
    by (simp add: decided_tier_def apply_correlation_window_def Let_def)
qed

lemma ready_handles:
  assumes rt: "ready ae policy rt" and thr: "1 < op_correlation_node_threshold policy"
    and ok: "backends_work (ae_runtime ae)"
  shows "\<exists>r eng'. on_event now stamp (fault_event ae f) (rt_epe rt) = (Inr (), eng') \<and> en_history eng' = [r] \<and>
    fr_event r = fault_event ae f \<and> fr_final_tier r = settling_tier f \<and> recovered r"
proof -
  let ?ev = "fault_event ae f" and ?eng = "rt_epe rt"
  let ?t = "decided_tier now ?ev ?eng" and ?v = "settling_tier f"
  let ?g = "urc_gate (attempted ?v (new_record now stamp ?ev ?eng)) ?v (en_consensus ?eng)"
  have t: "?t = classify_signal (tf_signal f)" by (simp add: ready_decides [OF rt thr])
  have le: "?t \<le> ?v" unfolding t settling_tier_def by (cases "classify_signal (tf_signal f)") (simp_all add: tier_order)
  have eng: "en_tier_to_layer ?eng = runtime_map (ae_runtime ae)" "\<not> en_observe_only ?eng" "en_history ?eng = []"
    using rt unfolding ready_def Let_def by blast+
  have refuse: "\<forall>u. ?t \<le> u \<and> u < ?v \<longrightarrow> \<not> rl_can_handle (layer_at (ae_runtime ae) u) ?ev u (en_world ?eng)"
    unfolding ready_can_handle [OF rt] t settling_tier_def by (auto simp: tier_order)
  have accept: "rl_can_handle (layer_at (ae_runtime ae) ?v) ?ev ?v (en_world ?eng)"
    unfolding ready_can_handle [OF rt] by (simp add: settling_tier_def)
  have "tf_node f \<in> set topology_nodes \<or> ?v = B4" by (simp add: settling_tier_def)
  from ready_recovers [OF rt ok this ready_gate [OF rt]] obtain res w where
    rec: "rl_recover (layer_at (ae_runtime ae) ?v) ?ev ?v (es_epoch (en_epochs ?eng) + 1) ?g (en_world ?eng) = (Inr res, w)"
      "rr_success res" by blast
  from event_settles_at [OF eng(1,2) refl le refuse accept rec(1,2)] obtain r eng' where
    "on_event now stamp ?ev ?eng = (Inr (), eng')" "en_history eng' = en_history ?eng @ [r]" "fr_event r = ?ev"
    "fr_final_tier r = ?v" "fr_result r = Some res" by blast
  then show ?thesis using eng(3) rec(2) by (simp add: recovered_def)
qed

lemma settled_audit:
  assumes thr: "1 < op_correlation_node_threshold policy" and ok: "backends_work (ae_runtime ae)" and st: "ae_settled ae"
  shows "\<exists>a. adapter_audit ae policy f = Inr [a] \<and> au_final_tier a = tier_name (settling_tier f) \<and>
    au_success a \<and> au_signal a = signal_value (tf_signal f)"
proof -
  from configured [of ae policy] obtain rt where
    conf: "configure_runtime ae (runtime_init (ae_runtime ae) (Some policy)) = Inr rt" and rt: "ready ae policy rt" by blast
  let ?rt1 = "runtime_start rt"
  have same: "rt_epe ?rt1 = rt_epe rt" "utp_subscribers (rt_utp ?rt1) = [0]" "utp_queue (rt_utp ?rt1) = []"
    "\<not> queue_full (rt_utp ?rt1)" "es_epoch (en_epochs (rt_epe rt)) = 0"
    using rt by (simp_all add: ready_def Let_def runtime_start_def queue_full_def)
  let ?rt2 = "?rt1\<lparr>rt_utp := publish (fault_event ae f) (rt_utp ?rt1)\<rparr>"
  have "utp_queue (rt_utp ?rt2) = [fault_event ae f]" "utp_subscribers (rt_utp ?rt2) = [0]"
    using same by (simp_all add: publish_def)
  then have "rt_epe (runtime_dispatch (ae_clock ae) 0 ?rt2) =
      snd (on_event (fst (ae_clock ae 0)) (snd (ae_clock ae 0)) (fault_event ae f) (rt_epe rt))"
    by (simp add: runtime_dispatch_def drain_Cons drain_Nil epe_handle_def same split: prod.splits sum.splits)
  moreover from ready_handles [OF rt thr ok] obtain r eng' where
    h: "on_event (fst (ae_clock ae 0)) (snd (ae_clock ae 0)) (fault_event ae f) (rt_epe rt) = (Inr (), eng')"
      "en_history eng' = [r]" "fr_event r = fault_event ae f" "fr_final_tier r = settling_tier f" "recovered r" by blast
  ultimately have "adapter_audit ae policy f = Inr [audit_of r]"
    using st by (simp add: adapter_audit_def runtime_session_def conf Let_def inject_def inject_once_def mk_fault_spec_def same
        harness_init_def epoch_current_def escalation_audit_def)
  moreover have "au_success (audit_of r)" using h(5) by (auto simp: audit_of_def recovered_def split: option.splits)
  ultimately show ?thesis using h(3,4) by (auto simp: audit_of_def)
qed

lemma tier_lookup: "dget_or tier_of_name (tier_name t) B4 = t"
  by (cases t) (simp_all add: tier_of_name_def dget_or_def)

lemma aegis_costs: "\<exists>secs. dget aegis_recovery_secs t = Some secs \<and> 0 < secs \<and>
    secs < the (dget torchft_recovery_secs t)"
  by (cases t) (simp_all add: aegis_recovery_secs_def torchft_recovery_secs_def)

text \<open>
  The benchmark measures the routing of the real runtime: on the standard topology, with
  backends that succeed and a policy whose correlation threshold is above 1, one injected
  fault is settled at the tier the classifier gives its signal when its node belongs to the
  topology and at B4 otherwise; the outcome reports that tier, success and no restart, at
  the table's cost for that tier, which for a fault labelled with that tier is below what
  TorchFT is charged.
\<close>

theorem adapter_reports_routed_tier:
  assumes "1 < op_correlation_node_threshold policy" and "backends_work (ae_runtime ae)" and "ae_settled ae"
  shows "\<exists>out. aegis_handle ae policy f w cost = Inr out \<and>
    ro_tier_handled out = tier_name (settling_tier f) \<and> ro_succeeded out \<and> \<not> ro_forced_restart out \<and>
    Some (ro_recovery_time_secs out) = dget aegis_recovery_secs (settling_tier f) \<and>
    (tf_expected_tier f = settling_tier f \<longrightarrow>
      (\<exists>ft. handle_fault TorchFT f w cost = Inr ft \<and> ro_recovery_time_secs out < ro_recovery_time_secs ft))"
proof -
  from settled_audit [OF assms] obtain a where
    a: "adapter_audit ae policy f = Inr [a]" "au_final_tier a = tier_name (settling_tier f)" "au_success a" by blast
  from aegis_costs obtain secs where secs: "dget aegis_recovery_secs (settling_tier f) = Some secs"
      "secs < the (dget torchft_recovery_secs (settling_tier f))" by blast
  have out: "aegis_handle ae policy f w cost = Inr (from_recovery_time secs (wl_gpu_count w) cost
      (tier_name (settling_tier f)) True False (NoteRouted (au_signal a) (tier_name (settling_tier f))))"
    using a secs(1) by (simp add: aegis_handle_def Let_def tier_lookup)
  obtain fts where "claimed_secs TorchFT (settling_tier f) = Some fts"
    by (cases "settling_tier f") (simp_all add: torchft_recovery_secs_def)
  with handle_claimed [of TorchFT f fts w cost] secs out show ?thesis by auto
qed

definition demo_adapter :: adapter_env where
  "demo_adapter = \<lparr>ae_runtime = demo_env, ae_now = 0, ae_payload = (\<lambda>n k. [1, 2, 3]),
     ae_clock = (\<lambda>i. (real i, real i)), ae_settled = True\<rparr>"

lemma demo_adapter_works: "backends_work (ae_runtime demo_adapter)" "ae_settled demo_adapter"
  by (simp_all add: demo_adapter_def demo_env_def backends_work_def simulated_migrate_def absorb_ok_def
      codec_ok_def plain_codec_def)

lemma adapter_policy_threshold: "1 < op_correlation_node_threshold (adapter_policy None)"
  by (simp add: adapter_policy_def)

theorem adapter_reports_routed_tier_witness:
  "\<exists>out. aegis_handle demo_adapter (adapter_policy None) (hd (ft_events FT_B2)) (projr W1) 2 = Inr out \<and>
     ro_tier_handled out = ''B2'' \<and> ro_succeeded out \<and> ro_recovery_time_secs out = 8"
  using adapter_reports_routed_tier [OF adapter_policy_threshold demo_adapter_works, of "hd (ft_events FT_B2)" "projr W1" 2]
  by (auto simp: settling_tier_def FT_B2_def mk_trace_event_def topology_nodes_def classify_signal_def
      signal_to_tier_def dget_or_def aegis_recovery_secs_def)

subsection \<open>The adapter keeps the contract of the benchmark\<close>

lemma adapter_audit_returns: "\<exists>audit. adapter_audit ae policy f = Inr audit"
  using configured [of ae policy] by (auto simp: adapter_audit_def runtime_session_def Let_def)

lemma aegis_handle_priced:
  assumes "aegis_handle ae policy f w cost = Inr out"
  shows "\<exists>s t ok fr n. out = from_recovery_time s (wl_gpu_count w) cost t ok fr n \<and>
    (workload_ok w \<longrightarrow> 0 \<le> s)"
proof -
  from adapter_audit_returns obtain audit where a: "adapter_audit ae policy f = Inr audit" by blast
  show ?thesis
  proof (cases "audit = []")
    case True
    with assms a obtain c where c: "last_checkpoint w (tf_step f) = Inr c"
      and out: "out = from_recovery_time (vanilla_rollback_secs w (tf_step f) c) (wl_gpu_count w) cost
        ''full_restart'' False True NoteNoAudit"
      by (auto simp: aegis_handle_def split: sum.splits)
    have "0 \<le> vanilla_rollback_secs w (tf_step f) c" if w: "workload_ok w"
    proof -
      have "0 \<le> wl_checkpoint_restore_secs w" using w by (simp add: workload_ok_def)
      with rollback_bounds(1) [OF w c] show ?thesis by simp
    qed
    with out show ?thesis by blast
  next
    case False
    let ?t = "dget_or tier_of_name (au_final_tier (last audit)) B4"
    from aegis_costs obtain secs where secs: "dget aegis_recovery_secs ?t = Some secs" "0 < secs" by blast
    with False assms a have "\<exists>tn ok n. out = from_recovery_time secs (wl_gpu_count w) cost tn ok False n"
      by (auto simp: aegis_handle_def Let_def)
    with secs(2) show ?thesis by (metis less_imp_le)
  qed
qed

interpretation aegis_adapter: system_adapter "aegis_handle ae policy" for ae policy
proof
  fix w cost out and f :: trace_fault_event
  {
    assume w: "workload_ok w"
    from adapter_audit_returns obtain audit where a: "adapter_audit ae policy f = Inr audit" by blast
    from aegis_costs obtain secs where "dget aegis_recovery_secs (dget_or tier_of_name (au_final_tier (last audit)) B4) = Some secs"
      by blast
    with a last_checkpoint_ok [OF w, of "tf_step f"] show "\<exists>out. aegis_handle ae policy f w cost = Inr out"
      by (auto simp: aegis_handle_def Let_def)
  }
  {
    assume "aegis_handle ae policy f w cost = Inr out"
    from aegis_handle_priced [OF this] show
      "ro_idle_gpu_hours out = ro_recovery_time_secs out * of_int (wl_gpu_count w) / 3600 \<and>
       ro_dollars_wasted out = ro_idle_gpu_hours out * cost" by auto
  }
  {
    assume "workload_ok w" "aegis_handle ae policy f w cost = Inr out"
    from this(1) aegis_handle_priced [OF this(2)] show "0 \<le> ro_recovery_time_secs out" by auto
  }
qed

lemma fixed_traces_ok:
  "list_all trace_event_ok (concat (map ft_events [FT_B0, FT_B1, FT_B2, FT_B3, FT_B4, make_ft_burst]))"
  by (simp add: FT_B0_def FT_B1_def FT_B2_def FT_B3_def FT_B4_def make_ft_burst_def mk_trace_event_def
      trace_event_ok_def classify_signal_def signal_to_tier_def dget_or_def)

lemma trace_event_ok_settles: "trace_event_ok f \<Longrightarrow> settling_tier f = tf_expected_tier f"
  by (auto simp: trace_event_ok_def settling_tier_def topology_nodes_def)

lemma outcomes_each:
  assumes "list_all2 (\<lambda>f out. h f = Inr out) fs outs" "list_all2 (\<lambda>f out. k f = Inr out) fs outs'"
    and "\<And>f a b. f \<in> set fs \<Longrightarrow> h f = Inr a \<Longrightarrow> k f = Inr b \<Longrightarrow> P f a b"
  shows "list_all2 (\<lambda>f (a, b). P f a b) fs (zip outs outs')"
  using assms
proof (induction fs arbitrary: outs outs')
  case (Cons f fs)
  then obtain a b as bs where "outs = a # as" "outs' = b # bs" "h f = Inr a" "k f = Inr b"
    "list_all2 (\<lambda>f out. h f = Inr out) fs as" "list_all2 (\<lambda>f out. k f = Inr out) fs bs"
    by (auto simp: list_all2_Cons1)
  with Cons.IH [of as bs] Cons.prems(3) show ?case by simp
qed simp

lemma zip_outcomes:
  assumes "list_all2 (\<lambda>f (x, y). ro_tier_handled x = tier_name (tf_expected_tier f) \<and> ro_succeeded x \<and>
      ro_recovery_time_secs x < ro_recovery_time_secs y) fs (zip xs ys)" and "length xs = length ys"
  shows "map ro_tier_handled xs = map (tier_name \<circ> tf_expected_tier) fs" "list_all ro_succeeded xs"
    "fs = [] \<Longrightarrow> sum_list (map ro_recovery_time_secs xs) = sum_list (map ro_recovery_time_secs ys)"
    "fs \<noteq> [] \<Longrightarrow> sum_list (map ro_recovery_time_secs xs) < sum_list (map ro_recovery_time_secs ys)"
proof -
  have "map ro_tier_handled xs = map (tier_name \<circ> tf_expected_tier) fs \<and> list_all ro_succeeded xs \<and>
      (if fs = [] then xs = [] \<and> ys = []
       else sum_list (map ro_recovery_time_secs xs) < sum_list (map ro_recovery_time_secs ys))"
    using assms(2,1)
  proof (induction xs ys arbitrary: fs rule: list_induct2)
    case (Cons x xs y ys)
    then obtain f gs where fs: "fs = f # gs" by (cases fs) auto
    with Cons.IH [of gs] Cons.prems show ?case
      by (auto split: if_splits)
  qed simp
  then show "map ro_tier_handled xs = map (tier_name \<circ> tf_expected_tier) fs" "list_all ro_succeeded xs"
    "fs = [] \<Longrightarrow> sum_list (map ro_recovery_time_secs xs) = sum_list (map ro_recovery_time_secs ys)"
    "fs \<noteq> [] \<Longrightarrow> sum_list (map ro_recovery_time_secs xs) < sum_list (map ro_recovery_time_secs ys)"
    by (auto split: if_splits)
qed

lemma simulate_total:
  "simulate name h w trace cost total_steps = Inr r \<Longrightarrow>
   si_total_recovery_secs r = sum_list (map ro_recovery_time_secs (si_fault_outcomes r))"
  by (auto simp: simulate_def Let_def split: sum.splits if_splits)

lemma settled_stalls_less:
  assumes "1 < op_correlation_node_threshold policy" "backends_work (ae_runtime ae)" "ae_settled ae"
    and w: "workload_ok w" and n: "0 < total_steps" and tr: "list_all trace_event_ok (ft_events trace)"
  shows "\<exists>a b. simulate ''AEGIS'' (aegis_handle ae policy) w trace cost total_steps = Inr a \<and>
    simulate (system_name TorchFT) (handle_fault TorchFT) w trace cost total_steps = Inr b \<and>
    map ro_tier_handled (si_fault_outcomes a) = map (tier_name \<circ> tf_expected_tier) (ft_events trace) \<and>
    list_all ro_succeeded (si_fault_outcomes a) \<and>
    si_total_recovery_secs a \<le> si_total_recovery_secs b \<and>
    (ft_events trace \<noteq> [] \<longrightarrow> si_total_recovery_secs a < si_total_recovery_secs b) \<and>
    si_goodput b \<le> si_goodput a"
proof -
  let ?h = "\<lambda>f. aegis_handle ae policy f w cost" and ?k = "\<lambda>f. handle_fault TorchFT f w cost"
  have each: "ro_tier_handled x = tier_name (tf_expected_tier f) \<and> ro_succeeded x \<and>
      ro_recovery_time_secs x < ro_recovery_time_secs y"
    if f: "trace_event_ok f" and x: "?h f = Inr x" and y: "?k f = Inr y" for f x y
  proof -
    from settled_audit [OF assms(1-3)] obtain e where
      e: "adapter_audit ae policy f = Inr [e]" "au_final_tier e = tier_name (settling_tier f)" "au_success e" by blast
    from aegis_costs obtain secs where secs: "dget aegis_recovery_secs (settling_tier f) = Some secs"
      "secs < the (dget torchft_recovery_secs (settling_tier f))" by blast
    obtain fts where "claimed_secs TorchFT (settling_tier f) = Some fts"
      by (cases "settling_tier f") (simp_all add: torchft_recovery_secs_def)
    with handle_claimed [of TorchFT f fts w cost] y trace_event_ok_settles [OF f] secs
    have "secs < ro_recovery_time_secs y" by auto
    with e secs(1) x trace_event_ok_settles [OF f] show ?thesis
      by (auto simp: aegis_handle_def Let_def tier_lookup)
  qed
  from aegis_adapter.simulate_adds_up [OF w n] obtain a where a:
    "simulate ''AEGIS'' (aegis_handle ae policy) w trace cost total_steps = Inr a"
    "list_all2 (\<lambda>f out. ?h f = Inr out) (ft_events trace) (si_fault_outcomes a)"
    "si_goodput a = max 0 (1 - si_total_recovery_secs a * wl_steps_per_second w / of_int total_steps)" by blast
  from baseline.simulate_adds_up [OF w n, of "system_name TorchFT" TorchFT trace cost] obtain b where b:
    "simulate (system_name TorchFT) (handle_fault TorchFT) w trace cost total_steps = Inr b"
    "list_all2 (\<lambda>f out. ?k f = Inr out) (ft_events trace) (si_fault_outcomes b)"
    "si_goodput b = max 0 (1 - si_total_recovery_secs b * wl_steps_per_second w / of_int total_steps)" by blast
  have sums: "si_total_recovery_secs a = sum_list (map ro_recovery_time_secs (si_fault_outcomes a))"
    "si_total_recovery_secs b = sum_list (map ro_recovery_time_secs (si_fault_outcomes b))"
    using simulate_total [OF a(1)] simulate_total [OF b(1)] by simp_all
  note all = outcomes_each [OF a(2) b(2), where P = "\<lambda>f x y. ro_tier_handled x = tier_name (tf_expected_tier f) \<and>
      ro_succeeded x \<and> ro_recovery_time_secs x < ro_recovery_time_secs y"]
  have tr': "\<And>f. f \<in> set (ft_events trace) \<Longrightarrow> trace_event_ok f" using tr by (simp add: list_all_iff)
  have P: "list_all2 (\<lambda>f (x, y). ro_tier_handled x = tier_name (tf_expected_tier f) \<and> ro_succeeded x \<and>
      ro_recovery_time_secs x < ro_recovery_time_secs y) (ft_events trace) (zip (si_fault_outcomes a) (si_fault_outcomes b))"
    by (rule all) (use each tr' in blast)
  have len: "length (si_fault_outcomes a) = length (si_fault_outcomes b)"
    using a(2) b(2) by (metis list_all2_lengthD)
  note less = zip_outcomes [OF P len]
  have le: "si_total_recovery_secs a \<le> si_total_recovery_secs b"
    using less(3,4) unfolding sums by (cases "ft_events trace = []") auto
  have "0 < wl_steps_per_second w" using w by (simp add: workload_ok_def)
  with le n have "si_goodput b \<le> si_goodput a"
    unfolding a(3) b(3) by (intro max.mono order_refl diff_left_mono divide_right_mono mult_right_mono) auto
  with less le a(1) b(1) show ?thesis unfolding sums [symmetric] by blast
qed

text \<open>An adapter that reads the audit log before the engine has handled the event restarts the job.\<close>

lemma unsettled_adapter_restarts:
  assumes "\<not> ae_settled ae" "aegis_handle ae policy f w cost = Inr out"
  shows "ro_tier_handled out = ''full_restart'' \<and> ro_forced_restart out \<and> \<not> ro_succeeded out"
proof -
  from configured [of ae policy] obtain rt where
    conf: "configure_runtime ae (runtime_init (ae_runtime ae) (Some policy)) = Inr rt" and rt: "ready ae policy rt" by blast
  have "en_history (rt_epe (runtime_start rt)) = []" using rt by (simp add: ready_def Let_def runtime_start_def)
  then have "adapter_audit ae policy f = Inr []"
    using assms(1) by (simp add: adapter_audit_def runtime_session_def conf Let_def escalation_audit_def)
  with assms(2) show ?thesis by (auto simp: aegis_handle_def from_recovery_time_def Let_def split: sum.splits)
qed

text \<open>
  C28. AEGIS is charged less than TorchFT as long as its recoveries work: given a correlation
  threshold above 1 (the adapter's own policy has 3), a NIC migration and an absorption backend
  that succeed and a codec that restores what it compressed, and provided that the engine has
  handled each event when the adapter looks at the audit log, on every trace whose faults carry the
  classifier's tier and hit nodes of the topology, such as the fixed traces and the random ones,
  every fault is settled by the real runtime at the expected tier with success, the simulation of
  AEGIS returns, its total stall is at most that of TorchFT on the same trace, strictly less when
  there is a fault at all, and its goodput is at least TorchFT's. When the engine has not handled
  the event by then, the adapter charges AEGIS a forced full restart instead.
\<close>

theorem aegis_stalls_less_than_torchft:
  assumes "1 < op_correlation_node_threshold policy" "codec_ok (re_codec (ae_runtime ae))"
    and "\<forall>node a b t r. mr_success (re_migrate (ae_runtime ae) node a b t r)"
    and "\<forall>node nb. ab_success (re_absorb (ae_runtime ae) node nb)"
    and w: "workload_ok w" and n: "0 < total_steps" and tr: "list_all trace_event_ok (ft_events trace)"
  shows "(ae_settled ae \<longrightarrow>
      (\<exists>a b. simulate ''AEGIS'' (aegis_handle ae policy) w trace cost total_steps = Inr a \<and>
        simulate (system_name TorchFT) (handle_fault TorchFT) w trace cost total_steps = Inr b \<and>
        map ro_tier_handled (si_fault_outcomes a) = map (tier_name \<circ> tf_expected_tier) (ft_events trace) \<and>
        list_all ro_succeeded (si_fault_outcomes a) \<and>
        si_total_recovery_secs a \<le> si_total_recovery_secs b \<and>
        (ft_events trace \<noteq> [] \<longrightarrow> si_total_recovery_secs a < si_total_recovery_secs b) \<and>
        si_goodput b \<le> si_goodput a)) \<and>
    (\<not> ae_settled ae \<longrightarrow> (\<forall>f out. aegis_handle ae policy f w cost = Inr out \<longrightarrow>
      ro_tier_handled out = ''full_restart'' \<and> ro_forced_restart out \<and> \<not> ro_succeeded out))"
proof -
  have ok: "backends_work (ae_runtime ae)" using assms(2-4) by (simp add: backends_work_def)
  show ?thesis using settled_stalls_less [OF assms(1) ok _ w n tr] unsettled_adapter_restarts by blast
qed

theorem aegis_stalls_less_than_torchft_witness:
  "\<exists>a b. simulate ''AEGIS'' (aegis_handle demo_adapter (adapter_policy None)) (projr W1) FT_B4 2 50000 = Inr a \<and>
     simulate ''B-TORCHFT'' (handle_fault TorchFT) (projr W1) FT_B4 2 50000 = Inr b \<and>
     map ro_tier_handled (si_fault_outcomes a) = [''B4'', ''B4''] \<and>
     si_total_recovery_secs a < si_total_recovery_secs b"
proof -
  have "list_all trace_event_ok (ft_events FT_B4)" using fixed_traces_ok by simp
  moreover have "codec_ok (re_codec (ae_runtime demo_adapter))"
    "\<forall>node a b t r. mr_success (re_migrate (ae_runtime demo_adapter) node a b t r)"
    "\<forall>node nb. ab_success (re_absorb (ae_runtime demo_adapter) node nb)"
    using demo_adapter_works(1) by (simp_all add: backends_work_def)
  ultimately show ?thesis
    using aegis_stalls_less_than_torchft [OF adapter_policy_threshold _ _ _ W1_ok, of demo_adapter 50000 FT_B4 2]
      demo_adapter_works(2) by (auto simp: FT_B4_def mk_trace_event_def)
qed

end
