(* ===== verification/Arguments.thy ===== *)
theory Arguments
  imports Policy "HOL-Library.Sublist"
begin

text \<open>
  The part of Python's \<open>argparse\<close> the scripts use: parsers of long options, each a flag
  (\<open>store_true\<close>) or an option with one value of type \<open>str\<close>, \<open>int\<close> or \<open>float\<close>,
  required or with a default, and the help option every parser has. Options may be written
  \<open>--name value\<close>, \<open>--name=value\<close> or by an unambiguous prefix. Every way to leave the parser
  other than with a namespace, help included, is \<open>SystemExit\<close>. The separator \<open>--\<close> is treated
  as an argument no option takes; no command line of the program has it.
\<close>

subsection \<open>Options and namespaces\<close>

datatype value_type = StrT | IntT | FloatT

datatype arg_option =
    Flag (opt_name: string)
  | Valued (opt_name: string) value_type bool pyval

type_synonym namespace = "(string, pyval) dict"

text \<open>The attribute an option sets: its name without the dashes, inner dashes as underscores.\<close>

definition dest_of :: "string \<Rightarrow> string" where
  "dest_of name = map (\<lambda>c. if c = CHR ''-'' then CHR ''_'' else c) (drop 2 name)"

fun convert :: "value_type \<Rightarrow> string \<Rightarrow> pyexc + pyval" where
  "convert StrT s = Inr (PStr s)"
| "convert IntT s = (case parse_int s of None \<Rightarrow> Inl SystemExit | Some i \<Rightarrow> Inr (PInt i))"
| "convert FloatT s = (case parse_float s of None \<Rightarrow> Inl SystemExit | Some x \<Rightarrow> Inr (PFloat x))"

subsection \<open>What an argument is\<close>

text \<open>The option string and the explicit value of \<open>--name=value\<close>.\<close>

definition split_eq :: "string \<Rightarrow> string \<times> string option" where
  "split_eq s =
    (if CHR ''='' \<in> set s
     then (takeWhile (\<lambda>c. c \<noteq> CHR ''='') s, Some (tl (dropWhile (\<lambda>c. c \<noteq> CHR ''='') s)))
     else (s, None))"

text \<open>\<open>^-\d+$|^-\d*\.\d+$\<close>.\<close>

definition looks_negative :: "string \<Rightarrow> bool" where
  "looks_negative s =
    (case s of [] \<Rightarrow> False
     | c # body \<Rightarrow> c = CHR ''-'' \<and>
         (let r = dropWhile is_digit body
          in (body \<noteq> [] \<and> r = []) \<or>
             (case r of [] \<Rightarrow> False | d # ds \<Rightarrow> d = CHR ''.'' \<and> ds \<noteq> [] \<and> list_all is_digit ds)))"

text \<open>\<open>Refused\<close>: the help option, an unknown option or an ambiguous prefix, all of which exit.\<close>

datatype arg_class = Positional | Known arg_option "string option" | Refused

definition find_option :: "arg_option list \<Rightarrow> string \<Rightarrow> arg_option option" where
  "find_option opts name = (case filter (\<lambda>o'. opt_name o' = name) opts of [] \<Rightarrow> None | o' # os \<Rightarrow> Some o')"

definition is_help :: "string \<Rightarrow> bool" where
  "is_help s = (s = ''-h'' \<or> s = ''--help'')"

text \<open>
  The options an abbreviation may stand for: those it is a prefix of. The help option is
  counted, so that it makes an abbreviation ambiguous, and \<open>-h\<close> with more letters is help too.
\<close>

definition by_prefix :: "arg_option list \<Rightarrow> string \<Rightarrow> arg_class" where
  "by_prefix opts s =
    (case split_eq s of (name, val) \<Rightarrow>
       let cands = (if take 2 s = ''--'' then filter (\<lambda>o'. prefix name (opt_name o')) opts else []);
           help = (if take 2 s = ''--'' then prefix name ''--help'' else take 2 s = ''-h'')
       in if help then Refused
          else case cands of
            [o'] \<Rightarrow> Known o' val
          | o1 # o2 # os \<Rightarrow> Refused
          | [] \<Rightarrow> if looks_negative s \<or> CHR '' '' \<in> set s then Positional else Refused)"

definition classify_arg :: "arg_option list \<Rightarrow> string \<Rightarrow> arg_class" where
  "classify_arg opts s =
    (if s = [] \<or> hd s \<noteq> CHR ''-'' then Positional
     else if s = ''--'' then Refused
     else if is_help s then Refused
     else case find_option opts s of
       Some o' \<Rightarrow> Known o' None
     | None \<Rightarrow>
         if s = ''-'' then Positional
         else case split_eq s of (name, val) \<Rightarrow>
           (case (if val = None then None else find_option opts name) of
              Some o' \<Rightarrow> Known o' val
            | None \<Rightarrow> if val \<noteq> None \<and> is_help name then Refused else by_prefix opts s))"

subsection \<open>Parsing\<close>

text \<open>
  The namespace of the options given, the last value of each. A value is the next argument
  if that is not an option itself; an argument no option takes is an error.
\<close>

fun parse_tokens :: "arg_option list \<Rightarrow> string list \<Rightarrow> namespace \<Rightarrow> pyexc + namespace" where
  "parse_tokens opts [] ns = Inr ns"
| "parse_tokens opts (a # rest) ns =
    (case classify_arg opts a of
       Known (Flag n) None \<Rightarrow> parse_tokens opts rest (dset (dest_of n) (PBool True) ns)
     | Known (Valued n ty req dflt) (Some v) \<Rightarrow>
         exc_bind (convert ty v) (\<lambda>x. parse_tokens opts rest (dset (dest_of n) x ns))
     | Known (Valued n ty req dflt) None \<Rightarrow>
         (case rest of [] \<Rightarrow> Inl SystemExit
          | v # rest' \<Rightarrow>
              if classify_arg opts v = Positional
              then exc_bind (convert ty v) (\<lambda>x. parse_tokens opts rest' (dset (dest_of n) x ns))
              else Inl SystemExit)
     | _ \<Rightarrow> Inl SystemExit)"

fun default_of :: "arg_option \<Rightarrow> pyval" where
  "default_of (Flag n) = PBool False"
| "default_of (Valued n ty req dflt) = dflt"

fun is_required :: "arg_option \<Rightarrow> bool" where
  "is_required (Flag n) = False"
| "is_required (Valued n ty req dflt) = req"

definition parse_args :: "arg_option list \<Rightarrow> string list \<Rightarrow> pyexc + namespace" where
  "parse_args opts argv =
    exc_bind (parse_tokens opts argv []) (\<lambda>given.
    if \<exists>o' \<in> set opts. is_required o' \<and> dget given (dest_of (opt_name o')) = None then Inl SystemExit
    else Inr (map (\<lambda>o'. (dest_of (opt_name o'), dget_or given (dest_of (opt_name o')) (default_of o'))) opts))"

text \<open>The attributes of a namespace, by the type their option gives them.\<close>

definition ns_int :: "namespace \<Rightarrow> string \<Rightarrow> int" where
  "ns_int ns k = (case dget ns k of Some (PInt i) \<Rightarrow> i | _ \<Rightarrow> 0)"

definition ns_float :: "namespace \<Rightarrow> string \<Rightarrow> real" where
  "ns_float ns k = (case dget ns k of Some (PFloat x) \<Rightarrow> x | _ \<Rightarrow> 0)"

definition ns_str :: "namespace \<Rightarrow> string \<Rightarrow> string" where
  "ns_str ns k = (case dget ns k of Some (PStr s) \<Rightarrow> s | _ \<Rightarrow> [])"

definition ns_bool :: "namespace \<Rightarrow> string \<Rightarrow> bool" where
  "ns_bool ns k = (dget ns k = Some (PBool True))"

definition ns_int_opt :: "namespace \<Rightarrow> string \<Rightarrow> int option" where
  "ns_int_opt ns k = (case dget ns k of Some (PInt i) \<Rightarrow> Some i | _ \<Rightarrow> None)"

definition ns_float_opt :: "namespace \<Rightarrow> string \<Rightarrow> real option" where
  "ns_float_opt ns k = (case dget ns k of Some (PFloat x) \<Rightarrow> Some x | _ \<Rightarrow> None)"

definition ns_str_opt :: "namespace \<Rightarrow> string \<Rightarrow> string option" where
  "ns_str_opt ns k = (case dget ns k of Some (PStr s) \<Rightarrow> Some s | _ \<Rightarrow> None)"

subsection \<open>A written command line is read back\<close>

text \<open>Parsers as the scripts write them.\<close>

definition wf_parser :: "arg_option list \<Rightarrow> bool" where
  "wf_parser opts \<longleftrightarrow>
    list_all (\<lambda>o'. take 2 (opt_name o') = ''--'' \<and> 2 < length (opt_name o') \<and> opt_name o' \<noteq> ''--help'') opts \<and>
    distinct (map opt_name opts) \<and> distinct (map (dest_of \<circ> opt_name) opts)"

text \<open>A binding: an option with the text of its value, which a flag does not have.\<close>

type_synonym binding = "arg_option \<times> string"

fun render_binding :: "binding \<Rightarrow> string list" where
  "render_binding (Flag n, v) = [n]"
| "render_binding (Valued n ty req dflt, v) = [n, v]"

fun bound_value :: "binding \<Rightarrow> pyexc + pyval" where
  "bound_value (Flag n, v) = Inr (PBool True)"
| "bound_value (Valued n ty req dflt, v) = convert ty v"

fun value_is_positional :: "arg_option list \<Rightarrow> binding \<Rightarrow> bool" where
  "value_is_positional opts (Flag n, v) \<longleftrightarrow> True"
| "value_is_positional opts (Valued n ty req dflt, v) \<longleftrightarrow> classify_arg opts v = Positional"

lemma find_option_mem: "wf_parser opts \<Longrightarrow> o' \<in> set opts \<Longrightarrow> find_option opts (opt_name o') = Some o'"
proof -
  assume "wf_parser opts" "o' \<in> set opts"
  then have "filter (\<lambda>p. opt_name p = opt_name o') opts = [o']"
    unfolding wf_parser_def
  proof (induction opts)
    case (Cons p opts)
    have "filter (\<lambda>q. opt_name q = opt_name p) opts = []" using Cons.prems(1) by (force simp: filter_empty_conv image_iff)
    with Cons show ?case by (cases "o' = p") auto
  qed simp
  then show ?thesis by (simp add: find_option_def)
qed

lemma classify_option: "wf_parser opts \<Longrightarrow> o' \<in> set opts \<Longrightarrow> classify_arg opts (opt_name o') = Known o' None"
proof -
  assume wf: "wf_parser opts" "o' \<in> set opts"
  then have "take 2 (opt_name o') = ''--''" "2 < length (opt_name o')" "opt_name o' \<noteq> ''--help''"
    by (auto simp: wf_parser_def list_all_iff)
  then obtain c cs where "opt_name o' = CHR ''-'' # CHR ''-'' # c # cs"
    by (cases "opt_name o'" rule: list.exhaust [case_product]; cases "tl (opt_name o')"; cases "tl (tl (opt_name o'))") auto
  moreover have "\<not> is_help (opt_name o')" using calculation \<open>opt_name o' \<noteq> ''--help''\<close> by (simp add: is_help_def)
  ultimately show ?thesis using find_option_mem [OF wf] by (simp add: classify_arg_def)
qed

lemma classify_plain: "s = [] \<or> hd s \<noteq> CHR ''-'' \<Longrightarrow> classify_arg opts s = Positional"
  by (simp add: classify_arg_def)

lemma parse_binding:
  assumes "wf_parser opts" "fst b \<in> set opts" "value_is_positional opts b" "bound_value b = Inr x"
  shows "parse_tokens opts (render_binding b @ rest) ns = parse_tokens opts rest (dset (dest_of (opt_name (fst b))) x ns)"
proof -
  obtain o' v where b: "b = (o', v)" by (cases b)
  have "classify_arg opts (opt_name o') = Known o' None" using classify_option [OF assms(1)] assms(2) by (simp add: b)
  then show ?thesis using assms(3,4) by (cases o') (auto simp: b)
qed

text \<open>What a parser makes of a list of bindings: the value of the last one of each option, or its default.\<close>

definition bound_namespace :: "arg_option list \<Rightarrow> binding list \<Rightarrow> namespace" where
  "bound_namespace opts bs =
    map (\<lambda>o'. (dest_of (opt_name o'),
      case filter (\<lambda>b. fst b = o') bs of [] \<Rightarrow> default_of o' | b # bs' \<Rightarrow> projr (bound_value (last (b # bs'))))) opts"

lemma dest_inj:
  assumes "wf_parser opts" "o1 \<in> set opts" "o2 \<in> set opts" "dest_of (opt_name o1) = dest_of (opt_name o2)"
  shows "o1 = o2"
proof -
  from assms(1) have "inj_on (\<lambda>o'. dest_of (opt_name o')) (set opts)"
    unfolding wf_parser_def distinct_map comp_def by blast
  from inj_onD [OF this assms(4,2,3)] show ?thesis .
qed

lemma dget_fold_bindings:
  assumes "wf_parser opts" "\<forall>b \<in> set bs. fst b \<in> set opts" "o' \<in> set opts"
  shows "dget (fold (\<lambda>b. dset (dest_of (opt_name (fst b))) (projr (bound_value b))) bs ns) (dest_of (opt_name o')) =
    (case filter (\<lambda>b. fst b = o') bs of [] \<Rightarrow> dget ns (dest_of (opt_name o'))
     | b # bs' \<Rightarrow> Some (projr (bound_value (last (b # bs')))))"
  using assms(2)
proof (induction bs arbitrary: ns)
  case (Cons b bs)
  from Cons.prems have mem: "fst b \<in> set opts" "\<forall>b \<in> set bs. fst b \<in> set opts" by simp_all
  note ih = Cons.IH [OF mem(2), of "dset (dest_of (opt_name (fst b))) (projr (bound_value b)) ns"]
  show ?case
  proof (cases "fst b = o'")
    case True
    then show ?thesis using ih by (simp split: list.split)
  next
    case False
    then have "dest_of (opt_name (fst b)) \<noteq> dest_of (opt_name o')" using dest_inj [OF assms(1) mem(1) assms(3)] by blast
    with False show ?thesis using ih by (auto split: list.split)
  qed
qed simp

text \<open>
  A command line that is written is read back: for a well-formed parser and a list of bindings
  of its options whose texts are values of their types and do not look like options, and which
  binds every required option, parsing the written arguments gives the namespace of the
  bindings, every option not bound at its default.
\<close>

theorem command_line_roundtrip:
  assumes "wf_parser opts" "\<forall>b \<in> set bs. fst b \<in> set opts \<and> value_is_positional opts b \<and> (\<exists>x. bound_value b = Inr x)"
    and "\<forall>o' \<in> set opts. is_required o' \<longrightarrow> o' \<in> fst ` set bs"
  shows "parse_args opts (concat (map render_binding bs)) = Inr (bound_namespace opts bs)"
proof -
  have run: "parse_tokens opts (concat (map render_binding bs)) ns =
      Inr (fold (\<lambda>b. dset (dest_of (opt_name (fst b))) (projr (bound_value b))) bs ns)" for ns
    using assms(2)
  proof (induction bs arbitrary: ns)
    case (Cons b bs)
    then obtain x where x: "bound_value b = Inr x" by auto
    from parse_binding [OF assms(1) _ _ x] Cons show ?case by (simp add: x)
  qed simp
  note get = dget_fold_bindings [OF assms(1), of bs _ "[]"]
  have mem: "\<forall>b \<in> set bs. fst b \<in> set opts" using assms(2) by blast
  let ?ns = "fold (\<lambda>b. dset (dest_of (opt_name (fst b))) (projr (bound_value b))) bs []"
  have "dget ?ns (dest_of (opt_name o')) \<noteq> None" if "o' \<in> set opts" "is_required o'" for o'
  proof -
    from assms(3) that have "filter (\<lambda>b. fst b = o') bs \<noteq> []" by (auto simp: filter_empty_conv)
    then show ?thesis using get [OF mem that(1)] by (auto split: list.splits)
  qed
  moreover have "dget_or ?ns (dest_of (opt_name o')) (default_of o') =
      (case filter (\<lambda>b. fst b = o') bs of [] \<Rightarrow> default_of o' | b # bs' \<Rightarrow> projr (bound_value (last (b # bs'))))"
    if "o' \<in> set opts" for o'
    using get [OF mem that] by (simp add: dget_or_def split: list.splits)
  ultimately show ?thesis
    unfolding parse_args_def run bound_namespace_def by auto
qed

lemma attr_of:
  assumes "wf_parser opts" "o' \<in> set opts"
  shows "dget (bound_namespace opts bs) (dest_of (opt_name o')) =
    Some (case filter (\<lambda>b. fst b = o') bs of [] \<Rightarrow> default_of o' | b # bs' \<Rightarrow> projr (bound_value (last (b # bs'))))"
proof -
  have "distinct (dkeys (bound_namespace opts bs))" using assms(1) by (simp add: bound_namespace_def wf_parser_def comp_def)
  with assms(2) show ?thesis by (subst map_of_eq_Some_iff) (auto simp: bound_namespace_def)
qed

lemma attr_default:
  "wf_parser opts \<Longrightarrow> o' \<in> set opts \<Longrightarrow> o' \<notin> set (map fst bs) \<Longrightarrow>
   dget (bound_namespace opts bs) (dest_of (opt_name o')) = Some (default_of o')"
proof -
  assume a: "wf_parser opts" "o' \<in> set opts" "o' \<notin> set (map fst bs)"
  then have "filter (\<lambda>b. fst b = o') bs = []" by (auto simp: filter_empty_conv)
  with attr_of [OF a(1,2), of bs] show ?thesis by simp
qed

lemma attr_bound:
  assumes "wf_parser opts" "o' \<in> set opts" "distinct (map fst bs)" "(o', v) \<in> set bs"
  shows "dget (bound_namespace opts bs) (dest_of (opt_name o')) = Some (projr (bound_value (o', v)))"
proof -
  have "filter (\<lambda>b. fst b = o') bs = [(o', v)]"
    using assms(3,4)
  proof (induction bs)
    case (Cons b bs)
    have "fst b \<notin> fst ` set bs" using Cons.prems(1) by simp
    then have "\<forall>p \<in> set bs. fst p \<noteq> fst b" by (metis image_eqI)
    then have none: "filter (\<lambda>p. fst p = fst b) bs = []" by (simp add: filter_empty_conv)
    show ?case
    proof (cases "fst b = o'")
      case True
      with none Cons.prems(2) \<open>fst b \<notin> fst ` set bs\<close> show ?thesis by (cases b) (auto simp: image_iff)
    next
      case False
      with Cons show ?thesis by auto
    qed
  qed simp
  with attr_of [OF assms(1,2), of bs] show ?thesis by simp
qed

subsection \<open>Numbers as arguments\<close>

lemma find_option_None: "wf_parser opts \<Longrightarrow> take 2 s \<noteq> ''--'' \<Longrightarrow> find_option opts s = None"
proof -
  assume "wf_parser opts" "take 2 s \<noteq> ''--''"
  then have "filter (\<lambda>o'. opt_name o' = s) opts = []"
    unfolding wf_parser_def list_all_iff filter_empty_conv by blast
  then show ?thesis by (simp add: find_option_def)
qed

text \<open>A printed integer is a value, not an option, negative or not.\<close>

lemma classify_int_str:
  assumes "wf_parser opts"
  shows "classify_arg opts (int_str i) = Positional"
proof (cases "i < 0")
  case False
  obtain c cs where cs: "nat_str (nat i) = c # cs" using nat_str_nonempty [of "nat i"] by (cases "nat_str (nat i)") auto
  have "c \<noteq> CHR ''-''" using nat_str_all_digits [of "nat i"] by (auto simp: cs is_digit_def)
  with False show ?thesis by (intro classify_plain) (simp add: int_str_def cs)
next
  case True
  obtain c cs where cs: "nat_str (nat (- i)) = c # cs" using nat_str_nonempty [of "nat (- i)"] by (cases "nat_str (nat (- i))") auto
  have d: "list_all is_digit (c # cs)" using nat_str_all_digits [of "nat (- i)"] by (simp only: cs)
  have s: "int_str i = CHR ''-'' # c # cs" using True by (simp add: int_str_def cs)
  have c: "c \<noteq> CHR ''-''" "c \<noteq> CHR ''h''" using d by (auto simp: is_digit_def)
  have "\<not> is_digit (CHR ''='')" by (simp add: is_digit_def)
  then have eq: "CHR ''='' \<notin> set (c # cs)" using d unfolding list_all_iff by blast
  have "dropWhile is_digit (c # cs) = []" using d unfolding dropWhile_eq_Nil_conv list_all_iff .
  then have neg: "looks_negative (int_str i)" by (simp only: s looks_negative_def Let_def list.case) simp
  have none: "find_option opts (int_str i) = None" using assms c by (intro find_option_None) (simp_all add: s)
  have "by_prefix opts (int_str i) = Positional"
    using neg c eq by (simp add: by_prefix_def split_eq_def s)
  moreover have "split_eq (int_str i) = (int_str i, None)" using eq by (simp add: split_eq_def s)
  ultimately show ?thesis using none c by (simp add: classify_arg_def is_help_def s)
qed

subsection \<open>Parsed values have the types of their options\<close>

fun has_value_type :: "value_type \<Rightarrow> pyval \<Rightarrow> bool" where
  "has_value_type StrT v = (case v of PStr s \<Rightarrow> True | _ \<Rightarrow> False)"
| "has_value_type IntT v = (case v of PInt i \<Rightarrow> True | _ \<Rightarrow> False)"
| "has_value_type FloatT v = (case v of PFloat x \<Rightarrow> True | _ \<Rightarrow> False)"

fun value_fits :: "arg_option \<Rightarrow> pyval \<Rightarrow> bool" where
  "value_fits (Flag n) v = (case v of PBool b \<Rightarrow> True | _ \<Rightarrow> False)"
| "value_fits (Valued n ty req dflt) v = (has_value_type ty v \<or> \<not> req \<and> v = dflt)"

fun given_fits :: "arg_option \<Rightarrow> pyval \<Rightarrow> bool" where
  "given_fits (Flag n) v = (v = PBool True)"
| "given_fits (Valued n ty req dflt) v = has_value_type ty v"

lemma convert_typed: "convert ty s = Inr x \<Longrightarrow> has_value_type ty x"
  by (cases ty) (auto split: option.splits)

lemma find_option_in: "find_option opts s = Some o' \<Longrightarrow> o' \<in> set opts"
  by (auto simp: find_option_def filter_eq_Cons_iff split: list.splits)

lemma classify_known: "classify_arg opts s = Known o' v \<Longrightarrow> o' \<in> set opts"
proof -
  have pre: "by_prefix opts s = Known o' v \<Longrightarrow> o' \<in> set opts"
    by (auto simp: by_prefix_def Let_def filter_eq_Cons_iff split: prod.splits if_splits list.splits)
  show "classify_arg opts s = Known o' v \<Longrightarrow> o' \<in> set opts"
    using pre by (auto simp: classify_arg_def dest: find_option_in split: if_splits option.splits prod.splits)
qed

lemma parse_tokens_typed:
  assumes "wf_parser opts" "parse_tokens opts argv ns = Inr given"
    and "\<And>o' v. o' \<in> set opts \<Longrightarrow> dget ns (dest_of (opt_name o')) = Some v \<Longrightarrow>
given_fits o' v"
    and "o' \<in> set opts" "dget given (dest_of (opt_name o')) = Some v"
  shows "given_fits o' v"
proof -
  have upd: "given_fits o2 v2"
    if "\<And>o' v. o' \<in> set opts \<Longrightarrow> dget ns (dest_of (opt_name o')) = Some v \<Longrightarrow> given_fits o' v" "o1 \<in> set opts" "given_fits o1 x"
      "o2 \<in> set opts" "dget (dset (dest_of (opt_name o1)) x ns) (dest_of (opt_name o2)) = Some v2" for ns o1 x o2 v2
  proof (cases "o1 = o2")
    case True
    with that(5) have "x = v2" by simp
    with that(3) True show ?thesis by simp
  next
    case False
    then have "dest_of (opt_name o1) \<noteq> dest_of (opt_name o2)" using dest_inj [OF assms(1) that(2,4)] by blast
    with that(5) have "dget ns (dest_of (opt_name o2)) = Some v2" by simp
    from that(1) [OF that(4) this] show ?thesis .
  qed
  have "\<lbrakk>parse_tokens opts as ns = Inr given; \<And>o' v. o' \<in> set opts \<Longrightarrow> dget ns (dest_of (opt_name o')) = Some v \<Longrightarrow> given_fits o' v\<rbrakk> \<Longrightarrow>
      given_fits o' v" for as ns
  proof (induction as arbitrary: ns rule: length_induct)
    case (1 as)
    show ?case
    proof (cases as)
      case Nil
      with "1.prems" assms(4,5) show ?thesis by simp
    next
      case (Cons a rest)
      obtain o1 val where k: "classify_arg opts a = Known o1 val"
        using "1.prems"(1) by (cases "classify_arg opts a") (simp_all add: Cons)
      have o1: "o1 \<in> set opts" using k by (rule classify_known)
      have step: "given_fits o' v" if "parse_tokens opts rest' (dset (dest_of (opt_name o1)) x ns) = Inr given" "length rest' < length as"
        "given_fits o1 x" for rest' x
      proof -
        from upd [OF "1.prems"(2) o1 that(3)] have "given_fits p w"
          if "p \<in> set opts" "dget (dset (dest_of (opt_name o1)) x ns) (dest_of (opt_name p)) = Some w" for p w
          using that by blast
        with "1.IH" that(1,2) show "given_fits o' v" by blast
      qed
      show ?thesis
      proof (cases o1)
        case (Flag n)
        with "1.prems"(1) k Cons have "parse_tokens opts rest (dset (dest_of n) (PBool True) ns) = Inr given"
          by (cases val) simp_all
        with Flag Cons step [of rest "PBool True"] show ?thesis by simp
      next
        case (Valued n ty req dflt)
        show ?thesis
        proof (cases val)
          case (Some w)
          with "1.prems"(1) k Cons Valued obtain x where "convert ty w = Inr x"
            "parse_tokens opts rest (dset (dest_of n) x ns) = Inr given" by auto
          with Valued Cons step [of rest x] convert_typed show ?thesis by simp
        next
          case None
          with "1.prems"(1) k Cons Valued obtain w rest' where r: "rest = w # rest'" by (cases rest) simp_all
          with "1.prems"(1) k Cons Valued None obtain x where "convert ty w = Inr x"
            "parse_tokens opts rest' (dset (dest_of n) x ns) = Inr given" by (auto split: if_splits)
          with Valued Cons r step [of rest' x] convert_typed show ?thesis by simp
        qed
      qed
    qed
  qed
  from this [OF assms(2,3)] show ?thesis .
qed

text \<open>
  A namespace has the types its options declare: when a well-formed parser returns, the
  attributes are exactly those of its options, in their order; a flag is a Boolean, a value has
  its option's type, or is the default of an option that is not required.
\<close>

theorem parsed_values_fit:
  assumes "wf_parser opts" "parse_args opts argv = Inr ns"
  shows "dkeys ns = map (\<lambda>o'. dest_of (opt_name o')) opts \<and>
    (\<forall>o' \<in> set opts. \<exists>v. dget ns (dest_of (opt_name o')) = Some v \<and> value_fits o' v)"
proof -
  from assms(2) obtain given where given: "parse_tokens opts argv [] = Inr given"
    "\<not> (\<exists>o' \<in> set opts. is_required o' \<and> dget given (dest_of (opt_name o')) = None)"
    "ns = map (\<lambda>o'. (dest_of (opt_name o'), dget_or given (dest_of (opt_name o')) (default_of o'))) opts"
    by (auto simp: parse_args_def split: if_splits)
  have d: "distinct (dkeys ns)" using assms(1) by (simp add: given(3) wf_parser_def comp_def)
  have "dget ns (dest_of (opt_name o')) = Some (dget_or given (dest_of (opt_name o')) (default_of o'))" if "o' \<in> set opts" for o'
    using d that by (subst map_of_eq_Some_iff) (auto simp: given(3))
  moreover have "value_fits o' (dget_or given (dest_of (opt_name o')) (default_of o'))" if "o' \<in> set opts" for o'
  proof (cases "dget given (dest_of (opt_name o'))")
    case None
    with given(2) that show ?thesis by (cases o') (auto simp: dget_or_def)
  next
    case (Some v)
    from parse_tokens_typed [OF assms(1) given(1) _ that Some] Some show ?thesis
      by (cases o') (auto simp: dget_or_def)
  qed
  ultimately show ?thesis by (auto simp: given(3))
qed

end
