(* ===== verification/Step_Log.thy ===== *)
theory Step_Log
  imports Policy
begin

text \<open>
  The logs of a real run (\<open>realbench/training/step_log.py\<close>): the step log with its
  incremental reader, the append-only JSON-lines logs, and the heartbeat files. A file is its
  text, \<open>None\<close> when it does not exist. The standard \<open>json\<close> module is the record \<open>json_lib\<close>;
  what is relied on is that the records the program writes are printed on one line and read
  back (\<open>line_ok\<close>). Text holds no carriage return, which \<open>json.dumps\<close> escapes.
\<close>

record json_lib =
  js_dumps :: "pyval \<Rightarrow> string"
  js_loads :: "string \<Rightarrow> pyexc + pyval"

type_synonym text_file = "string option"

definition newline :: char where
  "newline = CHR 0x0A"

subsection \<open>Text files\<close>

text \<open>Iterating over an open text file: its lines, each with its newline.\<close>

fun file_lines :: "string \<Rightarrow> string list" where
  "file_lines [] = []"
| "file_lines (c # cs) =
    (if c = newline then [c] # file_lines cs
     else case file_lines cs of [] \<Rightarrow> [[c]] | l # ls \<Rightarrow> (c # l) # ls)"

definition append_text :: "string \<Rightarrow> text_file \<Rightarrow> text_file" where
  "append_text s f = Some ((case f of None \<Rightarrow> [] | Some t \<Rightarrow> t) @ s)"

text \<open>\<open>r[k]\<close> and \<open>r.get(k)\<close> on a parsed value; only dictionaries have them.\<close>

definition field :: "string \<Rightarrow> pyval \<Rightarrow> pyexc + pyval" where
  "field k v = (case v of PDict d \<Rightarrow> (case dget d k of None \<Rightarrow> Inl KeyErr | Some x \<Rightarrow> Inr x) | _ \<Rightarrow> Inl TypeErr)"

definition get_field :: "string \<Rightarrow> pyval \<Rightarrow> pyexc + pyval" where
  "get_field k v = (case v of PDict d \<Rightarrow> Inr (dget_or d k PNone) | _ \<Rightarrow> Inl AttributeErr)"

text \<open>
  A number, a string or a flag of a record. The source stores the value unchecked and a value
  of another type raises at its first use; the model raises where the record is read.
\<close>

fun as_real :: "pyval \<Rightarrow> pyexc + real" where
  "as_real (PInt i) = Inr (of_int i)"
| "as_real (PFloat x) = Inr x"
| "as_real _ = Inl TypeErr"

fun as_int :: "pyval \<Rightarrow> pyexc + int" where
  "as_int (PInt i) = Inr i"
| "as_int _ = Inl TypeErr"

fun as_str :: "pyval \<Rightarrow> pyexc + string" where
  "as_str (PStr s) = Inr s"
| "as_str _ = Inl TypeErr"

definition opt_of :: "(pyval \<Rightarrow> pyexc + 'a) \<Rightarrow> pyval \<Rightarrow> pyexc + 'a option" where
  "opt_of conv v = (if v = PNone then Inr None else exc_bind (conv v) (\<lambda>a. Inr (Some a)))"

subsection \<open>JSON lines\<close>

definition parse_line :: "json_lib \<Rightarrow> string \<Rightarrow> pyexc + pyval list" where
  "parse_line J line =
    (let s = strip line in if s = [] then Inr [] else exc_bind (js_loads J s) (\<lambda>v. Inr [v]))"

definition parse_lines :: "json_lib \<Rightarrow> string \<Rightarrow> pyexc + pyval list" where
  "parse_lines J text = exc_bind (exc_map (parse_line J) (file_lines text)) (\<lambda>vss. Inr (concat vss))"

definition jsonl_line :: "json_lib \<Rightarrow> pyval \<Rightarrow> string" where
  "jsonl_line J v = js_dumps J v @ [newline]"

definition append_jsonl :: "json_lib \<Rightarrow> pyval \<Rightarrow> text_file \<Rightarrow> text_file" where
  "append_jsonl J v f = append_text (jsonl_line J v) f"

definition read_jsonl :: "json_lib \<Rightarrow> text_file \<Rightarrow> pyexc + pyval list" where
  "read_jsonl J f = (case f of None \<Rightarrow> Inr [] | Some text \<Rightarrow> parse_lines J text)"

subsection \<open>The step log\<close>

record step_record =
  sr_wall_clock :: real
  sr_global_step :: int
  sr_loss :: real

definition step_value :: "step_record \<Rightarrow> pyval" where
  "step_value r = PDict [(''wall_clock'', PFloat (sr_wall_clock r)), (''global_step'', PInt (sr_global_step r)),
     (''loss'', PFloat (sr_loss r))]"

definition step_of :: "pyval \<Rightarrow> pyexc + step_record" where
  "step_of v =
    exc_bind (exc_bind (field ''wall_clock'' v) as_real) (\<lambda>wc.
    exc_bind (exc_bind (field ''global_step'' v) as_int) (\<lambda>gs.
    exc_bind (exc_bind (field ''loss'' v) as_real) (\<lambda>ls.
    Inr \<lparr>sr_wall_clock = wc, sr_global_step = gs, sr_loss = ls\<rparr>)))"

definition step_write :: "json_lib \<Rightarrow> step_record \<Rightarrow> text_file \<Rightarrow> text_file" where
  "step_write J r f = append_text (jsonl_line J (step_value r)) f"

text \<open>
  \<open>tail_new\<close>: the records of the lines after the offset, and the offset at the end of the
  file. When a line does not parse the call raises and the offset stays.
\<close>

definition tail_new :: "json_lib \<Rightarrow> text_file \<Rightarrow> nat \<Rightarrow> pyexc + (step_record list \<times> nat)" where
  "tail_new J f offset =
    (case f of None \<Rightarrow> Inr ([], offset)
     | Some text \<Rightarrow>
         exc_bind (parse_lines J (drop offset text)) (\<lambda>vs.
         exc_bind (exc_map step_of vs) (\<lambda>rs. Inr (rs, max offset (length text)))))"

definition read_all :: "json_lib \<Rightarrow> text_file \<Rightarrow> pyexc + (step_record list \<times> nat)" where
  "read_all J f = tail_new J f 0"

subsection \<open>Heartbeats\<close>

record heartbeat =
  hb_wall_clock :: real
  hb_step :: int

definition heartbeat_value :: "heartbeat \<Rightarrow> pyval" where
  "heartbeat_value h = PDict [(''wall_clock'', PFloat (hb_wall_clock h)), (''step'', PInt (hb_step h))]"

definition heartbeat_touch :: "json_lib \<Rightarrow> heartbeat \<Rightarrow> text_file \<Rightarrow> text_file" where
  "heartbeat_touch J h f = Some (js_dumps J (heartbeat_value h))"

text \<open>A file that does not parse counts as no heartbeat; a missing field raises.\<close>

definition heartbeat_read :: "json_lib \<Rightarrow> text_file \<Rightarrow> pyexc + heartbeat option" where
  "heartbeat_read J f =
    (case f of None \<Rightarrow> Inr None
     | Some text \<Rightarrow>
         (case js_loads J text of
            Inl x \<Rightarrow> (if x = JSONDecodeErr \<or> x = OSErr then Inr None else Inl x)
          | Inr v \<Rightarrow>
              exc_bind (exc_bind (field ''wall_clock'' v) as_real) (\<lambda>wc.
              exc_bind (exc_bind (field ''step'' v) as_int) (\<lambda>st.
              Inr (Some \<lparr>hb_wall_clock = wc, hb_step = st\<rparr>)))))"

subsection \<open>Lines written are lines read\<close>

text \<open>
  What the logs rely on of \<open>json\<close> for a value: its text has no newline, neither starts nor
  ends with white space, and is read back as the value.
\<close>

definition line_ok :: "json_lib \<Rightarrow> pyval \<Rightarrow> bool" where
  "line_ok J v \<longleftrightarrow>
    (let s = js_dumps J v
     in s \<noteq> [] \<and> newline \<notin> set s \<and> \<not> is_space (hd s) \<and> \<not> is_space (last s) \<and> js_loads J s = Inr v)"

lemma newline_space: "is_space newline"
  by (simp add: newline_def is_space_def)

lemma strip_line: "s \<noteq> [] \<Longrightarrow> \<not> is_space (hd s) \<Longrightarrow> \<not> is_space (last s) \<Longrightarrow> strip (s @ [newline]) = s"
proof -
  assume s: "s \<noteq> []" "\<not> is_space (hd s)" "\<not> is_space (last s)"
  have "dropWhile is_space (s @ [newline]) = s @ [newline]" using s(1,2) by (cases s) simp_all
  moreover have "dropWhile is_space (rev s) = rev s"
    using s(1,3) by (cases s rule: rev_cases) simp_all
  ultimately show ?thesis by (simp add: strip_def newline_space)
qed

lemma file_lines_line: "newline \<notin> set s \<Longrightarrow> file_lines (s @ newline # rest) = (s @ [newline]) # file_lines rest"
  by (induction s) auto

lemma parse_line_ok: "line_ok J v \<Longrightarrow> parse_line J (jsonl_line J v) = Inr [v]"
  by (simp add: parse_line_def jsonl_line_def line_ok_def Let_def strip_line)

lemma file_lines_jsonl:
  "\<forall>v \<in> set vs. line_ok J v \<Longrightarrow> file_lines (concat (map (jsonl_line J) vs)) = map (jsonl_line J) vs"
proof (induction vs)
  case (Cons v vs)
  then have "newline \<notin> set (js_dumps J v)" by (simp add: line_ok_def Let_def)
  with Cons show ?case by (simp add: jsonl_line_def file_lines_line)
qed simp

lemma parse_lines_jsonl:
  assumes "\<forall>v \<in> set vs. line_ok J v"
  shows "parse_lines J (concat (map (jsonl_line J) vs)) = Inr vs"
proof -
  have "exc_map (parse_line J) (map (jsonl_line J) vs) = Inr (map (\<lambda>v. [v]) vs)"
    using assms by (induction vs) (simp_all add: parse_line_ok)
  then show ?thesis unfolding parse_lines_def file_lines_jsonl [OF assms] by simp
qed

lemma parse_line_inv: "step_of (step_value r) = Inr r"
  by (simp add: step_of_def step_value_def field_def)

subsection \<open>Streams of records\<close>

text \<open>
  A log that one process appends to and another tails: \<open>owed f n rs\<close> says that a reader at
  offset \<open>n\<close> is still to see \<open>rs\<close>.
\<close>

datatype 'r stream_op = Add 'r | Tail

fun added :: "'r stream_op list \<Rightarrow> 'r list" where
  "added [] = []"
| "added (Add r # ops) = r # added ops"
| "added (Tail # ops) = added ops"

fun stream_run ::
  "('r \<Rightarrow> 'f \<Rightarrow> 'f) \<Rightarrow> ('f \<Rightarrow> nat \<Rightarrow> pyexc + 'r list \<times> nat) \<Rightarrow> 'r stream_op list \<Rightarrow> 'f \<Rightarrow> nat \<Rightarrow>
   pyexc + ('r list \<times> 'f \<times> nat)" where
  "stream_run add tail [] f n = Inr ([], f, n)"
| "stream_run add tail (Add r # ops) f n = stream_run add tail ops (add r f) n"
| "stream_run add tail (Tail # ops) f n =
    exc_bind (tail f n) (\<lambda>(rs, n'). exc_bind (stream_run add tail ops f n') (\<lambda>(out, f', n''). Inr (rs @ out, f', n'')))"

locale record_stream =
  fixes add :: "'r \<Rightarrow> 'f \<Rightarrow> 'f"
    and tail :: "'f \<Rightarrow> nat \<Rightarrow> pyexc + 'r list \<times> nat"
    and start :: 'f
    and ok :: "'r \<Rightarrow> bool"
    and owed :: "'f \<Rightarrow> nat \<Rightarrow> 'r list \<Rightarrow> bool"
  assumes start_owes: "owed start 0 []"
    and add_owes: "owed f n rs \<Longrightarrow> ok r \<Longrightarrow> owed (add r f) n (rs @ [r])"
    and tail_pays: "owed f n rs \<Longrightarrow> \<exists>n'. tail f n = Inr (rs, n') \<and> owed f n' []"
begin

lemma stream_exact:
  assumes "owed f n rs" "\<forall>r \<in> set (added ops). ok r"
  shows "\<exists>out f' n' rs'. stream_run add tail ops f n = Inr (out, f', n') \<and> owed f' n' rs' \<and> out @ rs' = rs @ added ops"
  using assms
proof (induction ops arbitrary: f n rs)
  case (Cons op ops)
  show ?case
  proof (cases op)
    case (Add r)
    with Cons.prems have "owed (add r f) n (rs @ [r])" by (simp add: add_owes)
    from Cons.IH [OF this] Cons.prems(2) Add show ?thesis by simp
  next
    case Tail
    from tail_pays [OF Cons.prems(1)] obtain n' where n': "tail f n = Inr (rs, n')" "owed f n' []" by blast
    from Cons.IH [OF n'(2)] Cons.prems(2) Tail obtain out f' n'' rs' where
      "stream_run add tail ops f n' = Inr (out, f', n'')" "owed f' n'' rs'" "out @ rs' = added ops" by auto
    with n'(1) Tail show ?thesis by auto
  qed
qed simp

lemma stream_run_snoc:
  "stream_run add tail (ops @ [Tail]) f n = exc_bind (stream_run add tail ops f n)
     (\<lambda>(out, f', n'). exc_bind (tail f' n') (\<lambda>(rs, n''). Inr (out @ rs, f', n'')))"
proof (induction ops arbitrary: f n)
  case Nil
  then show ?case by (cases "tail f n") auto
next
  case (Cons op ops)
  show ?case
  proof (cases op)
    case (Add r)
    with Cons.IH show ?thesis by simp
  next
    case Tail
    show ?thesis
    proof (cases "tail f n")
      case (Inr p)
      obtain rs k where p: "p = (rs, k)" by (cases p)
      show ?thesis
      proof (cases "stream_run add tail ops f k")
        case Inl
        with Tail Inr p Cons.IH show ?thesis by simp
      next
        fix q assume q: "stream_run add tail ops f k = Inr q"
        obtain out f' n' where "q = (out, f', n')" by (cases q)
        with Tail Inr p q Cons.IH [of f k] show ?thesis by (cases "tail f' n'") (auto simp: split_beta)
      qed
    qed (use Tail in \<open>simp\<close>)
  qed
qed

lemma stream_from_start:
  assumes "\<forall>r \<in> set (added ops). ok r"
  shows "\<exists>f' n'. stream_run add tail (ops @ [Tail]) start 0 = Inr (added ops, f', n')"
proof -
  from stream_exact [OF start_owes assms] obtain out f' n' rs' where
    run: "stream_run add tail ops start 0 = Inr (out, f', n')" "owed f' n' rs'" "out @ rs' = added ops" by auto
  from tail_pays [OF run(2)] obtain k where "tail f' n' = Inr (rs', k)" by blast
  with run(1,3) show ?thesis unfolding stream_run_snoc by simp
qed

end

text \<open>The step log is such a stream, for the records whose JSON text behaves.\<close>

definition step_owed :: "json_lib \<Rightarrow> text_file \<Rightarrow> nat \<Rightarrow> step_record list \<Rightarrow> bool" where
  "step_owed J f n rs \<longleftrightarrow> (\<forall>r \<in> set rs. line_ok J (step_value r)) \<and>
    (case f of None \<Rightarrow> n = 0 \<and> rs = []
     | Some text \<Rightarrow> n \<le> length text \<and> drop n text = concat (map (jsonl_line J) (map step_value rs)))"

lemma steps_of_values: "exc_map step_of (map step_value rs) = Inr rs"
  by (induction rs) (simp_all add: parse_line_inv)

interpretation step_log: record_stream
  "step_write J" "tail_new J" None "\<lambda>r. line_ok J (step_value r)" "step_owed J" for J
proof
  show "step_owed J None 0 []" by (simp add: step_owed_def)
next
  fix f n rs r
  assume "step_owed J f n rs" "line_ok J (step_value r)"
  then show "step_owed J (step_write J r f) n (rs @ [r])"
    by (cases f) (auto simp: step_owed_def step_write_def append_text_def)
next
  fix f n rs
  assume owed: "step_owed J f n rs"
  show "\<exists>n'. tail_new J f n = Inr (rs, n') \<and> step_owed J f n' []"
  proof (cases f)
    case None
    with owed show ?thesis by (simp add: step_owed_def tail_new_def)
  next
    case (Some s)
    have "\<forall>v \<in> set (map step_value rs). line_ok J v" using owed by (simp add: step_owed_def)
    from parse_lines_jsonl [OF this] owed Some have "parse_lines J (drop n s) = Inr (map step_value rs)"
      by (simp add: step_owed_def)
    then show ?thesis using owed by (simp add: Some tail_new_def steps_of_values step_owed_def)
  qed
qed

text \<open>
  C30. Tailing the step log loses nothing and repeats nothing: however the trainer's writes and
  the reader's calls of \<open>tail_new\<close> interleave, as long as the written records are printed
  and parsed back by \<open>json\<close>, no call raises, and after one more call the records it has
  returned are exactly the records written, in order; reading the whole file afterwards
  gives the same.
\<close>

theorem tail_sees_every_step_once:
  assumes "\<forall>r \<in> set (added ops). line_ok J (step_value r)"
  shows "\<exists>f n. stream_run (step_write J) (tail_new J) (ops @ [Tail]) None 0 = Inr (added ops, f, n) \<and>
    (\<exists>k. read_all J f = Inr (added ops, k))"
proof -
  from step_log.stream_from_start [OF assms] obtain f n where
    run: "stream_run (step_write J) (tail_new J) (ops @ [Tail]) None 0 = Inr (added ops, f, n)" by blast
  have written: "stream_run (step_write J) (tail_new J) os g m = Inr (out, g', m') \<Longrightarrow> step_owed J g 0 rs \<Longrightarrow>
      (\<forall>r \<in> set (added os). line_ok J (step_value r)) \<Longrightarrow> step_owed J g' 0 (rs @ added os)" for os g m out g' m' rs
  proof (induction os arbitrary: g m out rs)
    case (Cons op os)
    show ?case
    proof (cases op)
      case (Add r)
      with Cons.prems have "step_owed J (step_write J r g) 0 (rs @ [r])" by (simp add: step_log.add_owes)
      from Cons.IH [OF _ this] Cons.prems Add show ?thesis by simp
    next
      case Tail
      with Cons.prems obtain k o2 where "stream_run (step_write J) (tail_new J) os g k = Inr (o2, g', m')" by auto
      from Cons.IH [OF this Cons.prems(2)] Cons.prems(3) Tail show ?thesis by simp
    qed
  qed simp
  have same: "added (ops @ [Tail]) = added ops" by (induction ops rule: added.induct) simp_all
  from written [OF run step_log.start_owes] assms have "step_owed J f 0 (added ops)" by (simp add: same)
  from step_log.tail_pays [OF this] run show ?thesis by (auto simp: read_all_def)
qed

definition first_step :: step_record where
  "first_step = \<lparr>sr_wall_clock = 1, sr_global_step = 0, sr_loss = 2\<rparr>"

definition one_record_json :: json_lib where
  "one_record_json = \<lparr>js_dumps = (\<lambda>v. ''{}''),
     js_loads = (\<lambda>s. if s = ''{}'' then Inr (step_value first_step) else Inl JSONDecodeErr)\<rparr>"

theorem tail_sees_every_step_once_witness:
  "\<exists>f n. stream_run (step_write one_record_json) (tail_new one_record_json)
     [Tail, Add first_step, Tail, Add first_step, Tail] None 0 = Inr ([first_step, first_step], f, n)"
proof -
  have "line_ok one_record_json (step_value first_step)"
    by (simp add: line_ok_def Let_def one_record_json_def newline_def is_space_def)
  with tail_sees_every_step_once [of "[Tail, Add first_step, Tail, Add first_step]" one_record_json]
  show ?thesis by auto
qed

end
