(* ===== verification/Injector.thy ===== *)
theory Injector
  imports Step_Log
begin

text \<open>
  The real fault injector (\<open>chaos_inject/real_injector.py\<close>): it tails the step log of a
  training job and kills the traced ranks. What one pass of its loop finds outside (the text
  of the log, the pid files, the outcome of a signal to a pid, the clock) is an
  \<open>injector_view\<close>; a run of the loop is a list of views, \<open>Polling\<close> when the views end while
  faults are pending. The em dash of the reason texts is written as a hyphen.
\<close>

definition poll_interval_secs :: real where
  "poll_interval_secs = 1 / 2"

definition b0_hardware_validated :: bool where
  "b0_hardware_validated = False"

subsection \<open>The trace\<close>

record kill_event =
  te_step :: int
  te_fault :: string
  te_target_rank :: "int option"
  te_rnic :: "string option"
  te_duration_secs :: "real option"

definition kill_event_of :: "pyval \<Rightarrow> pyexc + kill_event" where
  "kill_event_of e =
    exc_bind (exc_bind (field ''step'' e) as_int) (\<lambda>st.
    exc_bind (exc_bind (field ''fault'' e) as_str) (\<lambda>fl.
    exc_bind (exc_bind (get_field ''target_rank'' e) (opt_of as_int)) (\<lambda>tr.
    exc_bind (exc_bind (get_field ''rnic'' e) (opt_of as_str)) (\<lambda>rn.
    exc_bind (exc_bind (get_field ''duration_secs'' e) (opt_of as_real)) (\<lambda>du.
    Inr \<lparr>te_step = st, te_fault = fl, te_target_rank = tr, te_rnic = rn, te_duration_secs = du\<rparr>)))))"

definition load_trace :: "json_lib \<Rightarrow> text_file \<Rightarrow> pyexc + kill_event list" where
  "load_trace J f =
    (case f of None \<Rightarrow> Inl FileNotFoundErr
     | Some t \<Rightarrow> exc_bind (js_loads J t) (\<lambda>v.
         case v of PList es \<Rightarrow> exc_map kill_event_of es | PDict [] \<Rightarrow> Inr [] | PStr [] \<Rightarrow> Inr [] | _ \<Rightarrow> Inl TypeErr))"

subsection \<open>Processes\<close>

text \<open>The outcome of sending a signal to a pid.\<close>

datatype signal_outcome = Delivered | NoSuchProcess | NotPermitted

fun pid_alive :: "signal_outcome \<Rightarrow> bool" where
  "pid_alive Delivered = True"
| "pid_alive NoSuchProcess = False"
| "pid_alive NotPermitted = True"

record injector_view =
  iv_log :: text_file
  iv_pid_file :: "int \<Rightarrow> text_file"
  iv_pid_texts :: "text_file list"
  iv_signal :: "int \<Rightarrow> signal_outcome"
  iv_clock :: real

definition read_rank_pid :: "injector_view \<Rightarrow> int \<Rightarrow> pyexc + int" where
  "read_rank_pid v rank =
    (case iv_pid_file v rank of None \<Rightarrow> Inl FileNotFoundErr
     | Some t \<Rightarrow> (case parse_int (strip t) of None \<Rightarrow> Inl ValueErr | Some p \<Rightarrow> Inr p))"

text \<open>The pid files found, in the order of the directory listing; one that cannot be read is \<open>None\<close>.\<close>

fun liveness_of :: "(int \<Rightarrow> signal_outcome) \<Rightarrow> text_file list \<Rightarrow> bool option" where
  "liveness_of sig [] = Some False"
| "liveness_of sig (None # fs) = None"
| "liveness_of sig (Some t # fs) =
    (case parse_int (strip t) of None \<Rightarrow> None
     | Some pid \<Rightarrow> if pid_alive (sig pid) then Some True else liveness_of sig fs)"

definition rank_liveness :: "injector_view \<Rightarrow> bool option" where
  "rank_liveness v = (if iv_pid_texts v = [] then None else liveness_of (iv_signal v) (iv_pid_texts v))"

subsection \<open>The records of the chaos log\<close>

definition opt_int :: "int option \<Rightarrow> pyval" where
  "opt_int r = (case r of None \<Rightarrow> PNone | Some i \<Rightarrow> PInt i)"

definition chaos_row :: "real \<Rightarrow> int \<Rightarrow> bool \<Rightarrow> string \<Rightarrow> int option \<Rightarrow> string option \<Rightarrow> pyval" where
  "chaos_row clock step fired fault target reason =
    PDict ([(''wall_clock'', PFloat clock), (''step'', PInt step), (''fault_fired'', PBool fired),
      (''fault_signal'', PStr fault), (''target_rank'', opt_int target)] @
      (case reason of None \<Rightarrow> [] | Some t \<Rightarrow> [(''reason'', PStr t)]))"

definition undelivered_row :: "injector_view \<Rightarrow> int \<Rightarrow> kill_event \<Rightarrow> pyval" where
  "undelivered_row v current_step e =
    chaos_row (iv_clock v) current_step False (te_fault e) (te_target_rank e)
      (Some (''training halted before trace step '' @ int_str (te_step e) @
        '' (all rank processes exited) - fault not delivered''))"

definition record_undelivered :: "injector_view \<Rightarrow> int \<Rightarrow> kill_event list \<Rightarrow> pyval list" where
  "record_undelivered v current_step pending = map (undelivered_row v current_step) pending"

definition exited_reason :: "int \<Rightarrow> int \<Rightarrow> string" where
  "exited_reason rank pid = ''target rank '' @ int_str rank @ '' (pid '' @ int_str pid @ '') already exited''"

definition fire_b1 :: "injector_view \<Rightarrow> int \<Rightarrow> kill_event \<Rightarrow> pyexc + pyval" where
  "fire_b1 v current_step e =
    (case te_target_rank e of
       None \<Rightarrow> Inl ValueErr
     | Some rank \<Rightarrow>
         exc_bind (read_rank_pid v rank) (\<lambda>pid.
         case iv_signal v pid of
           Delivered \<Rightarrow> Inr (chaos_row (iv_clock v) current_step True ''B1'' (Some rank) None)
         | NoSuchProcess \<Rightarrow> Inr (chaos_row (iv_clock v) current_step False ''B1'' (Some rank)
             (Some (exited_reason rank pid)))
         | NotPermitted \<Rightarrow> Inl OSErr))"

definition skip_b0 :: "injector_view \<Rightarrow> int \<Rightarrow> kill_event \<Rightarrow> pyval" where
  "skip_b0 v current_step e =
    chaos_row (iv_clock v) current_step False ''B0'' (te_target_rank e)
      (Some ''sim-only - single NIC/plane topology, see test_suite.md 4.5.5'')"

text \<open>The commands of the B0 injector that no trace reaches; \<open>check=True\<close> raises on a failure.\<close>

definition b0_fire :: "(string list \<Rightarrow> bool) \<Rightarrow> string \<Rightarrow> (pyexc + unit) \<times> string list list" where
  "b0_fire run_ok rnic =
    (let down = [''ip'', ''link'', ''set'', rnic, ''down'']; up = [''ip'', ''link'', ''set'', rnic, ''up'']
     in if \<not> run_ok down then (Inl OSErr, [down])
        else ((if run_ok up then Inr () else Inl OSErr), [down, up]))"

subsection \<open>The loop\<close>

definition fire_event :: "injector_view \<Rightarrow> int \<Rightarrow> kill_event \<Rightarrow> pyexc + pyval" where
  "fire_event v current_step e =
    (if te_fault e = ''B1'' then fire_b1 v current_step e
     else if te_fault e = ''B0''
       then (if b0_hardware_validated then Inl NotImplementedErr else Inr (skip_b0 v current_step e))
     else Inl ValueErr)"

text \<open>The rows written before an exception stay in the log.\<close>

fun fire_all :: "injector_view \<Rightarrow> int \<Rightarrow> kill_event list \<Rightarrow> pyexc option \<times> pyval list" where
  "fire_all v cur [] = (None, [])"
| "fire_all v cur (e # es) =
    (case fire_event v cur e of Inl x \<Rightarrow> (Some x, [])
     | Inr row \<Rightarrow> (case fire_all v cur es of (x, rows) \<Rightarrow> (x, row # rows)))"

record injector_state =
  in_pending :: "kill_event list"
  in_current_step :: int
  in_offset :: nat
  in_rows :: "pyval list"

datatype injector_outcome = Returned | Raised pyexc | Polling

definition injector_init :: "kill_event list \<Rightarrow> injector_state" where
  "injector_init trace =
    \<lparr>in_pending = sort_key te_step trace, in_current_step = - 1, in_offset = 0, in_rows = []\<rparr>"

definition injector_pass :: "json_lib \<Rightarrow> injector_view \<Rightarrow> injector_state \<Rightarrow> injector_outcome \<times> injector_state" where
  "injector_pass J v s =
    (case tail_new J (iv_log v) (in_offset s) of
       Inl x \<Rightarrow> (Raised x, s)
     | Inr (recs, offset) \<Rightarrow>
         (let cur = fold (\<lambda>r c. max c (sr_global_step r)) recs (in_current_step s);
              fired = filter (\<lambda>e. te_step e \<le> cur) (in_pending s);
              s1 = s\<lparr>in_current_step := cur, in_offset := offset\<rparr>
          in case fire_all v cur fired of
               (Some x, rows) \<Rightarrow> (Raised x, s1\<lparr>in_rows := in_rows s @ rows\<rparr>)
             | (None, rows) \<Rightarrow>
                 (let pending = filter (\<lambda>e. e \<notin> set fired) (in_pending s);
                      s2 = s1\<lparr>in_rows := in_rows s @ rows, in_pending := pending\<rparr>
                  in if pending = [] then (Returned, s2)
                     else if rank_liveness v = Some False
                     then (Returned, s2\<lparr>in_rows := in_rows s2 @ record_undelivered v cur pending\<rparr>)
                     else (Polling, s2))))"

fun injector_loop :: "json_lib \<Rightarrow> injector_view list \<Rightarrow> injector_state \<Rightarrow> injector_outcome \<times> injector_state" where
  "injector_loop J [] s = (if in_pending s = [] then Returned else Polling, s)"
| "injector_loop J (v # views) s =
    (if in_pending s = [] then (Returned, s)
     else case injector_pass J v s of
            (Polling, s') \<Rightarrow> injector_loop J views s'
          | (outcome, s') \<Rightarrow> (outcome, s'))"

definition injector_run :: "json_lib \<Rightarrow> text_file \<Rightarrow> injector_view list \<Rightarrow> injector_outcome \<times> pyval list" where
  "injector_run J trace_file views =
    (case load_trace J trace_file of
       Inl x \<Rightarrow> (Raised x, [])
     | Inr trace \<Rightarrow> (case injector_loop J views (injector_init trace) of (outcome, s) \<Rightarrow> (outcome, in_rows s)))"

subsection \<open>One record per traced fault\<close>

definition accounts :: "kill_event \<Rightarrow> pyval \<Rightarrow> bool" where
  "accounts e row \<longleftrightarrow> (\<exists>clock step fired reason.
     row = chaos_row clock step fired (te_fault e) (te_target_rank e) reason \<and>
     (fired \<longrightarrow> te_fault e = ''B1'' \<and> te_step e \<le> step \<and> reason = None) \<and> (\<not> fired \<longrightarrow> reason \<noteq> None))"

lemma accounts_fired:
  "te_fault e = f \<Longrightarrow> te_target_rank e = r \<Longrightarrow> f = ''B1'' \<Longrightarrow> te_step e \<le> step \<Longrightarrow>
   accounts e (chaos_row clock step True f r None)"
  unfolding accounts_def by blast

lemma accounts_missed:
  "te_fault e = f \<Longrightarrow> te_target_rank e = r \<Longrightarrow> accounts e (chaos_row clock step False f r (Some t))"
  unfolding accounts_def by blast

lemma fire_event_accounts:
  assumes "fire_event v cur e = Inr row" "te_step e \<le> cur"
  shows "accounts e row"
proof (cases "te_fault e = ''B1''")
  case True
  with assms(1) obtain rank pid where rank: "te_target_rank e = Some rank"
    and sig: "(case iv_signal v pid of
           Delivered \<Rightarrow> Inr (chaos_row (iv_clock v) cur True ''B1'' (Some rank) None)
         | NoSuchProcess \<Rightarrow> Inr (chaos_row (iv_clock v) cur False ''B1'' (Some rank) (Some (exited_reason rank pid)))
         | NotPermitted \<Rightarrow> Inl OSErr) = Inr row"
    by (auto simp: fire_event_def fire_b1_def split: option.splits)
  show ?thesis
  proof (cases "iv_signal v pid")
    case Delivered
    with sig have "row = chaos_row (iv_clock v) cur True ''B1'' (Some rank) None" by simp
    then show ?thesis using accounts_fired [OF True rank refl assms(2)] by simp
  next
    case NoSuchProcess
    with sig have "row = chaos_row (iv_clock v) cur False ''B1'' (Some rank) (Some (exited_reason rank pid))" by simp
    then show ?thesis using accounts_missed [OF True rank] by simp
  qed (use sig in \<open>simp\<close>)
next
  case False
  with assms(1) have "te_fault e = ''B0''" "row = skip_b0 v cur e"
    by (auto simp: fire_event_def b0_hardware_validated_def split: if_splits)
  then show ?thesis unfolding skip_b0_def by (simp only: accounts_missed)
qed

lemma fire_all_accounts:
  "fire_all v cur es = (None, rows) \<Longrightarrow> \<forall>e \<in> set es. te_step e \<le> cur \<Longrightarrow> list_all2 accounts es rows"
  by (induction es arbitrary: rows)
     (auto split: sum.splits prod.splits intro: fire_event_accounts)

lemma sorted_split:
  assumes "sorted (map te_step es)"
  shows "filter (\<lambda>e. te_step e \<le> c) es @ filter (\<lambda>e. e \<notin> set (filter (\<lambda>e. te_step e \<le> c) es)) es = es"
proof -
  have "filter (\<lambda>e. e \<notin> set (filter (\<lambda>e. te_step e \<le> c) es)) es = filter (\<lambda>e. \<not> te_step e \<le> c) es"
    by (rule filter_cong) auto
  moreover have "filter (\<lambda>e. te_step e \<le> c) es @ filter (\<lambda>e. \<not> te_step e \<le> c) es = es"
    using assms
  proof (induction es)
    case (Cons e es)
    show ?case
    proof (cases "te_step e \<le> c")
      case False
      with Cons.prems have "\<forall>x \<in> set es. \<not> te_step x \<le> c" by auto
      with False show ?thesis by (simp add: filter_empty_conv)
    qed (use Cons in \<open>auto\<close>)
  qed simp
  ultimately show ?thesis by simp
qed

lemma undelivered_accounts: "list_all2 accounts es (record_undelivered v cur es)"
proof (induction es)
  case (Cons e es)
  have "accounts e (undelivered_row v cur e)" unfolding undelivered_row_def by (rule accounts_missed) (rule refl)+
  with Cons.IH show ?case by (simp add: record_undelivered_def)
qed (simp add: record_undelivered_def)

text \<open>What holds of a run: the rows account for the faults before the pending ones.\<close>

definition injector_inv :: "kill_event list \<Rightarrow> injector_state \<Rightarrow> bool" where
  "injector_inv trace s \<longleftrightarrow> sorted (map te_step (in_pending s)) \<and>
    (\<exists>done. sort_key te_step trace = done @ in_pending s \<and> list_all2 accounts done (in_rows s))"

lemma injector_inv_init: "injector_inv trace (injector_init trace)"
  by (simp add: injector_inv_def injector_init_def)

lemma injector_pass_inv:
  assumes inv: "injector_inv trace s" and pass: "injector_pass J v s = (outcome, s')"
  shows "(outcome = Polling \<longrightarrow> injector_inv trace s') \<and>
    (outcome = Returned \<longrightarrow> list_all2 accounts (sort_key te_step trace) (in_rows s'))"
proof (cases "tail_new J (iv_log v) (in_offset s)")
  case (Inl x)
  with pass show ?thesis by (auto simp: injector_pass_def)
next
  case (Inr p)
  obtain recs off where p: "p = (recs, off)" by (cases p)
  define cur where "cur = fold (\<lambda>r c. max c (sr_global_step r)) recs (in_current_step s)"
  define fired where "fired = filter (\<lambda>e. te_step e \<le> cur) (in_pending s)"
  define rest where "rest = filter (\<lambda>e. e \<notin> set fired) (in_pending s)"
  from inv obtain pre where pre: "sort_key te_step trace = pre @ in_pending s" "list_all2 accounts pre (in_rows s)"
    and srt: "sorted (map te_step (in_pending s))" by (auto simp: injector_inv_def)
  have split: "fired @ rest = in_pending s" unfolding fired_def rest_def by (rule sorted_split [OF srt])
  obtain x rows where fire: "fire_all v cur fired = (x, rows)" by (cases "fire_all v cur fired")
  note run = pass [unfolded injector_pass_def Inr p sum.case prod.case Let_def, folded cur_def, folded fired_def,
      folded rest_def, unfolded fire prod.case]
  show ?thesis
  proof (cases x)
    case (Some y)
    with run show ?thesis by auto
  next
    case None
    have "\<forall>e \<in> set fired. te_step e \<le> cur" by (simp add: fired_def)
    with fire None have "list_all2 accounts fired rows" by (simp add: fire_all_accounts)
    with pre(2) have rows: "list_all2 accounts (pre @ fired) (in_rows s @ rows)" by (rule list_all2_appendI)
    have all: "sort_key te_step trace = (pre @ fired) @ rest" using pre(1) split by simp
    have srt': "sorted (map te_step rest)" using srt unfolding rest_def by (rule sorted_filter)
    consider "rest = []" | "rest \<noteq> []" "rank_liveness v = Some False" | "rest \<noteq> []" "rank_liveness v \<noteq> Some False" by blast
    then show ?thesis
    proof cases
      case 1
      with run None rows all show ?thesis by auto
    next
      case 2
      then have "outcome = Returned" "in_rows s' = (in_rows s @ rows) @ record_undelivered v cur rest"
        using run None by auto
      moreover have "list_all2 accounts ((pre @ fired) @ rest) ((in_rows s @ rows) @ record_undelivered v cur rest)"
        by (rule list_all2_appendI [OF rows undelivered_accounts])
      ultimately show ?thesis using all by simp
    next
      case 3
      then have "outcome = Polling" "in_rows s' = in_rows s @ rows" "in_pending s' = rest" using run None by auto
      with rows all srt' show ?thesis by (auto simp: injector_inv_def)
    qed
  qed
qed

lemma injector_loop_returned:
  "injector_inv trace s \<Longrightarrow> injector_loop J views s = (Returned, s') \<Longrightarrow>
   list_all2 accounts (sort_key te_step trace) (in_rows s')"
proof (induction views arbitrary: s)
  case Nil
  then show ?case by (auto simp: injector_inv_def split: if_splits)
next
  case (Cons v views)
  show ?case
  proof (cases "in_pending s = []")
    case True
    with Cons.prems show ?thesis by (auto simp: injector_inv_def)
  next
    case False
    obtain outcome s1 where pass: "injector_pass J v s = (outcome, s1)" by (cases "injector_pass J v s")
    from injector_pass_inv [OF Cons.prems(1) pass] Cons.IH [of s1] Cons.prems(2) False pass
    show ?thesis by (cases outcome) auto
  qed
qed

subsection \<open>The injector stops\<close>

text \<open>Every read of the step log parses, and a fault of the trace can be fired or skipped.\<close>

fun log_readable :: "json_lib \<Rightarrow> injector_view list \<Rightarrow> nat \<Rightarrow> bool" where
  "log_readable J [] n = True"
| "log_readable J (v # views) n =
    (case tail_new J (iv_log v) n of Inl x \<Rightarrow> False | Inr (recs, n') \<Rightarrow> log_readable J views n')"

definition deliverable :: "injector_view \<Rightarrow> kill_event \<Rightarrow> bool" where
  "deliverable v e \<longleftrightarrow> te_fault e = ''B0'' \<or>
    te_fault e = ''B1'' \<and>
      (case te_target_rank e of None \<Rightarrow> False
       | Some rank \<Rightarrow> (case read_rank_pid v rank of Inl x \<Rightarrow> False | Inr pid \<Rightarrow> iv_signal v pid \<noteq> NotPermitted))"

lemma deliverable_fires: "deliverable v e \<Longrightarrow> \<exists>row. fire_event v cur e = Inr row"
  by (auto simp: deliverable_def fire_event_def fire_b1_def b0_hardware_validated_def
      split: option.splits sum.splits signal_outcome.splits)

lemma fire_all_deliverable: "\<forall>e \<in> set es. deliverable v e \<Longrightarrow> \<exists>rows. fire_all v cur es = (None, rows)"
proof (induction es)
  case (Cons e es)
  from Cons.prems deliverable_fires [of v e cur] obtain row where "fire_event v cur e = Inr row" by auto
  with Cons show ?case by auto
qed simp

lemma injector_pass_deliverable:
  assumes "tail_new J (iv_log v) (in_offset s) = Inr (recs, n')" "\<forall>e \<in> set (in_pending s). deliverable v e"
  shows "\<exists>outcome s'. injector_pass J v s = (outcome, s') \<and>
    (outcome = Returned \<or> outcome = Polling \<and> rank_liveness v \<noteq> Some False \<and> in_offset s' = n' \<and>
       set (in_pending s') \<subseteq> set (in_pending s))"
proof -
  define cur where "cur = fold (\<lambda>r c. max c (sr_global_step r)) recs (in_current_step s)"
  define fired where "fired = filter (\<lambda>e. te_step e \<le> cur) (in_pending s)"
  have "\<forall>e \<in> set fired. deliverable v e" using assms(2) by (simp add: fired_def)
  from fire_all_deliverable [OF this] obtain rows where "fire_all v cur fired = (None, rows)" by blast
  then show ?thesis using assms(1)
    by (auto simp: injector_pass_def Let_def fired_def cur_def)
qed

lemma injector_loop_returns:
  "log_readable J views (in_offset s) \<Longrightarrow> \<forall>v \<in> set views. \<forall>e \<in> set (in_pending s). deliverable v e \<Longrightarrow>
   \<exists>v \<in> set views. rank_liveness v = Some False \<Longrightarrow> \<exists>s'. injector_loop J views s = (Returned, s')"
proof (induction views arbitrary: s)
  case (Cons v views)
  show ?case
  proof (cases "in_pending s = []")
    case False
    from Cons.prems(1) obtain recs n' where new: "tail_new J (iv_log v) (in_offset s) = Inr (recs, n')"
      and rest: "log_readable J views n'" by (auto split: sum.splits)
    from injector_pass_deliverable [OF new] Cons.prems(2) obtain outcome s' where
      pass: "injector_pass J v s = (outcome, s')" and
      out: "outcome = Returned \<or> outcome = Polling \<and> rank_liveness v \<noteq> Some False \<and> in_offset s' = n' \<and>
        set (in_pending s') \<subseteq> set (in_pending s)" by auto
    from out show ?thesis
    proof
      assume "outcome = Returned"
      with pass False show ?thesis by simp
    next
      assume polling: "outcome = Polling \<and> rank_liveness v \<noteq> Some False \<and> in_offset s' = n' \<and>
        set (in_pending s') \<subseteq> set (in_pending s)"
      then have "\<exists>s''. injector_loop J views s' = (Returned, s'')"
        by (intro Cons.IH) (use Cons.prems(2,3) rest in \<open>auto\<close>)
      with polling pass False show ?thesis by simp
    qed
  qed simp
qed simp

text \<open>
  C32. The injector neither hangs nor loses a fault: when its trace loads, every read of the step
  log parses, each B1 target has a readable pid that may be signalled (faults of class B0 are
  always skippable), and at some poll all ranks have exited, then the run returns, and the
  chaos log holds exactly one record per fault of the trace, in the order of the trace's
  steps: a record with \<open>fault_fired\<close> is a B1 kill at or after the fault's step and carries no
  reason, every other record says why the fault was not delivered.
\<close>

theorem injector_accounts_for_every_fault:
  assumes "load_trace J file = Inr trace" "log_readable J views 0"
    and "\<forall>v \<in> set views. \<forall>e \<in> set trace. deliverable v e"
    and "\<exists>v \<in> set views. rank_liveness v = Some False"
  shows "\<exists>rows. injector_run J file views = (Returned, rows) \<and> list_all2 accounts (sort_key te_step trace) rows"
proof -
  from injector_loop_returns [of J views "injector_init trace"] assms(2-4) obtain s where
    "injector_loop J views (injector_init trace) = (Returned, s)" by (auto simp: injector_init_def)
  with injector_loop_returned [OF injector_inv_init this] assms(1) show ?thesis by (simp add: injector_run_def)
qed

definition demo_trace :: "kill_event list" where
  "demo_trace = [\<lparr>te_step = 5, te_fault = ''B1'', te_target_rank = Some 1, te_rnic = None, te_duration_secs = None\<rparr>,
     \<lparr>te_step = 2, te_fault = ''B0'', te_target_rank = None, te_rnic = None, te_duration_secs = None\<rparr>]"

definition demo_trace_json :: json_lib where
  "demo_trace_json = \<lparr>js_dumps = (\<lambda>v. []), js_loads = (\<lambda>s. Inr (PList
     [PDict [(''step'', PInt 5), (''fault'', PStr ''B1''), (''target_rank'', PInt 1)],
      PDict [(''step'', PInt 2), (''fault'', PStr ''B0'')]]))\<rparr>"

text \<open>The step log never appears, and the one rank has exited by the second poll.\<close>

definition demo_view :: "signal_outcome \<Rightarrow> injector_view" where
  "demo_view sig = \<lparr>iv_log = None, iv_pid_file = (\<lambda>r. Some ''7''), iv_pid_texts = [Some ''7''],
     iv_signal = (\<lambda>pid. sig), iv_clock = 0\<rparr>"

lemma demo_trace_loads: "load_trace demo_trace_json (Some []) = Inr demo_trace"
  by (simp add: load_trace_def demo_trace_json_def demo_trace_def kill_event_of_def field_def get_field_def
      dget_or_def opt_of_def)

lemma demo_pid: "parse_int (strip ''7'') = Some 7"
  by code_simp

theorem injector_accounts_for_every_fault_witness:
  "\<exists>rows. injector_run demo_trace_json (Some []) [demo_view Delivered, demo_view NoSuchProcess] = (Returned, rows) \<and>
     list_all2 accounts (sort_key te_step demo_trace) rows"
proof (rule injector_accounts_for_every_fault [OF demo_trace_loads])
  show "log_readable demo_trace_json [demo_view Delivered, demo_view NoSuchProcess] 0"
    by (simp add: demo_view_def tail_new_def)
  show "\<forall>v \<in> set [demo_view Delivered, demo_view NoSuchProcess]. \<forall>e \<in> set demo_trace. deliverable v e"
    by (simp add: demo_view_def demo_trace_def deliverable_def read_rank_pid_def demo_pid)
  show "\<exists>v \<in> set [demo_view Delivered, demo_view NoSuchProcess]. rank_liveness v = Some False"
    by (simp add: demo_view_def rank_liveness_def demo_pid)
qed

end
