(* ===== verification/Align.thy ===== *)
theory Align
  imports Injector "HOL-Library.Sublist"
begin

text \<open>
  The alignment of the logs of a real run (\<open>realbench/collector/align.py\<close>): loading the step,
  GPU, chaos and halt logs, and from them the recovery gap, the idle GPUs and the wasted GPU
  hours of every injected fault. The long caveat sentences are the constructors of \<open>caveat\<close>.
\<close>

subsection \<open>Records\<close>

datatype caveat = NvidiaSmiFallback | NoResume | NotFired | Reason string

record gpu_sample =
  gs_wall_clock :: real
  gs_gpu_index :: int
  gs_gpu_util_pct :: real
  gs_mem_used_mib :: real
  gs_power_draw_w :: "real option"

record chaos_fire =
  cf_wall_clock :: real
  cf_step :: int
  cf_fault_fired :: bool
  cf_fault_signal :: string
  cf_target_rank :: "int option"
  cf_reason :: "string option"

record halt_record =
  hr_wall_clock :: real
  hr_rank :: int
  hr_last_completed_step :: int
  hr_reason :: string
  hr_detail :: string

record alignment =
  al_fault_signal :: string
  al_target_rank :: "int option"
  al_t_fault :: real
  al_fault_fired :: bool
  al_t_resume :: "real option"
  al_recovery_gap :: "real option"
  al_idle_gpus :: "nat option"
  al_wasted_gpu_hours :: "real option"
  al_job_halted :: bool
  al_halt_reason :: "string option"
  al_caveats :: "caveat list"

subsection \<open>Loading the logs\<close>

fun as_bool :: "pyval \<Rightarrow> pyexc + bool" where
  "as_bool (PBool b) = Inr b"
| "as_bool _ = Inl TypeErr"

text \<open>\<open>k in r\<close> on a parsed value.\<close>

fun py_contains :: "string \<Rightarrow> pyval \<Rightarrow> pyexc + bool" where
  "py_contains k (PDict d) = Inr (k \<in> set (dkeys d))"
| "py_contains k (PList vs) = Inr (PStr k \<in> set vs)"
| "py_contains k (PStr s) = Inr (sublist k s)"
| "py_contains k _ = Inl TypeErr"

definition gpu_sample_of :: "pyval \<Rightarrow> pyexc + gpu_sample" where
  "gpu_sample_of r =
    exc_bind (exc_bind (field ''wall_clock'' r) as_real) (\<lambda>wc.
    exc_bind (exc_bind (field ''gpu_index'' r) as_int) (\<lambda>ix.
    exc_bind (exc_bind (field ''gpu_util_pct'' r) as_real) (\<lambda>ut.
    exc_bind (exc_bind (field ''mem_used_mib'' r) as_real) (\<lambda>mm.
    exc_bind (exc_bind (get_field ''power_draw_w'' r) (opt_of as_real)) (\<lambda>pw.
    Inr \<lparr>gs_wall_clock = wc, gs_gpu_index = ix, gs_gpu_util_pct = ut, gs_mem_used_mib = mm,
      gs_power_draw_w = pw\<rparr>)))))"

definition gpu_samples_of :: "pyval \<Rightarrow> pyexc + gpu_sample list" where
  "gpu_samples_of r = exc_bind (py_contains ''gpu_index'' r) (\<lambda>b.
     if b then exc_bind (gpu_sample_of r) (\<lambda>s. Inr [s]) else Inr [])"

definition chaos_fire_of :: "pyval \<Rightarrow> pyexc + chaos_fire" where
  "chaos_fire_of r =
    exc_bind (exc_bind (field ''wall_clock'' r) as_real) (\<lambda>wc.
    exc_bind (exc_bind (field ''step'' r) as_int) (\<lambda>st.
    exc_bind (exc_bind (field ''fault_fired'' r) as_bool) (\<lambda>ff.
    exc_bind (exc_bind (field ''fault_signal'' r) as_str) (\<lambda>fs.
    exc_bind (exc_bind (get_field ''target_rank'' r) (opt_of as_int)) (\<lambda>tr.
    exc_bind (exc_bind (get_field ''reason'' r) (opt_of as_str)) (\<lambda>re.
    Inr \<lparr>cf_wall_clock = wc, cf_step = st, cf_fault_fired = ff, cf_fault_signal = fs,
      cf_target_rank = tr, cf_reason = re\<rparr>))))))"

definition halt_record_of :: "pyval \<Rightarrow> pyexc + halt_record" where
  "halt_record_of r =
    exc_bind (exc_bind (field ''wall_clock'' r) as_real) (\<lambda>wc.
    exc_bind (exc_bind (field ''rank'' r) as_int) (\<lambda>rk.
    exc_bind (exc_bind (field ''last_completed_step'' r) as_int) (\<lambda>ls.
    exc_bind (exc_bind (field ''reason'' r) as_str) (\<lambda>re.
    exc_bind (exc_bind (field ''detail'' r) as_str) (\<lambda>de.
    Inr \<lparr>hr_wall_clock = wc, hr_rank = rk, hr_last_completed_step = ls, hr_reason = re,
      hr_detail = de\<rparr>)))))"

definition load_step_log :: "json_lib \<Rightarrow> text_file \<Rightarrow> pyexc + step_record list" where
  "load_step_log J f = exc_bind (read_all J f) (\<lambda>(recs, n). Inr recs)"

definition load_gpu_log :: "json_lib \<Rightarrow> text_file \<Rightarrow> pyexc + gpu_sample list" where
  "load_gpu_log J f =
    exc_bind (read_jsonl J f) (\<lambda>rows. exc_bind (exc_map gpu_samples_of rows) (\<lambda>sss. Inr (concat sss)))"

definition load_chaos_log :: "json_lib \<Rightarrow> text_file \<Rightarrow> pyexc + chaos_fire list" where
  "load_chaos_log J f = exc_bind (read_jsonl J f) (exc_map chaos_fire_of)"

definition load_halt_log :: "json_lib \<Rightarrow> text_file \<Rightarrow> pyexc + halt_record list" where
  "load_halt_log J f = exc_bind (read_jsonl J f) (exc_map halt_record_of)"

subsection \<open>Measures\<close>

fun compute_recovery_gap :: "step_record list \<Rightarrow> real \<Rightarrow> real option \<times> real option" where
  "compute_recovery_gap [] t_fault = (None, None)"
| "compute_recovery_gap (r # rs) t_fault =
    (if sr_wall_clock r > t_fault then (Some (sr_wall_clock r - t_fault), Some (sr_wall_clock r))
     else compute_recovery_gap rs t_fault)"

fun utils_by_gpu :: "gpu_sample list \<Rightarrow> real \<Rightarrow> real \<Rightarrow> (int, real list) dict \<Rightarrow> (int, real list) dict" where
  "utils_by_gpu [] t_fault t_resume by_gpu = by_gpu"
| "utils_by_gpu (s # ss) t_fault t_resume by_gpu =
    utils_by_gpu ss t_fault t_resume
      (if t_fault \<le> gs_wall_clock s \<and> gs_wall_clock s \<le> t_resume
       then dset (gs_gpu_index s) (dget_or by_gpu (gs_gpu_index s) [] @ [gs_gpu_util_pct s]) by_gpu
       else by_gpu)"

definition compute_idle_gpus :: "gpu_sample list \<Rightarrow> real \<Rightarrow> real \<Rightarrow> real \<Rightarrow> nat" where
  "compute_idle_gpus gpu_log t_fault t_resume util_threshold =
    length (filter (\<lambda>utils. utils \<noteq> [] \<and> Max (set utils) < util_threshold)
      (dvals (utils_by_gpu gpu_log t_fault t_resume [])))"

definition compute_wasted_gpu_hours :: "real \<Rightarrow> nat \<Rightarrow> real" where
  "compute_wasted_gpu_hours recovery_gap idle_gpus = recovery_gap * real idle_gpus / 3600"

definition align_unfired :: "chaos_fire \<Rightarrow> alignment" where
  "align_unfired fire =
    \<lparr>al_fault_signal = cf_fault_signal fire, al_target_rank = cf_target_rank fire,
     al_t_fault = cf_wall_clock fire, al_fault_fired = False, al_t_resume = None,
     al_recovery_gap = None, al_idle_gpus = None, al_wasted_gpu_hours = None, al_job_halted = False,
     al_halt_reason = None,
     al_caveats = [case cf_reason fire of None \<Rightarrow> NotFired | Some t \<Rightarrow> if t = [] then NotFired else Reason t]\<rparr>"

definition align_fault ::
  "step_record list \<Rightarrow> gpu_sample list \<Rightarrow> halt_record list \<Rightarrow> real \<Rightarrow> chaos_fire \<Rightarrow> alignment" where
  "align_fault step_log gpu_log halt_log util_threshold fire =
    (if \<not> cf_fault_fired fire then align_unfired fire
     else case compute_recovery_gap step_log (cf_wall_clock fire) of (recovery_gap, t_resume) \<Rightarrow>
       (let halted_after_fault = filter (\<lambda>h. hr_wall_clock h \<ge> cf_wall_clock fire) halt_log;
            (idle, wasted, caveats) =
              (case (recovery_gap, t_resume) of
                 (Some gap, Some resume) \<Rightarrow>
                   (let idle = compute_idle_gpus gpu_log (cf_wall_clock fire) resume util_threshold
                    in (Some idle, Some (compute_wasted_gpu_hours gap idle), [NvidiaSmiFallback]))
               | _ \<Rightarrow> (None, None, [NoResume]))
        in \<lparr>al_fault_signal = cf_fault_signal fire, al_target_rank = cf_target_rank fire,
            al_t_fault = cf_wall_clock fire, al_fault_fired = True, al_t_resume = t_resume,
            al_recovery_gap = recovery_gap, al_idle_gpus = idle, al_wasted_gpu_hours = wasted,
            al_job_halted = (halted_after_fault \<noteq> []),
            al_halt_reason = (case halted_after_fault of [] \<Rightarrow> None | h # hs \<Rightarrow> Some (hr_detail h)),
            al_caveats = caveats\<rparr>))"

definition align_fault_events ::
  "step_record list \<Rightarrow> gpu_sample list \<Rightarrow> chaos_fire list \<Rightarrow> halt_record list \<Rightarrow> real \<Rightarrow> alignment list" where
  "align_fault_events step_log gpu_log chaos_log halt_log util_threshold =
    map (align_fault step_log gpu_log halt_log util_threshold) chaos_log"

subsection \<open>The recovery gap\<close>

text \<open>The first record of the step log after the fault.\<close>

definition resumes :: "step_record list \<Rightarrow> real \<Rightarrow> step_record \<Rightarrow> bool" where
  "resumes step_log t r \<longleftrightarrow> (\<exists>before rest. step_log = before @ r # rest \<and>
     (\<forall>b \<in> set before. sr_wall_clock b \<le> t) \<and> t < sr_wall_clock r)"

lemma recovery_gap_cases:
  "(\<exists>r. resumes steps t r \<and> compute_recovery_gap steps t = (Some (sr_wall_clock r - t), Some (sr_wall_clock r))) \<or>
   (\<forall>r \<in> set steps. sr_wall_clock r \<le> t) \<and> compute_recovery_gap steps t = (None, None)"
proof (induction steps)
  case (Cons r rs)
  show ?case
  proof (cases "sr_wall_clock r > t")
    case True
    then have "resumes (r # rs) t r" unfolding resumes_def by (intro exI [of _ "[]"] exI [of _ rs]) simp
    with True show ?thesis by auto
  next
    case False
    have "resumes rs t q \<Longrightarrow> resumes (r # rs) t q" for q
    proof -
      assume "resumes rs t q"
      then obtain before rest where "rs = before @ q # rest" "\<forall>b \<in> set before. sr_wall_clock b \<le> t" "t < sr_wall_clock q"
        by (auto simp: resumes_def)
      with False show ?thesis unfolding resumes_def by (intro exI [of _ "r # before"] exI [of _ rest]) auto
    qed
    with False Cons.IH show ?thesis by auto
  qed
qed simp

subsection \<open>Idle GPUs\<close>

abbreviation in_window :: "real \<Rightarrow> real \<Rightarrow> gpu_sample \<Rightarrow> bool" where
  "in_window t u s \<equiv> t \<le> gs_wall_clock s \<and> gs_wall_clock s \<le> u"

text \<open>The GPUs with a sample in the window and no sample of the window at or above the threshold.\<close>

definition idle_gpus :: "gpu_sample list \<Rightarrow> real \<Rightarrow> real \<Rightarrow> real \<Rightarrow> int set" where
  "idle_gpus gpu_log t u threshold =
    {g. (\<exists>s \<in> set gpu_log. in_window t u s \<and> gs_gpu_index s = g) \<and>
        (\<forall>s \<in> set gpu_log. in_window t u s \<and> gs_gpu_index s = g \<longrightarrow> gs_gpu_util_pct s < threshold)}"

lemma utils_by_gpu_get:
  "dget_or (utils_by_gpu ss t u d) g [] =
     dget_or d g [] @ map gs_gpu_util_pct (filter (\<lambda>s. in_window t u s \<and> gs_gpu_index s = g) ss)"
  by (induction ss arbitrary: d) auto

lemma utils_by_gpu_keys:
  "fst ` set (utils_by_gpu ss t u d) = fst ` set d \<union> gs_gpu_index ` set (filter (in_window t u) ss)"
  by (induction ss arbitrary: d) auto

lemma utils_by_gpu_distinct: "distinct (dkeys d) \<Longrightarrow> distinct (dkeys (utils_by_gpu ss t u d))"
  by (induction ss arbitrary: d) (auto intro: distinct_dkeys_dset)

lemma count_dvals:
  assumes "distinct (dkeys d)"
  shows "length (filter P (dvals d)) = card {k \<in> set (dkeys d). P (dget_or d k dflt)}"
proof -
  have vals: "dvals d = map (\<lambda>k. dget_or d k dflt) (dkeys d)"
    using dget_distinct [OF assms] by (auto simp: dget_or_def)
  have "length (filter P (dvals d)) = length (filter (\<lambda>k. P (dget_or d k dflt)) (dkeys d))"
    unfolding vals by (simp add: filter_map comp_def)
  also have "\<dots> = card (set (filter (\<lambda>k. P (dget_or d k dflt)) (dkeys d)))"
    by (rule distinct_card [symmetric]) (use assms in simp)
  finally show ?thesis by (simp only: set_filter)
qed

lemma compute_idle_gpus_card: "compute_idle_gpus ss t u threshold = card (idle_gpus ss t u threshold)"
proof -
  let ?d = "utils_by_gpu ss t u []"
  define us where "us g = map gs_gpu_util_pct (filter (\<lambda>s. in_window t u s \<and> gs_gpu_index s = g) ss)" for g
  have get: "dget_or ?d g [] = us g" for g by (simp add: utils_by_gpu_get us_def)
  have keys: "set (dkeys ?d) = gs_gpu_index ` set (filter (in_window t u) ss)" by (simp add: utils_by_gpu_keys)
  have idle: "us g \<noteq> [] \<and> Max (set (us g)) < threshold \<longleftrightarrow> us g \<noteq> [] \<and> (\<forall>x \<in> set (us g). x < threshold)" for g
    by auto
  have "compute_idle_gpus ss t u threshold =
      card {g \<in> set (dkeys ?d). us g \<noteq> [] \<and> Max (set (us g)) < threshold}"
    unfolding compute_idle_gpus_def
    by (subst count_dvals [where dflt = "[]", OF utils_by_gpu_distinct]) (simp_all only: get list.map distinct.simps)
  also have "{g \<in> set (dkeys ?d). us g \<noteq> [] \<and> Max (set (us g)) < threshold} = idle_gpus ss t u threshold"
    unfolding idle keys by (auto simp: idle_gpus_def us_def filter_empty_conv image_iff)
  finally show ?thesis .
qed

subsection \<open>Alignment\<close>

text \<open>What a result says of the fault it aligns.\<close>

definition aligned ::
  "step_record list \<Rightarrow> gpu_sample list \<Rightarrow> halt_record list \<Rightarrow> real \<Rightarrow> chaos_fire \<Rightarrow> alignment \<Rightarrow> bool" where
  "aligned step_log gpu_log halt_log threshold fire res \<longleftrightarrow>
    al_fault_signal res = cf_fault_signal fire \<and> al_target_rank res = cf_target_rank fire \<and>
    al_t_fault res = cf_wall_clock fire \<and> al_fault_fired res = cf_fault_fired fire \<and>
    (al_job_halted res \<longleftrightarrow> cf_fault_fired fire \<and> (\<exists>h \<in> set halt_log. cf_wall_clock fire \<le> hr_wall_clock h)) \<and>
    (al_halt_reason res \<noteq> None \<longleftrightarrow> al_job_halted res) \<and>
    (al_recovery_gap res \<noteq> None \<longleftrightarrow>
       cf_fault_fired fire \<and> (\<exists>r \<in> set step_log. cf_wall_clock fire < sr_wall_clock r)) \<and>
    (case al_recovery_gap res of
       None \<Rightarrow> al_t_resume res = None \<and> al_idle_gpus res = None \<and> al_wasted_gpu_hours res = None \<and>
         al_caveats res = [if cf_fault_fired fire then NoResume
           else case cf_reason fire of None \<Rightarrow> NotFired | Some t \<Rightarrow> if t = [] then NotFired else Reason t]
     | Some gap \<Rightarrow> 0 < gap \<and>
         (\<exists>r. resumes step_log (cf_wall_clock fire) r \<and> al_t_resume res = Some (sr_wall_clock r) \<and>
           gap = sr_wall_clock r - cf_wall_clock fire \<and>
           al_idle_gpus res = Some (card (idle_gpus gpu_log (cf_wall_clock fire) (sr_wall_clock r) threshold)) \<and>
           al_wasted_gpu_hours res =
             Some (gap * real (card (idle_gpus gpu_log (cf_wall_clock fire) (sr_wall_clock r) threshold)) / 3600) \<and>
           al_caveats res = [NvidiaSmiFallback]))"

lemma resumes_in: "resumes steps t r \<Longrightarrow> r \<in> set steps \<and> t < sr_wall_clock r"
  by (auto simp: resumes_def)

lemma align_unfired_aligned: "\<not> cf_fault_fired fire \<Longrightarrow> aligned steps gpus halts thr fire (align_unfired fire)"
  by (simp add: aligned_def align_unfired_def)

lemma align_fault_aligned: "aligned steps gpus halts thr fire (align_fault steps gpus halts thr fire)"
proof (cases "cf_fault_fired fire")
  case fired: True
  define halted where "halted = filter (\<lambda>h. hr_wall_clock h \<ge> cf_wall_clock fire) halts"
  have halt: "halted \<noteq> [] \<longleftrightarrow> (\<exists>h \<in> set halts. cf_wall_clock fire \<le> hr_wall_clock h)"
    by (auto simp: halted_def filter_empty_conv)
  have reason: "(case halted of [] \<Rightarrow> None | h # hs \<Rightarrow> Some (hr_detail h)) = None \<longleftrightarrow> halted = []"
    by (cases halted) simp_all
  show ?thesis
    using recovery_gap_cases [of steps "cf_wall_clock fire"]
  proof
    assume "\<exists>r. resumes steps (cf_wall_clock fire) r \<and>
        compute_recovery_gap steps (cf_wall_clock fire) = (Some (sr_wall_clock r - cf_wall_clock fire), Some (sr_wall_clock r))"
    then obtain r where r: "resumes steps (cf_wall_clock fire) r"
      and gap: "compute_recovery_gap steps (cf_wall_clock fire) = (Some (sr_wall_clock r - cf_wall_clock fire), Some (sr_wall_clock r))"
      by blast
    from resumes_in [OF r] have "r \<in> set steps" "cf_wall_clock fire < sr_wall_clock r" by simp_all
    with r gap fired halt reason show ?thesis
      by (auto simp: aligned_def align_fault_def Let_def compute_idle_gpus_card compute_wasted_gpu_hours_def
          simp flip: halted_def)
  next
    assume "(\<forall>r \<in> set steps. sr_wall_clock r \<le> cf_wall_clock fire) \<and>
        compute_recovery_gap steps (cf_wall_clock fire) = (None, None)"
    with fired halt reason show ?thesis
      by (auto simp: aligned_def align_fault_def Let_def not_less simp flip: halted_def)
  qed
next
  case False
  then show ?thesis by (simp add: align_fault_def align_unfired_aligned)
qed

text \<open>
  C33. The alignment reports one result per record of the chaos log, in order, and fabricates
  nothing. A recovery gap appears exactly for a fault that fired and has a later record in the
  step log; it is then positive and measured to the first such record, the idle GPUs are
  exactly those sampled in the window with every sample of the window below the threshold, the
  wasted hours are gap times idle GPUs over 3600, and the fallback caveat is attached. In every
  other case all four numbers are absent and the caveat says why. The job counts as halted
  exactly when the halt log has a record at or after a fault that fired.
\<close>

theorem alignment_exact:
  "list_all2 (aligned step_log gpu_log halt_log threshold) chaos_log
     (align_fault_events step_log gpu_log chaos_log halt_log threshold)"
  unfolding align_fault_events_def by (simp add: list_all2_conv_all_nth align_fault_aligned)

subsection \<open>From the injector to the alignment\<close>

lemma chaos_fire_of_row:
  "chaos_fire_of (chaos_row clock step fired fault target reason) =
    Inr \<lparr>cf_wall_clock = clock, cf_step = step, cf_fault_fired = fired, cf_fault_signal = fault,
      cf_target_rank = target, cf_reason = reason\<rparr>"
  by (simp add: chaos_fire_of_def chaos_row_def field_def get_field_def dget_or_def opt_int_def opt_of_def
      split: option.splits)

lemma fold_append_jsonl:
  "fold (append_jsonl J) rows (Some t) = Some (t @ concat (map (jsonl_line J) rows))"
  by (induction rows arbitrary: t) (simp_all add: append_jsonl_def append_text_def)

text \<open>What was appended to a log that did not exist is what is read from it.\<close>

lemma read_jsonl_appended:
  assumes "\<forall>row \<in> set rows. line_ok J row"
  shows "read_jsonl J (fold (append_jsonl J) rows None) = Inr rows"
proof (cases rows)
  case (Cons row rest)
  have "append_jsonl J row None = Some (jsonl_line J row)" by (simp add: append_jsonl_def append_text_def)
  then have "fold (append_jsonl J) rows None = Some (concat (map (jsonl_line J) rows))"
    by (simp add: Cons fold_append_jsonl)
  with parse_lines_jsonl [OF assms] show ?thesis by (simp add: read_jsonl_def)
qed (simp add: read_jsonl_def)

definition fire_accounts :: "kill_event \<Rightarrow> chaos_fire \<Rightarrow> bool" where
  "fire_accounts e fire \<longleftrightarrow> cf_fault_signal fire = te_fault e \<and> cf_target_rank fire = te_target_rank e \<and>
    (cf_fault_fired fire \<longrightarrow> te_fault e = ''B1'' \<and> te_step e \<le> cf_step fire)"

lemma chaos_fires_account:
  "list_all2 accounts es rows \<Longrightarrow> \<exists>fires. exc_map chaos_fire_of rows = Inr fires \<and> list_all2 fire_accounts es fires"
proof (induction rule: list_all2_induct)
  case (Cons e es row rows)
  from \<open>accounts e row\<close> obtain fire where "chaos_fire_of row = Inr fire" "fire_accounts e fire"
    by (auto simp: accounts_def chaos_fire_of_row fire_accounts_def)
  with Cons.IH show ?case by fastforce
qed simp

lemma aligned_fire_accounts:
  "fire_accounts e fire \<Longrightarrow> aligned steps gpus halts thr fire res \<Longrightarrow>
   al_fault_signal res = te_fault e \<and> al_target_rank res = te_target_rank e \<and>
   (al_recovery_gap res \<noteq> None \<or> al_job_halted res \<longrightarrow> te_fault e = ''B1'' \<and> al_fault_fired res)"
  by (simp add: fire_accounts_def aligned_def)

text \<open>
  C34. From the trace to the report: when the injector returns and its chaos log is loaded, the
  alignment with any step, GPU and halt log has one result per fault of the trace, in the
  order of the trace's steps, with the fault's class and target rank; a recovery gap or a halt
  is attributed to a fault only if it is a B1 fault whose kill was delivered.
\<close>

theorem measured_faults_were_injected:
  assumes "load_trace J file = Inr trace" "injector_run J file views = (Returned, rows)"
    and "\<forall>row \<in> set rows. line_ok J row"
  shows "\<exists>fires. load_chaos_log J (fold (append_jsonl J) rows None) = Inr fires \<and>
    list_all2 (\<lambda>e res. al_fault_signal res = te_fault e \<and> al_target_rank res = te_target_rank e \<and>
        (al_recovery_gap res \<noteq> None \<or> al_job_halted res \<longrightarrow> te_fault e = ''B1'' \<and> al_fault_fired res))
      (sort_key te_step trace) (align_fault_events step_log gpu_log fires halt_log threshold)"
proof -
  from assms(1,2) obtain s where "injector_loop J views (injector_init trace) = (Returned, s)" "rows = in_rows s"
    by (auto simp: injector_run_def split: prod.splits)
  with injector_loop_returned [OF injector_inv_init] have "list_all2 accounts (sort_key te_step trace) rows" by simp
  from chaos_fires_account [OF this] obtain fires where
    fires: "exc_map chaos_fire_of rows = Inr fires" "list_all2 fire_accounts (sort_key te_step trace) fires" by blast
  have "load_chaos_log J (fold (append_jsonl J) rows None) = Inr fires"
    using fires(1) by (simp add: load_chaos_log_def read_jsonl_appended [OF assms(3)])
  moreover have "list_all2 (\<lambda>e res. al_fault_signal res = te_fault e \<and> al_target_rank res = te_target_rank e \<and>
        (al_recovery_gap res \<noteq> None \<or> al_job_halted res \<longrightarrow> te_fault e = ''B1'' \<and> al_fault_fired res))
      (sort_key te_step trace) (map (align_fault step_log gpu_log halt_log threshold) fires)"
    unfolding list_all2_map2 using fires(2)
    by (rule list_all2_mono) (rule aligned_fire_accounts [OF _ align_fault_aligned])
  ultimately show ?thesis unfolding align_fault_events_def by blast
qed

text \<open>A run whose step log shows step 9: the B0 fault is skipped, the B1 kill delivered.\<close>

definition demo_rows :: "pyval list" where
  "demo_rows = [skip_b0 (demo_view Delivered) 9 (demo_trace ! 1), chaos_row 0 9 True ''B1'' (Some 1) None]"

definition demo_log_json :: json_lib where
  "demo_log_json = \<lparr>js_dumps = (\<lambda>v. if v = demo_rows ! 0 then ''a'' else ''b''),
     js_loads = (\<lambda>s. if s = ''a'' then Inr (demo_rows ! 0) else if s = ''b'' then Inr (demo_rows ! 1)
       else if s = ''s'' then Inr (step_value \<lparr>sr_wall_clock = 0, sr_global_step = 9, sr_loss = 0\<rparr>)
       else js_loads demo_trace_json s)\<rparr>"

lemma demo_rows_differ: "demo_rows ! 1 \<noteq> demo_rows ! 0"
  by (simp add: demo_rows_def skip_b0_def chaos_row_def)

lemma demo_rows_lines: "\<forall>row \<in> set demo_rows. line_ok demo_log_json row"
proof -
  have rows: "demo_rows = [demo_rows ! 0, demo_rows ! 1]" by (simp add: demo_rows_def)
  have "line_ok demo_log_json (demo_rows ! 0)" "line_ok demo_log_json (demo_rows ! 1)"
    using demo_rows_differ by (simp_all add: line_ok_def demo_log_json_def newline_def is_space_def)
  then show ?thesis by (subst rows) simp
qed

lemma demo_log_trace_loads: "load_trace demo_log_json (Some []) = Inr demo_trace"
  using demo_trace_loads by (simp add: load_trace_def demo_log_json_def)

lemma demo_step_read:
  "tail_new demo_log_json (Some ''s'') 0 = Inr ([\<lparr>sr_wall_clock = 0, sr_global_step = 9, sr_loss = 0\<rparr>], 1)"
proof -
  have "file_lines ''s'' = [''s'']" by (simp add: newline_def)
  moreover have "strip ''s'' = ''s''" by code_simp
  ultimately show ?thesis
    by (simp add: tail_new_def parse_lines_def parse_line_def Let_def demo_log_json_def parse_line_inv)
qed

lemma demo_log_run:
  "injector_run demo_log_json (Some []) [demo_view Delivered\<lparr>iv_log := Some ''s''\<rparr>] = (Returned, demo_rows)"
proof -
  have sorted: "sort_key te_step demo_trace = [demo_trace ! 1, demo_trace ! 0]"
    by (simp add: demo_trace_def)
  have row: "skip_b0 (demo_view Delivered\<lparr>iv_log := Some ''s''\<rparr>) 9 e = skip_b0 (demo_view Delivered) 9 e" for e
    by (simp add: skip_b0_def)
  show ?thesis
    unfolding injector_run_def demo_log_trace_loads
    by (simp add: injector_init_def sorted injector_pass_def demo_step_read, 
        simp add: Let_def fire_event_def fire_b1_def read_rank_pid_def b0_hardware_validated_def demo_trace_def
        demo_rows_def row demo_pid, simp add: demo_view_def demo_pid)
qed

theorem measured_faults_were_injected_witness:
  "\<exists>fires. load_chaos_log demo_log_json (fold (append_jsonl demo_log_json) demo_rows None) = Inr fires \<and>
    list_all2 (\<lambda>e res. al_fault_signal res = te_fault e \<and> al_target_rank res = te_target_rank e \<and>
        (al_recovery_gap res \<noteq> None \<or> al_job_halted res \<longrightarrow> te_fault e = ''B1'' \<and> al_fault_fired res))
      (sort_key te_step demo_trace) (align_fault_events [] [] fires [] 5)"
  by (rule measured_faults_were_injected [OF demo_log_trace_loads demo_log_run demo_rows_lines])

end
