(* ===== verification/Honesty.thy ===== *)
theory Honesty
  imports Align
begin

text \<open>
  The honesty block every report of a real run carries (\<open>realbench/honesty.py\<close>). A bullet
  is a constructor of \<open>honesty_line\<close> in place of its fixed sentence; the manifest is the parsed
  JSON value the reports pass in.
\<close>

datatype honesty_line =
    TinyDebug | FsdpOnly | SmokeTest pyval | ProxyTensor | SingleNode | B0SimOnly
  | Fallback caveat | NoRecoveryMeasurement caveat

text \<open>\<open>manifest.get(k, default)\<close>.\<close>

definition manifest_get :: "pyval \<Rightarrow> string \<Rightarrow> pyval \<Rightarrow> pyexc + pyval" where
  "manifest_get m k dflt = (case m of PDict d \<Rightarrow> Inr (dget_or d k dflt) | _ \<Rightarrow> Inl AttributeErr)"

text \<open>\<open>v >= 1\<close>.\<close>

fun at_least_one :: "pyval \<Rightarrow> pyexc + bool" where
  "at_least_one (PInt i) = Inr (i \<ge> 1)"
| "at_least_one (PFloat x) = Inr (x \<ge> 1)"
| "at_least_one (PBool b) = Inr b"
| "at_least_one _ = Inl TypeErr"

definition parallelism_lines :: "pyval \<Rightarrow> pyexc + honesty_line list" where
  "parallelism_lines p =
    (if p = PStr ''DP(FSDP)'' then Inr [FsdpOnly]
     else exc_bind (py_contains ''DDP'' p) (\<lambda>ddp.
       exc_bind (if ddp then Inr True else py_contains ''smoke-test'' p) (\<lambda>smoke.
       Inr (if smoke then [SmokeTest p] else []))))"

definition render_honesty_block :: "pyval \<Rightarrow> string list \<Rightarrow> pyexc + honesty_line list" where
  "render_honesty_block manifest fault_signals_seen =
    exc_bind (manifest_get manifest ''tiny_debug_run'' PNone) (\<lambda>tiny.
    exc_bind (manifest_get manifest ''parallelism'' (PStr ''unknown'')) (\<lambda>p.
    exc_bind (parallelism_lines p) (\<lambda>par.
    exc_bind (if ''B0'' \<in> set fault_signals_seen then Inr True
              else exc_bind (manifest_get manifest ''world_size'' (PInt 0)) at_least_one) (\<lambda>b0.
    Inr ((if py_bool tiny then [TinyDebug] else []) @ par @ [ProxyTensor, SingleNode] @
         (if b0 then [B0SimOnly] else []) @
         (if ''B1'' \<in> set fault_signals_seen
          then [Fallback NvidiaSmiFallback, NoRecoveryMeasurement NoResume] else []))))))"

lemma parallelism_lines_no_tiny: "parallelism_lines p = Inr par \<Longrightarrow> TinyDebug \<notin> set par"
  unfolding parallelism_lines_def by (cases "p = PStr ''DP(FSDP)''") (auto split: if_splits)

text \<open>Every block that is rendered at all states the two fixed limits; a debug run says so.\<close>

lemma honesty_block_states:
  assumes "render_honesty_block manifest seen = Inr bullets"
  shows "ProxyTensor \<in> set bullets \<and> SingleNode \<in> set bullets \<and>
    (''B1'' \<in> set seen \<longrightarrow> Fallback NvidiaSmiFallback \<in> set bullets \<and> NoRecoveryMeasurement NoResume \<in> set bullets) \<and>
    (\<exists>tiny. manifest_get manifest ''tiny_debug_run'' PNone = Inr tiny \<and> (TinyDebug \<in> set bullets \<longleftrightarrow> py_bool tiny))"
proof -
  define b1 where "b1 \<longleftrightarrow> ''B1'' \<in> set seen"
  from assms obtain tiny p par b0 where tiny: "manifest_get manifest ''tiny_debug_run'' PNone = Inr tiny"
    and par: "parallelism_lines p = Inr par"
    and bullets: "bullets = (if py_bool tiny then [TinyDebug] else []) @ par @ [ProxyTensor, SingleNode] @
      (if b0 then [B0SimOnly] else []) @
      (if b1 then [Fallback NvidiaSmiFallback, NoRecoveryMeasurement NoResume] else [])"
    unfolding render_honesty_block_def b1_def [symmetric] exc_bind_Inr by (metis sum.inject(2))
  show ?thesis
    unfolding b1_def [symmetric] bullets tiny using parallelism_lines_no_tiny [OF par] by simp
qed

end
