(* ===== verification/Phase0.thy ===== *)
theory Phase0
  imports Honesty
begin

text \<open>
  Phase 0 of a real run (\<open>realbench/phase0_trust_anchor\<close>): the driver that runs the control
  and the AEGIS condition with the same command, and the report with the gate Phase 1 waits
  for. The files of a run directory are a \<open>run_files\<close>; a line of the report is a
  constructor of \<open>p0_line\<close> in place of its formatted text.
\<close>

subsection \<open>Throughput\<close>

text \<open>\<open>xs[i:]\<close>.\<close>

definition py_from :: "int \<Rightarrow> 'a list \<Rightarrow> 'a list" where
  "py_from i xs = drop (nat (if i < 0 then max 0 (int (length xs) + i) else i)) xs"

definition throughput_of :: "step_record list \<Rightarrow> int \<Rightarrow> real option" where
  "throughput_of records warmup_steps =
    (let post_warmup = py_from warmup_steps records
     in if length post_warmup < 2 then None
        else let span = sr_wall_clock (last post_warmup) - sr_wall_clock (hd post_warmup)
             in if span \<le> 0 then None else Some ((real (length post_warmup) - 1) / span))"

definition steady_state_throughput :: "json_lib \<Rightarrow> text_file \<Rightarrow> int \<Rightarrow> pyexc + real option" where
  "steady_state_throughput J step_log warmup_steps =
    exc_bind (load_step_log J step_log) (\<lambda>records. Inr (throughput_of records warmup_steps))"

record run_files =
  rf_step_log :: text_file
  rf_manifest :: text_file

record condition_stats =
  cs_throughputs :: "real list"
  cs_mean :: "real option"
  cs_std :: real
  cs_manifest :: pyval

fun collect_runs :: "json_lib \<Rightarrow> int \<Rightarrow> run_files list \<Rightarrow> pyval \<Rightarrow> pyexc + (real list \<times> pyval)" where
  "collect_runs J warmup_steps [] manifest = Inr ([], manifest)"
| "collect_runs J warmup_steps (r # rs) manifest =
    (if rf_step_log r = None then collect_runs J warmup_steps rs manifest
     else
       exc_bind (steady_state_throughput J (rf_step_log r) warmup_steps) (\<lambda>tput.
       exc_bind (case rf_manifest r of
           Some t \<Rightarrow> if manifest = PNone then js_loads J t else Inr manifest
         | None \<Rightarrow> Inr manifest) (\<lambda>m.
       exc_bind (collect_runs J warmup_steps rs m) (\<lambda>(tputs, m').
       Inr ((case tput of None \<Rightarrow> tputs | Some t \<Rightarrow> t # tputs), m')))))"

definition mean :: "real list \<Rightarrow> real" where
  "mean xs = sum_list xs / real (length xs)"

definition stdev :: "real list \<Rightarrow> real" where
  "stdev xs = sqrt (sum_list (map (\<lambda>x. (x - mean xs)\<^sup>2) xs) / (real (length xs) - 1))"

definition collect_condition_stats :: "json_lib \<Rightarrow> (nat \<Rightarrow> run_files) \<Rightarrow> nat \<Rightarrow> int \<Rightarrow> pyexc + condition_stats" where
  "collect_condition_stats J runs repeat warmup_steps =
    exc_bind (collect_runs J warmup_steps (map runs [0..<repeat]) PNone) (\<lambda>(tputs, manifest).
    Inr \<lparr>cs_throughputs = tputs, cs_mean = (if tputs = [] then None else Some (mean tputs)),
      cs_std = (if length tputs > 1 then stdev tputs else 0), cs_manifest = manifest\<rparr>)"

subsection \<open>The report and its gate\<close>

definition default_overhead_sanity_ceiling_pct :: real where
  "default_overhead_sanity_ceiling_pct = 25"

definition paper_targets_pct :: "(string \<times> real) list" where
  "paper_targets_pct = [(''MeCeFO (compute)'', 418 / 100), (''R2CCL (transport)'', 1)]"

datatype p0_line =
    P0Title | P0Blank | P0Honesty "honesty_line list" | P0ThroughputSection | P0TableHead | P0TableRule
  | P0Row string "real option" real nat nat | P0Overhead real | P0Ceiling real | P0Informational
  | P0Target string real | P0Gate bool | P0NoData

text \<open>Python's truth of an optional float.\<close>

definition truthy :: "real option \<Rightarrow> bool" where
  "truthy x \<longleftrightarrow> (case x of None \<Rightarrow> False | Some r \<Rightarrow> r \<noteq> 0)"

definition opt_float :: "real option \<Rightarrow> pyval" where
  "opt_float x = (case x of None \<Rightarrow> PNone | Some r \<Rightarrow> PFloat r)"

definition py_or :: "pyval \<Rightarrow> pyval \<Rightarrow> pyval" where
  "py_or a b = (if py_bool a then a else b)"

definition overhead_of :: "condition_stats \<Rightarrow> condition_stats \<Rightarrow> real option" where
  "overhead_of control aegis =
    (if truthy (cs_mean control) \<and> truthy (cs_mean aegis)
     then Some ((the (cs_mean control) - the (cs_mean aegis)) / the (cs_mean control) * 100) else None)"

definition gate_of :: "real option \<Rightarrow> real \<Rightarrow> bool" where
  "gate_of overhead cap = (case overhead of None \<Rightarrow> False | Some x \<Rightarrow> x \<le> cap)"

definition p0_rows :: "condition_stats \<Rightarrow> condition_stats \<Rightarrow> nat \<Rightarrow> p0_line list" where
  "p0_rows control aegis repeat =
    map (\<lambda>(name, stats). P0Row name (cs_mean stats) (cs_std stats) (length (cs_throughputs stats)) repeat)
      [(''control (bare torchrun)'', control), (''aegis-on'', aegis)]"

definition p0_verdict :: "real option \<Rightarrow> bool \<Rightarrow> real \<Rightarrow> p0_line list" where
  "p0_verdict overhead gate_passed cap =
    (case overhead of
       None \<Rightarrow> [P0NoData]
     | Some x \<Rightarrow> [P0Overhead x, P0Blank, P0Ceiling cap, P0Blank, P0Informational] @
         map (\<lambda>(name, target). P0Target name target) paper_targets_pct @ [P0Blank, P0Gate gate_passed])"

definition p0_summary :: "bool \<Rightarrow> real option \<Rightarrow> real \<Rightarrow> condition_stats \<Rightarrow> condition_stats \<Rightarrow> pyval" where
  "p0_summary gate_passed overhead cap control aegis =
    PDict [(''gate_passed'', PBool gate_passed), (''overhead_pct'', opt_float overhead),
      (''overhead_sanity_ceiling_pct'', PFloat cap),
      (''control_mean_steps_per_sec'', opt_float (cs_mean control)),
      (''aegis_mean_steps_per_sec'', opt_float (cs_mean aegis))]"

record p0_result =
  p0_lines :: "p0_line list"
  p0_summary_json :: pyval
  p0_exit_code :: nat

definition report_phase0 ::
  "json_lib \<Rightarrow> (string \<Rightarrow> nat \<Rightarrow> run_files) \<Rightarrow> nat \<Rightarrow> int \<Rightarrow> real \<Rightarrow> pyexc + p0_result" where
  "report_phase0 J files repeat warmup_steps cap =
    exc_bind (collect_condition_stats J (files ''control'') repeat warmup_steps) (\<lambda>control.
    exc_bind (collect_condition_stats J (files ''aegis'') repeat warmup_steps) (\<lambda>aegis.
    let overhead = overhead_of control aegis;
        gate_passed = gate_of overhead cap;
        manifest = py_or (py_or (cs_manifest aegis) (cs_manifest control)) (PDict [])
    in exc_bind (render_honesty_block manifest []) (\<lambda>honesty.
    Inr \<lparr>p0_lines = [P0Title, P0Blank, P0Honesty honesty, P0ThroughputSection, P0Blank, P0TableHead, P0TableRule] @
           p0_rows control aegis repeat @ [P0Blank] @ p0_verdict overhead gate_passed cap @ [P0Blank],
         p0_summary_json = p0_summary gate_passed overhead cap control aegis,
         p0_exit_code = (if gate_passed then 0 else 1)\<rparr>)))"

subsection \<open>The driver\<close>

definition conditions :: "string list" where
  "conditions = [''control'', ''aegis'']"

datatype run_outcome = Exited int | TimedOut

text \<open>The run's verdict; the process group is killed on every path.\<close>

definition run_and_reap :: "run_outcome \<Rightarrow> bool \<times> string list" where
  "run_and_reap outcome =
    (case outcome of Exited returncode \<Rightarrow> (returncode = 0, [''killpg'']) | TimedOut \<Rightarrow> (False, [''killpg'']))"

record cmd_args =
  ca_nproc :: int
  ca_steps :: int
  ca_seed :: int
  ca_batch_size :: int
  ca_seq_len :: int
  ca_tiny :: bool
  ca_policy_path :: string
  ca_rdzv_endpoint :: "string option"

definition rdzv_args :: "string option \<Rightarrow> string list" where
  "rdzv_args endpoint =
    (case endpoint of
       None \<Rightarrow> [''--standalone'']
     | Some e \<Rightarrow> if e = [] then [''--standalone'']
         else [''--rdzv-backend=static'', ''--rdzv-endpoint='' @ e, ''--node-rank=0''])"

definition build_cmd :: "cmd_args \<Rightarrow> string \<Rightarrow> bool \<Rightarrow> string list" where
  "build_cmd a log_dir aegis_enabled =
    [''aegis'', ''run'', ''--nproc_per_node='' @ int_str (ca_nproc a)] @ rdzv_args (ca_rdzv_endpoint a) @
    [''-m'', ''realbench.training.w1_llama7b'',
     ''--steps'', int_str (ca_steps a), ''--log-dir'', log_dir,
     ''--seed'', int_str (ca_seed a), ''--batch-size'', int_str (ca_batch_size a),
     ''--seq-len'', int_str (ca_seq_len a)] @
    (if aegis_enabled then [''--aegis-enabled'', ''--aegis-policy-path'', ca_policy_path a] else []) @
    (if ca_tiny a then [''--tiny''] else [])"

record run_index_entry =
  ri_condition :: string
  ri_run :: nat
  ri_log_dir :: string
  ri_cmd :: "string list"
  ri_ok :: bool
  ri_elapsed_secs :: real

definition run_dir :: "string \<Rightarrow> string \<Rightarrow> nat \<Rightarrow> string" where
  "run_dir out condition i = out @ ''/'' @ condition @ ''/run'' @ nat_str i"

definition phase0_run ::
  "cmd_args \<Rightarrow> string \<Rightarrow> (string \<Rightarrow> nat \<Rightarrow> run_outcome \<times> real) \<Rightarrow> string \<Rightarrow> nat \<Rightarrow> run_index_entry" where
  "phase0_run a out world condition i =
    \<lparr>ri_condition = condition, ri_run = i, ri_log_dir = run_dir out condition i,
     ri_cmd = build_cmd a (run_dir out condition i) (condition = ''aegis''),
     ri_ok = fst (run_and_reap (fst (world condition i))), ri_elapsed_secs = snd (world condition i)\<rparr>"

text \<open>The index of the runs, and the exit code.\<close>

definition run_phase0 ::
  "cmd_args \<Rightarrow> string \<Rightarrow> nat \<Rightarrow> (string \<Rightarrow> nat \<Rightarrow> run_outcome \<times> real) \<Rightarrow> run_index_entry list \<times> nat" where
  "run_phase0 a out repeat world =
    (let run_index = concat (map (\<lambda>condition. map (phase0_run a out world condition) [0..<repeat]) conditions)
     in (run_index, if list_all ri_ok run_index then 0 else 1))"

subsection \<open>The gate\<close>

lemma throughput_pos: "throughput_of records warmup = Some t \<Longrightarrow> 0 < t"
  by (auto simp: throughput_of_def Let_def split: if_splits)

lemma collect_runs_pos: "collect_runs J warmup rs m = Inr (ts, m') \<Longrightarrow> x \<in> set ts \<Longrightarrow> 0 < x"
proof (induction rs arbitrary: m ts)
  case (Cons r rs)
  show ?case
  proof (cases "rf_step_log r = None")
    case False
    with Cons.prems(1) obtain tput k ts' where
      tput: "steady_state_throughput J (rf_step_log r) warmup = Inr tput" and
      rest: "collect_runs J warmup rs k = Inr (ts', m')" and
      ts: "ts = (case tput of None \<Rightarrow> ts' | Some t \<Rightarrow> t # ts')" by auto
    from Cons.prems(2) ts consider "tput = Some x" | "x \<in> set ts'" by (auto split: option.splits)
    then show ?thesis
    proof cases
      case 1
      with tput show ?thesis by (auto simp: steady_state_throughput_def dest: throughput_pos)
    next
      case 2
      with rest show ?thesis by (rule Cons.IH)
    qed
  qed (use Cons in \<open>auto\<close>)
qed simp

lemma mean_pos: "xs \<noteq> [] \<Longrightarrow> \<forall>x \<in> set xs. 0 < x \<Longrightarrow> 0 < mean xs"
proof -
  assume xs: "xs \<noteq> []" "\<forall>x \<in> set xs. 0 < x"
  then have "0 < sum_list xs"
  proof (induction xs)
    case (Cons x xs)
    then show ?case by (cases "xs = []") auto
  qed simp
  with xs(1) show ?thesis by (simp add: mean_def)
qed

lemma stats_mean:
  assumes "collect_condition_stats J runs repeat warmup = Inr stats"
  shows "cs_mean stats = (if cs_throughputs stats = [] then None else Some (mean (cs_throughputs stats)))"
    and "truthy (cs_mean stats) \<longleftrightarrow> cs_throughputs stats \<noteq> []"
    and "cs_throughputs stats \<noteq> [] \<Longrightarrow> 0 < mean (cs_throughputs stats)"
proof -
  from assms obtain ts m where run: "collect_runs J warmup (map runs [0..<repeat]) PNone = Inr (ts, m)"
    and ts: "cs_throughputs stats = ts" "cs_mean stats = (if ts = [] then None else Some (mean ts))"
    unfolding collect_condition_stats_def exc_bind_Inr by auto
  have pos: "ts \<noteq> [] \<Longrightarrow> 0 < mean ts" using collect_runs_pos [OF run] by (auto intro: mean_pos)
  from ts show "cs_mean stats = (if cs_throughputs stats = [] then None else Some (mean (cs_throughputs stats)))" by simp
  from ts pos show "truthy (cs_mean stats) \<longleftrightarrow> cs_throughputs stats \<noteq> []" by (auto simp: truthy_def)
  from ts pos show "cs_throughputs stats \<noteq> [] \<Longrightarrow> 0 < mean (cs_throughputs stats)" by simp
qed

text \<open>The gate in terms of the measured throughputs: both conditions have data, and AEGIS keeps up.\<close>

definition keeps_up :: "real list \<Rightarrow> real list \<Rightarrow> real \<Rightarrow> bool" where
  "keeps_up control aegis cap \<longleftrightarrow>
    control \<noteq> [] \<and> aegis \<noteq> [] \<and> mean control * (1 - cap / 100) \<le> mean aegis"

lemma gate_keeps_up:
  assumes "collect_condition_stats J cruns repeat warmup = Inr control"
    and "collect_condition_stats J aruns repeat warmup = Inr aegis"
  shows "gate_of (overhead_of control aegis) cap \<longleftrightarrow> keeps_up (cs_throughputs control) (cs_throughputs aegis) cap"
proof (cases "cs_throughputs control = [] \<or> cs_throughputs aegis = []")
  case True
  then show ?thesis
    by (auto simp: gate_of_def overhead_of_def keeps_up_def stats_mean(2) [OF assms(1)] stats_mean(2) [OF assms(2)])
next
  case False
  define c where "c = mean (cs_throughputs control)"
  define a where "a = mean (cs_throughputs aegis)"
  have c: "0 < c" using False stats_mean(3) [OF assms(1)] by (simp add: c_def)
  have "gate_of (overhead_of control aegis) cap \<longleftrightarrow> (c - a) / c * 100 \<le> cap"
  proof -
    have "truthy (cs_mean control)" "truthy (cs_mean aegis)"
      using False by (simp_all add: stats_mean(2) [OF assms(1)] stats_mean(2) [OF assms(2)])
    then show ?thesis
      using False by (simp add: gate_of_def overhead_of_def c_def a_def stats_mean(1) [OF assms(1)] stats_mean(1) [OF assms(2)])
  qed
  also have "\<dots> \<longleftrightarrow> c * (1 - cap / 100) \<le> a" using c by (simp add: field_simps)
  finally show ?thesis using False by (simp add: keeps_up_def c_def a_def)
qed

text \<open>
  The gate of Phase 0 is what it says: when the report is written, it exits with 0 exactly if
  both conditions produced a throughput and the mean throughput with AEGIS is at least the
  control's reduced by the ceiling; it exits with 1 otherwise, and the summary file and the
  verdict line of the report carry the same decision.
\<close>

theorem gate_passes_exactly:
  assumes "report_phase0 J files repeat warmup cap = Inr res"
  shows "\<exists>control aegis.
    collect_condition_stats J (files ''control'') repeat warmup = Inr control \<and>
    collect_condition_stats J (files ''aegis'') repeat warmup = Inr aegis \<and>
    p0_exit_code res = (if keeps_up (cs_throughputs control) (cs_throughputs aegis) cap then 0 else 1) \<and>
    field ''gate_passed'' (p0_summary_json res) = Inr (PBool (p0_exit_code res = 0)) \<and>
    (\<forall>b. P0Gate b \<in> set (p0_lines res) \<longrightarrow> b = (p0_exit_code res = 0)) \<and>
    (p0_exit_code res = 0 \<longrightarrow> P0Gate True \<in> set (p0_lines res))"
proof -
  from assms obtain control aegis honesty where
    stats: "collect_condition_stats J (files ''control'') repeat warmup = Inr control"
      "collect_condition_stats J (files ''aegis'') repeat warmup = Inr aegis"
    and res: "res = \<lparr>p0_lines = [P0Title, P0Blank, P0Honesty honesty, P0ThroughputSection, P0Blank, P0TableHead, P0TableRule] @
           p0_rows control aegis repeat @ [P0Blank] @
           p0_verdict (overhead_of control aegis) (gate_of (overhead_of control aegis) cap) cap @ [P0Blank],
         p0_summary_json = p0_summary (gate_of (overhead_of control aegis) cap) (overhead_of control aegis) cap control aegis,
         p0_exit_code = (if gate_of (overhead_of control aegis) cap then 0 else 1)\<rparr>"
    unfolding report_phase0_def Let_def exc_bind_Inr by auto
  have rows: "P0Gate b \<notin> set (p0_rows control aegis repeat)" for b by (simp add: p0_rows_def)
  have verdict: "P0Gate b \<in> set (p0_verdict ov g cap) \<longleftrightarrow> ov \<noteq> None \<and> b = g" for b ov g
    by (cases ov) (auto simp: p0_verdict_def paper_targets_pct_def)
  have some: "gate_of ov cap \<Longrightarrow> ov \<noteq> None" for ov by (cases ov) (simp_all add: gate_of_def)
  show ?thesis
    using stats rows some
    by (intro exI [of _ control] exI [of _ aegis]) (simp add: res verdict gate_keeps_up [symmetric] p0_summary_def field_def)
qed

text \<open>One run per condition, each with two steps a second apart.\<close>

definition demo_step :: "real \<Rightarrow> step_record" where
  "demo_step t = \<lparr>sr_wall_clock = t, sr_global_step = 0, sr_loss = 0\<rparr>"

definition reads_demo_steps :: "json_lib \<Rightarrow> bool" where
  "reads_demo_steps J \<longleftrightarrow> js_loads J ''a'' = Inr (step_value (demo_step 0)) \<and> js_loads J ''b'' = Inr (step_value (demo_step 1))"

definition demo_gate_json :: json_lib where
  "demo_gate_json = \<lparr>js_dumps = (\<lambda>v. []), js_loads = (\<lambda>s. Inr (step_value (demo_step (if s = ''a'' then 0 else 1))))\<rparr>"

definition demo_run :: run_files where
  "demo_run = \<lparr>rf_step_log = Some [CHR ''a'', newline, CHR ''b''], rf_manifest = None\<rparr>"

definition demo_run_stats :: condition_stats where
  "demo_run_stats = \<lparr>cs_throughputs = [1], cs_mean = Some 1, cs_std = 0, cs_manifest = PNone\<rparr>"

lemma demo_run_throughput:
  assumes "reads_demo_steps J"
  shows "steady_state_throughput J (rf_step_log demo_run) 0 = Inr (Some 1)"
proof -
  have lines: "file_lines [CHR ''a'', newline, CHR ''b''] = [[CHR ''a'', newline], ''b'']" by (simp add: newline_def)
  have strips: "strip [CHR ''a'', newline] = ''a''" "strip ''b'' = ''b''" by code_simp+
  have "parse_lines J [CHR ''a'', newline, CHR ''b''] = Inr [step_value (demo_step 0), step_value (demo_step 1)]"
    using assms unfolding parse_lines_def lines by (simp add: parse_line_def Let_def strips reads_demo_steps_def)
  then have "load_step_log J (rf_step_log demo_run) = Inr [demo_step 0, demo_step 1]"
    by (simp add: load_step_log_def read_all_def tail_new_def demo_run_def parse_line_inv)
  then show ?thesis by (simp add: steady_state_throughput_def throughput_of_def py_from_def demo_step_def)
qed

lemma demo_stats: "reads_demo_steps J \<Longrightarrow> collect_condition_stats J (\<lambda>i. demo_run) 1 0 = Inr demo_run_stats"
  using demo_run_throughput [of J] by (simp add: collect_condition_stats_def demo_run_def mean_def demo_run_stats_def)

lemma demo_honesty: "render_honesty_block (PDict []) [] = Inr [ProxyTensor, SingleNode]"
  by (simp add: render_honesty_block_def manifest_get_def parallelism_lines_def sublist_code)

lemma demo_report:
  assumes "reads_demo_steps J"
  shows "\<exists>res. report_phase0 J (\<lambda>condition i. demo_run) 1 0 25 = Inr res"
  unfolding report_phase0_def demo_stats [OF assms] exc_bind.simps Let_def
  by (simp add: demo_run_stats_def py_or_def demo_honesty del: exc_bind_Inr)

lemma demo_gate_json_reads: "reads_demo_steps demo_gate_json"
  by (simp add: reads_demo_steps_def demo_gate_json_def)

theorem gate_passes_exactly_witness:
  "\<exists>res. report_phase0 demo_gate_json (\<lambda>condition i. demo_run) 1 0 25 = Inr res \<and> p0_exit_code res = 0"
proof -
  from demo_report [OF demo_gate_json_reads] obtain res where
    "report_phase0 demo_gate_json (\<lambda>condition i. demo_run) 1 0 25 = Inr res" by blast
  with gate_passes_exactly [OF this] show ?thesis
    unfolding demo_stats [OF demo_gate_json_reads] by (auto simp: keeps_up_def mean_def demo_run_stats_def)
qed
text \<open>
  The driver runs every condition \<open>repeat\<close> times, in order, and exits with 0 exactly if every
  run exited with 0; the runs of the two conditions are the same software: their commands
  differ in the log directory and the AEGIS flags only.
\<close>

theorem driver_runs_both_conditions:
  "map (\<lambda>r. (ri_condition r, ri_run r)) (fst (run_phase0 a out repeat world)) = List.product conditions [0..<repeat] \<and>
   (snd (run_phase0 a out repeat world) = 0 \<longleftrightarrow>
      list_all (\<lambda>(c, i). fst (world c i) = Exited 0) (List.product conditions [0..<repeat])) \<and>
   (\<exists>front middle rear.
      list_all (\<lambda>r. ri_cmd r = front @ [ri_log_dir r] @ middle @
          (if ri_condition r = ''aegis'' then [''--aegis-enabled'', ''--aegis-policy-path'', ca_policy_path a] else []) @ rear)
        (fst (run_phase0 a out repeat world)))"
proof (intro conjI)
  show "map (\<lambda>r. (ri_condition r, ri_run r)) (fst (run_phase0 a out repeat world)) = List.product conditions [0..<repeat]"
    by (simp add: run_phase0_def Let_def conditions_def phase0_run_def)
  have ok: "ri_ok (phase0_run a out world c i) \<longleftrightarrow> fst (world c i) = Exited 0" for c i
    by (simp add: phase0_run_def run_and_reap_def split: run_outcome.split)
  show "snd (run_phase0 a out repeat world) = 0 \<longleftrightarrow>
      list_all (\<lambda>(c, i). fst (world c i) = Exited 0) (List.product conditions [0..<repeat])"
    by (simp add: run_phase0_def Let_def conditions_def list.pred_map comp_def ok)
  define front where "front = [''aegis'', ''run'', ''--nproc_per_node='' @ int_str (ca_nproc a)] @
    rdzv_args (ca_rdzv_endpoint a) @ [''-m'', ''realbench.training.w1_llama7b'', ''--steps'', int_str (ca_steps a), ''--log-dir'']"
  define middle where "middle = [''--seed'', int_str (ca_seed a), ''--batch-size'', int_str (ca_batch_size a),
        ''--seq-len'', int_str (ca_seq_len a)]"
  define rear where "rear = (if ca_tiny a then [''--tiny''] else [])"
  define flags where "flags e = (if e then [''--aegis-enabled'', ''--aegis-policy-path'', ca_policy_path a] else [])" for e
  have cmd: "build_cmd a d e = front @ [d] @ middle @ flags e @ rear" for d e
    by (simp only: build_cmd_def front_def middle_def rear_def flags_def append.simps append_assoc)
  have "list_all (\<lambda>r. ri_cmd r = front @ [ri_log_dir r] @ middle @ flags (ri_condition r = ''aegis'') @ rear)
        (fst (run_phase0 a out repeat world))"
    by (simp add: run_phase0_def Let_def conditions_def list.pred_map comp_def phase0_run_def cmd list.pred_True)
  then show "\<exists>front middle rear. list_all (\<lambda>r. ri_cmd r = front @ [ri_log_dir r] @ middle @
      (if ri_condition r = ''aegis'' then [''--aegis-enabled'', ''--aegis-policy-path'', ca_policy_path a] else []) @ rear)
        (fst (run_phase0 a out repeat world))"
    unfolding flags_def by blast
qed

end
