(* ===== verification/Phase1.thy ===== *)
theory Phase1
  imports Phase0
begin

text \<open>
  Phase 1 of a real run (\<open>realbench/phase1_per_tier\<close>): the trace with its one B1 kill, the
  check of Phase 0's gate, the commands of the rank processes, the life of the children of a
  condition, and the report over the aligned logs. How a child reacts to waiting and to
  signals is part of the \<open>child\<close>; a line of the report is a constructor of \<open>p1_line\<close>.
\<close>

subsection \<open>The trace\<close>

definition build_trace :: "int \<Rightarrow> int \<Rightarrow> pyval" where
  "build_trace target_step target_rank =
    PList [PDict [(''step'', PInt target_step), (''fault'', PStr ''B1''), (''target_rank'', PInt target_rank)]]"

definition write_trace :: "json_lib \<Rightarrow> int \<Rightarrow> int \<Rightarrow> string" where
  "write_trace J target_step target_rank = js_dumps J (build_trace target_step target_rank)"

definition suggest_target_step :: "real \<Rightarrow> int \<Rightarrow> real \<Rightarrow> pyexc + int" where
  "suggest_target_step steps_per_sec steps_budget warmup_secs =
    (let target_step = max 1 (trunc (warmup_secs * steps_per_sec));
         cap = trunc (of_int steps_budget * (8 / 10))
     in if target_step \<ge> cap then Inl ValueErr else Inr target_step)"

subsection \<open>The gate and the target\<close>

definition check_phase0_gate :: "json_lib \<Rightarrow> text_file \<Rightarrow> bool \<Rightarrow> pyexc + unit" where
  "check_phase0_gate J summary_file skip_gate =
    (if skip_gate then Inr ()
     else case summary_file of None \<Rightarrow> Inl SystemExit
       | Some t \<Rightarrow>
           exc_bind (js_loads J t) (\<lambda>summary.
           exc_bind (get_field ''gate_passed'' summary) (\<lambda>passed.
           if py_bool passed then Inr () else Inl SystemExit)))"

record p1_args =
  pa_skip_gate :: bool
  pa_steps :: int
  pa_target_step :: "int option"
  pa_warmup_secs :: real
  pa_target_rank :: "int option"
  pa_nproc :: int
  pa_seed :: int
  pa_batch_size :: int
  pa_seq_len :: int
  pa_policy_path :: string
  pa_tiny :: bool
  pa_heartbeat_timeout :: real
  pa_collective_timeout :: real
  pa_setup_timeout :: real
  pa_gpu_hr_cost_usd :: real

definition default_h100_usd_per_hr :: real where
  "default_h100_usd_per_hr = 235 / 100"

definition choose_target_rank :: "p1_args \<Rightarrow> int" where
  "choose_target_rank args = (case pa_target_rank args of Some r \<Rightarrow> r | None \<Rightarrow> pa_nproc args - 1)"

definition choose_target_step :: "json_lib \<Rightarrow> text_file \<Rightarrow> p1_args \<Rightarrow> pyexc + int" where
  "choose_target_step J summary_file args =
    (case pa_target_step args of
       Some st \<Rightarrow> Inr st
     | None \<Rightarrow>
         (case summary_file of None \<Rightarrow> Inl FileNotFoundErr
          | Some t \<Rightarrow>
              exc_bind (js_loads J t) (\<lambda>summary.
              exc_bind (get_field ''aegis_mean_steps_per_sec'' summary) (\<lambda>a.
              exc_bind (if py_bool a then Inr a else get_field ''control_mean_steps_per_sec'' summary) (\<lambda>steps_per_sec.
              if \<not> py_bool steps_per_sec then Inl SystemExit
              else exc_bind (as_real steps_per_sec) (\<lambda>sps.
                suggest_target_step sps (pa_steps args) (pa_warmup_secs args)))))))"

subsection \<open>The rank processes\<close>

definition rank_env :: "int \<Rightarrow> int \<Rightarrow> nat \<Rightarrow> (string \<times> string) list" where
  "rank_env nproc master_port rank =
    [(''RANK'', nat_str rank), (''LOCAL_RANK'', nat_str rank), (''WORLD_SIZE'', int_str nproc),
     (''MASTER_ADDR'', ''127.0.0.1''), (''MASTER_PORT'', int_str master_port)]"

definition rank_cmd :: "(real \<Rightarrow> string) \<Rightarrow> string \<Rightarrow> p1_args \<Rightarrow> string \<Rightarrow> bool \<Rightarrow> string list" where
  "rank_cmd float_str executable a dir aegis_enabled =
    [executable, ''-m'', ''realbench.training.w1_llama7b'',
     ''--steps'', int_str (pa_steps a), ''--log-dir'', dir,
     ''--seed'', int_str (pa_seed a), ''--batch-size'', int_str (pa_batch_size a), ''--seq-len'', int_str (pa_seq_len a),
     ''--heartbeat-timeout-secs'', float_str (pa_heartbeat_timeout a),
     ''--collective-timeout-secs'', float_str (pa_collective_timeout a),
     ''--setup-timeout-secs'', float_str (pa_setup_timeout a)] @
    (if aegis_enabled then [''--aegis-enabled'', ''--aegis-policy-path'', pa_policy_path a] else []) @
    (if pa_tiny a then [''--tiny''] else [])"

definition launch_rank_processes ::
  "(real \<Rightarrow> string) \<Rightarrow> string \<Rightarrow> p1_args \<Rightarrow> string \<Rightarrow> bool \<Rightarrow> int \<Rightarrow> ((string \<times> string) list \<times> string list) list" where
  "launch_rank_processes float_str executable a dir aegis_enabled master_port =
    map (\<lambda>rank. (rank_env (pa_nproc a) master_port rank, rank_cmd float_str executable a dir aegis_enabled))
      [0..<nat (pa_nproc a)]"

subsection \<open>The children of a condition\<close>

text \<open>
  A child process: whether it runs, whether it exits by itself within the wait granted to it,
  exits within the grace after SIGTERM, and is gone after SIGKILL.
\<close>

record child =
  ch_running :: bool
  ch_exits :: bool
  ch_term :: bool
  ch_kill :: bool

datatype child_signal = Sigterm | Sigkill

definition wait_child :: "child \<Rightarrow> child" where
  "wait_child c = (if ch_exits c then c\<lparr>ch_running := False\<rparr> else c)"

definition kill_child :: "child \<Rightarrow> child" where
  "kill_child c = (if ch_kill c then c\<lparr>ch_running := False\<rparr> else c)"

definition wait_rank :: "child \<Rightarrow> child" where
  "wait_rank c = (if ch_running (wait_child c) then kill_child (wait_child c) else wait_child c)"

definition terminate_child :: "child \<Rightarrow> child_signal list \<times> child" where
  "terminate_child c =
    (if \<not> ch_running c then ([], c)
     else if ch_term c then ([Sigterm], c\<lparr>ch_running := False\<rparr>)
     else ([Sigterm, Sigkill], kill_child c))"

definition terminate_all :: "child list \<Rightarrow> (child_signal list \<times> child) list" where
  "terminate_all procs = map terminate_child procs"

text \<open>A poll of the start-up loop, while its deadline lasts.\<close>

record startup_poll =
  su_log_exists :: bool
  su_all_exited :: bool

fun wait_startup :: "startup_poll list \<Rightarrow> pyexc + unit" where
  "wait_startup [] = Inr ()"
| "wait_startup (p # ps) =
    (if su_log_exists p then Inr () else if su_all_exited p then Inl SystemExit else wait_startup ps)"

record condition_end =
  ce_error :: "pyexc option"
  ce_stop_file :: bool
  ce_children :: "(child_signal list \<times> child) list"

definition finish_condition :: "pyexc option \<Rightarrow> child list \<Rightarrow> condition_end" where
  "finish_condition err procs = \<lparr>ce_error = err, ce_stop_file = True, ce_children = terminate_all procs\<rparr>"

text \<open>
  \<open>run_condition\<close>: starting the injector or the sampler may raise; on every path the
  \<open>finally\<close> block touches the stop file and tears the started children down.
\<close>

definition run_condition :: "startup_poll list \<Rightarrow> child list \<Rightarrow> pyexc + child \<Rightarrow> pyexc + child \<Rightarrow> condition_end" where
  "run_condition polls ranks injector sampler =
    (case wait_startup polls of
       Inl x \<Rightarrow> finish_condition (Some x) ranks
     | Inr _ \<Rightarrow>
         (case injector of
            Inl x \<Rightarrow> finish_condition (Some x) ranks
          | Inr injc \<Rightarrow>
              (case sampler of
                 Inl x \<Rightarrow> finish_condition (Some x) (ranks @ [injc])
               | Inr smpc \<Rightarrow> finish_condition None (map wait_rank ranks @ [wait_child injc, wait_child smpc]))))"

subsection \<open>The report\<close>

record condition_files =
  fi_step_log :: text_file
  fi_gpu_log :: text_file
  fi_chaos_log :: text_file
  fi_halt_log :: text_file
  fi_detection_log :: text_file
  fi_epe_history :: text_file
  fi_manifest :: text_file

datatype p1_line =
    P1Title | P1Blank | P1Condition string | P1Fault string "int option" bool bool | P1HaltReason string
  | P1Gap "real option" | P1Idle "nat option" | P1Wasted "real option" | P1Caveat caveat
  | P1Latency real | P1LatencyNA | P1Record "pyval list" | P1NotBuilt | P1NoVanilla | P1NoTorchFT | P1NoEndToEnd
  | P1Honesty "honesty_line list"

definition result_lines :: "alignment \<Rightarrow> p1_line list" where
  "result_lines r =
    [P1Fault (al_fault_signal r) (al_target_rank r) (al_fault_fired r) (al_job_halted r)] @
    (case al_halt_reason r of None \<Rightarrow> [] | Some t \<Rightarrow> if t = [] then [] else [P1HaltReason t]) @
    [P1Gap (al_recovery_gap r), P1Idle (al_idle_gpus r), P1Wasted (al_wasted_gpu_hours r)] @
    map P1Caveat (al_caveats r)"

definition latency_line :: "chaos_fire list \<Rightarrow> real \<Rightarrow> p1_line" where
  "latency_line chaos_log detect_wall_clock =
    (case chaos_log of
       [] \<Rightarrow> P1LatencyNA
     | c # cs \<Rightarrow> if cf_wall_clock c \<noteq> 0 then P1Latency (detect_wall_clock - cf_wall_clock c) else P1LatencyNA)"

definition history_line :: "pyval \<Rightarrow> pyexc + p1_line" where
  "history_line rec =
    exc_bind (exc_map (\<lambda>k. field k rec)
      [''original_tier'', ''final_tier'', ''escalated'', ''success'', ''degraded'', ''recovery_secs'', ''message''])
      (\<lambda>vs. Inr (P1Record vs))"

fun py_iter :: "pyval \<Rightarrow> pyexc + pyval list" where
  "py_iter (PList vs) = Inr vs"
| "py_iter (PDict d) = Inr (map PStr (dkeys d))"
| "py_iter (PStr s) = Inr (map (\<lambda>c. PStr [c]) s)"
| "py_iter _ = Inl TypeErr"

definition condition_lines :: "json_lib \<Rightarrow> string \<Rightarrow> condition_files \<Rightarrow> pyexc + p1_line list" where
  "condition_lines J condition f =
    exc_bind (load_step_log J (fi_step_log f)) (\<lambda>step_log.
    exc_bind (load_gpu_log J (fi_gpu_log f)) (\<lambda>gpu_log.
    exc_bind (load_chaos_log J (fi_chaos_log f)) (\<lambda>chaos_log.
    exc_bind (load_halt_log J (fi_halt_log f)) (\<lambda>halt_log.
    let results = align_fault_events step_log gpu_log chaos_log halt_log 5; aegis = (condition = ''aegis'')
    in exc_bind (if aegis then read_jsonl J (fi_detection_log f) else Inr []) (\<lambda>detections.
    exc_bind (case fi_epe_history f of Some t \<Rightarrow> if aegis then js_loads J t else Inr (PList []) | None \<Rightarrow> Inr (PList []))
      (\<lambda>history.
    exc_bind (case detections of [] \<Rightarrow> Inr []
        | d # ds \<Rightarrow> exc_bind (exc_bind (field ''wall_clock'' d) as_real) (\<lambda>t. Inr [latency_line chaos_log t])) (\<lambda>latency.
    exc_bind (if py_bool history then exc_bind (py_iter history) (exc_map history_line) else Inr []) (\<lambda>records.
    Inr ([P1Condition condition, P1Blank] @ concat (map result_lines results) @ latency @ records @ [P1Blank])))))))))"

definition condition_manifest :: "json_lib \<Rightarrow> pyval \<Rightarrow> condition_files \<Rightarrow> pyexc + pyval" where
  "condition_manifest J manifest f = (case fi_manifest f of None \<Rightarrow> Inr manifest | Some t \<Rightarrow> js_loads J t)"

definition p1_conditions :: "string list" where
  "p1_conditions = [''no_ft'', ''aegis'']"

fun all_condition_lines ::
  "json_lib \<Rightarrow> (string \<Rightarrow> condition_files) \<Rightarrow> string list \<Rightarrow> pyval \<Rightarrow> pyexc + (p1_line list \<times> pyval)" where
  "all_condition_lines J files [] manifest = Inr ([], manifest)"
| "all_condition_lines J files (c # cs) manifest =
    exc_bind (condition_manifest J manifest (files c)) (\<lambda>m.
    exc_bind (condition_lines J c (files c)) (\<lambda>lines.
    exc_bind (all_condition_lines J files cs m) (\<lambda>(rest, m'). Inr (lines @ rest, m'))))"

definition phase1_report :: "json_lib \<Rightarrow> (string \<Rightarrow> condition_files) \<Rightarrow> pyexc + p1_line list" where
  "phase1_report J files =
    exc_bind (all_condition_lines J files p1_conditions (PDict [])) (\<lambda>(lines, manifest).
    exc_bind (render_honesty_block manifest [''B1'']) (\<lambda>honesty.
    Inr ([P1Title, P1Blank, P1Honesty honesty, P1Blank] @ lines @
         [P1NotBuilt, P1Blank, P1NoVanilla, P1NoTorchFT, P1NoEndToEnd, P1Blank])))"

definition phase1_summary :: "int \<Rightarrow> p1_args \<Rightarrow> pyval" where
  "phase1_summary target_step args =
    PDict [(''target_step'', PInt target_step), (''target_rank'', PInt (choose_target_rank args)),
      (''conditions_run'', PList (map PStr p1_conditions)), (''gpu_hr_cost_usd'', PFloat (pa_gpu_hr_cost_usd args))]"

text \<open>
  The whole run: the trace, the report and the summary it writes. What is outside (the outcome of a condition's processes and the files it
  leaves) is \<open>world\<close>, which may depend on the trace.
\<close>

definition phase1_main ::
  "json_lib \<Rightarrow> text_file \<Rightarrow> p1_args \<Rightarrow> (string \<Rightarrow> string \<Rightarrow> condition_end \<times> condition_files) \<Rightarrow>
   pyexc + (string \<times> p1_line list \<times> pyval)" where
  "phase1_main J summary_file args world =
    exc_bind (check_phase0_gate J summary_file (pa_skip_gate args)) (\<lambda>_.
    exc_bind (choose_target_step J summary_file args) (\<lambda>target_step.
    let trace = write_trace J target_step (choose_target_rank args)
    in exc_bind (exc_map (\<lambda>c. case ce_error (fst (world trace c)) of Some x \<Rightarrow> Inl x | None \<Rightarrow> Inr ()) p1_conditions) (\<lambda>_.
    exc_bind (phase1_report J (\<lambda>c. snd (world trace c))) (\<lambda>lines.
      Inr (trace, lines, phase1_summary target_step args)))))"

subsection \<open>From the gate to the trace\<close>

lemma suggest_target_step_bounds:
  "suggest_target_step sps steps warmup = Inr st \<Longrightarrow>
   1 \<le> st \<and> st < trunc (of_int steps * (8 / 10)) \<and> st = max 1 (trunc (warmup * sps))"
  by (auto simp: suggest_target_step_def Let_def split: if_splits)

lemma load_written_trace:
  "js_loads J (write_trace J st rank) = Inr (build_trace st rank) \<Longrightarrow>
   load_trace J (Some (write_trace J st rank)) =
     Inr [\<lparr>te_step = st, te_fault = ''B1'', te_target_rank = Some rank, te_rnic = None, te_duration_secs = None\<rparr>]"
  by (simp add: load_trace_def build_trace_def kill_event_of_def field_def get_field_def dget_or_def opt_of_def)

lemma summary_fields:
  "get_field ''gate_passed'' (p0_summary g ov cap control aegis) = Inr (PBool g)"
  "get_field ''aegis_mean_steps_per_sec'' (p0_summary g ov cap control aegis) = Inr (opt_float (cs_mean aegis))"
  by (simp_all add: p0_summary_def get_field_def dget_or_def)

lemma report_phase0_summary:
  assumes "report_phase0 J files repeat warmup cap = Inr res"
  shows "\<exists>control aegis.
    collect_condition_stats J (files ''control'') repeat warmup = Inr control \<and>
    collect_condition_stats J (files ''aegis'') repeat warmup = Inr aegis \<and>
    p0_summary_json res =
      p0_summary (keeps_up (cs_throughputs control) (cs_throughputs aegis) cap) (overhead_of control aegis) cap control aegis"
proof -
  from assms obtain control aegis where
    stats: "collect_condition_stats J (files ''control'') repeat warmup = Inr control"
      "collect_condition_stats J (files ''aegis'') repeat warmup = Inr aegis"
    and res: "p0_summary_json res =
      p0_summary (gate_of (overhead_of control aegis) cap) (overhead_of control aegis) cap control aegis"
    unfolding report_phase0_def Let_def exc_bind_Inr by auto
  with gate_keeps_up [OF stats] show ?thesis by auto
qed

lemma gate_check_passes:
  assumes "js_loads J t = Inr (p0_summary g ov cap control aegis)"
  shows "check_phase0_gate J (Some t) False = (if g then Inr () else Inl SystemExit)"
  by (simp add: check_phase0_gate_def assms summary_fields del: exc_bind_Inr)

lemma target_from_summary:
  assumes "js_loads J t = Inr (p0_summary g ov cap control aegis)" "pa_target_step args = None"
    and "cs_mean aegis = Some m" "0 < m"
  shows "choose_target_step J (Some t) args = suggest_target_step m (pa_steps args) (pa_warmup_secs args)"
  using assms by (simp add: choose_target_step_def summary_fields opt_float_def del: exc_bind_Inr)

text \<open>
  C36. Phase 1 starts only behind Phase 0's gate, and its kill lands inside the run: when Phase 1
  completes on the summary Phase 0 wrote, without \<open>--skip-gate\<close> and without a target step of
  its own, then both conditions of Phase 0 had data and AEGIS kept up; the trace it wrote has
  one B1 event, on the chosen rank, at the step AEGIS reaches after the warm-up at Phase 0's
  mean throughput, at least 1 and below 80 percent of the step budget; the summary it writes names
  that step; and the injector loads
  exactly that event from it when \<open>json\<close> reads the trace back.
\<close>

theorem phase1_gated_on_phase0:
  assumes "report_phase0 J files repeat warmup cap = Inr res"
    and "js_loads J summary = Inr (p0_summary_json res)"
    and "pa_skip_gate args = False" "pa_target_step args = None"
    and "phase1_main J (Some summary) args world = Inr (trace, lines, summary_json)"
  shows "\<exists>control aegis st.
    collect_condition_stats J (files ''control'') repeat warmup = Inr control \<and>
    collect_condition_stats J (files ''aegis'') repeat warmup = Inr aegis \<and>
    keeps_up (cs_throughputs control) (cs_throughputs aegis) cap \<and>
    st = max 1 (trunc (pa_warmup_secs args * mean (cs_throughputs aegis))) \<and>
    1 \<le> st \<and> st < trunc (of_int (pa_steps args) * (8 / 10)) \<and>
    trace = write_trace J st (choose_target_rank args) \<and> field ''target_step'' summary_json = Inr (PInt st) \<and>
    (js_loads J trace = Inr (build_trace st (choose_target_rank args)) \<longrightarrow>
       load_trace J (Some trace) = Inr [\<lparr>te_step = st, te_fault = ''B1'',
         te_target_rank = Some (choose_target_rank args), te_rnic = None, te_duration_secs = None\<rparr>])"
proof -
  from report_phase0_summary [OF assms(1)] obtain control aegis where
    stats: "collect_condition_stats J (files ''control'') repeat warmup = Inr control"
      "collect_condition_stats J (files ''aegis'') repeat warmup = Inr aegis"
    and json: "p0_summary_json res =
      p0_summary (keeps_up (cs_throughputs control) (cs_throughputs aegis) cap) (overhead_of control aegis) cap control aegis"
    by blast
  note loads = assms(2) [unfolded json]
  from assms(5) obtain st where gate: "check_phase0_gate J (Some summary) False = Inr ()"
    and target: "choose_target_step J (Some summary) args = Inr st"
    and trace: "trace = write_trace J st (choose_target_rank args)" "summary_json = phase1_summary st args"
    unfolding phase1_main_def assms(3) Let_def exc_bind_Inr by auto
  from gate gate_check_passes [OF loads] have up: "keeps_up (cs_throughputs control) (cs_throughputs aegis) cap"
    by (auto split: if_splits)
  then have "cs_throughputs aegis \<noteq> []" by (simp add: keeps_up_def)
  then have mean: "cs_mean aegis = Some (mean (cs_throughputs aegis))" "0 < mean (cs_throughputs aegis)"
    using stats_mean(1,3) [OF stats(2)] by simp_all
  from target target_from_summary [OF loads assms(4) mean]
  have "suggest_target_step (mean (cs_throughputs aegis)) (pa_steps args) (pa_warmup_secs args) = Inr st" by simp
  note step = suggest_target_step_bounds [OF this]
  have "field ''target_step'' summary_json = Inr (PInt st)" by (simp add: trace(2) phase1_summary_def field_def)
  moreover have "js_loads J trace = Inr (build_trace st (choose_target_rank args)) \<Longrightarrow>
      load_trace J (Some trace) = Inr [\<lparr>te_step = st, te_fault = ''B1'',
        te_target_rank = Some (choose_target_rank args), te_rnic = None, te_duration_secs = None\<rparr>]"
    unfolding trace(1) by (rule load_written_trace)
  ultimately show ?thesis
    using stats up trace(1) step [THEN conjunct1] step [THEN conjunct2, THEN conjunct1] step [THEN conjunct2, THEN conjunct2]
    by - (rule exI [of _ control], rule exI [of _ aegis], rule exI [of _ st], intro conjI impI)
qed

text \<open>Phase 0 measured one step per second for both; Phase 1's conditions leave no logs.\<close>

definition demo_p1_args :: p1_args where
  "demo_p1_args = \<lparr>pa_skip_gate = False, pa_steps = 20000, pa_target_step = None, pa_warmup_secs = 60,
     pa_target_rank = None, pa_nproc = 8, pa_seed = 1234, pa_batch_size = 1, pa_seq_len = 512, pa_policy_path = [],
     pa_tiny = False, pa_heartbeat_timeout = 5, pa_collective_timeout = 30, pa_setup_timeout = 600,
     pa_gpu_hr_cost_usd = default_h100_usd_per_hr\<rparr>"

definition demo_p1_json :: json_lib where
  "demo_p1_json = \<lparr>js_dumps = (\<lambda>v. ''t''), js_loads = (\<lambda>s. Inr (
     if s = ''a'' then step_value (demo_step 0) else if s = ''b'' then step_value (demo_step 1)
     else if s = ''s'' then p0_summary True (Some 0) 25 demo_run_stats demo_run_stats else build_trace 60 7))\<rparr>"

definition demo_p1_world :: "string \<Rightarrow> string \<Rightarrow> condition_end \<times> condition_files" where
  "demo_p1_world trace condition = (finish_condition None [],
     \<lparr>fi_step_log = None, fi_gpu_log = None, fi_chaos_log = None, fi_halt_log = None, fi_detection_log = None,
      fi_epe_history = None, fi_manifest = None\<rparr>)"

lemma demo_p1_json_reads: "reads_demo_steps demo_p1_json"
  by (simp add: reads_demo_steps_def demo_p1_json_def)

lemma demo_p1_phase0:
  "\<exists>res. report_phase0 demo_p1_json (\<lambda>condition i. demo_run) 1 0 25 = Inr res \<and>
     js_loads demo_p1_json ''s'' = Inr (p0_summary_json res)"
proof -
  from demo_report [OF demo_p1_json_reads] obtain res where
    res: "report_phase0 demo_p1_json (\<lambda>condition i. demo_run) 1 0 25 = Inr res" by blast
  have "overhead_of demo_run_stats demo_run_stats = Some 0"
    by (simp add: overhead_of_def truthy_def demo_run_stats_def)
  moreover have "keeps_up (cs_throughputs demo_run_stats) (cs_throughputs demo_run_stats) 25"
    by (simp add: keeps_up_def mean_def demo_run_stats_def)
  ultimately have "p0_summary_json res = p0_summary True (Some 0) 25 demo_run_stats demo_run_stats"
    using report_phase0_summary [OF res] unfolding demo_stats [OF demo_p1_json_reads] by auto
  with res show ?thesis by (simp add: demo_p1_json_def)
qed

lemma demo_condition_lines: "condition_lines J c (snd (demo_p1_world tr c)) = Inr [P1Condition c, P1Blank, P1Blank]"
  by (simp add: condition_lines_def demo_p1_world_def load_step_log_def read_all_def tail_new_def load_gpu_log_def
      load_chaos_log_def load_halt_log_def read_jsonl_def align_fault_events_def Let_def del: exc_bind_Inr)

lemma demo_p1_runs: "\<exists>lines js. phase1_main demo_p1_json (Some ''s'') demo_p1_args demo_p1_world = Inr (''t'', lines, js)"
proof -
  have gate: "check_phase0_gate demo_p1_json (Some ''s'') False = Inr ()"
    by (subst gate_check_passes) (simp_all add: demo_p1_json_def)
  have target: "choose_target_step demo_p1_json (Some ''s'') demo_p1_args = Inr 60"
    by (subst target_from_summary [where m = 1 and g = True and ov = "Some 0" and cap = 25 and control = demo_run_stats
          and aegis = demo_run_stats])
       (simp_all add: demo_p1_json_def demo_p1_args_def demo_run_stats_def suggest_target_step_def trunc_def)
  have manifest: "condition_manifest J m (snd (demo_p1_world tr c)) = Inr m" for J m tr c
    by (simp add: condition_manifest_def demo_p1_world_def)
  have honesty: "\<exists>h. render_honesty_block (PDict []) [''B1''] = Inr h"
    by (simp add: render_honesty_block_def manifest_get_def parallelism_lines_def sublist_code dget_or_def del: exc_bind_Inr)
  have written: "write_trace demo_p1_json st r = ''t''" for st r by (simp add: write_trace_def demo_p1_json_def)
  have ends: "ce_error (fst (demo_p1_world tr c)) = None" for tr c by (simp add: demo_p1_world_def finish_condition_def)
  have skip: "pa_skip_gate demo_p1_args = False" by (simp add: demo_p1_args_def)
  from honesty show ?thesis
    unfolding phase1_main_def
    by (auto simp: gate target phase1_report_def p1_conditions_def manifest demo_condition_lines Let_def
        written ends skip simp del: exc_bind_Inr)
qed

theorem phase1_gated_on_phase0_witness:
  "\<exists>st trace. trace = write_trace demo_p1_json st 7 \<and> st = max 1 (trunc (60 * mean [1])) \<and> 1 \<le> st \<and>
     st < trunc (of_int 20000 * (8 / 10))"
proof -
  from demo_p1_phase0 obtain res where
    res: "report_phase0 demo_p1_json (\<lambda>condition i. demo_run) 1 0 25 = Inr res"
      "js_loads demo_p1_json ''s'' = Inr (p0_summary_json res)" by blast
  from demo_p1_runs obtain lines js where
    "phase1_main demo_p1_json (Some ''s'') demo_p1_args demo_p1_world = Inr (''t'', lines, js)" by blast
  from phase1_gated_on_phase0 [OF res _ _ this] show ?thesis
    unfolding demo_stats [OF demo_p1_json_reads]
    by (auto simp: demo_p1_args_def choose_target_rank_def demo_run_stats_def)
qed

subsection \<open>No orphans\<close>

lemma terminate_child_stops: "\<not> (ch_running (snd (terminate_child c)) \<and> ch_kill (snd (terminate_child c)))"
  by (simp add: terminate_child_def kill_child_def)

lemma terminate_all_stops: "filter (\<lambda>(sigs, c). ch_running c \<and> ch_kill c) (terminate_all procs) = []"
  using terminate_child_stops by (auto simp: terminate_all_def filter_empty_conv split_beta)

text \<open>
  A condition never leaves a child behind: however the start-up ends and whether the injector
  or the sampler can be started, the stop file is touched, every child that was started is
  torn down, and none that SIGKILL can stop still runs; SIGKILL is only sent after SIGTERM.
  The condition raises exactly if the start-up or the start of one of the two does.
\<close>

theorem condition_leaves_no_orphans:
  "ce_stop_file (run_condition polls ranks injector sampler) \<and>
    filter (\<lambda>(sigs, c). ch_running c \<and> ch_kill c) (ce_children (run_condition polls ranks injector sampler)) = [] \<and>
    list_all (\<lambda>(sigs, c). sigs = [] \<or> sigs = [Sigterm] \<or> sigs = [Sigterm, Sigkill]) (ce_children (run_condition polls ranks injector sampler)) \<and>
    length (ce_children (run_condition polls ranks injector sampler)) = length ranks +
      (case wait_startup polls of Inl x \<Rightarrow> 0 | Inr u \<Rightarrow>
        (case injector of Inl x \<Rightarrow> 0 | Inr i \<Rightarrow> (case sampler of Inl x \<Rightarrow> 1 | Inr s \<Rightarrow> 2))) \<and>
    (ce_error (run_condition polls ranks injector sampler) = None \<longleftrightarrow> wait_startup polls = Inr () \<and> \<not> isl injector \<and> \<not> isl sampler)"
proof -
  have sigs: "list_all (\<lambda>(sigs, c). sigs = [] \<or> sigs = [Sigterm] \<or> sigs = [Sigterm, Sigkill]) (terminate_all procs)" for procs
    by (auto simp: terminate_all_def list_all_iff terminate_child_def)
  have len: "length (terminate_all procs) = length procs" for procs by (simp add: terminate_all_def)
  show ?thesis
    unfolding run_condition_def finish_condition_def
    by (auto simp: terminate_all_stops sigs len split: sum.split)
qed

end
