(* ===== verification/Heartbeat_Sensor.thy ===== *)
theory Heartbeat_Sensor
  imports Step_Log Bus Epochs
begin

text \<open>
  The rank heartbeat sensor (\<open>realbench/sensors/rank_heartbeat.py\<close>): one pass of its poll
  loop reads every peer's heartbeat file. What a pass sees (the clock readings, the current
  fault epoch and the text of the files) is a \<open>poll_view\<close>; a run of the loop is a list of
  views. An exception of a pass ends the poll task.
\<close>

definition default_heartbeat_timeout_secs :: real where
  "default_heartbeat_timeout_secs = 5"

definition default_poll_interval_secs :: real where
  "default_poll_interval_secs = 1"

record rank_sensor =
  hs_own_rank :: int
  hs_peers :: "(int, string) dict"
  hs_timeout :: real
  hs_reported :: "int set"
  hs_detection_log :: "pyval list"
  hs_running :: bool

record poll_view =
  pv_now :: real
  pv_file :: "string \<Rightarrow> text_file"
  pv_detect_clock :: "int \<Rightarrow> real"
  pv_epoch :: int
  pv_stamp :: real

definition sensor_init :: "int \<Rightarrow> (int, string) dict \<Rightarrow> real \<Rightarrow> rank_sensor" where
  "sensor_init own_rank paths timeout =
    \<lparr>hs_own_rank = own_rank, hs_peers = filter (\<lambda>(rank, path). rank \<noteq> own_rank) paths,
     hs_timeout = timeout, hs_reported = {}, hs_detection_log = [], hs_running = False\<rparr>"

definition sensor_start :: "rank_sensor \<Rightarrow> rank_sensor" where
  "sensor_start s = s\<lparr>hs_running := True\<rparr>"

definition sensor_stop :: "rank_sensor \<Rightarrow> rank_sensor" where
  "sensor_stop s = s\<lparr>hs_running := False\<rparr>"

definition rank_node :: "int \<Rightarrow> string" where
  "rank_node r = ''rank'' @ int_str r"

definition dead_event :: "poll_view \<Rightarrow> int \<Rightarrow> int \<Rightarrow> telemetry_event" where
  "dead_event v own_rank dead_rank =
    \<lparr>ev_rank = dead_rank, ev_node = rank_node dead_rank, ev_signal = NODE_CRASH,
     ev_payload = [(''detected_by_rank'', PInt own_rank)], ev_epoch = pv_epoch v,
     ev_timestamp = pv_stamp v, ev_nic = None, ev_rack = None, ev_source = ''rank_heartbeat''\<rparr>"

definition report_dead :: "poll_view \<Rightarrow> int \<Rightarrow> rank_sensor \<Rightarrow> telemetry_event \<times> rank_sensor" where
  "report_dead v dead_rank s =
    (dead_event v (hs_own_rank s) dead_rank,
     s\<lparr>hs_reported := insert dead_rank (hs_reported s),
       hs_detection_log := hs_detection_log s @
         [PDict [(''wall_clock'', PFloat (pv_detect_clock v dead_rank)), (''dead_rank'', PInt dead_rank),
            (''detected_by_rank'', PInt (hs_own_rank s)), (''epoch'', PInt (pv_epoch v))]]\<rparr>)"

definition poll_peer ::
  "json_lib \<Rightarrow> poll_view \<Rightarrow> int \<times> string \<Rightarrow> rank_sensor \<Rightarrow> (pyexc + telemetry_event list) \<times> rank_sensor" where
  "poll_peer J v peer s =
    (case peer of (rank, path) \<Rightarrow>
     case heartbeat_read J (pv_file v path) of
       Inl x \<Rightarrow> (Inl x, s)
     | Inr None \<Rightarrow> (Inr [], s)
     | Inr (Some record) \<Rightarrow>
         (let stale = pv_now v - hb_wall_clock record > hs_timeout s
          in if stale \<and> rank \<notin> hs_reported s
             then (case report_dead v rank s of (event, s') \<Rightarrow> (Inr [event], s'))
             else if \<not> stale \<and> rank \<in> hs_reported s
             then (Inr [], s\<lparr>hs_reported := hs_reported s - {rank}\<rparr>)
             else (Inr [], s)))"

text \<open>A pass over the peers: the events published, and the exception that ended it, if any.\<close>

fun poll_peers ::
  "json_lib \<Rightarrow> poll_view \<Rightarrow> (int \<times> string) list \<Rightarrow> rank_sensor \<Rightarrow>
   pyexc option \<times> telemetry_event list \<times> rank_sensor" where
  "poll_peers J v [] s = (None, [], s)"
| "poll_peers J v (peer # peers) s =
    (case poll_peer J v peer s of
       (Inl x, s1) \<Rightarrow> (Some x, [], s1)
     | (Inr evs, s1) \<Rightarrow> (case poll_peers J v peers s1 of (x, evs', s2) \<Rightarrow> (x, evs @ evs', s2)))"

definition poll_pass :: "json_lib \<Rightarrow> poll_view \<Rightarrow> rank_sensor \<Rightarrow> pyexc option \<times> telemetry_event list \<times> rank_sensor" where
  "poll_pass J v s = poll_peers J v (hs_peers s) s"

fun poll_loop ::
  "json_lib \<Rightarrow> poll_view list \<Rightarrow> rank_sensor \<Rightarrow> pyexc option \<times> telemetry_event list \<times> rank_sensor" where
  "poll_loop J [] s = (None, [], s)"
| "poll_loop J (v # views) s =
    (if \<not> hs_running s then (None, [], s)
     else case poll_pass J v s of
            (Some x, evs, s1) \<Rightarrow> (Some x, evs, s1)
          | (None, evs, s1) \<Rightarrow> (case poll_loop J views s1 of (x, evs', s2) \<Rightarrow> (x, evs @ evs', s2)))"

text \<open>What the bus sees of the loop: its events, published in order.\<close>

definition sensor_publish :: "telemetry_event list \<Rightarrow> 'sub bus \<Rightarrow> 'sub bus" where
  "sensor_publish evs b = fold sensor_emit evs b"

subsection \<open>One report per death\<close>

text \<open>
  What a view says of a peer, once its file can be read: no heartbeat yet, a fresh one or a
  stale one.
\<close>

definition peer_stale :: "json_lib \<Rightarrow> real \<Rightarrow> string \<Rightarrow> poll_view \<Rightarrow> bool option" where
  "peer_stale J timeout path v =
    (case heartbeat_read J (pv_file v path) of
       Inr (Some record) \<Rightarrow> Some (pv_now v - hb_wall_clock record > timeout)
     | _ \<Rightarrow> None)"

definition readable :: "json_lib \<Rightarrow> poll_view \<Rightarrow> string \<Rightarrow> bool" where
  "readable J v path \<longleftrightarrow> (\<exists>r. heartbeat_read J (pv_file v path) = Inr r)"

text \<open>
  The specification: a death is a view in which the peer is stale and was not when it was last
  seen; a peer never seen counts as alive.
\<close>

fun deaths :: "(poll_view \<Rightarrow> bool option) \<Rightarrow> bool \<Rightarrow> poll_view list \<Rightarrow> poll_view list" where
  "deaths st cur [] = []"
| "deaths st cur (v # vs) =
    (case st v of None \<Rightarrow> deaths st cur vs
     | Some b \<Rightarrow> (if b \<and> \<not> cur then [v] else []) @ deaths st b vs)"

fun finally_stale :: "(poll_view \<Rightarrow> bool option) \<Rightarrow> bool \<Rightarrow> poll_view list \<Rightarrow> bool" where
  "finally_stale st cur [] = cur"
| "finally_stale st cur (v # vs) = finally_stale st (case st v of None \<Rightarrow> cur | Some b \<Rightarrow> b) vs"

lemma poll_peer_frame:
  "hs_peers (snd (poll_peer J v p s)) = hs_peers s" "hs_timeout (snd (poll_peer J v p s)) = hs_timeout s"
  "hs_running (snd (poll_peer J v p s)) = hs_running s" "hs_own_rank (snd (poll_peer J v p s)) = hs_own_rank s"
  by (auto simp: poll_peer_def report_dead_def Let_def split: prod.splits sum.splits option.splits)

lemma poll_peer_other:
  "rank \<noteq> fst p \<Longrightarrow> rank \<in> hs_reported (snd (poll_peer J v p s)) \<longleftrightarrow> rank \<in> hs_reported s"
  by (auto simp: poll_peer_def report_dead_def Let_def split: prod.splits sum.splits option.splits)

lemma poll_peer_events:
  "fst (poll_peer J v p s) = Inr evs \<Longrightarrow> \<forall>e \<in> set evs. ev_rank e = fst p"
  by (auto simp: poll_peer_def report_dead_def dead_event_def Let_def
      split: prod.splits sum.splits option.splits if_splits)

lemma poll_peer_self:
  assumes "readable J v path"
  shows "\<exists>s'. poll_peer J v (rank, path) s =
    (Inr (case peer_stale J (hs_timeout s) path v of
       Some True \<Rightarrow> if rank \<in> hs_reported s then [] else [dead_event v (hs_own_rank s) rank]
     | _ \<Rightarrow> []), s') \<and>
    (rank \<in> hs_reported s' \<longleftrightarrow>
      (case peer_stale J (hs_timeout s) path v of None \<Rightarrow> rank \<in> hs_reported s | Some b \<Rightarrow> b))"
proof -
  from assms obtain r where "heartbeat_read J (pv_file v path) = Inr r" by (auto simp: readable_def)
  then show ?thesis
    by (cases r) (auto simp: poll_peer_def peer_stale_def report_dead_def Let_def)
qed

abbreviation verdict :: "json_lib \<Rightarrow> poll_view \<Rightarrow> rank_sensor \<Rightarrow> string \<Rightarrow> bool option" where
  "verdict J v s path \<equiv> peer_stale J (hs_timeout s) path v"

lemma poll_peers_rank:
  assumes "distinct (map fst ps)" "\<forall>(r, p) \<in> set ps. readable J v p"
  shows "\<exists>evs s'. poll_peers J v ps s = (None, evs, s') \<and>
    hs_timeout s' = hs_timeout s \<and> hs_peers s' = hs_peers s \<and> hs_own_rank s' = hs_own_rank s \<and>
    hs_running s' = hs_running s \<and>
    (\<forall>rank path. (rank, path) \<in> set ps \<longrightarrow>
       filter (\<lambda>e. ev_rank e = rank) evs = map (\<lambda>v. dead_event v (hs_own_rank s) rank)
         (deaths (peer_stale J (hs_timeout s) path) (rank \<in> hs_reported s) [v]) \<and>
       (rank \<in> hs_reported s' \<longleftrightarrow> finally_stale (peer_stale J (hs_timeout s) path) (rank \<in> hs_reported s) [v])) \<and>
    (\<forall>rank. rank \<notin> set (map fst ps) \<longrightarrow>
       filter (\<lambda>e. ev_rank e = rank) evs = [] \<and> (rank \<in> hs_reported s' \<longleftrightarrow> rank \<in> hs_reported s))"
  using assms
proof (induction ps arbitrary: s)
  case (Cons q ps)
  obtain r p where q: "q = (r, p)" by (cases q)
  have rd: "readable J v p" using Cons.prems(2) by (simp add: q)
  define e1 where "e1 = (case verdict J v s p of Some True \<Rightarrow> if r \<in> hs_reported s then [] else [dead_event v (hs_own_rank s) r] | _ \<Rightarrow> [])"
  from poll_peer_self [OF rd, of r s] obtain s1 where s1: "poll_peer J v (r, p) s = (Inr e1, s1)"
    "r \<in> hs_reported s1 \<longleftrightarrow> (case verdict J v s p of None \<Rightarrow> r \<in> hs_reported s | Some b \<Rightarrow> b)" unfolding e1_def by blast
  have fr: "hs_peers s1 = hs_peers s" "hs_timeout s1 = hs_timeout s" "hs_running s1 = hs_running s"
    "hs_own_rank s1 = hs_own_rank s"
    using poll_peer_frame [of J v "(r, p)" s] s1(1) by simp_all
  have oth: "k \<noteq> r \<Longrightarrow> k \<in> hs_reported s1 \<longleftrightarrow> k \<in> hs_reported s" for k
    using poll_peer_other [of k "(r, p)" J v s] s1(1) by simp
  have fe1: "filter (\<lambda>e. ev_rank e = k) e1 = (if k = r then e1 else [])" for k
    by (auto simp: e1_def dead_event_def split: option.splits bool.splits)
  from Cons.IH [of s1] Cons.prems obtain evs s' where ih: "poll_peers J v ps s1 = (None, evs, s')"
    "hs_timeout s' = hs_timeout s" "hs_peers s' = hs_peers s" "hs_own_rank s' = hs_own_rank s" "hs_running s' = hs_running s"
    "\<And>rank path. (rank, path) \<in> set ps \<Longrightarrow>
       filter (\<lambda>e. ev_rank e = rank) evs = map (\<lambda>v. dead_event v (hs_own_rank s) rank)
         (deaths (peer_stale J (hs_timeout s) path) (rank \<in> hs_reported s1) [v]) \<and>
       (rank \<in> hs_reported s' \<longleftrightarrow> finally_stale (peer_stale J (hs_timeout s) path) (rank \<in> hs_reported s1) [v])"
    "\<And>rank. rank \<notin> set (map fst ps) \<Longrightarrow>
       filter (\<lambda>e. ev_rank e = rank) evs = [] \<and> (rank \<in> hs_reported s' \<longleftrightarrow> rank \<in> hs_reported s1)"
    unfolding fr by auto
  have new: "r \<notin> set (map fst ps)" using Cons.prems(1) by (simp add: q)
  have run: "poll_peers J v (q # ps) s = (None, e1 @ evs, s')" by (simp add: q s1(1) ih(1))
  have here: "filter (\<lambda>e. ev_rank e = r) (e1 @ evs) = map (\<lambda>v. dead_event v (hs_own_rank s) r)
         (deaths (peer_stale J (hs_timeout s) p) (r \<in> hs_reported s) [v]) \<and>
       (r \<in> hs_reported s' \<longleftrightarrow> finally_stale (peer_stale J (hs_timeout s) p) (r \<in> hs_reported s) [v])"
    using ih(7) [OF new] s1(2) fe1 [of r] by (auto simp: e1_def split: option.splits bool.splits)
  have there: "filter (\<lambda>e. ev_rank e = k) (e1 @ evs) = map (\<lambda>v. dead_event v (hs_own_rank s) k)
         (deaths (peer_stale J (hs_timeout s) path) (k \<in> hs_reported s) [v]) \<and>
       (k \<in> hs_reported s' \<longleftrightarrow> finally_stale (peer_stale J (hs_timeout s) path) (k \<in> hs_reported s) [v])"
    if "(k, path) \<in> set ps" for k path
  proof -
    have "k \<noteq> r" using that new by force
    then show ?thesis using ih(6) [OF that] oth [of k] fe1 [of k] by simp
  qed
  have none: "filter (\<lambda>e. ev_rank e = k) (e1 @ evs) = [] \<and> (k \<in> hs_reported s' \<longleftrightarrow> k \<in> hs_reported s)"
    if "k \<notin> set (map fst (q # ps))" for k
    using that ih(7) [of k] oth [of k] fe1 [of k] by (simp add: q)
  show ?case
  proof (rule exI [of _ "e1 @ evs"], rule exI [of _ s'], intro conjI allI impI)
    fix rank path assume "(rank, path) \<in> set (q # ps)"
    then consider "rank = r" "path = p" | "(rank, path) \<in> set ps" by (auto simp: q)
    note split = this
    show "filter (\<lambda>e. ev_rank e = rank) (e1 @ evs) = map (\<lambda>v. dead_event v (hs_own_rank s) rank)
         (deaths (peer_stale J (hs_timeout s) path) (rank \<in> hs_reported s) [v])"
      by (rule split) (use here there in blast)+
    show "(rank \<in> hs_reported s') = finally_stale (peer_stale J (hs_timeout s) path) (rank \<in> hs_reported s) [v]"
      by (rule split) (use here there in blast)+
  next
    fix rank assume k: "rank \<notin> set (map fst (q # ps))"
    show "filter (\<lambda>e. ev_rank e = rank) (e1 @ evs) = []" "(rank \<in> hs_reported s') = (rank \<in> hs_reported s)"
      using none [OF k] by blast+
  qed (rule run ih(2-5))+
qed simp

lemma deaths_Cons: "deaths st cur (v # vs) = deaths st cur [v] @ deaths st (finally_stale st cur [v]) vs"
  by (auto split: option.splits)

lemma poll_loop_rank:
  assumes "distinct (dkeys (hs_peers s))" "\<forall>v \<in> set views. \<forall>(r, p) \<in> set (hs_peers s). readable J v p" "hs_running s"
  shows "\<exists>evs s'. poll_loop J views s = (None, evs, s') \<and>
    (\<forall>rank path. (rank, path) \<in> set (hs_peers s) \<longrightarrow>
       filter (\<lambda>e. ev_rank e = rank) evs = map (\<lambda>v. dead_event v (hs_own_rank s) rank)
         (deaths (peer_stale J (hs_timeout s) path) (rank \<in> hs_reported s) views) \<and>
       (rank \<in> hs_reported s' \<longleftrightarrow> finally_stale (peer_stale J (hs_timeout s) path) (rank \<in> hs_reported s) views)) \<and>
    (\<forall>rank. rank \<notin> set (dkeys (hs_peers s)) \<longrightarrow> filter (\<lambda>e. ev_rank e = rank) evs = [])"
  using assms
proof (induction views arbitrary: s)
  case (Cons v views)
  have rd: "\<forall>(r, p) \<in> set (hs_peers s). readable J v p" using Cons.prems(2) by simp
  from poll_peers_rank [OF Cons.prems(1) rd, of s] obtain evs s1 where
    pass: "poll_pass J v s = (None, evs, s1)" and fr: "hs_timeout s1 = hs_timeout s" "hs_peers s1 = hs_peers s"
      "hs_own_rank s1 = hs_own_rank s" "hs_running s1 = hs_running s"
    and one: "\<And>rank path. (rank, path) \<in> set (hs_peers s) \<Longrightarrow>
       filter (\<lambda>e. ev_rank e = rank) evs = map (\<lambda>v. dead_event v (hs_own_rank s) rank)
         (deaths (peer_stale J (hs_timeout s) path) (rank \<in> hs_reported s) [v]) \<and>
       (rank \<in> hs_reported s1 \<longleftrightarrow> finally_stale (peer_stale J (hs_timeout s) path) (rank \<in> hs_reported s) [v])"
    and none: "\<And>rank. rank \<notin> set (dkeys (hs_peers s)) \<Longrightarrow> filter (\<lambda>e. ev_rank e = rank) evs = []"
    unfolding poll_pass_def by blast
  from Cons.IH [of s1] Cons.prems obtain evs' s2 where
    rest: "poll_loop J views s1 = (None, evs', s2)"
      "\<And>rank path. (rank, path) \<in> set (hs_peers s) \<Longrightarrow>
       filter (\<lambda>e. ev_rank e = rank) evs' = map (\<lambda>v. dead_event v (hs_own_rank s) rank)
         (deaths (peer_stale J (hs_timeout s) path) (rank \<in> hs_reported s1) views) \<and>
       (rank \<in> hs_reported s2 \<longleftrightarrow> finally_stale (peer_stale J (hs_timeout s) path) (rank \<in> hs_reported s1) views)"
      "\<And>rank. rank \<notin> set (dkeys (hs_peers s)) \<Longrightarrow> filter (\<lambda>e. ev_rank e = rank) evs' = []"
    unfolding fr by auto
  have run: "poll_loop J (v # views) s = (None, evs @ evs', s2)"
    using Cons.prems(3) by (simp add: pass rest(1))
  show ?case
  proof (rule exI [of _ "evs @ evs'"], rule exI [of _ s2], intro conjI allI impI)
    fix rank path assume m: "(rank, path) \<in> set (hs_peers s)"
    show "filter (\<lambda>e. ev_rank e = rank) (evs @ evs') = map (\<lambda>v. dead_event v (hs_own_rank s) rank)
         (deaths (peer_stale J (hs_timeout s) path) (rank \<in> hs_reported s) (v # views))"
      unfolding deaths_Cons [of _ _ v views] filter_append map_append using one [OF m] rest(2) [OF m] by simp
    show "(rank \<in> hs_reported s2) = finally_stale (peer_stale J (hs_timeout s) path) (rank \<in> hs_reported s) (v # views)"
      using one [OF m] rest(2) [OF m] by simp
  next
    fix rank assume k: "rank \<notin> set (dkeys (hs_peers s))"
    show "filter (\<lambda>e. ev_rank e = rank) (evs @ evs') = []" using none [OF k] rest(3) [OF k] by simp
  qed (rule run)
qed simp

text \<open>
  C31. Every death is reported once: over any run of the poll loop in which the heartbeat files
  can be read or do not exist yet, the loop never raises; for every peer the events
  published are one per death, that is per view in which its heartbeat is older than the
  timeout while it was fresh, or unseen, when last looked at, so a long outage is reported
  once and a second death after a resumed heartbeat again; a peer that has never written a
  heartbeat is not reported, nor is the sensor's own rank.
\<close>

theorem deaths_reported_once:
  assumes "distinct (dkeys paths)" "\<forall>v \<in> set views. \<forall>(r, p) \<in> set paths. readable J v p"
  shows "\<exists>evs s. poll_loop J views (sensor_start (sensor_init own paths timeout)) = (None, evs, s) \<and>
    (\<forall>rank path. dget paths rank = Some path \<longrightarrow> rank \<noteq> own \<longrightarrow>
       filter (\<lambda>e. ev_rank e = rank) evs =
         map (\<lambda>v. dead_event v own rank) (deaths (peer_stale J timeout path) False views) \<and>
       (rank \<in> hs_reported s \<longleftrightarrow> finally_stale (peer_stale J timeout path) False views)) \<and>
    (\<forall>rank. rank = own \<or> dget paths rank = None \<longrightarrow> filter (\<lambda>e. ev_rank e = rank) evs = [])"
proof -
  let ?s = "sensor_start (sensor_init own paths timeout)"
  have s: "hs_peers ?s = filter (\<lambda>(rank, path). rank \<noteq> own) paths" "hs_running ?s" "hs_reported ?s = {}"
    "hs_timeout ?s = timeout" "hs_own_rank ?s = own"
    by (simp_all add: sensor_start_def sensor_init_def)
  have d: "distinct (dkeys (hs_peers ?s))" unfolding s(1) by (rule distinct_map_filter [OF assms(1)])
  have r: "\<forall>v \<in> set views. \<forall>(r, p) \<in> set (hs_peers ?s). readable J v p" using assms(2) by (auto simp: s(1))
  have m: "(rank, path) \<in> set (hs_peers ?s) \<longleftrightarrow> dget paths rank = Some path \<and> rank \<noteq> own" for rank path
    using assms(1) by (auto simp: s(1) map_of_eq_Some_iff)
  have n: "rank \<notin> set (dkeys (hs_peers ?s))" if "rank = own \<or> dget paths rank = None" for rank
    using that by (auto simp: s(1) map_of_eq_None_iff image_iff)
  from poll_loop_rank [OF d r s(2)] show ?thesis
    unfolding m s(3-5) using n by fastforce
qed

definition frozen_json :: json_lib where
  "frozen_json = \<lparr>js_dumps = (\<lambda>v. ''{}''), js_loads = (\<lambda>s. Inr (heartbeat_value \<lparr>hb_wall_clock = 0, hb_step = 7\<rparr>))\<rparr>"

definition view_at :: "real \<Rightarrow> poll_view" where
  "view_at now = \<lparr>pv_now = now, pv_file = (\<lambda>p. Some ''{}''), pv_detect_clock = (\<lambda>r. now), pv_epoch = 3, pv_stamp = now\<rparr>"

lemma frozen_reads: "heartbeat_read frozen_json (pv_file (view_at now) path) = Inr (Some \<lparr>hb_wall_clock = 0, hb_step = 7\<rparr>)"
  by (simp add: heartbeat_read_def frozen_json_def view_at_def heartbeat_value_def field_def)

theorem deaths_reported_once_witness:
  "\<exists>evs s. poll_loop frozen_json (map view_at [1, 9, 10])
       (sensor_start (sensor_init 0 [(0, ''h0''), (1, ''h1'')] 5)) = (None, evs, s) \<and>
     filter (\<lambda>e. ev_rank e = 1) evs = [dead_event (view_at 9) 0 1] \<and> 1 \<in> hs_reported s"
proof -
  have rd: "\<forall>v \<in> set (map view_at [1, 9, 10]). \<forall>(r, p) \<in> set [(0::int, ''h0''), (1, ''h1'')]. readable frozen_json v p"
    by (simp add: readable_def frozen_reads)
  have st: "peer_stale frozen_json 5 p (view_at now) = Some (now > 5)" for p now
    by (simp add: peer_stale_def frozen_reads) (simp add: view_at_def)
  have d: "distinct (dkeys [(0::int, ''h0''), (1, ''h1'')])" by simp
  from deaths_reported_once [OF d rd, of 0 5] obtain evs s where
    run: "poll_loop frozen_json (map view_at [1, 9, 10])
       (sensor_start (sensor_init 0 [(0, ''h0''), (1, ''h1'')] 5)) = (None, evs, s)"
    and "\<forall>rank path. dget [(0, ''h0''), (1, ''h1'')] rank = Some path \<longrightarrow> rank \<noteq> 0 \<longrightarrow>
       filter (\<lambda>e. ev_rank e = rank) evs =
         map (\<lambda>v. dead_event v 0 rank) (deaths (peer_stale frozen_json 5 path) False (map view_at [1, 9, 10])) \<and>
       (rank \<in> hs_reported s \<longleftrightarrow> finally_stale (peer_stale frozen_json 5 path) False (map view_at [1, 9, 10]))"
    by blast
  from this(2) [rule_format, of 1 "''h1''"] run show ?thesis by (simp add: st)
qed

end
