(* ===== verification/W1_Training.thy ===== *)
theory W1_Training
  imports Public_Api Heartbeat_Sensor Align
begin

text \<open>
  The training script of a real run (\<open>realbench/training/w1_llama7b.py\<close>) around its torch
  calls: the environment, the AEGIS set-up with the heartbeat sensor and the ring of ranks, the
  GPU pre-flight check, the manifest, the step loop with its logs and its halt, the dump of the
  engine's history, and the teardown. What torch does in a step (a result or an exception) is
  the argument \<open>world\<close>; the printed form of an engine message is \<open>msg_str\<close>.
\<close>

subsection \<open>Settings\<close>

record model_dims =
  md_hidden_size :: int
  md_num_hidden_layers :: int
  md_num_attention_heads :: int
  md_intermediate_size :: int
  md_vocab_size :: int

definition real_model_dims :: model_dims where
  "real_model_dims = \<lparr>md_hidden_size = 4096, md_num_hidden_layers = 32, md_num_attention_heads = 32,
     md_intermediate_size = 11008, md_vocab_size = 32000\<rparr>"

definition tiny_model_dims :: model_dims where
  "tiny_model_dims = \<lparr>md_hidden_size = 64, md_num_hidden_layers = 2, md_num_attention_heads = 2,
     md_intermediate_size = 128, md_vocab_size = 100\<rparr>"

record train_args =
  ta_steps :: int
  ta_log_dir :: string
  ta_checkpoint_dir :: "string option"
  ta_aegis_enabled :: bool
  ta_aegis_policy_path :: string
  ta_seed :: int
  ta_batch_size :: int
  ta_seq_len :: int
  ta_heartbeat_timeout :: real
  ta_collective_timeout :: real
  ta_setup_timeout :: real
  ta_tiny :: bool

definition env_int :: "(string, string) dict \<Rightarrow> string \<Rightarrow> int \<Rightarrow> pyexc + int" where
  "env_int environ name dflt =
    (case dget environ name of None \<Rightarrow> Inr dflt
     | Some s \<Rightarrow> (case parse_int s of None \<Rightarrow> Inl ValueErr | Some i \<Rightarrow> Inr i))"

definition estimate_param_bytes :: "model_dims \<Rightarrow> int \<Rightarrow> int" where
  "estimate_param_bytes dims bytes_per_param =
    (let h = md_hidden_size dims;
         per_layer = 4 * h * h + 3 * h * md_intermediate_size dims;
         embed_and_head = 2 * md_vocab_size dims * h
     in (embed_and_head + md_num_hidden_layers dims * per_layer) * bytes_per_param)"

text \<open>The free and total bytes of the GPU; \<open>None\<close> on a CPU.\<close>

definition preflight_gpu_check :: "(int \<times> int) option \<Rightarrow> model_dims \<Rightarrow> pyexc + unit" where
  "preflight_gpu_check device dims =
    (case device of None \<Rightarrow> Inr ()
     | Some (free, total_bytes) \<Rightarrow>
         (if free < trunc (of_int (estimate_param_bytes dims 4) * (11 / 10)) then Inl RuntimeErr else Inr ()))"

definition parallelism_of :: "int \<Rightarrow> bool \<Rightarrow> string" where
  "parallelism_of world_size cuda =
    (if world_size > 1 \<and> cuda then ''DP(FSDP)''
     else if world_size > 1 then ''DP(DDP)-local-smoke-test-only''
     else ''single-process (no wrapping)'')"

definition dims_value :: "model_dims \<Rightarrow> pyval" where
  "dims_value d = PDict [(''hidden_size'', PInt (md_hidden_size d)), (''num_hidden_layers'', PInt (md_num_hidden_layers d)),
     (''num_attention_heads'', PInt (md_num_attention_heads d)), (''intermediate_size'', PInt (md_intermediate_size d)),
     (''vocab_size'', PInt (md_vocab_size d))]"

definition run_manifest :: "train_args \<Rightarrow> int \<Rightarrow> bool \<Rightarrow> model_dims \<Rightarrow> pyval" where
  "run_manifest a world_size cuda dims =
    PDict [(''aegis_enabled'', PBool (ta_aegis_enabled a)), (''parallelism'', PStr (parallelism_of world_size cuda)),
      (''world_size'', PInt world_size), (''batch_size'', PInt (ta_batch_size a)), (''seq_len'', PInt (ta_seq_len a)),
      (''seed'', PInt (ta_seed a)), (''collective_timeout_secs'', PFloat (ta_collective_timeout a)),
      (''heartbeat_timeout_secs'', PFloat (ta_heartbeat_timeout a)), (''tiny_debug_run'', PBool (ta_tiny a)),
      (''model_dims'', dims_value dims)]"

subsection \<open>AEGIS on a rank\<close>

definition heartbeat_paths :: "string \<Rightarrow> nat \<Rightarrow> (int, string) dict" where
  "heartbeat_paths log_dir world_size =
    map (\<lambda>r. (int r, log_dir @ ''/heartbeat_rank'' @ nat_str r @ ''.json'')) [0..<world_size]"

definition register_ring :: "nat \<Rightarrow> compute_layer \<Rightarrow> compute_layer" where
  "register_ring world_size lay =
    fold (\<lambda>i. register_neighbor (rank_node (int i)) (rank_node (int ((i + 1) mod world_size)))) [0..<world_size] lay"

definition with_ring :: "nat \<Rightarrow> runtime \<Rightarrow> runtime" where
  "with_ring world_size rt =
    rt\<lparr>rt_epe := (rt_epe rt)\<lparr>en_world := (en_world (rt_epe rt))
      \<lparr>aw_compute := register_ring world_size (aw_compute (en_world (rt_epe rt)))\<rparr>\<rparr>\<rparr>"

text \<open>The set-up of an AEGIS-enabled rank: \<open>aegis.init\<close>, the sensor started on its loop, the ring.\<close>

definition setup_aegis ::
  "runtime_env \<Rightarrow> pyexc + operator_policy \<Rightarrow> bool \<Rightarrow> nat \<Rightarrow> train_args \<Rightarrow> int \<Rightarrow> nat \<Rightarrow> aegis_state \<Rightarrow>
   (pyexc + rank_sensor) \<times> aegis_state" where
  "setup_aegis env loaded start_ok new_loop a rank world_size st =
    (case aegis_init env None ''active'' loaded None start_ok new_loop st of
       (Inl x, st1) \<Rightarrow> (Inl x, st1)
     | (Inr _, st1) \<Rightarrow>
         (case as_runtime st1 of
            None \<Rightarrow> (Inl AttributeErr, st1)
          | Some rt \<Rightarrow>
              (Inr (sensor_start (sensor_init rank (heartbeat_paths (ta_log_dir a) world_size) (ta_heartbeat_timeout a))),
               st1\<lparr>as_runtime := Some (with_ring world_size rt)\<rparr>)))"

subsection \<open>The step loop\<close>

record exn =
  ex_name :: string
  ex_detail :: string
  ex_traceback :: string

text \<open>
  A step completes (the clocks of its heartbeat and its log record, and the loss), or raises
  before its heartbeat is written, or after it; the clock of a failure is that of the halt record.
\<close>

datatype step_outcome =
    StepDone real real real
  | FailsEarly exn real
  | FailsLate real exn real

text \<open>
  The files a rank writes. \<open>training_halt.jsonl\<close> is one file of the whole job, to which every
  rank that halts appends a row: here it has the rows that were in it and those of this rank;
  rows other ranks append meanwhile are not modelled.
\<close>

record train_files =
  tr_heartbeat :: text_file
  tr_step_log :: text_file
  tr_halt_log :: text_file
  tr_epe_history :: text_file

definition halt_value :: "int \<Rightarrow> int \<Rightarrow> exn \<Rightarrow> real \<Rightarrow> pyval" where
  "halt_value rank step exc clock =
    PDict [(''wall_clock'', PFloat clock), (''rank'', PInt rank), (''last_completed_step'', PInt (step - 1)),
      (''reason'', PStr (ex_name exc)), (''detail'', PStr (ex_detail exc)), (''traceback'', PStr (ex_traceback exc))]"

definition history_value :: "(message \<Rightarrow> string) \<Rightarrow> fault_record \<Rightarrow> pyval" where
  "history_value msg_str r =
    PDict [(''epoch'', PInt (fr_epoch r)), (''fault_signal'', PStr (signal_value (ev_signal (fr_event r)))),
      (''node'', PStr (ev_node (fr_event r))), (''original_tier'', PStr (tier_name (fr_original_tier r))),
      (''final_tier'', PStr (tier_name (fr_final_tier r))), (''escalated'', PBool (fr_escalated r)),
      (''success'', PBool (case fr_result r of None \<Rightarrow> False | Some res \<Rightarrow> rr_success res)),
      (''degraded'', PBool (case fr_result r of None \<Rightarrow> False | Some res \<Rightarrow> rr_degraded res)),
      (''recovery_secs'', case fr_result r of None \<Rightarrow> PNone | Some res \<Rightarrow> PFloat (rr_recovery_secs res)),
      (''message'', PStr (case fr_result r of None \<Rightarrow> [] | Some res \<Rightarrow> msg_str (rr_message res)))]"

definition dump_epe_history ::
  "json_lib \<Rightarrow> (message \<Rightarrow> string) \<Rightarrow> runtime option \<Rightarrow> text_file \<Rightarrow> text_file" where
  "dump_epe_history J msg_str rt f =
    (case rt of None \<Rightarrow> f
     | Some r \<Rightarrow> Some (js_dumps J (PList (map (history_value msg_str) (en_history (rt_epe r))))))"

definition complete_step :: "json_lib \<Rightarrow> int \<Rightarrow> int \<Rightarrow> real \<Rightarrow> real \<Rightarrow> real \<Rightarrow> train_files \<Rightarrow> train_files" where
  "complete_step J rank step hb_clock clock loss s =
    s\<lparr>tr_heartbeat := heartbeat_touch J \<lparr>hb_wall_clock = hb_clock, hb_step = step\<rparr> (tr_heartbeat s),
      tr_step_log := (if rank = 0 then step_write J \<lparr>sr_wall_clock = clock, sr_global_step = step, sr_loss = loss\<rparr> (tr_step_log s)
        else tr_step_log s)\<rparr>"

definition halt_step ::
  "json_lib \<Rightarrow> (message \<Rightarrow> string) \<Rightarrow> runtime option \<Rightarrow> train_args \<Rightarrow> int \<Rightarrow> int \<Rightarrow> exn \<Rightarrow> real \<Rightarrow> train_files \<Rightarrow> train_files" where
  "halt_step J msg_str rt a rank step exc clock s =
    s\<lparr>tr_halt_log := append_jsonl J (halt_value rank step exc clock) (tr_halt_log s),
      tr_epe_history := (if ta_aegis_enabled a then dump_epe_history J msg_str rt (tr_epe_history s) else tr_epe_history s)\<rparr>"

fun train_loop ::
  "json_lib \<Rightarrow> (message \<Rightarrow> string) \<Rightarrow> runtime option \<Rightarrow> train_args \<Rightarrow> int \<Rightarrow> (int \<Rightarrow> step_outcome) \<Rightarrow> int list \<Rightarrow>
   train_files \<Rightarrow> train_files" where
  "train_loop J msg_str rt a rank world [] s = s"
| "train_loop J msg_str rt a rank world (step # steps) s =
    (case world step of
       StepDone hb_clock clock loss \<Rightarrow>
         train_loop J msg_str rt a rank world steps (complete_step J rank step hb_clock clock loss s)
     | FailsEarly exc clock \<Rightarrow> halt_step J msg_str rt a rank step exc clock s
     | FailsLate hb_clock exc clock \<Rightarrow>
         halt_step J msg_str rt a rank step exc clock
           (s\<lparr>tr_heartbeat := heartbeat_touch J \<lparr>hb_wall_clock = hb_clock, hb_step = step\<rparr> (tr_heartbeat s)\<rparr>))"

definition step_range :: "int \<Rightarrow> int list" where
  "step_range steps = map int [0..<nat steps]"

subsection \<open>The whole run of a rank\<close>

text \<open>
  Waiting five seconds for \<open>sensor.stop()\<close> on AEGIS's loop: it returns, or the wait raises (a
  timeout, an exception of the coroutine, a closed loop) after the coroutine has begun to run or
  before it has.
\<close>

datatype stop_reply = StopReturned | StopRaised bool

text \<open>
  What torch.distributed and CUDA answer: the exceptions of \<open>init_process_group\<close>,
  \<open>destroy_process_group\<close> and \<open>torch.cuda.empty_cache\<close>, if any; and the reply to the stop.
\<close>

record group_env =
  ge_init :: "pyexc option"
  ge_stop :: stop_reply
  ge_destroy :: "pyexc option"
  ge_empty_cache :: "pyexc option"

datatype teardown_call = Stop_Sensor | Destroy_Group | Empty_Cache

text \<open>\<open>rk_teardown\<close> lists the calls the teardown made, in their order.\<close>

record rank_run =
  rk_error :: "pyexc option"
  rk_pid_file :: text_file
  rk_manifest :: text_file
  rk_files :: train_files
  rk_sensor :: "rank_sensor option"
  rk_teardown :: "teardown_call list"
  rk_group_destroyed :: bool
  rk_cache_emptied :: bool

text \<open>
  The \<open>finally\<close> block. The exceptions of the stop and of the release of the group are caught and
  dropped; one of emptying the CUDA cache is not, and takes the place of the run's own.
\<close>

definition stop_rank_sensor :: "group_env \<Rightarrow> rank_run \<Rightarrow> rank_run" where
  "stop_rank_sensor g r =
    (case rk_sensor r of
       None \<Rightarrow> r
     | Some s \<Rightarrow>
         (let begun = (case ge_stop g of StopReturned \<Rightarrow> True | StopRaised b \<Rightarrow> b)
          in r\<lparr>rk_sensor := Some (if begun then sensor_stop s else s), rk_teardown := rk_teardown r @ [Stop_Sensor]\<rparr>))"

definition destroy_group :: "group_env \<Rightarrow> rank_run \<Rightarrow> rank_run" where
  "destroy_group g r =
    r\<lparr>rk_group_destroyed := (ge_destroy g = None), rk_teardown := rk_teardown r @ [Destroy_Group]\<rparr>"

definition empty_cuda_cache :: "group_env \<Rightarrow> rank_run \<Rightarrow> rank_run" where
  "empty_cuda_cache g r =
    (let r1 = r\<lparr>rk_teardown := rk_teardown r @ [Empty_Cache]\<rparr>
     in case ge_empty_cache g of None \<Rightarrow> r1\<lparr>rk_cache_emptied := True\<rparr> | Some x \<Rightarrow> r1\<lparr>rk_error := Some x\<rparr>)"

definition teardown :: "group_env \<Rightarrow> bool \<Rightarrow> rank_run \<Rightarrow> rank_run" where
  "teardown g cuda r =
    (let r1 = destroy_group g (stop_rank_sensor g r) in if cuda then empty_cuda_cache g r1 else r1)"

text \<open>From the pre-flight check on; \<open>build\<close> is the exception of building the model, if any.\<close>

definition train_rank ::
  "json_lib \<Rightarrow> (message \<Rightarrow> string) \<Rightarrow> train_args \<Rightarrow> int \<Rightarrow> int \<Rightarrow> int \<Rightarrow> (int \<times> int) option \<Rightarrow>
   group_env \<Rightarrow> pyexc option \<Rightarrow> (int \<Rightarrow> step_outcome) \<Rightarrow> rank_sensor option \<Rightarrow> runtime option \<Rightarrow> train_files \<Rightarrow>
   rank_run" where
  "train_rank J msg_str a rank world_size pid device grp build world sensor rt files =
    (let dims = (if ta_tiny a then tiny_model_dims else real_model_dims);
         cuda = (device \<noteq> None);
         run = \<lparr>rk_error = None, rk_pid_file = None, rk_manifest = None, rk_files = files, rk_sensor = sensor,
                rk_teardown = [], rk_group_destroyed = False, rk_cache_emptied = False\<rparr>
     in case preflight_gpu_check device dims of
          Inl x \<Rightarrow> run\<lparr>rk_error := Some x\<rparr>
        | Inr _ \<Rightarrow>
            (case ge_init grp of
               Some x \<Rightarrow> run\<lparr>rk_error := Some x\<rparr>
             | None \<Rightarrow>
                 (let run1 = run\<lparr>rk_pid_file := Some (int_str pid)\<rparr>
                  in case build of
                       Some x \<Rightarrow> teardown grp cuda (run1\<lparr>rk_error := Some x\<rparr>)
                     | None \<Rightarrow>
                         (let files1 = (if rank = 0 then files\<lparr>tr_step_log := append_text [] (tr_step_log files)\<rparr> else files)
                          in teardown grp cuda
                               (run1\<lparr>rk_manifest := (if rank = 0 then Some (js_dumps J (run_manifest a world_size cuda dims))
                                   else None),
                                 rk_files := train_loop J msg_str rt a rank world (step_range (ta_steps a)) files1\<rparr>)))))"

subsection \<open>The main of the script\<close>

text \<open>The bootstrap: the backend, the device (\<open>None\<close> is the CPU) and the environment left.\<close>

record rank_boot =
  bo_backend :: string
  bo_device :: "int option"
  bo_environ :: "(string, string) dict"

definition bootstrap :: "bool \<Rightarrow> int \<Rightarrow> (string, string) dict \<Rightarrow> rank_boot" where
  "bootstrap use_cuda local_rank environ =
    \<lparr>bo_backend = (if use_cuda then ''nccl'' else ''gloo''),
     bo_device = (if use_cuda then Some local_rank else None),
     bo_environ = (if use_cuda \<and> dget environ ''TORCH_NCCL_BLOCKING_WAIT'' = None
       then dset ''TORCH_NCCL_BLOCKING_WAIT'' ''1'' environ else environ)\<rparr>"

text \<open>What \<open>_build_model\<close> asks of transformers and torch: a configuration and a wrapper.\<close>

record llama_config =
  lc_dims :: model_dims
  lc_max_position_embeddings :: int

datatype wrapping = FSDP | DDP | Unwrapped

definition llama_config_of :: "model_dims \<Rightarrow> int \<Rightarrow> llama_config" where
  "llama_config_of dims seq_len = \<lparr>lc_dims = dims, lc_max_position_embeddings = max seq_len 512\<rparr>"

definition wrapping_of :: "int \<Rightarrow> bool \<Rightarrow> wrapping" where
  "wrapping_of world_size cuda =
    (if world_size > 1 \<and> cuda then FSDP else if world_size > 1 then DDP else Unwrapped)"

definition start_aegis ::
  "runtime_env \<Rightarrow> (string \<Rightarrow> pyexc + operator_policy) \<Rightarrow> bool \<Rightarrow> nat \<Rightarrow> train_args \<Rightarrow> int \<Rightarrow> nat \<Rightarrow> aegis_state \<Rightarrow>
   (pyexc + rank_sensor option) \<times> aegis_state" where
  "start_aegis env load start_ok new_loop a rank world_size st =
    (if ta_aegis_enabled a
     then (case setup_aegis env (load (ta_aegis_policy_path a)) start_ok new_loop a rank world_size st of
             (Inl x, st1) \<Rightarrow> (Inl x, st1) | (Inr sensor, st1) \<Rightarrow> (Inr (Some sensor), st1))
     else (Inr None, st))"

text \<open>
  The whole \<open>main\<close>. \<open>load\<close> is what reading a policy file gives, \<open>gpu\<close> is what CUDA answers for a device (\<open>None\<close> without CUDA), \<open>build\<close>
  the exception of building a model, \<open>later\<close> what AEGIS's own loop does with the runtime until
  the training ends.
\<close>

definition train_main ::
  "json_lib \<Rightarrow> (message \<Rightarrow> string) \<Rightarrow> runtime_env \<Rightarrow> (string \<Rightarrow> pyexc + operator_policy) \<Rightarrow> bool \<Rightarrow> nat \<Rightarrow> train_args \<Rightarrow>
   (string, string) dict \<Rightarrow> int \<Rightarrow> (int \<Rightarrow> int \<times> int) option \<Rightarrow> group_env \<Rightarrow>
   (llama_config \<Rightarrow> wrapping \<Rightarrow> pyexc option) \<Rightarrow> (int \<Rightarrow> step_outcome) \<Rightarrow> (runtime \<Rightarrow> runtime) \<Rightarrow> train_files \<Rightarrow>
   aegis_state \<Rightarrow> pyexc + (rank_boot \<times> rank_run)" where
  "train_main J msg_str env load start_ok new_loop a environ pid gpu grp build world later files st =
    exc_bind (env_int environ ''RANK'' 0) (\<lambda>rank.
    exc_bind (env_int environ ''LOCAL_RANK'' 0) (\<lambda>local_rank.
    exc_bind (env_int environ ''WORLD_SIZE'' 1) (\<lambda>world_size.
    case start_aegis env load start_ok new_loop a rank (nat world_size) st of
      (Inl x, st1) \<Rightarrow> Inl x
    | (Inr sensor, st1) \<Rightarrow>
        (let boot = bootstrap (gpu \<noteq> None) local_rank environ;
             dims = (if ta_tiny a then tiny_model_dims else real_model_dims)
         in Inr (boot, train_rank J msg_str a rank world_size pid (map_option (\<lambda>info. info local_rank) gpu) grp
              (build (llama_config_of dims (ta_seq_len a)) (wrapping_of world_size (gpu \<noteq> None))) world sensor
              (map_option later (as_runtime st1)) files)))))"

fun wrapping_text :: "wrapping \<Rightarrow> string" where
  "wrapping_text FSDP = ''DP(FSDP)''"
| "wrapping_text DDP = ''DP(DDP)-local-smoke-test-only''"
| "wrapping_text Unwrapped = ''single-process (no wrapping)''"

lemma parallelism_is_wrapping: "parallelism_of n cuda = wrapping_text (wrapping_of n cuda)"
  by (simp add: parallelism_of_def wrapping_of_def)

lemma teardown_effect:
  "rk_teardown (teardown g cuda r) = rk_teardown r @ (if rk_sensor r \<noteq> None then [Stop_Sensor] else []) @ [Destroy_Group] @
     (if cuda then [Empty_Cache] else [])"
  "rk_sensor (teardown g cuda r) = (if ge_stop g = StopRaised False then rk_sensor r else map_option sensor_stop (rk_sensor r))"
  "rk_group_destroyed (teardown g cuda r) \<longleftrightarrow> ge_destroy g = None"
  "rk_cache_emptied (teardown g cuda r) \<longleftrightarrow> (if cuda then ge_empty_cache g = None \<or> rk_cache_emptied r else rk_cache_emptied r)"
  "rk_error (teardown g cuda r) = (if cuda \<and> ge_empty_cache g \<noteq> None then ge_empty_cache g else rk_error r)"
  "rk_pid_file (teardown g cuda r) = rk_pid_file r" "rk_manifest (teardown g cuda r) = rk_manifest r"
  "rk_files (teardown g cuda r) = rk_files r"
  by (simp_all add: teardown_def stop_rank_sensor_def destroy_group_def empty_cuda_cache_def Let_def
      split: option.split stop_reply.split)

text \<open>Whether a rank joined the job: it passed the pre-flight check and the rendezvous.\<close>

definition joined :: "train_args \<Rightarrow> (int \<times> int) option \<Rightarrow> group_env \<Rightarrow> bool" where
  "joined a device g \<longleftrightarrow>
    preflight_gpu_check device (if ta_tiny a then tiny_model_dims else real_model_dims) = Inr () \<and> ge_init g = None"

lemma joined_rank:
  assumes "joined a dev g"
  shows "\<exists>m fs. train_rank J ms a rank ws pid dev g build world sensor rt files =
    teardown g (dev \<noteq> None) \<lparr>rk_error = build, rk_pid_file = Some (int_str pid), rk_manifest = m, rk_files = fs,
      rk_sensor = sensor, rk_teardown = [], rk_group_destroyed = False, rk_cache_emptied = False\<rparr> \<and>
    (\<forall>t. m = Some t \<longrightarrow> rank = 0 \<and> build = None \<and>
      t = js_dumps J (run_manifest a ws (dev \<noteq> None) (if ta_tiny a then tiny_model_dims else real_model_dims)))"
  using assms by (cases build) (auto simp: joined_def train_rank_def Let_def)

lemma turned_away_rank:
  assumes "\<not> joined a dev g"
  shows "\<exists>x. train_rank J ms a rank ws pid dev g build world sensor rt files =
    \<lparr>rk_error = Some x, rk_pid_file = None, rk_manifest = None, rk_files = files,
      rk_sensor = sensor, rk_teardown = [], rk_group_destroyed = False, rk_cache_emptied = False\<rparr>"
  using assms by (cases "ta_tiny a") (auto simp: joined_def train_rank_def Let_def split: sum.splits option.splits)

lemma train_rank_manifest:
  assumes "rk_manifest (train_rank J ms a rank ws pid dev g build world sensor rt files) = Some t"
  shows "rank = 0 \<and> build = None \<and>
    t = js_dumps J (run_manifest a ws (dev \<noteq> None) (if ta_tiny a then tiny_model_dims else real_model_dims))"
proof (cases "joined a dev g")
  case True
  from joined_rank [OF this, of J ms rank ws pid build world sensor rt files] assms show ?thesis
    by (auto simp: teardown_effect)
next
  case False
  from turned_away_rank [OF this, of J ms rank ws pid build world sensor rt files] assms show ?thesis by auto
qed

lemma rank_torn_down:
  assumes "sensor \<noteq> None \<longleftrightarrow> ta_aegis_enabled a" "\<forall>s. sensor = Some s \<longrightarrow> hs_running s"
    and "r = train_rank J ms a rank ws pid dev g be world sensor rt files"
  shows "(rk_sensor r \<noteq> None \<longleftrightarrow> ta_aegis_enabled a) \<and>
      (if preflight_gpu_check dev (if ta_tiny a then tiny_model_dims else real_model_dims) = Inr () \<and> ge_init g = None
         then rk_pid_file r = Some (int_str pid) \<and>
           rk_teardown r = (if ta_aegis_enabled a then [Stop_Sensor] else []) @ [Destroy_Group] @ (if dev \<noteq> None then [Empty_Cache] else []) \<and>
           rk_error r = (if dev \<noteq> None \<and> ge_empty_cache g \<noteq> None then ge_empty_cache g else be) \<and>
           (rk_group_destroyed r \<longleftrightarrow> ge_destroy g = None) \<and>
           (rk_cache_emptied r \<longleftrightarrow> dev \<noteq> None \<and> ge_empty_cache g = None) \<and>
           (\<forall>s. rk_sensor r = Some s \<longrightarrow> (hs_running s \<longleftrightarrow> ge_stop g = StopRaised False))
         else rk_pid_file r = None \<and> rk_error r \<noteq> None \<and> rk_manifest r = None \<and> rk_teardown r = [] \<and>
           \<not> rk_group_destroyed r \<and> (\<forall>s. rk_sensor r = Some s \<longrightarrow> hs_running s))"
proof (cases "joined a dev g")
  case True
  from joined_rank [OF True, of J ms rank ws pid be world sensor rt files] obtain m fs where
    "r = teardown g (dev \<noteq> None) \<lparr>rk_error = be, rk_pid_file = Some (int_str pid), rk_manifest = m, rk_files = fs,
      rk_sensor = sensor, rk_teardown = [], rk_group_destroyed = False, rk_cache_emptied = False\<rparr>"
    unfolding assms(3) by blast
  with assms(1,2) True [unfolded joined_def] show ?thesis
    by (auto simp: teardown_effect sensor_stop_def simp del: not_None_eq)
next
  case False
  from turned_away_rank [OF False, of J ms rank ws pid be world sensor rt files] obtain x where
    "r = \<lparr>rk_error = Some x, rk_pid_file = None, rk_manifest = None, rk_files = files,
      rk_sensor = sensor, rk_teardown = [], rk_group_destroyed = False, rk_cache_emptied = False\<rparr>"
    unfolding assms(3) by blast
  with assms(1,2) False [unfolded joined_def] show ?thesis by simp
qed

text \<open>A rank has a sensor, running, exactly when AEGIS is enabled.\<close>

lemma start_aegis_sensor:
  assumes "start_aegis env load start_ok new_loop a rank n st = (Inr sensor, st1)"
  shows "sensor \<noteq> None \<longleftrightarrow> ta_aegis_enabled a" "sensor = Some s \<Longrightarrow> hs_running s"
  using assms
  by (auto simp: start_aegis_def setup_aegis_def sensor_start_def split: if_splits prod.splits sum.splits option.splits)

lemma train_main_run:
  assumes "train_main J ms env load start_ok new_loop a environ pid gpu grp build world later files st = Inr (boot, run)"
  shows "\<exists>rank local_rank ws sensor rt. env_int environ ''RANK'' 0 = Inr rank \<and>
    env_int environ ''LOCAL_RANK'' 0 = Inr local_rank \<and> env_int environ ''WORLD_SIZE'' 1 = Inr ws \<and>
    (sensor \<noteq> None \<longleftrightarrow> ta_aegis_enabled a) \<and> (\<forall>s. sensor = Some s \<longrightarrow> hs_running s) \<and>
    run = train_rank J ms a rank ws pid (map_option (\<lambda>info. info local_rank) gpu) grp
      (build (llama_config_of (if ta_tiny a then tiny_model_dims else real_model_dims) (ta_seq_len a))
        (wrapping_of ws (gpu \<noteq> None))) world sensor rt files"
  using assms start_aegis_sensor unfolding train_main_def exc_bind_Inr Let_def
  by (fastforce split: prod.splits sum.splits)

text \<open>
  C38. The teardown of a rank. A rank that passes the pre-flight check and the rendezvous writes
  its process id, and from then on, whatever fails, the building of the model or a training
  step, it tries everything in this order: it asks its sensor to stop, when AEGIS is on, releases
  the process group, and empties the CUDA cache when there is CUDA. A failure of the stop or of
  the release keeps none of the later calls from being made and hides no error: the error of the
  run is that of building the model, unless emptying the cache raises, which replaces it. The
  group is gone exactly when its release raised nothing, the cache exactly when emptying it did
  not, and the sensor polls on exactly when its stop failed before it had begun. A rank that
  fails before that ends with an error, writes no process id, tears nothing down and leaves its
  sensor polling. A manifest is written by rank 0 only, of a model that was built, and its
  parallelism names the wrapper the model was built with.
\<close>

theorem rank_always_torn_down:
  assumes "train_main J ms env load start_ok new_loop a environ pid gpu grp build world later files st = Inr (boot, run)"
  shows "\<exists>local_rank world_size. env_int environ ''LOCAL_RANK'' 0 = Inr local_rank \<and> env_int environ ''WORLD_SIZE'' 1 = Inr world_size \<and>
    (let dims = (if ta_tiny a then tiny_model_dims else real_model_dims);
         build_error = build (llama_config_of dims (ta_seq_len a)) (wrapping_of world_size (gpu \<noteq> None))
     in (rk_sensor run \<noteq> None \<longleftrightarrow> ta_aegis_enabled a) \<and>
        (\<forall>t. rk_manifest run = Some t \<longrightarrow> env_int environ ''RANK'' 0 = Inr 0 \<and> build_error = None \<and>
          parallelism_of world_size (gpu \<noteq> None) = wrapping_text (wrapping_of world_size (gpu \<noteq> None)) \<and>
          t = js_dumps J (run_manifest a world_size (gpu \<noteq> None) dims)) \<and>
        (if preflight_gpu_check (map_option (\<lambda>info. info local_rank) gpu) dims = Inr () \<and> ge_init grp = None
         then rk_pid_file run = Some (int_str pid) \<and>
           rk_teardown run = (if ta_aegis_enabled a then [Stop_Sensor] else []) @ [Destroy_Group] @ (if gpu \<noteq> None then [Empty_Cache] else []) \<and>
           rk_error run = (if gpu \<noteq> None \<and> ge_empty_cache grp \<noteq> None then ge_empty_cache grp else build_error) \<and>
           (rk_group_destroyed run \<longleftrightarrow> ge_destroy grp = None) \<and>
           (rk_cache_emptied run \<longleftrightarrow> gpu \<noteq> None \<and> ge_empty_cache grp = None) \<and>
           (\<forall>s. rk_sensor run = Some s \<longrightarrow> (hs_running s \<longleftrightarrow> ge_stop grp = StopRaised False))
         else rk_pid_file run = None \<and> rk_error run \<noteq> None \<and> rk_manifest run = None \<and> rk_teardown run = [] \<and>
           \<not> rk_group_destroyed run \<and> (\<forall>s. rk_sensor run = Some s \<longrightarrow> hs_running s)))"
proof -
  let ?build = "\<lambda>ws. build (llama_config_of (if ta_tiny a then tiny_model_dims else real_model_dims) (ta_seq_len a))
    (wrapping_of ws (gpu \<noteq> None))"
  from train_main_run [OF assms] obtain rank local_rank ws sensor rt where
    env: "env_int environ ''RANK'' 0 = Inr rank" "env_int environ ''LOCAL_RANK'' 0 = Inr local_rank"
      "env_int environ ''WORLD_SIZE'' 1 = Inr ws" and
    sensor: "sensor \<noteq> None \<longleftrightarrow> ta_aegis_enabled a" "\<forall>s. sensor = Some s \<longrightarrow> hs_running s" and
    run: "run = train_rank J ms a rank ws pid (map_option (\<lambda>info. info local_rank) gpu) grp (?build ws) world sensor rt files"
    by blast
  have dev: "map_option (\<lambda>info. info local_rank) gpu \<noteq> None \<longleftrightarrow> gpu \<noteq> None" by simp
  have manifest: "\<forall>t. rk_manifest run = Some t \<longrightarrow> env_int environ ''RANK'' 0 = Inr 0 \<and> ?build ws = None \<and>
      parallelism_of ws (gpu \<noteq> None) = wrapping_text (wrapping_of ws (gpu \<noteq> None)) \<and>
      t = js_dumps J (run_manifest a ws (gpu \<noteq> None) (if ta_tiny a then tiny_model_dims else real_model_dims))"
  proof (intro allI impI)
    fix t
    assume "rk_manifest run = Some t"
    from train_rank_manifest [OF this [unfolded run], unfolded dev]
    have "rank = 0" "?build ws = None"
      "t = js_dumps J (run_manifest a ws (gpu \<noteq> None) (if ta_tiny a then tiny_model_dims else real_model_dims))"
      by iprover+
    then show "env_int environ ''RANK'' 0 = Inr 0 \<and> ?build ws = None \<and>
      parallelism_of ws (gpu \<noteq> None) = wrapping_text (wrapping_of ws (gpu \<noteq> None)) \<and>
      t = js_dumps J (run_manifest a ws (gpu \<noteq> None) (if ta_tiny a then tiny_model_dims else real_model_dims))"
      by (intro conjI) (simp_all only: env(1) parallelism_is_wrapping)
  qed
  note torn = rank_torn_down [OF sensor run, unfolded dev]
  show ?thesis unfolding Let_def
    by (intro exI [of _ local_rank] exI [of _ ws] conjI env(2,3) manifest torn [THEN conjunct1] torn [THEN conjunct2])
qed

subsection \<open>The logs a rank leaves\<close>

definition step_done :: "(int \<Rightarrow> step_outcome) \<Rightarrow> int \<Rightarrow> bool" where
  "step_done world i = (case world i of StepDone h c l \<Rightarrow> True | _ \<Rightarrow> False)"

definition done_record :: "(int \<Rightarrow> step_outcome) \<Rightarrow> int \<Rightarrow> step_record" where
  "done_record world i =
    (case world i of StepDone h c l \<Rightarrow> \<lparr>sr_wall_clock = c, sr_global_step = i, sr_loss = l\<rparr>
     | _ \<Rightarrow> \<lparr>sr_wall_clock = 0, sr_global_step = i, sr_loss = 0\<rparr>)"

definition failure_of :: "(int \<Rightarrow> step_outcome) \<Rightarrow> int \<Rightarrow> exn \<times> real" where
  "failure_of world i =
    (case world i of FailsEarly x c \<Rightarrow> (x, c) | FailsLate h x c \<Rightarrow> (x, c)
     | StepDone h c l \<Rightarrow> (\<lparr>ex_name = [], ex_detail = [], ex_traceback = []\<rparr>, 0))"

definition completed :: "(int \<Rightarrow> step_outcome) \<Rightarrow> int \<Rightarrow> int list" where
  "completed world steps = takeWhile (step_done world) (step_range steps)"

definition halt_rows :: "int \<Rightarrow> (int \<Rightarrow> step_outcome) \<Rightarrow> int list \<Rightarrow> pyval list" where
  "halt_rows rank world rest =
    (case rest of [] \<Rightarrow> [] | i # is \<Rightarrow> [halt_value rank i (fst (failure_of world i)) (snd (failure_of world i))])"

lemma train_loop_files:
  "tr_step_log (train_loop J ms rt a 0 world steps s) =
     fold (step_write J) (map (done_record world) (takeWhile (step_done world) steps)) (tr_step_log s)"
  "tr_halt_log (train_loop J ms rt a rank world steps s) =
     fold (append_jsonl J) (halt_rows rank world (dropWhile (step_done world) steps)) (tr_halt_log s)"
  by (induction steps arbitrary: s)
     (simp_all add: step_done_def done_record_def failure_of_def halt_rows_def complete_step_def halt_step_def
       split: step_outcome.split)

lemma fold_step_write: "fold (step_write J) rs f = fold (append_jsonl J) (map step_value rs) f"
  by (induction rs arbitrary: f) (simp_all add: step_write_def append_jsonl_def)

lemma halt_value_loads:
  "halt_record_of (halt_value rank step exc clock) =
     Inr \<lparr>hr_wall_clock = clock, hr_rank = rank, hr_last_completed_step = step - 1, hr_reason = ex_name exc,
       hr_detail = ex_detail exc\<rparr>"
  by (simp add: halt_record_of_def halt_value_def field_def)

lemma load_written_steps:
  assumes "\<forall>r \<in> set rs. line_ok J (step_value r)"
  shows "load_step_log J (fold (step_write J) rs (Some [])) = Inr rs"
proof -
  have "fold (step_write J) rs (Some []) = Some (concat (map (jsonl_line J) (map step_value rs)))"
    unfolding fold_step_write fold_append_jsonl by simp
  moreover have "parse_lines J (concat (map (jsonl_line J) (map step_value rs))) = Inr (map step_value rs)"
    using assms by (intro parse_lines_jsonl) simp
  ultimately show ?thesis by (simp add: load_step_log_def read_all_def tail_new_def steps_of_values)
qed

text \<open>The files of a fresh log directory, with the step log just opened.\<close>

definition fresh_files :: train_files where
  "fresh_files = \<lparr>tr_heartbeat = None, tr_step_log = Some [], tr_halt_log = None, tr_epe_history = None\<rparr>"

definition halt_record_at :: "int \<Rightarrow> (int \<Rightarrow> step_outcome) \<Rightarrow> int \<Rightarrow> halt_record" where
  "halt_record_at rank world k =
    \<lparr>hr_wall_clock = snd (failure_of world k), hr_rank = rank, hr_last_completed_step = k - 1,
     hr_reason = ex_name (fst (failure_of world k)), hr_detail = ex_detail (fst (failure_of world k))\<rparr>"

lemma dropWhile_range:
  "dropWhile P (map int [0..<n]) =
    (if length (takeWhile P (map int [0..<n])) = n then []
     else int (length (takeWhile P (map int [0..<n]))) # map int [Suc (length (takeWhile P (map int [0..<n])))..<n])"
proof -
  define k where "k = length (takeWhile P (map int [0..<n]))"
  have k: "k \<le> n" using length_takeWhile_le [of P "map int [0..<n]"] by (simp add: k_def)
  have "dropWhile P (map int [0..<n]) = drop k (map int [0..<n])" unfolding k_def by (rule dropWhile_eq_drop)
  also have "\<dots> = map int [k..<n]" by (simp add: drop_map)
  finally show ?thesis using k unfolding k_def [symmetric] by (auto simp: upt_rec [of k])
qed

lemma takeWhile_range: "takeWhile P (map int [0..<n]) = map int [0..<length (takeWhile P (map int [0..<n]))]"
proof -
  define k where "k = length (takeWhile P (map int [0..<n]))"
  have k: "k \<le> n" using length_takeWhile_le [of P "map int [0..<n]"] by (simp add: k_def)
  have "takeWhile P (map int [0..<n]) = take k (map int [0..<n])" unfolding k_def by (rule takeWhile_eq_take)
  also have "\<dots> = map int [0..<k]" using k by (simp add: take_map)
  finally show ?thesis unfolding k_def .
qed

lemma rank_zero_logs:
  assumes "\<forall>i \<in> set (completed world steps). line_ok J (step_value (done_record world i))"
    and "\<forall>i \<in> set (step_range steps). line_ok J (halt_value 0 i (fst (failure_of world i)) (snd (failure_of world i)))"
  shows "load_step_log J (tr_step_log (train_loop J ms rt a 0 world (step_range steps) fresh_files)) =
      Inr (map (done_record world) (completed world steps))"
    and "load_halt_log J (tr_halt_log (train_loop J ms rt a 0 world (step_range steps) fresh_files)) =
      Inr (if length (completed world steps) = nat steps then []
           else [halt_record_at 0 world (int (length (completed world steps)))])"
proof -
  show "load_step_log J (tr_step_log (train_loop J ms rt a 0 world (step_range steps) fresh_files)) =
      Inr (map (done_record world) (completed world steps))"
    unfolding train_loop_files using assms(1)
    by (simp add: completed_def fresh_files_def load_written_steps)
  define k where "k = length (completed world steps)"
  have rows: "halt_rows 0 world (dropWhile (step_done world) (step_range steps)) =
      (if k = nat steps then []
       else [halt_value 0 (int k) (fst (failure_of world (int k))) (snd (failure_of world (int k)))])"
    unfolding step_range_def dropWhile_range k_def completed_def by (simp add: halt_rows_def)
  have "k \<le> nat steps"
    using length_takeWhile_le [of "step_done world" "step_range steps"] by (simp add: k_def completed_def step_range_def)
  then have ok: "\<forall>row \<in> set (halt_rows 0 world (dropWhile (step_done world) (step_range steps))). line_ok J row"
    using assms(2) unfolding rows by (auto simp: step_range_def)
  show "load_halt_log J (tr_halt_log (train_loop J ms rt a 0 world (step_range steps) fresh_files)) =
      Inr (if length (completed world steps) = nat steps then []
           else [halt_record_at 0 world (int (length (completed world steps)))])"
    unfolding train_loop_files k_def [symmetric] using ok
    by (simp add: load_halt_log_def fresh_files_def read_jsonl_appended rows halt_value_loads halt_record_at_def
        del: exc_bind_Inr)
qed

lemma completed_shape:
  "\<exists>k \<le> nat steps. completed world steps = map int [0..<k] \<and> (k < nat steps \<longrightarrow> \<not> step_done world (int k))"
proof -
  define k where "k = length (completed world steps)"
  have le: "k \<le> nat steps"
    using length_takeWhile_le [of "step_done world" "step_range steps"] by (simp add: k_def completed_def step_range_def)
  have shape: "completed world steps = map int [0..<k]"
    unfolding completed_def step_range_def k_def by (rule takeWhile_range)
  have "\<not> step_done world (int k)" if "k < nat steps"
  proof -
    have "k = length (takeWhile (step_done world) (step_range steps))" by (simp add: k_def completed_def)
    moreover have "k < length (step_range steps)" using that by (simp add: step_range_def)
    ultimately have "\<not> step_done world (step_range steps ! k)" using nth_length_takeWhile by blast
    with that show ?thesis by (simp add: step_range_def)
  qed
  with le shape show ?thesis by blast
qed

text \<open>
  The logs of rank 0 are exact: started on a fresh log directory, the step log it leaves holds
  one record per completed step, numbered from 0 without a gap, and stops before the first step
  that raised; the halt log holds nothing if all steps completed, and otherwise exactly one
  record with the exception's name and text and the number of the last completed step. (The
  hypothesis is that \<open>json\<close> prints these records on one line and reads them back.)
\<close>

theorem training_log_exact:
  assumes "\<forall>i \<in> set (completed world (ta_steps a)). line_ok J (step_value (done_record world i))"
    and "\<forall>i \<in> set (step_range (ta_steps a)).
      line_ok J (halt_value 0 i (fst (failure_of world i)) (snd (failure_of world i)))"
  shows "\<exists>k \<le> nat (ta_steps a).
    load_step_log J (tr_step_log (train_loop J ms rt a 0 world (step_range (ta_steps a)) fresh_files)) =
      Inr (map (done_record world) (map int [0..<k])) \<and>
    load_halt_log J (tr_halt_log (train_loop J ms rt a 0 world (step_range (ta_steps a)) fresh_files)) =
      Inr (if k = nat (ta_steps a) then [] else [halt_record_at 0 world (int k)]) \<and>
    (k < nat (ta_steps a) \<longrightarrow> \<not> step_done world (int k))"
proof -
  from completed_shape [of "ta_steps a" world] obtain k where k: "k \<le> nat (ta_steps a)"
    "completed world (ta_steps a) = map int [0..<k]" "k < nat (ta_steps a) \<longrightarrow> \<not> step_done world (int k)" by blast
  from k rank_zero_logs [OF assms, of ms rt a] show ?thesis by (intro exI [of _ k]) simp
qed

text \<open>
  C37. From the training halt to the report: if a fault fired after the last completed step was
  logged and no later than the halt, the alignment of the logs rank 0 left reports the job as
  halted, with the exception's text as the reason, and no recovery gap, whatever the GPU log.
  The halt log is taken as rank 0 leaves it; when other ranks halt too, their rows are in the same
  file and the reason reported is that of the first of all rows.
\<close>

theorem halted_fault_unmeasured:
  assumes "\<forall>i \<in> set (completed world (ta_steps a)). line_ok J (step_value (done_record world i))"
    and "\<forall>i \<in> set (step_range (ta_steps a)).
      line_ok J (halt_value 0 i (fst (failure_of world i)) (snd (failure_of world i)))"
    and "completed world (ta_steps a) = map int [0..<k]" "k < nat (ta_steps a)"
    and "cf_fault_fired fire" "cf_wall_clock fire \<le> snd (failure_of world (int k))"
    and "\<forall>i \<in> set (completed world (ta_steps a)). sr_wall_clock (done_record world i) \<le> cf_wall_clock fire"
  shows "\<exists>step_log halt_log.
    load_step_log J (tr_step_log (train_loop J ms rt a 0 world (step_range (ta_steps a)) fresh_files)) = Inr step_log \<and>
    load_halt_log J (tr_halt_log (train_loop J ms rt a 0 world (step_range (ta_steps a)) fresh_files)) = Inr halt_log \<and>
    al_job_halted (align_fault step_log gpus halt_log thr fire) \<and>
    al_halt_reason (align_fault step_log gpus halt_log thr fire) = Some (ex_detail (fst (failure_of world (int k)))) \<and>
    al_recovery_gap (align_fault step_log gpus halt_log thr fire) = None \<and>
    al_caveats (align_fault step_log gpus halt_log thr fire) = [NoResume]"
proof -
  let ?steps = "map (done_record world) (completed world (ta_steps a))"
  have halts: "load_halt_log J (tr_halt_log (train_loop J ms rt a 0 world (step_range (ta_steps a)) fresh_files)) =
      Inr [halt_record_at 0 world (int k)]"
    unfolding rank_zero_logs(2) [OF assms(1,2)] using assms(3,4) by simp
  have gap: "compute_recovery_gap ?steps (cf_wall_clock fire) = (None, None)"
    using recovery_gap_cases [of ?steps "cf_wall_clock fire"] resumes_in assms(7) by fastforce
  have "al_job_halted (align_fault ?steps gpus [halt_record_at 0 world (int k)] thr fire) \<and>
    al_halt_reason (align_fault ?steps gpus [halt_record_at 0 world (int k)] thr fire) =
      Some (ex_detail (fst (failure_of world (int k)))) \<and>
    al_recovery_gap (align_fault ?steps gpus [halt_record_at 0 world (int k)] thr fire) = None \<and>
    al_caveats (align_fault ?steps gpus [halt_record_at 0 world (int k)] thr fire) = [NoResume]"
    using assms(5,6) gap by (simp add: align_fault_def Let_def halt_record_at_def)
  with halts rank_zero_logs(1) [OF assms(1,2), of ms rt a] show ?thesis by blast
qed

text \<open>Step 0 completes at time 1; in step 1 a collective times out at time 9.\<close>

definition demo_world :: "int \<Rightarrow> step_outcome" where
  "demo_world i = (if i = 0 then StepDone 1 1 2
     else FailsEarly \<lparr>ex_name = ''DistBackendError'', ex_detail = ''timed out'', ex_traceback = []\<rparr> 9)"

definition demo_train_args :: train_args where
  "demo_train_args = \<lparr>ta_steps = 2, ta_log_dir = [], ta_checkpoint_dir = None, ta_aegis_enabled = False,
     ta_aegis_policy_path = ''aegis.yaml'', ta_seed = 0, ta_batch_size = 1, ta_seq_len = 1,
     ta_heartbeat_timeout = 5, ta_collective_timeout = 30, ta_setup_timeout = 600, ta_tiny = True\<rparr>"

definition demo_halt :: "int \<Rightarrow> pyval" where
  "demo_halt i = halt_value 0 i (fst (failure_of demo_world i)) (snd (failure_of demo_world i))"

definition demo_step_value :: pyval where
  "demo_step_value = step_value (done_record demo_world 0)"

definition demo_train_json :: json_lib where
  "demo_train_json = \<lparr>js_dumps = (\<lambda>v. if v = demo_step_value then ''s'' else if v = demo_halt 0 then ''0'' else ''1''),
     js_loads = (\<lambda>s. Inr (if s = ''s'' then demo_step_value else if s = ''0'' then demo_halt 0 else demo_halt 1))\<rparr>"

lemma demo_completed: "completed demo_world (ta_steps demo_train_args) = map int [0..<1]"
  by (simp add: completed_def step_range_def demo_train_args_def demo_world_def step_done_def upt_rec)

lemma demo_train_lines:
  "\<forall>i \<in> set (completed demo_world (ta_steps demo_train_args)). line_ok demo_train_json (step_value (done_record demo_world i))"
  "\<forall>i \<in> set (step_range (ta_steps demo_train_args)).
     line_ok demo_train_json (halt_value 0 i (fst (failure_of demo_world i)) (snd (failure_of demo_world i)))"
proof -
  have ne: "demo_step_value \<noteq> demo_halt i" "demo_halt 1 \<noteq> demo_halt 0" for i
    by (simp_all add: demo_step_value_def demo_halt_def step_value_def halt_value_def)
  have "line_ok demo_train_json demo_step_value" "line_ok demo_train_json (demo_halt 0)" "line_ok demo_train_json (demo_halt 1)"
    using ne ne(1) [THEN not_sym] ne(2) [THEN not_sym]
    by (simp_all add: line_ok_def demo_train_json_def newline_def is_space_def)
  then show "\<forall>i \<in> set (completed demo_world (ta_steps demo_train_args)). line_ok demo_train_json (step_value (done_record demo_world i))"
    "\<forall>i \<in> set (step_range (ta_steps demo_train_args)).
     line_ok demo_train_json (halt_value 0 i (fst (failure_of demo_world i)) (snd (failure_of demo_world i)))"
    unfolding demo_completed demo_halt_def [symmetric]
    by (simp_all add: demo_step_value_def step_range_def demo_train_args_def upt_rec)
qed

theorem training_log_exact_witness:
  "\<exists>k \<le> 2. load_step_log demo_train_json (tr_step_log (train_loop demo_train_json (\<lambda>m. []) None demo_train_args 0 demo_world
      (step_range (ta_steps demo_train_args)) fresh_files)) = Inr (map (done_record demo_world) (map int [0..<k])) \<and>
    (k < 2 \<longrightarrow> \<not> step_done demo_world (int k))"
  using training_log_exact [OF demo_train_lines, of "\<lambda>m. []" None] by (auto simp: demo_train_args_def)

definition demo_fire :: chaos_fire where
  "demo_fire = \<lparr>cf_wall_clock = 4, cf_step = 0, cf_fault_fired = True, cf_fault_signal = ''B1'', cf_target_rank = Some 1,
     cf_reason = None\<rparr>"

theorem halted_fault_unmeasured_witness:
  "\<exists>step_log halt_log.
    al_job_halted (align_fault step_log [] halt_log 5 demo_fire) \<and>
    al_halt_reason (align_fault step_log [] halt_log 5 demo_fire) = Some ''timed out'' \<and>
    al_recovery_gap (align_fault step_log [] halt_log 5 demo_fire) = None"
proof -
  have f: "failure_of demo_world (int 1) = (\<lparr>ex_name = ''DistBackendError'', ex_detail = ''timed out'', ex_traceback = []\<rparr>, 9)"
    by (simp add: failure_of_def demo_world_def)
  have "1 < nat (ta_steps demo_train_args)" "cf_fault_fired demo_fire" "cf_wall_clock demo_fire \<le> snd (failure_of demo_world (int 1))"
    "\<forall>i \<in> set (completed demo_world (ta_steps demo_train_args)). sr_wall_clock (done_record demo_world i) \<le> cf_wall_clock demo_fire"
    unfolding demo_completed f by (simp_all add: demo_train_args_def demo_fire_def done_record_def demo_world_def)
  from halted_fault_unmeasured [OF demo_train_lines demo_completed this, of "\<lambda>m. []" None "[]" 5]
  show ?thesis unfolding f by auto
qed

subsection \<open>A dead rank\<close>

lemma int_str_of_nat: "int_str (int i) = nat_str i"
  by (simp add: int_str_def)

lemma rank_node_inj [simp]: "rank_node (int i) = rank_node (int j) \<longleftrightarrow> i = j"
  by (simp add: rank_node_def int_str_of_nat)

lemma ring_fold:
  "distinct is \<Longrightarrow>
   dget (cl_topology (fold (\<lambda>i. register_neighbor (rank_node (int i)) (nb i)) is lay)) (rank_node (int k)) =
     (if k \<in> set is then Some (nb k) else dget (cl_topology lay) (rank_node (int k)))"
  by (induction "is" arbitrary: lay) (auto simp: register_neighbor_def)

lemma ring_neighbour:
  "k < n \<Longrightarrow> dget (cl_topology (register_ring n lay)) (rank_node (int k)) = Some (rank_node (int ((k + 1) mod n)))"
  unfolding register_ring_def by (subst ring_fold) simp_all

lemma ring_fallbacks: "cl_fallbacks (register_ring n lay) = cl_fallbacks lay"
proof -
  have "cl_fallbacks (fold (\<lambda>i. register_neighbor (f i) (g i)) is lay) = cl_fallbacks lay" for f g "is"
    by (induction "is" arbitrary: lay) (simp_all add: register_neighbor_def)
  then show ?thesis by (simp add: register_ring_def)
qed

lemma setup_aegis_runtime:
  assumes "setup_aegis env (Inr policy) start_ok new_loop a rank n st = (Inr sensor, st1)"
  shows "as_runtime st1 = Some (with_ring n (runtime_start (runtime_init env (Some policy))))"
    and "sensor = sensor_start (sensor_init rank (heartbeat_paths (ta_log_dir a) n) (ta_heartbeat_timeout a))"
  using assms by (auto simp: setup_aegis_def aegis_init_def valid_modes_def Let_def split: if_splits sum.splits prod.splits)

text \<open>
  The death of a rank is absorbed by its ring neighbour: on a rank set up with AEGIS in active
  mode, handling the event its sensor publishes for any dead rank of the job records one
  recovery that succeeds at tier B1, degraded, by the next rank of the ring, with the fallback
  counter of the dead rank at 1; the hypotheses are that the policy's correlation threshold is
  above 1 and that the backend absorbs for that pair.
\<close>

theorem dead_rank_absorbed_by_neighbour:
  assumes "setup_aegis env (Inr policy) start_ok new_loop a rank n st = (Inr sensor, st1)"
    and "dead < n" "1 < op_correlation_node_threshold policy"
    and "ab_success (re_absorb env (rank_node (int dead)) (rank_node (int ((dead + 1) mod n))))"
  shows "\<exists>rt r res eng'. as_runtime st1 = Some rt \<and>
    on_event now stamp (dead_event v (hs_own_rank sensor) (int dead)) (rt_epe rt) = (Inr (), eng') \<and>
    en_history eng' = [r] \<and> fr_final_tier r = B1 \<and> \<not> fr_escalated r \<and> fr_result r = Some res \<and>
    rr_success res \<and> rr_degraded res \<and>
    (\<exists>err. rr_message res = MsgAbsorbed (rank_node (int ((dead + 1) mod n))) (rank_node (int dead)) 1 err) \<and>
    dget (cl_fallbacks (aw_compute (en_world eng'))) (rank_node (int dead)) = Some 1"
proof -
  let ?node = "rank_node (int dead)" and ?nb = "rank_node (int ((dead + 1) mod n))"
  let ?ev = "dead_event v (hs_own_rank sensor) (int dead)"
  let ?rt = "with_ring n (runtime_start (runtime_init env (Some policy)))"
  let ?eng = "rt_epe ?rt" and ?base = "runtime_init env (Some policy)"
  have ev: "ev_node ?ev = ?node" "classify ?ev = B1" by (simp_all add: dead_event_def classify_eq_signal)
  have start: "rt_epe (runtime_start rt) = rt_epe rt" for rt by (simp add: runtime_start_def)
  have eng: "en_tier_to_layer ?eng = runtime_map env" "\<not> en_observe_only ?eng" "en_history ?eng = []"
    "en_recent_b1s ?eng = []" "en_policy ?eng = policy"
  proof -
    have "en_tier_to_layer ?eng = en_tier_to_layer (rt_epe ?base)" by (simp add: with_ring_def start)
    then show "en_tier_to_layer ?eng = runtime_map env" by (simp only: runtime_map_any)
  qed (simp_all add: with_ring_def start runtime_init_def Let_def engine_init_def)
  have init: "aw_compute (en_world (rt_epe ?base)) = compute_init"
    by (simp add: runtime_init_def Let_def engine_init_def initial_world_def)
  have compute: "aw_compute (en_world ?eng) = register_ring n compute_init"
    by (simp add: with_ring_def start init)
  have top: "dget (cl_topology (register_ring n compute_init)) ?node = Some ?nb" using assms(2) by (rule ring_neighbour)
  have tier: "B1 = decided_tier now ?ev ?eng"
    using assms(3) eng(4,5) ev(2) by (simp add: decided_tier_def apply_correlation_window_def Let_def)
  have "?node \<in> set (dkeys (cl_topology (register_ring n compute_init)))" using top dget_None_iff by (metis option.distinct(1))
  then have accept: "rl_can_handle (layer_at env B1) ?ev B1 (en_world ?eng)"
    by (simp add: compute_object_def compute_can_handle_def compute ev(1))
  have nb: "?nb \<noteq> []" by (simp add: rank_node_def)
  let ?lay = "(register_ring n compute_init)\<lparr>cl_fallbacks := dset ?node 1 (cl_fallbacks (register_ring n compute_init)),
      cl_last_absorption := Some (re_absorb env ?node ?nb)\<rparr>"
  let ?res = "rr_succeeded (MsgAbsorbed ?nb ?node (nat 1) (ab_low_rank_relative_error (re_absorb env ?node ?nb))) True
      (ab_elapsed_secs (re_absorb env ?node ?nb))"
  have count: "dget_or (cl_fallbacks (register_ring n compute_init)) ?node 0 + 1 = 1"
    by (simp add: ring_fallbacks compute_init_def)
  have rec: "rl_recover (layer_at env B1) ?ev B1 ep g (en_world ?eng) = (Inr ?res, (en_world ?eng)\<lparr>aw_compute := ?lay\<rparr>)" for ep g
    using assms(4) nb
    by (simp add: compute_object_def compute_recover_def Let_def compute ev(1) top count max_consecutive_fallbacks_def)
  have ok: "rr_success ?res" "rr_degraded ?res" "rr_message ?res = MsgAbsorbed ?nb ?node 1 (ab_low_rank_relative_error (re_absorb env ?node ?nb))"
    by (simp_all add: rr_succeeded_def)
  have refuse: "\<forall>u. B1 \<le> u \<and> u < B1 \<longrightarrow> \<not> rl_can_handle (layer_at env u) ?ev u (en_world ?eng)" by auto
  from event_settles_at [OF eng(1,2) tier order_refl refuse accept rec ok(1)] obtain r eng' where
    settled: "on_event now stamp ?ev ?eng = (Inr (), eng')" "en_history eng' = en_history ?eng @ [r]" "fr_final_tier r = B1"
      "fr_escalated r \<longleftrightarrow> B1 < B1" "fr_result r = Some ?res" "en_world eng' = (en_world ?eng)\<lparr>aw_compute := ?lay\<rparr>" by blast
  have "dget (cl_fallbacks (aw_compute (en_world eng'))) ?node = Some 1" by (simp add: settled(6))
  with settled eng(3) ok setup_aegis_runtime(1) [OF assms(1)] show ?thesis
    by (intro exI [of _ ?rt] exI [of _ r] exI [of _ ?res] exI [of _ eng']) simp
qed

lemma demo_setup:
  "\<exists>sensor st1. setup_aegis demo_env (Inr default_policy) True 0 demo_train_args 0 3 aegis_state_init = (Inr sensor, st1)"
  by (simp add: setup_aegis_def aegis_init_def valid_modes_def init_hooks Let_def)

theorem dead_rank_absorbed_by_neighbour_witness:
  "\<exists>(rt :: runtime) eng'. on_event 5 5 (dead_event (view_at 9) 0 2) (rt_epe rt) = (Inr (), eng') \<and>
     map fr_final_tier (en_history eng') = [B1]"
proof -
  from demo_setup obtain sensor st1 where
    run: "setup_aegis demo_env (Inr default_policy) True 0 demo_train_args 0 3 aegis_state_init = (Inr sensor, st1)" by blast
  have own: "hs_own_rank sensor = 0"
    unfolding setup_aegis_runtime(2) [OF run] by (simp add: sensor_start_def sensor_init_def)
  have "(2::nat) < 3" "1 < op_correlation_node_threshold default_policy"
    "ab_success (re_absorb demo_env (rank_node (int 2)) (rank_node (int ((2 + 1) mod 3))))"
    by (simp_all add: default_policy_def demo_env_def absorb_ok_def)
  from dead_rank_absorbed_by_neighbour [OF run this, of 5 5 "view_at 9"] obtain rt :: runtime and r eng' where
    "on_event 5 5 (dead_event (view_at 9) 0 2) (rt_epe rt) = (Inr (), eng')" "en_history eng' = [r]" "fr_final_tier r = B1"
    unfolding own by auto
  then show ?thesis by (intro exI [of _ rt] exI [of _ eng']) simp
qed

text \<open>A rank without CUDA whose model cannot be built, and whose group is broken by then.\<close>

definition broken_group :: group_env where
  "broken_group = \<lparr>ge_init = None, ge_stop = StopReturned, ge_destroy = Some RuntimeErr, ge_empty_cache = None\<rparr>"

definition sound_group :: group_env where
  "sound_group = \<lparr>ge_init = None, ge_stop = StopReturned, ge_destroy = None, ge_empty_cache = None\<rparr>"

lemma demo_unbuilt:
  "\<exists>boot run. train_main demo_train_json (\<lambda>m. []) demo_env (\<lambda>p. Inr default_policy) True 0 demo_train_args [] 77 None broken_group
     (\<lambda>c w. Some ValueErr) demo_world id fresh_files aegis_state_init = Inr (boot, run)"
  by (simp add: train_main_def env_int_def start_aegis_def demo_train_args_def Let_def del: exc_bind_Inr)

theorem rank_always_torn_down_witness:
  "\<exists>boot run. train_main demo_train_json (\<lambda>m. []) demo_env (\<lambda>p. Inr default_policy) True 0 demo_train_args [] 77 None broken_group
     (\<lambda>c w. Some ValueErr) demo_world id fresh_files aegis_state_init = Inr (boot, run) \<and>
     rk_teardown run = [Destroy_Group] \<and> rk_error run = Some ValueErr \<and> \<not> rk_group_destroyed run"
proof -
  from demo_unbuilt obtain boot run where
    run: "train_main demo_train_json (\<lambda>m. []) demo_env (\<lambda>p. Inr default_policy) True 0 demo_train_args [] 77 None broken_group
       (\<lambda>c w. Some ValueErr) demo_world id fresh_files aegis_state_init = Inr (boot, run)" by blast
  have "preflight_gpu_check None d = Inr ()" for d by (simp add: preflight_gpu_check_def)
  with rank_always_torn_down [OF run] have
    "rk_teardown run = [Destroy_Group] \<and> rk_error run = Some ValueErr \<and> \<not> rk_group_destroyed run"
    unfolding Let_def by (auto simp: broken_group_def demo_train_args_def)
  with run show ?thesis by blast
qed

end
