(* ===== verification/Gpu_Sampler.thy ===== *)
theory Gpu_Sampler
  imports Align
begin

text \<open>
  The GPU sampler (\<open>realbench/collector/gpu_sampler.py\<close>): it polls nvidia-smi and appends
  the rows to a log until a stop file appears or one of its watchdogs fires. What one poll
  finds (the stop file, the parent, the elapsed time, the outcome of nvidia-smi as the rows
  of \<open>csv.reader\<close>) is a \<open>sampler_view\<close>; a run is a list of views. The printed form of a
  float is the argument \<open>float_str\<close>.
\<close>

datatype smi_outcome = SmiRows "string list list" | SmiFailed string

record sampler_view =
  sv_stop :: bool
  sv_parent :: signal_outcome
  sv_reparented :: bool
  sv_elapsed :: real
  sv_smi :: smi_outcome
  sv_clock :: real

record sampler_args =
  sa_parent_pid :: "int option"
  sa_max_lifetime :: "real option"

definition power_of :: "string \<Rightarrow> pyexc + pyval" where
  "power_of pw =
    (if pw = [] \<or> pw = ''[N/A]'' then Inr PNone
     else case parse_float pw of None \<Rightarrow> Inl ValueErr | Some x \<Rightarrow> Inr (PFloat x))"

definition sample_row :: "real \<Rightarrow> string list \<Rightarrow> pyexc + pyval" where
  "sample_row clock line =
    (case map strip line of
       [index, util, mem_used, pw] \<Rightarrow>
         exc_bind (case parse_int index of None \<Rightarrow> Inl ValueErr | Some i \<Rightarrow> Inr i) (\<lambda>i.
         exc_bind (case parse_float util of None \<Rightarrow> Inl ValueErr | Some u \<Rightarrow> Inr u) (\<lambda>u.
         exc_bind (case parse_float mem_used of None \<Rightarrow> Inl ValueErr | Some m \<Rightarrow> Inr m) (\<lambda>m.
         exc_bind (power_of pw) (\<lambda>p.
         Inr (PDict [(''wall_clock'', PFloat clock), (''gpu_index'', PInt i), (''gpu_util_pct'', PFloat u),
           (''mem_used_mib'', PFloat m), (''power_draw_w'', p)])))))
     | _ \<Rightarrow> Inl ValueErr)"

definition sample_once :: "real \<Rightarrow> string list list \<Rightarrow> pyexc + pyval list" where
  "sample_once clock lines = exc_map (sample_row clock) (filter (\<lambda>line. line \<noteq> []) lines)"

definition exit_record :: "real \<Rightarrow> string \<Rightarrow> pyval" where
  "exit_record clock reason = PDict [(''wall_clock'', PFloat clock), (''sampler_exit'', PStr reason)]"

text \<open>The sampler's own liveness probe; it agrees with the injector's.\<close>

fun parent_alive :: "signal_outcome \<Rightarrow> bool" where
  "parent_alive Delivered = True"
| "parent_alive NoSuchProcess = False"
| "parent_alive NotPermitted = True"

lemma parent_alive_is_pid_alive: "parent_alive = pid_alive"
proof
  show "parent_alive o' = pid_alive o'" for o' by (cases o') simp_all
qed

text \<open>The watchdogs: the record to write before the loop ends, if one of them fires.\<close>

definition watchdog :: "sampler_args \<Rightarrow> sampler_view \<Rightarrow> pyval option" where
  "watchdog args v =
    (case sa_parent_pid args of
       Some pid \<Rightarrow> if \<not> parent_alive (sv_parent v)
         then Some (exit_record (sv_clock v) (''parent pid '' @ int_str pid @ '' gone - exiting to avoid orphan''))
         else None
     | None \<Rightarrow> None)"

definition reparented :: "sampler_view \<Rightarrow> pyval option" where
  "reparented v = (if sv_reparented v
     then Some (exit_record (sv_clock v) ''reparented to init (parent gone) - exiting to avoid orphan'') else None)"

definition lifetime_over :: "(real \<Rightarrow> string) \<Rightarrow> sampler_args \<Rightarrow> sampler_view \<Rightarrow> pyval option" where
  "lifetime_over float_str args v =
    (case sa_max_lifetime args of
       Some secs \<Rightarrow> if sv_elapsed v > secs
         then Some (exit_record (sv_clock v) (''max lifetime '' @ float_str secs @ ''s exceeded - exiting''))
         else None
     | None \<Rightarrow> None)"

fun first_some :: "'a option list \<Rightarrow> 'a option" where
  "first_some [] = None"
| "first_some (None # os) = first_some os"
| "first_some (Some x # os) = Some x"

definition sampler_exit :: "(real \<Rightarrow> string) \<Rightarrow> sampler_args \<Rightarrow> sampler_view \<Rightarrow> pyval option" where
  "sampler_exit float_str args v =
    first_some [watchdog args v, reparented v, lifetime_over float_str args v]"

definition poll_rows :: "sampler_view \<Rightarrow> pyexc + pyval list" where
  "poll_rows v =
    (case sv_smi v of
       SmiRows lines \<Rightarrow> sample_once (sv_clock v) lines
     | SmiFailed exc \<Rightarrow> Inr [PDict [(''wall_clock'', PFloat (sv_clock v)), (''sample_error'', PStr exc)]])"

fun sampler_run :: "(real \<Rightarrow> string) \<Rightarrow> sampler_args \<Rightarrow> sampler_view list \<Rightarrow> injector_outcome \<times> pyval list" where
  "sampler_run float_str args [] = (Polling, [])"
| "sampler_run float_str args (v # views) =
    (if sv_stop v then (Returned, [])
     else case sampler_exit float_str args v of
       Some row \<Rightarrow> (Returned, [row])
     | None \<Rightarrow> (case poll_rows v of
           Inl x \<Rightarrow> (Raised x, [])
         | Inr rows \<Rightarrow> (case sampler_run float_str args views of (out, rest) \<Rightarrow> (out, rows @ rest))))"

subsection \<open>What the log holds\<close>

text \<open>A line of four readable fields is one sample.\<close>

definition line_sample :: "real \<Rightarrow> string list \<Rightarrow> gpu_sample option" where
  "line_sample clock line =
    (case map strip line of
       [index, util, mem_used, pw] \<Rightarrow>
         (case (parse_int index, parse_float util, parse_float mem_used) of
            (Some i, Some u, Some m) \<Rightarrow>
              if pw = [] \<or> pw = ''[N/A]''
              then Some \<lparr>gs_wall_clock = clock, gs_gpu_index = i, gs_gpu_util_pct = u, gs_mem_used_mib = m,
                gs_power_draw_w = None\<rparr>
              else (case parse_float pw of None \<Rightarrow> None
                | Some p \<Rightarrow> Some \<lparr>gs_wall_clock = clock, gs_gpu_index = i, gs_gpu_util_pct = u,
                    gs_mem_used_mib = m, gs_power_draw_w = Some p\<rparr>)
          | _ \<Rightarrow> None)
     | _ \<Rightarrow> None)"

definition view_samples :: "sampler_view \<Rightarrow> gpu_sample list" where
  "view_samples v =
    (case sv_smi v of SmiFailed exc \<Rightarrow> []
     | SmiRows lines \<Rightarrow> map (\<lambda>line. the (line_sample (sv_clock v) line)) (filter (\<lambda>line. line \<noteq> []) lines))"

definition view_readable :: "sampler_view \<Rightarrow> bool" where
  "view_readable v =
    (case sv_smi v of SmiFailed exc \<Rightarrow> True
     | SmiRows lines \<Rightarrow> list_all (\<lambda>line. line = [] \<or> line_sample (sv_clock v) line \<noteq> None) lines)"

text \<open>
  What ends the sampling, read off the view and the arguments: the stop file, a parent process
  that is given and gone, being reparented, a lifetime that is given and over.
\<close>

definition sampling_ends :: "sampler_args \<Rightarrow> sampler_view \<Rightarrow> bool" where
  "sampling_ends args v \<longleftrightarrow> sv_stop v \<or> (sa_parent_pid args \<noteq> None \<and> sv_parent v = NoSuchProcess) \<or> sv_reparented v \<or>
     (case sa_max_lifetime args of None \<Rightarrow> False | Some secs \<Rightarrow> secs < sv_elapsed v)"

lemma sampler_exit_None:
  "\<not> sv_stop v \<Longrightarrow> sampler_exit fs args v = None \<longleftrightarrow> \<not> sampling_ends args v"
  by (cases "sv_parent v")
     (auto simp: sampling_ends_def sampler_exit_def watchdog_def reparented_def lifetime_over_def split: option.split)

lemma sampler_exit_Some: "sampler_exit fs args v = Some row \<Longrightarrow> \<exists>reason. row = exit_record (sv_clock v) reason"
  by (auto simp: sampler_exit_def watchdog_def reparented_def lifetime_over_def split: option.splits if_splits)

lemma sample_row_loads:
  assumes "line_sample clock line = Some s"
  shows "\<exists>row. sample_row clock line = Inr row \<and> gpu_samples_of row = Inr [s]"
proof -
  from assms obtain index util mem pw where fields: "map strip line = [index, util, mem, pw]"
    by (auto simp: line_sample_def split: list.splits)
  from assms obtain i u m where nums: "parse_int index = Some i" "parse_float util = Some u" "parse_float mem = Some m"
    by (auto simp: line_sample_def fields split: option.splits)
  show ?thesis
  proof (cases "pw = [] \<or> pw = ''[N/A]''")
    case True
    with assms show ?thesis
      by (auto simp: line_sample_def sample_row_def fields nums power_of_def gpu_samples_of_def gpu_sample_of_def
          field_def get_field_def dget_or_def opt_of_def)
  next
    case False
    with assms obtain p where "parse_float pw = Some p"
      by (auto simp: line_sample_def fields nums split: option.splits)
    with assms False show ?thesis
      by (auto simp: line_sample_def sample_row_def fields nums power_of_def gpu_samples_of_def gpu_sample_of_def
          field_def get_field_def dget_or_def opt_of_def)
  qed
qed

definition loads_as :: "pyval list \<Rightarrow> gpu_sample list \<Rightarrow> bool" where
  "loads_as rows samples \<longleftrightarrow> exc_bind (exc_map gpu_samples_of rows) (\<lambda>sss. Inr (concat sss)) = (Inr samples :: pyexc + _)"

lemma loads_as_Nil: "loads_as [] []"
  by (simp add: loads_as_def)

lemma loads_as_Cons: "gpu_samples_of row = Inr ss \<Longrightarrow> loads_as rows ts \<Longrightarrow> loads_as (row # rows) (ss @ ts)"
  by (auto simp: loads_as_def)

lemma loads_as_append: "loads_as rows ss \<Longrightarrow> loads_as rows' ts \<Longrightarrow> loads_as (rows @ rows') (ss @ ts)"
  by (auto simp: loads_as_def exc_map_append)

lemma exit_record_skipped: "loads_as [exit_record clock reason] []"
  by (simp add: loads_as_def gpu_samples_of_def exit_record_def)

lemma sample_once_loads:
  "list_all (\<lambda>line. line = [] \<or> line_sample clock line \<noteq> None) lines \<Longrightarrow>
   \<exists>rows. sample_once clock lines = Inr rows \<and>
     loads_as rows (map (\<lambda>line. the (line_sample clock line)) (filter (\<lambda>line. line \<noteq> []) lines))"
proof (induction lines)
  case (Cons line lines)
  show ?case
  proof (cases "line = []")
    case False
    with Cons.prems obtain s where s: "line_sample clock line = Some s" by auto
    from sample_row_loads [OF s] obtain row where row: "sample_row clock line = Inr row"
      "gpu_samples_of row = Inr [s]" by blast
    from Cons obtain rows where rows: "sample_once clock lines = Inr rows"
      "loads_as rows (map (\<lambda>line. the (line_sample clock line)) (filter (\<lambda>line. line \<noteq> []) lines))" by auto
    show ?thesis using False s row rows loads_as_Cons [OF row(2) rows(2)] by (simp add: sample_once_def)
  qed (use Cons in \<open>simp add: sample_once_def\<close>)
qed (simp add: sample_once_def loads_as_Nil)

lemma poll_rows_load: "view_readable v \<Longrightarrow> \<exists>rows. poll_rows v = Inr rows \<and> loads_as rows (view_samples v)"
proof (cases "sv_smi v")
  case (SmiRows lines)
  assume "view_readable v"
  with SmiRows sample_once_loads [of "sv_clock v" lines] show ?thesis
    by (simp add: view_readable_def poll_rows_def view_samples_def)
next
  case (SmiFailed exc)
  then show ?thesis by (simp add: poll_rows_def view_samples_def loads_as_def gpu_samples_of_def)
qed

text \<open>The rows of the polls before the end, then the exit record unless the stop file ended it.\<close>

lemma sampler_run_returns:
  "\<forall>v \<in> set before. view_readable v \<and> \<not> sampling_ends args v \<Longrightarrow> sampling_ends args v \<Longrightarrow>
   \<exists>rows last_rows. sampler_run fs args (before @ v # later) = (Returned, rows @ last_rows) \<and>
     loads_as rows (concat (map view_samples before)) \<and>
     (if sv_stop v then last_rows = [] else \<exists>reason. last_rows = [exit_record (sv_clock v) reason])"
proof (induction before)
  case Nil
  show ?case
  proof (cases "sv_stop v")
    case False
    then obtain row where "sampler_exit fs args v = Some row"
      using sampler_exit_None [of v fs args] Nil.prems(2) by (cases "sampler_exit fs args v") auto
    moreover from sampler_exit_Some [OF this] obtain reason where "row = exit_record (sv_clock v) reason" by blast
    ultimately have "sampler_run fs args ([] @ v # later) = (Returned, [] @ [exit_record (sv_clock v) reason])"
      using False by simp
    with False show ?thesis using loads_as_Nil by (metis concat.simps(1) list.simps(8))
  qed (auto intro!: exI [of _ "[]"] simp: loads_as_Nil)
next
  case (Cons u before)
  from Cons.prems(1) poll_rows_load [of u] obtain rows0 where
    poll: "poll_rows u = Inr rows0" "loads_as rows0 (view_samples u)" by auto
  from Cons obtain rows last_rows where run: "sampler_run fs args (before @ v # later) = (Returned, rows @ last_rows)"
    "loads_as rows (concat (map view_samples before))"
    "if sv_stop v then last_rows = [] else \<exists>reason. last_rows = [exit_record (sv_clock v) reason]" by auto
  have "\<not> sv_stop u" "sampler_exit fs args u = None"
    using Cons.prems(1) sampler_exit_None [of u fs args] by (auto simp: sampling_ends_def)
  then have "sampler_run fs args ((u # before) @ v # later) = (Returned, (rows0 @ rows) @ last_rows)"
    using poll(1) run(1) by simp
  moreover have "loads_as (rows0 @ rows) (concat (map view_samples (u # before)))"
    using loads_as_append [OF poll(2) run(2)] by simp
  ultimately show ?case using run(3) by blast
qed

text \<open>
  C40. The sampler ends and its log is exactly its samples: when at some poll the stop file exists,
  the parent process it was given is gone, it was reparented, or the lifetime it was given is over,
  and nvidia-smi's output was readable (or nvidia-smi failed, timed out or was missing) at every
  poll before, then the run returns at the first such poll, whatever would come later; its log ends
  with an exit record of that moment unless the stop file ended it; and loading the log for the
  alignment yields, in order, the samples of the polls before, error and exit records skipped.
\<close>

theorem sampler_log_loads:
  assumes "\<forall>v \<in> set before. view_readable v \<and> \<not> sampling_ends args v"
    and "sv_stop v \<or> (sa_parent_pid args \<noteq> None \<and> sv_parent v = NoSuchProcess) \<or> sv_reparented v \<or>
      (\<exists>secs. sa_max_lifetime args = Some secs \<and> secs < sv_elapsed v)"
    and "\<forall>row \<in> set (snd (sampler_run float_str args (before @ v # later))). line_ok J row"
  shows "\<exists>rows. sampler_run float_str args (before @ v # later) = (Returned, rows) \<and>
    (\<not> sv_stop v \<longrightarrow> rows \<noteq> [] \<and> (\<exists>reason. last rows = exit_record (sv_clock v) reason)) \<and>
    load_gpu_log J (fold (append_jsonl J) rows None) = Inr (concat (map view_samples before))"
proof -
  have "sampling_ends args v" using assms(2) by (auto simp: sampling_ends_def)
  from sampler_run_returns [OF assms(1) this, of float_str later] obtain rows last_rows where
    run: "sampler_run float_str args (before @ v # later) = (Returned, rows @ last_rows)"
    and loads: "loads_as rows (concat (map view_samples before))"
    and end': "if sv_stop v then last_rows = [] else \<exists>reason. last_rows = [exit_record (sv_clock v) reason]" by blast
  have "loads_as last_rows []" using end' exit_record_skipped by (auto simp: loads_as_Nil split: if_splits)
  from loads_as_append [OF loads this] have all: "loads_as (rows @ last_rows) (concat (map view_samples before))" by simp
  have "read_jsonl J (fold (append_jsonl J) (rows @ last_rows) None) = Inr (rows @ last_rows)"
    using assms(3) by (intro read_jsonl_appended) (simp add: run)
  with all have "load_gpu_log J (fold (append_jsonl J) (rows @ last_rows) None) = Inr (concat (map view_samples before))"
    by (simp add: load_gpu_log_def loads_as_def)
  moreover have "rows @ last_rows \<noteq> [] \<and> (\<exists>reason. last (rows @ last_rows) = exit_record (sv_clock v) reason)" if "\<not> sv_stop v"
    using end' that by (metis append_is_Nil_conv last_snoc not_Cons_self2)
  ultimately show ?thesis using run by blast
qed

text \<open>A poll that samples one GPU, then the parent is gone.\<close>

definition demo_poll :: "smi_outcome \<Rightarrow> signal_outcome \<Rightarrow> sampler_view" where
  "demo_poll smi parent = \<lparr>sv_stop = False, sv_parent = parent, sv_reparented = False, sv_elapsed = 0,
     sv_smi = smi, sv_clock = 3\<rparr>"

definition demo_line :: "string list" where
  "demo_line = [''0'', '' 7'', '' 9'', '' [N/A]'']"

definition demo_polls :: "sampler_view list" where
  "demo_polls = [demo_poll (SmiRows [demo_line]) Delivered, demo_poll (SmiRows []) NoSuchProcess]"

definition demo_sampler_args :: sampler_args where
  "demo_sampler_args = \<lparr>sa_parent_pid = Some 4, sa_max_lifetime = None\<rparr>"

definition demo_sample :: pyval where
  "demo_sample = PDict [(''wall_clock'', PFloat 3), (''gpu_index'', PInt 0), (''gpu_util_pct'', PFloat 7),
     (''mem_used_mib'', PFloat 9), (''power_draw_w'', PNone)]"

definition demo_exit :: pyval where
  "demo_exit = exit_record 3 (''parent pid '' @ int_str 4 @ '' gone - exiting to avoid orphan'')"

definition demo_sampler_json :: json_lib where
  "demo_sampler_json = \<lparr>js_dumps = (\<lambda>v. if v = demo_sample then ''a'' else ''b''),
     js_loads = (\<lambda>s. Inr (if s = ''a'' then demo_sample else demo_exit))\<rparr>"

lemma demo_fields: "map strip demo_line = [''0'', ''7'', ''9'', ''[N/A]'']" "parse_int ''0'' = Some 0"
  "parse_float ''7'' = Some 7" "parse_float ''9'' = Some 9"
proof -
  show "map strip demo_line = [''0'', ''7'', ''9'', ''[N/A]'']" "parse_int ''0'' = Some 0" by code_simp+
  show "parse_float ''7'' = Some 7" "parse_float ''9'' = Some 9"
    by (simp_all add: parse_float_def strip_def is_space_def split_sign_def is_digit_def digits_val_def)
qed

lemma demo_line_sample: "line_sample 3 demo_line =
    Some \<lparr>gs_wall_clock = 3, gs_gpu_index = 0, gs_gpu_util_pct = 7, gs_mem_used_mib = 9, gs_power_draw_w = None\<rparr>"
  unfolding line_sample_def demo_fields(1) by (simp add: demo_fields)

lemma demo_line_row: "sample_row 3 demo_line = Inr demo_sample"
  unfolding sample_row_def demo_fields(1) demo_sample_def by (simp add: demo_fields power_of_def)

lemma demo_line_nonempty: "demo_line \<noteq> []"
  by (simp add: demo_line_def)

lemma demo_watchdog: "sampler_exit fs demo_sampler_args (demo_poll smi Delivered) = None"
    "sampler_exit fs demo_sampler_args (demo_poll smi NoSuchProcess) = Some demo_exit"
    "sv_stop (demo_poll smi parent) = False"
  by (simp_all add: sampler_exit_def watchdog_def reparented_def lifetime_over_def demo_sampler_args_def demo_poll_def
      demo_exit_def)

lemma demo_sampler_run: "sampler_run (\<lambda>x. []) demo_sampler_args demo_polls = (Returned, [demo_sample, demo_exit])"
proof -
  have "poll_rows (demo_poll (SmiRows [demo_line]) Delivered) = Inr [demo_sample]"
    using demo_line_nonempty by (simp add: poll_rows_def demo_poll_def sample_once_def demo_line_row)
  then show ?thesis by (simp add: demo_polls_def demo_watchdog)
qed

lemma demo_sampler_lines: "line_ok demo_sampler_json demo_sample" "line_ok demo_sampler_json demo_exit"
proof -
  have "demo_exit \<noteq> demo_sample" by (simp add: demo_exit_def demo_sample_def exit_record_def)
  then show "line_ok demo_sampler_json demo_sample" "line_ok demo_sampler_json demo_exit"
    by (simp_all add: line_ok_def demo_sampler_json_def newline_def is_space_def)
qed

theorem sampler_log_loads_witness:
  "\<exists>rows. sampler_run (\<lambda>x. []) demo_sampler_args demo_polls = (Returned, rows) \<and>
     load_gpu_log demo_sampler_json (fold (append_jsonl demo_sampler_json) rows None) =
       Inr [\<lparr>gs_wall_clock = 3, gs_gpu_index = 0, gs_gpu_util_pct = 7, gs_mem_used_mib = 9, gs_power_draw_w = None\<rparr>]"
proof -
  let ?before = "[demo_poll (SmiRows [demo_line]) Delivered]" and ?v = "demo_poll (SmiRows []) NoSuchProcess"
  have polls: "demo_polls = ?before @ ?v # []" by (simp add: demo_polls_def)
  have samples: "concat (map view_samples ?before) =
      [\<lparr>gs_wall_clock = 3, gs_gpu_index = 0, gs_gpu_util_pct = 7, gs_mem_used_mib = 9, gs_power_draw_w = None\<rparr>]"
    using demo_line_nonempty by (simp add: view_samples_def demo_poll_def demo_line_sample)
  have "\<forall>v \<in> set ?before. view_readable v \<and> \<not> sampling_ends demo_sampler_args v"
    by (simp add: view_readable_def demo_poll_def demo_line_sample sampling_ends_def demo_sampler_args_def)
  moreover have "sa_parent_pid demo_sampler_args \<noteq> None \<and> sv_parent ?v = NoSuchProcess"
    by (simp add: demo_sampler_args_def demo_poll_def)
  moreover have "\<forall>row \<in> set (snd (sampler_run (\<lambda>x. []) demo_sampler_args (?before @ ?v # []))). line_ok demo_sampler_json row"
    unfolding polls [symmetric] by (simp add: demo_sampler_run demo_sampler_lines)
  ultimately show ?thesis
    using sampler_log_loads [of ?before demo_sampler_args ?v "\<lambda>x. []" "[]" demo_sampler_json]
    unfolding polls [symmetric] samples by blast
qed

end
