(* ===== verification/Reports.thy ===== *)
theory Reports
  imports Bench_Aegis Public_Api Step_Log "HOL-Library.List_Lexorder" "HOL-Library.Char_ord"
begin

text \<open>
  The printed reports: the comparison matrix and the savings summary of the benchmark
  (\<open>bench/report/generate.py\<close>), the ST-3 report over the three workloads
  (\<open>bench/run_st3.py\<close>) and the operator dashboard (\<open>aegis/dashboard.py\<close>). Lines are the
  strings the source builds; the dashes and section signs outside ASCII are written as ASCII.
\<close>

subsection \<open>Formats\<close>

definition spaces :: "nat \<Rightarrow> string" where
  "spaces n = replicate n (CHR '' '')"

text \<open>\<open>{s:<w}\<close> and \<open>{s:>w}\<close>.\<close>

definition ljust :: "nat \<Rightarrow> string \<Rightarrow> string" where
  "ljust w s = s @ spaces (w - length s)"

definition rjust :: "nat \<Rightarrow> string \<Rightarrow> string" where
  "rjust w s = spaces (w - length s) @ s"

text \<open>\<open>{x:.nf}\<close> for \<open>n > 0\<close>: the nearest decimal with \<open>n\<close> places, ties to even.\<close>

definition zero_pad :: "nat \<Rightarrow> string \<Rightarrow> string" where
  "zero_pad n s = replicate (n - length s) (CHR ''0'') @ s"

definition fixed :: "nat \<Rightarrow> real \<Rightarrow> string" where
  "fixed n x =
    (let k = nat (py_round (\<bar>x\<bar> * 10 ^ n))
     in (if x < 0 then ''-'' else []) @ nat_str (k div 10 ^ n) @ ''.'' @ zero_pad n (nat_str (k mod 10 ^ n)))"

definition join_lines :: "string list \<Rightarrow> string" where
  "join_lines lines = concat (map (\<lambda>(i, l). if i = 0 then l else newline # l) (enumerate 0 lines))"

subsection \<open>The comparison matrix\<close>

record table_widths =
  tw_system :: nat
  tw_dollars :: nat
  tw_goodput :: nat
  tw_recovery :: nat
  tw_savings :: nat

definition table_widths_of :: "string \<Rightarrow> (metrics_row \<times> savings) list \<Rightarrow> table_widths" where
  "table_widths_of baseline_name rows =
    \<lparr>tw_system = max (length ''System'') (Max (set (map (\<lambda>r. length (me_system_name (fst r))) rows))),
     tw_dollars = max (length ''$/GPU-hr wasted'') 15, tw_goodput = max (length ''Goodput'') 8,
     tw_recovery = max (length ''Recovery (s)'') 12,
     tw_savings = max (length (''vs '' @ baseline_name @ '' savings ($)'')) 25\<rparr>"

definition fmt_row :: "table_widths \<Rightarrow> string \<Rightarrow> string \<Rightarrow> string \<Rightarrow> string \<Rightarrow> string \<Rightarrow> string" where
  "fmt_row w system dollars goodput recovery saved =
    ''  '' @ ljust (tw_system w) system @ '' | '' @ rjust (tw_dollars w) dollars @ '' | '' @
    rjust (tw_goodput w) goodput @ '' | '' @ rjust (tw_recovery w) recovery @ '' | '' @ rjust (tw_savings w) saved"

definition dashes :: "nat \<Rightarrow> string" where
  "dashes n = replicate n (CHR ''-'')"

definition separator :: "table_widths \<Rightarrow> string" where
  "separator w = ''  '' @ dashes (tw_system w) @ ''-+-'' @ dashes (tw_dollars w) @ ''-+-'' @ dashes (tw_goodput w) @
    ''-+-'' @ dashes (tw_recovery w) @ ''-+-'' @ dashes (tw_savings w)"

definition savings_text :: "string \<Rightarrow> metrics_row \<times> savings \<Rightarrow> string" where
  "savings_text baseline_name row =
    (if me_system_name (fst row) = baseline_name then ''(baseline)''
     else let saved = sv_dollars_saved (snd row)
          in if saved \<ge> 0 then ''$'' @ fixed 4 saved else ''-$'' @ fixed 4 \<bar>saved\<bar>)"

definition matrix_row :: "table_widths \<Rightarrow> string \<Rightarrow> metrics_row \<times> savings \<Rightarrow> string" where
  "matrix_row w baseline_name row =
    fmt_row w (me_system_name (fst row)) (''$'' @ fixed 4 (me_total_dollars_wasted (fst row)))
      (fixed 3 (me_goodput (fst row))) (fixed 1 (me_total_recovery_secs (fst row))) (savings_text baseline_name row)"

definition matrix_lines :: "(string, simulation_result) dict \<Rightarrow> string \<Rightarrow> string list" where
  "matrix_lines results baseline_name =
    (if results = [] then [''(no results)'']
     else
       (let rows = compare_systems results baseline_name;
            w = table_widths_of baseline_name rows
        in [[], ''  AEGIS Benchmark Comparison Matrix'',
            ''  '' @ replicate (tw_system w + tw_dollars w + tw_goodput w + tw_recovery w + tw_savings w + 16) (CHR ''=''),
            fmt_row w ''System'' ''$/GPU-hr wasted'' ''Goodput'' ''Recovery (s)'' (''vs '' @ baseline_name @ '' savings ($)''),
            separator w] @
           map (matrix_row w baseline_name) rows @ [[]]))"

definition generate_comparison_matrix :: "(string, simulation_result) dict \<Rightarrow> string \<Rightarrow> string" where
  "generate_comparison_matrix results baseline_name = join_lines (matrix_lines results baseline_name)"

definition saved_line :: "simulation_result \<Rightarrow> string \<times> simulation_result \<Rightarrow> string" where
  "saved_line aegis entry =
    (case entry of (name, result) \<Rightarrow>
       let dollars_saved = si_total_dollars_wasted result - si_total_dollars_wasted aegis;
           pct = (if si_total_recovery_secs result > 0
                  then (si_total_recovery_secs result - si_total_recovery_secs aegis) / si_total_recovery_secs result * 100
                  else 0)
       in ''  AEGIS vs '' @ ljust 20 name @ '': $'' @ fixed 4 dollars_saved @ '' saved ('' @ fixed 1 pct @ ''% faster recovery)'')"

text \<open>What \<open>print_report\<close> prints, line by line; strings are ordered by code points.\<close>

definition print_report :: "(string, simulation_result) dict \<Rightarrow> string \<Rightarrow> string list" where
  "print_report results baseline_name =
    generate_comparison_matrix results baseline_name #
    (case dget results baseline_name of
       None \<Rightarrow> [''  Warning: baseline '' @ [CHR 0x27] @ baseline_name @ [CHR 0x27] @ '' not in results'']
     | Some b \<Rightarrow>
         [''  AEGIS Savings Summary'', ''  '' @ dashes 50] @
         (case dget results ''AEGIS'' of
            None \<Rightarrow> [''  AEGIS not in results'']
          | Some aegis \<Rightarrow>
              map (saved_line aegis) (filter (\<lambda>e. fst e \<noteq> ''AEGIS'') (sort_key fst results)) @ [[]]))"

subsection \<open>The ST-3 report\<close>

definition st3_gpu_hr_cost :: real where
  "st3_gpu_hr_cost = 235 / 100"

definition st3_total_steps :: int where
  "st3_total_steps = 200000"

datatype st3_line =
    St3Title | St3Blank | St3Generated string | St3Trace | St3Cost real | St3Caveat
  | St3Headline "st3_line list" | St3Saved string int real real real nat
  | St3Workload string string int string | St3Fence | St3Matrix string

definition st3_headline :: "workload \<Rightarrow> simulation_result \<Rightarrow> simulation_result \<Rightarrow> st3_line" where
  "st3_headline w aegis vanilla =
    (let s = compute_savings_vs_baseline aegis vanilla
     in St3Saved (wl_name w) (wl_gpu_count w) (sv_dollars_saved s) (sv_gpu_hours_saved s)
          (sv_recovery_time_reduction_pct s) (length (si_fault_outcomes aegis)))"

definition st3_workload_lines :: "workload \<Rightarrow> string \<Rightarrow> st3_line list" where
  "st3_workload_lines w matrix =
    [St3Workload (wl_name w) (wl_model_name w) (wl_gpu_count w) (wl_parallelism w), St3Blank, St3Fence, St3Matrix matrix,
     St3Fence, St3Blank]"

text \<open>
  The loop over the workloads: the sections and the headline lines. \<open>run\<close> is the benchmark on
  the production trace; a system missing from its result is a \<open>KeyError\<close>.
\<close>

fun st3_sections ::
  "(workload \<Rightarrow> pyexc + (string, simulation_result) dict) \<Rightarrow> workload list \<Rightarrow> pyexc + (st3_line list \<times> st3_line list)" where
  "st3_sections run [] = Inr ([], [])"
| "st3_sections run (w # ws) =
    exc_bind (run w) (\<lambda>results.
    exc_bind (case dget results ''AEGIS'' of None \<Rightarrow> Inl KeyErr | Some r \<Rightarrow> Inr r) (\<lambda>aegis.
    exc_bind (case dget results ''B-VANILLA'' of None \<Rightarrow> Inl KeyErr | Some r \<Rightarrow> Inr r) (\<lambda>vanilla.
    exc_bind (st3_sections run ws) (\<lambda>(lines, headlines).
    Inr (st3_workload_lines w (generate_comparison_matrix results ''B-VANILLA'') @ lines,
         st3_headline w aegis vanilla # headlines)))))"

definition st3_report ::
  "string \<Rightarrow> (workload \<Rightarrow> pyexc + (string, simulation_result) dict) \<Rightarrow> workload list \<Rightarrow> pyexc + st3_line list" where
  "st3_report generated run workloads =
    exc_bind (st3_sections run workloads) (\<lambda>(lines, headlines).
    Inr ([St3Title, St3Blank, St3Generated generated, St3Trace, St3Cost st3_gpu_hr_cost, St3Blank, St3Caveat,
          St3Headline headlines, St3Blank] @ lines))"

text \<open>The run itself: the six systems on one trace, for each of the three workloads.\<close>

definition st3_systems :: "adapter_env \<Rightarrow> (string \<times> fault_handler) list" where
  "st3_systems ae =
    (''AEGIS'', aegis_handle ae (adapter_policy None)) #
    map (\<lambda>s. (system_name s, handle_fault s)) [Vanilla, R2CCL, MeCeFO, TierCheck, TorchFT]"

definition st3_run :: "adapter_env \<Rightarrow> fault_trace \<Rightarrow> workload \<Rightarrow> pyexc + (string, simulation_result) dict" where
  "st3_run ae trace w = run_benchmark (st3_systems ae) w trace st3_gpu_hr_cost st3_total_steps 1 []"

definition st3_workloads :: "workload list" where
  "st3_workloads = map projr [W1, W2, W3]"

subsection \<open>The dashboard\<close>

definition dash_tier_line :: "string \<times> dash_row \<Rightarrow> string" where
  "dash_tier_line entry =
    (case entry of (tier, row) \<Rightarrow>
       ''  '' @ ljust 6 tier @ '' '' @ rjust 7 (nat_str (dr_count row)) @ '' '' @ rjust 10 (nat_str (dr_escalated row)) @ '' '' @
       rjust 9 (nat_str (dr_degraded row)) @ '' '' @ rjust 7 (nat_str (dr_failed row)))"

definition dash_kpi_line :: "string \<times> tier_kpi \<Rightarrow> string" where
  "dash_kpi_line entry =
    (case entry of (tier, k) \<Rightarrow>
       ''    '' @ tier @ '': '' @ nat_str (tk_count k) @ '' faults, $'' @ fixed 6 (tk_dollars_saved k) @ '' saved'')"

definition render_lines :: "dash_report \<Rightarrow> string list" where
  "render_lines r =
    [[], ''  AEGIS Operator Dashboard'', ''  '' @ replicate 40 (CHR ''=''),
     ''  Current epoch:      '' @ int_str (da_current_epoch r),
     ''  Faults processed:   '' @ nat_str (da_faults_processed r),
     ''  Invariant violations: '' @ nat_str (da_violations r) @ (if da_violations r \<noteq> 0 then ''  <-- INVESTIGATE'' else []),
     [], ''  Per-tier breakdown'', ''  '' @ dashes 40,
     ''  '' @ ljust 6 ''Tier'' @ '' '' @ rjust 7 ''Count'' @ '' '' @ rjust 10 ''Escalated'' @ '' '' @ rjust 9 ''Degraded'' @ '' '' @
       rjust 7 ''Failed''] @
    map dash_tier_line (da_by_tier r) @
    [[], ''  KPI summary (Sec. 4 Layer E3 - real measured recovery_secs;'',
     ''  see aegis/kpi.py docstring for the dev-hardware caveat)'', ''  '' @ dashes 40,
     ''  Total $ saved:      $'' @ fixed 6 (ks_total_dollars_saved (da_kpi r)),
     ''  Total GPU-hrs saved: '' @ fixed 6 (ks_total_gpu_hrs_saved (da_kpi r))] @
    map dash_kpi_line (filter (\<lambda>(tier, k). tk_count k \<noteq> 0) (ks_by_tier (da_kpi r))) @ [[]]"

definition render_text :: "dash_report \<Rightarrow> string" where
  "render_text r = join_lines (render_lines r)"

subsection \<open>Amounts read back\<close>

lemma py_round_near: "\<bar>of_int (py_round x) - x\<bar> \<le> 1 / 2"
  unfolding py_round_def Let_def by (auto split: if_splits)

lemma py_round_nonneg: "0 \<le> x \<Longrightarrow> 0 \<le> py_round x"
  by (auto simp: py_round_def Let_def)

lemma digits_val_zeros: "digits_val (replicate m (CHR ''0'') @ s) = digits_val s"
proof -
  have "foldl (\<lambda>a c. 10 * a + (of_char c - 48)) 0 (replicate m (CHR ''0'')) = (0 :: nat)"
    by (induction m) simp_all
  then show ?thesis by (simp add: digits_val_def)
qed

lemma length_nat_str: "k < 10 ^ n \<Longrightarrow> 0 < n \<Longrightarrow> length (nat_str k) \<le> n"
proof (induction n arbitrary: k)
  case (Suc n)
  show ?case
  proof (cases "k < 10")
    case True
    then show ?thesis by (simp add: nat_str.simps [of k])
  next
    case False
    with Suc.prems have "0 < n" "k div 10 < 10 ^ n" by (cases n, auto simp: div_less_iff_less_mult mult.commute)
    with Suc.IH [of "k div 10"] False show ?thesis by (simp add: nat_str.simps [of k])
  qed
qed simp

lemma zero_digit: "is_digit (CHR ''0'')" "\<not> is_digit (CHR ''.'')"
  by (simp_all add: is_digit_def)

lemma zero_pad_digits:
  assumes "k < 10 ^ n" "0 < n"
  shows "length (zero_pad n (nat_str k)) = n" "digits_val (zero_pad n (nat_str k)) = k"
    "list_all is_digit (zero_pad n (nat_str k))"
proof -
  show "length (zero_pad n (nat_str k)) = n" using length_nat_str [OF assms] by (simp add: zero_pad_def)
  show "digits_val (zero_pad n (nat_str k)) = k" by (simp add: zero_pad_def digits_val_zeros digits_val_nat_str)
  have "list_all is_digit (replicate m (CHR ''0''))" for m using zero_digit(1) by (induction m) simp_all
  then show "list_all is_digit (zero_pad n (nat_str k))" by (simp add: zero_pad_def nat_str_all_digits)
qed

lemma decimal_split:
  "list_all is_digit ds \<Longrightarrow> takeWhile is_digit (ds @ CHR ''.'' # rest) = ds"
  "list_all is_digit ds \<Longrightarrow> dropWhile is_digit (ds @ CHR ''.'' # rest) = CHR ''.'' # rest"
  using zero_digit(2) by (induction ds) simp_all

lemma all_digits_span: "list_all is_digit ds \<Longrightarrow> takeWhile is_digit ds = ds" "list_all is_digit ds \<Longrightarrow> dropWhile is_digit ds = []"
  by (induction ds) simp_all

lemma strip_no_space: "s \<noteq> [] \<Longrightarrow> \<not> is_space (hd s) \<Longrightarrow> \<not> is_space (last s) \<Longrightarrow> strip s = s"
proof -
  assume s: "s \<noteq> []" "\<not> is_space (hd s)" "\<not> is_space (last s)"
  have "dropWhile is_space s = s" using s(1,2) by (cases s) simp_all
  moreover have "dropWhile is_space (rev s) = rev s" using s(1,3) by (cases s rule: rev_cases) simp_all
  ultimately show ?thesis by (simp add: strip_def)
qed

lemma parse_decimal:
  assumes ws: "list_all is_digit whole" "whole \<noteq> []" and fr: "list_all is_digit places" "places \<noteq> []"
  shows "parse_float ((if neg then ''-'' else []) @ whole @ ''.'' @ places) =
    Some ((if neg then - 1 else 1) * (real (digits_val whole) + real (digits_val places) / 10 ^ length places))"
proof -
  let ?s = "(if neg then ''-'' else []) @ whole @ ''.'' @ places"
  have hd: "is_digit (hd whole)" using ws by (cases whole) simp_all
  have last: "is_digit (last places)" using fr by (cases places rule: rev_cases) simp_all
  have "\<not> is_space (CHR ''-'')" by code_simp
  then have "\<not> is_space (hd ?s)" using hd ws(2) digit_not_space by simp
  moreover have "last ?s = last places" using fr(2) by simp
  ultimately have strip: "strip ?s = ?s" using last digit_not_space by (intro strip_no_space) simp_all
  have sign: "\<not> is_digit (CHR ''-'')" "\<not> is_digit (CHR ''+'')" by (simp_all add: is_digit_def)
  then have "hd whole \<noteq> CHR ''-''" "hd whole \<noteq> CHR ''+''" using hd by auto
  then have split: "split_sign ?s = (neg, whole @ ''.'' @ places)"
    using ws(2) by (cases whole) (simp_all add: split_sign_def)
  show ?thesis
    unfolding parse_float_def strip split
    using ws fr by (simp add: decimal_split all_digits_span Let_def)
qed

text \<open>
  A printed amount is accurate: reading back the text of any number printed with \<open>n > 0\<close>
  decimals, as in the matrix, the summaries and the dashboard, gives a number within half a
  unit of the last place of it.
\<close>

theorem printed_amount_accurate:
  assumes "0 < n"
  shows "\<exists>y. parse_float (fixed n x) = Some y \<and> \<bar>y - x\<bar> \<le> 1 / 2 / 10 ^ n"
proof -
  define k where "k = nat (py_round (\<bar>x\<bar> * 10 ^ n))"
  define places where "places = zero_pad n (nat_str (k mod 10 ^ n))"
  have lt: "k mod 10 ^ n < 10 ^ n" by simp
  note pad = zero_pad_digits [OF lt assms, folded places_def]
  have ne: "places \<noteq> []" using pad(1) assms by auto
  have k: "real k = of_int (py_round (\<bar>x\<bar> * 10 ^ n))" using py_round_nonneg [of "\<bar>x\<bar> * 10 ^ n"] by (simp add: k_def)
  have near: "\<bar>real k - \<bar>x\<bar> * 10 ^ n\<bar> \<le> 1 / 2" unfolding k by (rule py_round_near)
  have val: "real (k div 10 ^ n) + real (k mod 10 ^ n) / 10 ^ n = real k / 10 ^ n"
  proof -
    have "real k = real (k div 10 ^ n * 10 ^ n + k mod 10 ^ n)" by (simp only: div_mult_mod_eq)
    then have "real k = real (k div 10 ^ n) * 10 ^ n + real (k mod 10 ^ n)" by simp
    then show ?thesis by (simp add: field_simps)
  qed
  have "fixed n x = (if x < 0 then ''-'' else []) @ nat_str (k div 10 ^ n) @ ''.'' @ places"
    by (simp add: fixed_def Let_def k_def places_def)
  with parse_decimal [OF nat_str_all_digits nat_str_nonempty pad(3) ne, of "x < 0" "k div 10 ^ n"]
  have "parse_float (fixed n x) = Some ((if x < 0 then - 1 else 1) * (real k / 10 ^ n))"
    by (simp add: digits_val_nat_str pad(1,2) val)
  moreover have "\<bar>(if x < 0 then - 1 else 1) * (real k / 10 ^ n) - x\<bar> = \<bar>real k - \<bar>x\<bar> * 10 ^ n\<bar> / 10 ^ n"
  proof -
    have "\<bar>(if x < 0 then - 1 else 1) * a - x\<bar> = \<bar>a - \<bar>x\<bar>\<bar>" for a :: real by auto
    moreover have "real k / 10 ^ n - \<bar>x\<bar> = (real k - \<bar>x\<bar> * 10 ^ n) / 10 ^ n" by (simp add: diff_divide_distrib)
    ultimately have "\<bar>(if x < 0 then - 1 else 1) * (real k / 10 ^ n) - x\<bar> = \<bar>(real k - \<bar>x\<bar> * 10 ^ n) / 10 ^ n\<bar>" by metis
    also have "\<dots> = \<bar>real k - \<bar>x\<bar> * 10 ^ n\<bar> / 10 ^ n" unfolding abs_divide by simp
    finally show ?thesis .
  qed
  moreover have "\<bar>real k - \<bar>x\<bar> * 10 ^ n\<bar> / 10 ^ n \<le> 1 / 2 / 10 ^ n" using near by (intro divide_right_mono) simp_all
  ultimately show ?thesis by simp
qed

theorem printed_amount_accurate_witness:
  "\<exists>y. parse_float (fixed 4 (- 7 / 3)) = Some y \<and> \<bar>y - (- 7 / 3)\<bar> \<le> 1 / 2 / 10 ^ 4"
  by (rule printed_amount_accurate) simp

subsection \<open>The table and the ST-3 run\<close>

lemma length_just [simp]: "length (ljust w s) = max w (length s)" "length (rjust w s) = max w (length s)"
  by (simp_all add: ljust_def rjust_def spaces_def)

text \<open>
  The matrix is a table: the header, the separator and every row whose texts fit their columns
  have one width.
\<close>

theorem matrix_rows_aligned:
  assumes "row \<in> set (compare_systems results base)" "w = table_widths_of base (compare_systems results base)"
    and "length (''$'' @ fixed 4 (me_total_dollars_wasted (fst row))) \<le> 15"
    and "length (fixed 3 (me_goodput (fst row))) \<le> 8" "length (fixed 1 (me_total_recovery_secs (fst row))) \<le> 12"
    and "length (savings_text base row) \<le> 25"
  shows "length (matrix_row w base row) = length (separator w) \<and>
    length (fmt_row w ''System'' ''$/GPU-hr wasted'' ''Goodput'' ''Recovery (s)'' (''vs '' @ base @ '' savings ($)'')) =
      length (separator w)"
proof -
  have "length (me_system_name (fst row)) \<le> Max (set (map (\<lambda>r. length (me_system_name (fst r))) (compare_systems results base)))"
    using assms(1) by (intro Max_ge) auto
  then show ?thesis
    using assms(3-6)
    by (simp add: assms(2) matrix_row_def fmt_row_def separator_def dashes_def table_widths_of_def)
qed

lemma W_ok: "w \<in> set st3_workloads \<Longrightarrow> workload_ok w"
  by (auto simp: st3_workloads_def W1_def W2_def W3_def mk_workload_def workload_ok_def)

declare handle_fault.simps [simp del]

lemma st3_system_answers:
  assumes "(name, h) \<in> set (st3_systems ae)" "workload_ok w"
  shows "\<exists>r. simulate name h w trace st3_gpu_hr_cost st3_total_steps = Inr r \<and>
    length (si_fault_outcomes r) = length (ft_events trace)"
proof -
  have n: "0 < st3_total_steps" by (simp add: st3_total_steps_def)
  from assms(1) consider "h = aegis_handle ae (adapter_policy None)" | s where "h = handle_fault s"
    unfolding st3_systems_def by auto
  then show ?thesis
  proof cases
    case 1
    from aegis_adapter.simulate_adds_up [OF assms(2) n, of name ae "adapter_policy None" trace st3_gpu_hr_cost]
    show ?thesis unfolding 1 by (metis list_all2_lengthD)
  next
    case 2
    from baseline.simulate_adds_up [OF assms(2) n, of name s trace st3_gpu_hr_cost]
    show ?thesis unfolding 2 by (metis list_all2_lengthD)
  qed
qed

lemma st3_run_returns:
  assumes "workload_ok w"
  shows "\<exists>res a v. st3_run ae trace w = Inr res \<and> dget res ''AEGIS'' = Some a \<and> dget res ''B-VANILLA'' = Some v \<and>
    simulate ''AEGIS'' (aegis_handle ae (adapter_policy None)) w trace st3_gpu_hr_cost st3_total_steps = Inr a \<and>
    simulate ''B-VANILLA'' (handle_fault Vanilla) w trace st3_gpu_hr_cost st3_total_steps = Inr v \<and>
    length (si_fault_outcomes a) = length (ft_events trace)"
proof -
  have sim: "\<exists>r. simulate name h w trace st3_gpu_hr_cost st3_total_steps = Inr r" if "(name, h) \<in> set (st3_systems ae)" for name h
    using st3_system_answers [OF that assms] by blast
  have d: "distinct (map fst (st3_systems ae))" by (simp add: st3_systems_def)
  from run_benchmark_results [OF sim d, where n = 1 and acc = "[]"] obtain res where run: "st3_run ae trace w = Inr res"
    and each: "\<forall>(name, h) \<in> set (st3_systems ae).
      map_option Inr (dget res name) = Some (simulate name h w trace st3_gpu_hr_cost st3_total_steps)"
    by (auto simp: st3_run_def)
  have mem: "(''AEGIS'', aegis_handle ae (adapter_policy None)) \<in> set (st3_systems ae)"
    "(''B-VANILLA'', handle_fault Vanilla) \<in> set (st3_systems ae)" by (simp_all add: st3_systems_def)
  from st3_system_answers [OF mem(1) assms, of trace] obtain a where
    a: "simulate ''AEGIS'' (aegis_handle ae (adapter_policy None)) w trace st3_gpu_hr_cost st3_total_steps = Inr a"
      "length (si_fault_outcomes a) = length (ft_events trace)" by blast
  from st3_system_answers [OF mem(2) assms, of trace] obtain v where
    v: "simulate ''B-VANILLA'' (handle_fault Vanilla) w trace st3_gpu_hr_cost st3_total_steps = Inr v" by blast
  have "dget res ''AEGIS'' = Some a" "dget res ''B-VANILLA'' = Some v"
    using bspec [OF each mem(1)] bspec [OF each mem(2)] by (auto simp: a v)
  with run a v show ?thesis by blast
qed

text \<open>
  The ST-3 report is complete and its headline is the simulation's: whatever the backends, the
  payloads and the production trace, it is produced without an error, with one headline line per
  workload, in order, that carries the workload's GPU count, the difference of the two
  simulations' totals in dollars and in GPU hours, and the number of faults of the trace.
\<close>

theorem st3_report_complete:
  "\<exists>lines headlines. st3_report generated (st3_run ae trace) st3_workloads = Inr lines \<and> St3Headline headlines \<in> set lines \<and>
    list_all2 (\<lambda>w h. \<exists>a v pct.
        simulate ''AEGIS'' (aegis_handle ae (adapter_policy None)) w trace st3_gpu_hr_cost st3_total_steps = Inr a \<and>
        simulate ''B-VANILLA'' (handle_fault Vanilla) w trace st3_gpu_hr_cost st3_total_steps = Inr v \<and>
        h = St3Saved (wl_name w) (wl_gpu_count w) (si_total_dollars_wasted v - si_total_dollars_wasted a)
          (si_total_idle_gpu_hours v - si_total_idle_gpu_hours a) pct (length (ft_events trace)))
      st3_workloads headlines"
proof -
  let ?P = "\<lambda>w h. \<exists>a v pct.
        simulate ''AEGIS'' (aegis_handle ae (adapter_policy None)) w trace st3_gpu_hr_cost st3_total_steps = Inr a \<and>
        simulate ''B-VANILLA'' (handle_fault Vanilla) w trace st3_gpu_hr_cost st3_total_steps = Inr v \<and>
        h = St3Saved (wl_name w) (wl_gpu_count w) (si_total_dollars_wasted v - si_total_dollars_wasted a)
          (si_total_idle_gpu_hours v - si_total_idle_gpu_hours a) pct (length (ft_events trace))"
  have "\<forall>w \<in> set ws. workload_ok w \<Longrightarrow> \<exists>ls hs. st3_sections (st3_run ae trace) ws = Inr (ls, hs) \<and> list_all2 ?P ws hs" for ws
  proof (induction ws)
    case (Cons w ws)
    from Cons.prems have "workload_ok w" by simp
    from st3_run_returns [OF this, of ae trace] obtain res a v where run: "st3_run ae trace w = Inr res"
      "dget res ''AEGIS'' = Some a" "dget res ''B-VANILLA'' = Some v"
      "simulate ''AEGIS'' (aegis_handle ae (adapter_policy None)) w trace st3_gpu_hr_cost st3_total_steps = Inr a"
      "simulate ''B-VANILLA'' (handle_fault Vanilla) w trace st3_gpu_hr_cost st3_total_steps = Inr v"
      "length (si_fault_outcomes a) = length (ft_events trace)" by blast
    from Cons obtain ls hs where rest: "st3_sections (st3_run ae trace) ws = Inr (ls, hs)" "list_all2 ?P ws hs" by auto
    have "?P w (st3_headline w a v)"
      using run(4-6) by (simp add: st3_headline_def compute_savings_vs_baseline_def)
    with run(1-3) rest show ?case by simp
  qed simp
  from this [of st3_workloads] W_ok obtain ls hs where
    "st3_sections (st3_run ae trace) st3_workloads = Inr (ls, hs)" "list_all2 ?P st3_workloads hs" by blast
  note done_sections = this
  let ?lines = "[St3Title, St3Blank, St3Generated generated, St3Trace, St3Cost st3_gpu_hr_cost, St3Blank, St3Caveat,
      St3Headline hs, St3Blank] @ ls"
  have "st3_report generated (st3_run ae trace) st3_workloads = Inr ?lines"
    by (simp add: st3_report_def done_sections(1))
  moreover have "St3Headline hs \<in> set ?lines" by simp
  ultimately show ?thesis using done_sections(2) by blast
qed

end
