(* ===== verification/Ci_Report.thy ===== *)
theory Ci_Report
  imports Reports
begin

text \<open>
  The continuous-integration script that turns a JUnit report into spreadsheet rows
  (\<open>scripts/ci/report_to_sheets.py\<close>). An XML document is the tree the standard
  \<open>xml.etree.ElementTree\<close> gives; the spreadsheet service (gspread) is a log of the calls made
  to it and the answers it gives to the two questions the script asks.
\<close>

subsection \<open>Elements\<close>

datatype xml = Element (xml_tag: string) (xml_attrs: "(string \<times> string) list") (xml_text: "string option") (xml_children: "xml list")

text \<open>\<open>e.iter(tag)\<close>: the element and its descendants with the tag, in document order.\<close>

fun xml_iter :: "string \<Rightarrow> xml \<Rightarrow> xml list" where
  "xml_iter tag (Element t attrs txt es) =
    (if t = tag then [Element t attrs txt es] else []) @ concat (map (xml_iter tag) es)"

definition xml_find :: "string \<Rightarrow> xml \<Rightarrow> xml option" where
  "xml_find tag e = (case filter (\<lambda>c. xml_tag c = tag) (xml_children e) of [] \<Rightarrow> None | c # cs \<Rightarrow> Some c)"

definition iter_testcases :: "xml \<Rightarrow> xml list" where
  "iter_testcases doc =
    concat (map (xml_iter ''testcase'') (if xml_tag doc = ''testsuites'' then xml_iter ''testsuite'' doc else [doc]))"

subsection \<open>Rows\<close>

definition message_of :: "xml \<Rightarrow> string" where
  "message_of node =
    take 2000 (case dget (xml_attrs node) ''message'' of
       Some m \<Rightarrow> if m \<noteq> [] then m else strip (str_or (xml_text node) [])
     | None \<Rightarrow> strip (str_or (xml_text node) []))"

fun first_outcome :: "(string \<times> string) list \<Rightarrow> xml \<Rightarrow> string \<times> string option" where
  "first_outcome [] tc = (''passed'', None)"
| "first_outcome ((tag, outcome) # rest) tc =
    (case xml_find tag tc of Some node \<Rightarrow> (outcome, Some (message_of node)) | None \<Rightarrow> first_outcome rest tc)"

definition outcome_of :: "xml \<Rightarrow> string \<times> string option" where
  "outcome_of tc = first_outcome [(''failure'', ''failed''), (''error'', ''error''), (''skipped'', ''skipped'')] tc"

record row_state =
  rs_counts :: "(string, int) dict"
  rs_duration :: real
  rs_results :: "string list list"
  rs_failures :: "string list list"

definition duration_of :: "xml \<Rightarrow> pyexc + real" where
  "duration_of tc =
    (let t = dget_or (xml_attrs tc) ''time'' ''0''
     in if t = [] then Inr 0 else case parse_float t of None \<Rightarrow> Inl ValueErr | Some x \<Rightarrow> Inr x)"

record run_labels =
  rl_timestamp :: string
  rl_commit :: string
  rl_branch :: string
  rl_run_url :: string

definition add_testcase :: "run_labels \<Rightarrow> xml \<Rightarrow> row_state \<Rightarrow> pyexc + row_state" where
  "add_testcase l tc s =
    (let name = dget_or (xml_attrs tc) ''name'' []; classname = dget_or (xml_attrs tc) ''classname'' []
     in exc_bind (duration_of tc) (\<lambda>duration.
     case outcome_of tc of (outcome, message) \<Rightarrow>
       Inr (s\<lparr>rs_duration := rs_duration s + duration,
              rs_counts := dset outcome (dget_or (rs_counts s) outcome 0 + 1) (rs_counts s),
              rs_results := rs_results s @
                [[rl_timestamp l, take 8 (rl_commit l), rl_branch l, classname, name, outcome, fixed 3 duration]],
              rs_failures := (if outcome \<in> {''failed'', ''error''}
                then rs_failures s @ [[rl_timestamp l, take 8 (rl_commit l), rl_branch l, classname, name, outcome,
                  str_or message [], rl_run_url l]]
                else rs_failures s)\<rparr>)))"

fun add_testcases :: "run_labels \<Rightarrow> xml list \<Rightarrow> row_state \<Rightarrow> pyexc + row_state" where
  "add_testcases l [] s = Inr s"
| "add_testcases l (tc # tcs) s = exc_bind (add_testcase l tc s) (add_testcases l tcs)"

definition rows_init :: row_state where
  "rows_init = \<lparr>rs_counts = [(''passed'', 0), (''failed'', 0), (''error'', 0), (''skipped'', 0)], rs_duration = 0,
     rs_results = [], rs_failures = []\<rparr>"

definition summary_row :: "run_labels \<Rightarrow> row_state \<Rightarrow> string list" where
  "summary_row l s =
    (let c = (\<lambda>k. int_str (dget_or (rs_counts s) k 0))
     in [rl_timestamp l, take 8 (rl_commit l), rl_branch l, rl_run_url l, int_str (sum_list (dvals (rs_counts s))),
         c ''passed'', c ''failed'', c ''error'', c ''skipped'', fixed 2 (rs_duration s)])"

definition build_rows :: "run_labels \<Rightarrow> xml \<Rightarrow> pyexc + (string list \<times> string list list \<times> string list list)" where
  "build_rows l doc =
    exc_bind (add_testcases l (iter_testcases doc) rows_init) (\<lambda>s.
    Inr (summary_row l s, rs_results s, rs_failures s))"

subsection \<open>The spreadsheet\<close>

datatype sheet_call =
    AddWorksheet string nat | AppendRow string "string list" | AppendRows string "string list list"

definition runs_header :: "string list" where
  "runs_header = [''timestamp'', ''commit'', ''branch'', ''run_url'', ''total'', ''passed'', ''failed'', ''errors'',
     ''skipped'', ''duration_s'']"

definition results_header :: "string list" where
  "results_header = [''timestamp'', ''commit'', ''branch'', ''classname'', ''test'', ''outcome'', ''duration_s'']"

definition failures_header :: "string list" where
  "failures_header = [''timestamp'', ''commit'', ''branch'', ''classname'', ''test'', ''outcome'', ''message'', ''run_url'']"

text \<open>The first row of a worksheet, \<open>None\<close> when there is no such worksheet.\<close>

definition get_or_create_worksheet :: "(string \<Rightarrow> string list option) \<Rightarrow> string \<Rightarrow> string list \<Rightarrow> sheet_call list" where
  "get_or_create_worksheet first_row title header =
    (case first_row title of
       None \<Rightarrow> [AddWorksheet title (length header), AppendRow title header]
     | Some row \<Rightarrow> if row = [] then [AppendRow title header] else [])"

definition report_main ::
  "string option \<Rightarrow> string option \<Rightarrow> (string \<Rightarrow> string list option) \<Rightarrow> run_labels \<Rightarrow> xml \<Rightarrow> pyexc + sheet_call list" where
  "report_main creds sheet_id first_row l doc =
    (if str_or creds [] = [] \<or> str_or sheet_id [] = [] then Inr []
     else exc_bind (build_rows l doc) (\<lambda>(summary, results, failures).
       Inr (get_or_create_worksheet first_row ''Runs'' runs_header @ [AppendRow ''Runs'' summary] @
         (if results \<noteq> [] then get_or_create_worksheet first_row ''Test Results'' results_header @
            [AppendRows ''Test Results'' results] else []) @
         (if failures \<noteq> [] then get_or_create_worksheet first_row ''Failures'' failures_header @
            [AppendRows ''Failures'' failures] else []))))"

subsection \<open>The rows account for the tests\<close>

abbreviation "outcomes \<equiv> [''passed'', ''failed'', ''error'', ''skipped'']"

definition outcome_count :: "string \<Rightarrow> xml list \<Rightarrow> nat" where
  "outcome_count k tcs = length (filter (\<lambda>tc. fst (outcome_of tc) = k) tcs)"

definition failing :: "xml \<Rightarrow> bool" where
  "failing tc \<longleftrightarrow> fst (outcome_of tc) \<in> {''failed'', ''error''}"

lemma outcome_of_in: "fst (outcome_of tc) \<in> set outcomes"
  by (auto simp: outcome_of_def split: option.splits)

text \<open>What the loop keeps: the counts are those of the test cases read so far.\<close>

definition rows_account :: "xml list \<Rightarrow> row_state \<Rightarrow> bool" where
  "rows_account tcs s \<longleftrightarrow> dkeys (rs_counts s) = outcomes \<and>
    (\<forall>k \<in> set outcomes. dget (rs_counts s) k = Some (int (outcome_count k tcs))) \<and>
    map (\<lambda>row. (row ! 3, row ! 4, row ! 5)) (rs_results s) =
      map (\<lambda>tc. (dget_or (xml_attrs tc) ''classname'' [], dget_or (xml_attrs tc) ''name'' [], fst (outcome_of tc))) tcs \<and>
    map (\<lambda>row. (row ! 3, row ! 4, row ! 5)) (rs_failures s) =
      map (\<lambda>tc. (dget_or (xml_attrs tc) ''classname'' [], dget_or (xml_attrs tc) ''name'' [], fst (outcome_of tc)))
        (filter failing tcs)"

lemma add_testcase_accounts:
  assumes "rows_account tcs s" "add_testcase l tc s = Inr s'"
  shows "rows_account (tcs @ [tc]) s'"
proof -
  obtain k m where km: "outcome_of tc = (k, m)" by (cases "outcome_of tc")
  have k: "k \<in> set outcomes" using outcome_of_in [of tc] km by simp
  from assms(2) obtain d where s': "s' = s\<lparr>rs_duration := rs_duration s + d,
      rs_counts := dset k (dget_or (rs_counts s) k 0 + 1) (rs_counts s),
      rs_results := rs_results s @
        [[rl_timestamp l, take 8 (rl_commit l), rl_branch l, dget_or (xml_attrs tc) ''classname'' [],
          dget_or (xml_attrs tc) ''name'' [], k, fixed 3 d]],
      rs_failures := (if k \<in> {''failed'', ''error''}
        then rs_failures s @ [[rl_timestamp l, take 8 (rl_commit l), rl_branch l, dget_or (xml_attrs tc) ''classname'' [],
          dget_or (xml_attrs tc) ''name'' [], k, str_or m [], rl_run_url l]] else rs_failures s)\<rparr>"
    unfolding add_testcase_def Let_def exc_bind_Inr km prod.case by blast
  have keys: "dkeys (dset k v (rs_counts s)) = outcomes" for v
    using assms(1) k dkeys_dset_old [of k "rs_counts s"] unfolding rows_account_def by metis
  have old: "dget (rs_counts s) j = Some (int (outcome_count j tcs))" if "j \<in> set outcomes" for j
    using assms(1) that unfolding rows_account_def by blast
  have counts: "dget (dset k (dget_or (rs_counts s) k 0 + 1) (rs_counts s)) j = Some (int (outcome_count j (tcs @ [tc])))"
    if "j \<in> set outcomes" for j
    using old [OF that] old [OF k] km by (auto simp: dget_or_def outcome_count_def)
  have fail: "failing tc \<longleftrightarrow> k \<in> {''failed'', ''error''}" by (simp only: failing_def km fst_conv)
  show ?thesis
    using assms(1) keys counts unfolding rows_account_def s' by (auto simp: km fail simp del: outcome_count_def)
qed

lemma add_testcases_account:
  "rows_account pre s \<Longrightarrow> add_testcases l tcs s = Inr s' \<Longrightarrow> rows_account (pre @ tcs) s'"
proof (induction tcs arbitrary: pre s)
  case (Cons tc tcs)
  then obtain s1 where s1: "add_testcase l tc s = Inr s1" "add_testcases l tcs s1 = Inr s'" by auto
  from Cons.IH [OF add_testcase_accounts [OF Cons.prems(1) s1(1)] s1(2)] show ?case by simp
qed simp

lemma rows_account_init: "rows_account [] rows_init"
  by (simp add: rows_account_def rows_init_def outcome_count_def)

lemma counts_total:
  assumes "rows_account tcs s"
  shows "sum_list (dvals (rs_counts s)) = int (length tcs)"
proof -
  have "dkeys (rs_counts s) = outcomes" using assms unfolding rows_account_def by blast
  then obtain a b c d where counts: "rs_counts s = [(''passed'', a), (''failed'', b), (''error'', c), (''skipped'', d)]"
    by (auto simp: map_eq_Cons_conv)
  have "a = int (outcome_count ''passed'' tcs)" "b = int (outcome_count ''failed'' tcs)"
    "c = int (outcome_count ''error'' tcs)" "d = int (outcome_count ''skipped'' tcs)"
    using assms by (simp_all add: rows_account_def counts)
  moreover have "length tcs = outcome_count ''passed'' tcs + outcome_count ''failed'' tcs + outcome_count ''error'' tcs +
      outcome_count ''skipped'' tcs"
  proof (induction tcs)
    case (Cons tc tcs)
    with outcome_of_in [of tc] show ?case by (auto simp: outcome_count_def)
  qed (simp add: outcome_count_def)
  ultimately show ?thesis by (simp add: counts)
qed

text \<open>
  The spreadsheet accounts for every test: when the rows can be built, there is one result row
  per test case of the report, in document order, with its class, name and outcome, one failure
  row per failed or erroring test, in the same order, and the summary's total and its four
  counts are those of the test cases.
\<close>

theorem ci_rows_account_for_tests:
  assumes "build_rows l doc = Inr (summary, results, failures)"
  shows "map (\<lambda>row. (row ! 3, row ! 4, row ! 5)) results =
      map (\<lambda>tc. (dget_or (xml_attrs tc) ''classname'' [], dget_or (xml_attrs tc) ''name'' [], fst (outcome_of tc)))
        (iter_testcases doc) \<and>
    map (\<lambda>row. (row ! 3, row ! 4, row ! 5)) failures =
      map (\<lambda>tc. (dget_or (xml_attrs tc) ''classname'' [], dget_or (xml_attrs tc) ''name'' [], fst (outcome_of tc)))
        (filter failing (iter_testcases doc)) \<and>
    summary ! 4 = nat_str (length (iter_testcases doc)) \<and>
    map (\<lambda>i. summary ! i) [5, 6, 7, 8] = map (\<lambda>k. nat_str (outcome_count k (iter_testcases doc))) outcomes"
proof -
  from assms obtain s where run: "add_testcases l (iter_testcases doc) rows_init = Inr s"
    and rows: "summary = summary_row l s" "results = rs_results s" "failures = rs_failures s"
    by (auto simp: build_rows_def)
  from add_testcases_account [OF rows_account_init run] have acc: "rows_account (iter_testcases doc) s" by simp
  have str: "int_str (int k) = nat_str k" for k by (simp add: int_str_def)
  have "dget (rs_counts s) k = Some (int (outcome_count k (iter_testcases doc)))" if "k \<in> set outcomes" for k
    using acc that unfolding rows_account_def by blast
  then have "dget_or (rs_counts s) k 0 = int (outcome_count k (iter_testcases doc))" if "k \<in> set outcomes" for k
    using that by (simp add: dget_or_def)
  then have "map (\<lambda>i. summary ! i) [5, 6, 7, 8] = map (\<lambda>k. nat_str (outcome_count k (iter_testcases doc))) outcomes"
    by (simp add: rows summary_row_def Let_def str)
  moreover have "summary ! 4 = nat_str (length (iter_testcases doc))"
    by (simp add: rows summary_row_def Let_def counts_total [OF acc] str)
  ultimately show ?thesis using acc rows unfolding rows_account_def by blast
qed

definition demo_doc :: xml where
  "demo_doc = Element ''testsuites'' [] None [Element ''testsuite'' [] None
     [Element ''testcase'' [(''name'', ''t1''), (''time'', [])] None [],
      Element ''testcase'' [(''name'', ''t2'')] None [Element ''failure'' [(''message'', ''boom'')] None []]]]"

lemma demo_build: "\<exists>rows. build_rows l demo_doc = Inr rows"
proof -
  have "parse_float ''0'' = Some 0"
    by (simp add: parse_float_def strip_def is_space_def split_sign_def is_digit_def digits_val_def)
  then show ?thesis
    by (simp add: build_rows_def demo_doc_def iter_testcases_def add_testcase_def duration_of_def dget_or_def
        split_beta Let_def del: exc_bind_Inr)
qed

theorem ci_rows_account_for_tests_witness:
  "\<exists>summary results failures.
     build_rows \<lparr>rl_timestamp = [], rl_commit = [], rl_branch = [], rl_run_url = []\<rparr> demo_doc = Inr (summary, results, failures) \<and>
     map (\<lambda>row. row ! 4) results = [''t1'', ''t2''] \<and> map (\<lambda>row. row ! 4) failures = [''t2'']"
proof -
  let ?l = "\<lparr>rl_timestamp = [], rl_commit = [], rl_branch = [], rl_run_url = []\<rparr>"
  from demo_build [of ?l] obtain summary results failures where
    run: "build_rows ?l demo_doc = Inr (summary, results, failures)" by auto
  let ?t = "\<lambda>row. (row ! 3, row ! 4, row ! (5 :: nat))"
  have tcs: "iter_testcases demo_doc = [Element ''testcase'' [(''name'', ''t1''), (''time'', [])] None [],
      Element ''testcase'' [(''name'', ''t2'')] None [Element ''failure'' [(''message'', ''boom'')] None []]]"
    by (simp add: demo_doc_def iter_testcases_def)
  from ci_rows_account_for_tests [OF run] have
    r: "map ?t results = [([], ''t1'', ''passed''), ([], ''t2'', ''failed'')]" and
    f: "map ?t failures = [([], ''t2'', ''failed'')]"
    by (simp_all add: tcs dget_or_def failing_def outcome_of_def xml_find_def)
  have names: "map (\<lambda>row. row ! 4) rows = map (fst \<circ> snd) (map ?t rows)" for rows :: "string list list" by simp
  have "map (\<lambda>row. row ! 4) results = [''t1'', ''t2'']" "map (\<lambda>row. row ! 4) failures = [''t2'']"
    unfolding names [of results] names [of failures] r f by simp_all
  then show ?thesis
    by (intro exI [of _ summary] exI [of _ results] exI [of _ failures] conjI run)
qed

text \<open>A test case of a suite inside a suite is met once for each of them.\<close>

lemma nested_suites_counted_twice:
  "iter_testcases (Element ''testsuites'' [] None [Element ''testsuite'' [] None
     [Element ''testsuite'' [] None [Element ''testcase'' attrs txt []]]]) =
   [Element ''testcase'' attrs txt [], Element ''testcase'' attrs txt []]"
  by (simp add: iter_testcases_def)

end
