(* ===== verification/Command_Lines.thy ===== *)
theory Command_Lines
  imports Arguments Phase1 W1_Training Gpu_Sampler Ci_Report
begin

text \<open>
  The command lines of the real-run scripts: the parser of each script, the settings it makes
  of a namespace, the commands Phase 1 starts beside the ranks, and what the started script
  reads of the command line that started it. \<open>float_str\<close> is the printed form of a float.
\<close>

subsection \<open>The parsers\<close>

definition w1_parser :: "arg_option list" where
  "w1_parser =
    [Valued ''--steps'' IntT True PNone, Valued ''--log-dir'' StrT True PNone,
     Valued ''--checkpoint-dir'' StrT False PNone, Flag ''--aegis-enabled'',
     Valued ''--aegis-policy-path'' StrT False (PStr ''aegis.yaml''), Valued ''--seed'' IntT False (PInt 1234),
     Valued ''--batch-size'' IntT False (PInt 1), Valued ''--seq-len'' IntT False (PInt 512),
     Valued ''--heartbeat-timeout-secs'' FloatT False (PFloat 5),
     Valued ''--collective-timeout-secs'' FloatT False (PFloat 30),
     Valued ''--setup-timeout-secs'' FloatT False (PFloat 600), Flag ''--tiny'']"

definition train_args_of :: "namespace \<Rightarrow> train_args" where
  "train_args_of ns =
    \<lparr>ta_steps = ns_int ns ''steps'', ta_log_dir = ns_str ns ''log_dir'',
     ta_checkpoint_dir = ns_str_opt ns ''checkpoint_dir'', ta_aegis_enabled = ns_bool ns ''aegis_enabled'',
     ta_aegis_policy_path = ns_str ns ''aegis_policy_path'', ta_seed = ns_int ns ''seed'',
     ta_batch_size = ns_int ns ''batch_size'', ta_seq_len = ns_int ns ''seq_len'',
     ta_heartbeat_timeout = ns_float ns ''heartbeat_timeout_secs'',
     ta_collective_timeout = ns_float ns ''collective_timeout_secs'',
     ta_setup_timeout = ns_float ns ''setup_timeout_secs'', ta_tiny = ns_bool ns ''tiny''\<rparr>"

definition p1_parser :: "arg_option list" where
  "p1_parser =
    [Valued ''--out'' StrT True PNone, Valued ''--phase0-dir'' StrT True PNone, Flag ''--skip-gate'',
     Valued ''--steps'' IntT False (PInt 20000), Valued ''--target-step'' IntT False PNone,
     Valued ''--warmup-secs'' FloatT False (PFloat 60), Valued ''--target-rank'' IntT False PNone,
     Valued ''--nproc-per-node'' IntT False (PInt 8), Valued ''--seed'' IntT False (PInt 1234),
     Valued ''--batch-size'' IntT False (PInt 1), Valued ''--seq-len'' IntT False (PInt 512),
     Valued ''--aegis-policy-path'' StrT False (PStr ''aegis.yaml''), Flag ''--tiny'',
     Valued ''--heartbeat-timeout-secs'' FloatT False (PFloat 5),
     Valued ''--collective-timeout-secs'' FloatT False (PFloat 30),
     Valued ''--setup-timeout-secs'' FloatT False (PFloat 600),
     Valued ''--gpu-hr-cost-usd'' FloatT False (PFloat default_h100_usd_per_hr)]"

definition p1_args_of :: "namespace \<Rightarrow> p1_args" where
  "p1_args_of ns =
    \<lparr>pa_skip_gate = ns_bool ns ''skip_gate'', pa_steps = ns_int ns ''steps'', pa_target_step = ns_int_opt ns ''target_step'',
     pa_warmup_secs = ns_float ns ''warmup_secs'', pa_target_rank = ns_int_opt ns ''target_rank'',
     pa_nproc = ns_int ns ''nproc_per_node'', pa_seed = ns_int ns ''seed'', pa_batch_size = ns_int ns ''batch_size'',
     pa_seq_len = ns_int ns ''seq_len'', pa_policy_path = ns_str ns ''aegis_policy_path'', pa_tiny = ns_bool ns ''tiny'',
     pa_heartbeat_timeout = ns_float ns ''heartbeat_timeout_secs'',
     pa_collective_timeout = ns_float ns ''collective_timeout_secs'',
     pa_setup_timeout = ns_float ns ''setup_timeout_secs'', pa_gpu_hr_cost_usd = ns_float ns ''gpu_hr_cost_usd''\<rparr>"

definition run_phase0_parser :: "arg_option list" where
  "run_phase0_parser =
    [Valued ''--out'' StrT True PNone, Valued ''--steps'' IntT False (PInt 6000), Valued ''--repeat'' IntT False (PInt 3),
     Valued ''--nproc-per-node'' IntT False (PInt 8), Valued ''--seed'' IntT False (PInt 1234),
     Valued ''--batch-size'' IntT False (PInt 1), Valued ''--seq-len'' IntT False (PInt 512),
     Valued ''--aegis-policy-path'' StrT False (PStr ''aegis.yaml''), Flag ''--tiny'',
     Valued ''--run-timeout-secs'' FloatT False (PFloat 3600), Valued ''--rdzv-endpoint'' StrT False PNone]"

definition cmd_args_of :: "namespace \<Rightarrow> cmd_args" where
  "cmd_args_of ns =
    \<lparr>ca_nproc = ns_int ns ''nproc_per_node'', ca_steps = ns_int ns ''steps'', ca_seed = ns_int ns ''seed'',
     ca_batch_size = ns_int ns ''batch_size'', ca_seq_len = ns_int ns ''seq_len'', ca_tiny = ns_bool ns ''tiny'',
     ca_policy_path = ns_str ns ''aegis_policy_path'', ca_rdzv_endpoint = ns_str_opt ns ''rdzv_endpoint''\<rparr>"

definition report_phase0_parser :: "arg_option list" where
  "report_phase0_parser =
    [Valued ''--out'' StrT True PNone, Valued ''--repeat'' IntT False (PInt 3), Valued ''--warmup-steps'' IntT False (PInt 50),
     Valued ''--overhead-sanity-ceiling-pct'' FloatT False (PFloat default_overhead_sanity_ceiling_pct)]"

definition sampler_parser :: "arg_option list" where
  "sampler_parser =
    [Valued ''--out'' StrT True PNone, Valued ''--stop-file'' StrT True PNone,
     Valued ''--interval-secs'' FloatT False (PFloat 1), Valued ''--nvidia-smi-bin'' StrT False (PStr ''nvidia-smi''),
     Valued ''--parent-pid'' IntT False PNone, Valued ''--max-lifetime-secs'' FloatT False PNone]"

definition sampler_args_of :: "namespace \<Rightarrow> sampler_args" where
  "sampler_args_of ns =
    \<lparr>sa_parent_pid = ns_int_opt ns ''parent_pid'', sa_max_lifetime = ns_float_opt ns ''max_lifetime_secs''\<rparr>"

definition injector_parser :: "arg_option list" where
  "injector_parser =
    [Valued ''--trace'' StrT True PNone, Valued ''--step-log'' StrT True PNone, Valued ''--pid-dir'' StrT True PNone,
     Valued ''--out'' StrT True PNone]"

definition ci_parser :: "arg_option list" where
  "ci_parser =
    [Valued ''--junit-xml'' StrT True PNone, Valued ''--commit'' StrT True PNone, Valued ''--branch'' StrT True PNone,
     Valued ''--run-url'' StrT True PNone]"

definition run_labels_of :: "string \<Rightarrow> namespace \<Rightarrow> run_labels" where
  "run_labels_of timestamp ns =
    \<lparr>rl_timestamp = timestamp, rl_commit = ns_str ns ''commit'', rl_branch = ns_str ns ''branch'',
     rl_run_url = ns_str ns ''run_url''\<rparr>"

subsection \<open>The scripts\<close>

text \<open>
  The mains: the command line read, then what the script does with its settings. A refused
  command line is the exit of its parser.
\<close>

definition train_script ::
  "json_lib \<Rightarrow> (message \<Rightarrow> string) \<Rightarrow> runtime_env \<Rightarrow> (string \<Rightarrow> pyexc + operator_policy) \<Rightarrow> bool \<Rightarrow> nat \<Rightarrow> string list \<Rightarrow>
   (string, string) dict \<Rightarrow> int \<Rightarrow> (int \<Rightarrow> int \<times> int) option \<Rightarrow> group_env \<Rightarrow>
   (llama_config \<Rightarrow> wrapping \<Rightarrow> pyexc option) \<Rightarrow> (int \<Rightarrow> step_outcome) \<Rightarrow> (runtime \<Rightarrow> runtime) \<Rightarrow> train_files \<Rightarrow>
   aegis_state \<Rightarrow> pyexc + (rank_boot \<times> rank_run)" where
  "train_script J msg_str env load start_ok new_loop argv environ pid gpu grp build world later files st =
    exc_bind (parse_args w1_parser argv) (\<lambda>ns.
      train_main J msg_str env load start_ok new_loop (train_args_of ns) environ pid gpu grp build world later files st)"

definition phase1_script ::
  "json_lib \<Rightarrow> text_file \<Rightarrow> string list \<Rightarrow> (string \<Rightarrow> string \<Rightarrow> condition_end \<times> condition_files) \<Rightarrow>
   pyexc + (string \<times> p1_line list \<times> pyval)" where
  "phase1_script J summary_file argv world =
    exc_bind (parse_args p1_parser argv) (\<lambda>ns. phase1_main J summary_file (p1_args_of ns) world)"

definition run_phase0_script ::
  "string list \<Rightarrow> (string \<Rightarrow> nat \<Rightarrow> run_outcome \<times> real) \<Rightarrow> pyexc + (run_index_entry list \<times> nat)" where
  "run_phase0_script argv world =
    exc_bind (parse_args run_phase0_parser argv) (\<lambda>ns.
      Inr (run_phase0 (cmd_args_of ns) (ns_str ns ''out'') (nat (ns_int ns ''repeat'')) world))"

definition report_phase0_script :: "json_lib \<Rightarrow> (string \<Rightarrow> nat \<Rightarrow> run_files) \<Rightarrow> string list \<Rightarrow> pyexc + p0_result" where
  "report_phase0_script J files argv =
    exc_bind (parse_args report_phase0_parser argv) (\<lambda>ns.
      report_phase0 J files (nat (ns_int ns ''repeat'')) (ns_int ns ''warmup_steps'') (ns_float ns ''overhead_sanity_ceiling_pct''))"

definition sampler_script ::
  "(real \<Rightarrow> string) \<Rightarrow> string list \<Rightarrow> sampler_view list \<Rightarrow> pyexc + (injector_outcome \<times> pyval list)" where
  "sampler_script float_str argv views =
    exc_bind (parse_args sampler_parser argv) (\<lambda>ns. Inr (sampler_run float_str (sampler_args_of ns) views))"

text \<open>The files are looked up by the paths of the command line.\<close>

definition injector_script ::
  "json_lib \<Rightarrow> (string \<Rightarrow> text_file) \<Rightarrow> string list \<Rightarrow> (string \<Rightarrow> string \<Rightarrow> injector_view list) \<Rightarrow>
   pyexc + (string \<times> injector_outcome \<times> pyval list)" where
  "injector_script J files argv views =
    exc_bind (parse_args injector_parser argv) (\<lambda>ns.
      Inr (ns_str ns ''out'', injector_run J (files (ns_str ns ''trace'')) (views (ns_str ns ''step_log'') (ns_str ns ''pid_dir''))))"

definition ci_script ::
  "string option \<Rightarrow> string option \<Rightarrow> (string \<Rightarrow> string list option) \<Rightarrow> string \<Rightarrow> (string \<Rightarrow> xml) \<Rightarrow> string list \<Rightarrow>
   pyexc + sheet_call list" where
  "ci_script creds sheet_id first_row timestamp parse_xml argv =
    exc_bind (parse_args ci_parser argv) (\<lambda>ns.
      report_main creds sheet_id first_row (run_labels_of timestamp ns) (parse_xml (ns_str ns ''junit_xml'')))"

subsection \<open>The commands of Phase 1\<close>

definition injector_cmd :: "string \<Rightarrow> string \<Rightarrow> string \<Rightarrow> string list" where
  "injector_cmd executable trace_path dir =
    [executable, ''-m'', ''chaos_inject.real_injector'', ''--trace'', trace_path, ''--step-log'', dir @ ''/step_log.jsonl'',
     ''--pid-dir'', dir, ''--out'', dir @ ''/chaos_log.jsonl'']"

definition sampler_cmd :: "string \<Rightarrow> string \<Rightarrow> int \<Rightarrow> string list" where
  "sampler_cmd executable dir pid =
    [executable, ''-m'', ''realbench.collector.gpu_sampler'', ''--out'', dir @ ''/gpu_log.jsonl'',
     ''--stop-file'', dir @ ''/GPU_SAMPLER_STOP'', ''--interval-secs'', ''1.0'', ''--parent-pid'', int_str pid]"

text \<open>
  The arguments a script gets: those after \<open>-m module\<close>. That is how \<open>python -m\<close> starts a module,
  and, as documented, torchrun, to which \<open>aegis run\<close> hands its own arguments; neither is code of
  this repository.
\<close>

fun script_args :: "string list \<Rightarrow> string list" where
  "script_args (m # name # rest) = (if m = ''-m'' then rest else script_args (name # rest))"
| "script_args _ = []"

subsection \<open>Reading a command line back\<close>

lemma wf_parsers:
  "wf_parser w1_parser" "wf_parser p1_parser" "wf_parser run_phase0_parser" "wf_parser report_phase0_parser"
  "wf_parser sampler_parser" "wf_parser injector_parser" "wf_parser ci_parser"
  by code_simp+

abbreviation "plain s \<equiv> s = [] \<or> hd s \<noteq> CHR ''-''"

lemma value_positional:
  "fst b \<in> set opts \<Longrightarrow> wf_parser opts \<Longrightarrow> plain (snd b) \<or> (\<exists>i. snd b = int_str i) \<Longrightarrow> value_is_positional opts b"
  using classify_plain classify_int_str by (cases "(opts, b)" rule: value_is_positional.cases) auto

text \<open>The option of a parser with a name, bound to a text.\<close>

definition bind_to :: "arg_option list \<Rightarrow> string \<Rightarrow> string \<Rightarrow> binding" where
  "bind_to opts name v = (the (find_option opts name), v)"

text \<open>
  The arguments of the training script as both drivers write them; Phase 1 gives the three
  timeouts too.
\<close>

record w1_texts =
  wt_steps :: int
  wt_dir :: string
  wt_seed :: int
  wt_batch :: int
  wt_seq :: int
  wt_timeouts :: "(string \<times> string \<times> string) option"
  wt_policy :: string
  wt_tiny :: bool

definition w1_bindings :: "w1_texts \<Rightarrow> bool \<Rightarrow> binding list" where
  "w1_bindings t aegis_enabled =
    [bind_to w1_parser ''--steps'' (int_str (wt_steps t)), bind_to w1_parser ''--log-dir'' (wt_dir t),
     bind_to w1_parser ''--seed'' (int_str (wt_seed t)), bind_to w1_parser ''--batch-size'' (int_str (wt_batch t)),
     bind_to w1_parser ''--seq-len'' (int_str (wt_seq t))] @
    (case wt_timeouts t of None \<Rightarrow> [] | Some (h, c, u) \<Rightarrow>
       [bind_to w1_parser ''--heartbeat-timeout-secs'' h, bind_to w1_parser ''--collective-timeout-secs'' c,
        bind_to w1_parser ''--setup-timeout-secs'' u]) @
    (if aegis_enabled then [bind_to w1_parser ''--aegis-enabled'' [],
       bind_to w1_parser ''--aegis-policy-path'' (wt_policy t)] else []) @
    (if wt_tiny t then [bind_to w1_parser ''--tiny'' []] else [])"

lemma find_w1:
  "find_option w1_parser ''--steps'' = Some (Valued ''--steps'' IntT True PNone)"
  "find_option w1_parser ''--log-dir'' = Some (Valued ''--log-dir'' StrT True PNone)"
  "find_option w1_parser ''--seed'' = Some (Valued ''--seed'' IntT False (PInt 1234))"
  "find_option w1_parser ''--batch-size'' = Some (Valued ''--batch-size'' IntT False (PInt 1))"
  "find_option w1_parser ''--seq-len'' = Some (Valued ''--seq-len'' IntT False (PInt 512))"
  "find_option w1_parser ''--heartbeat-timeout-secs'' = Some (Valued ''--heartbeat-timeout-secs'' FloatT False (PFloat 5))"
  "find_option w1_parser ''--collective-timeout-secs'' = Some (Valued ''--collective-timeout-secs'' FloatT False (PFloat 30))"
  "find_option w1_parser ''--setup-timeout-secs'' = Some (Valued ''--setup-timeout-secs'' FloatT False (PFloat 600))"
  "find_option w1_parser ''--aegis-enabled'' = Some (Flag ''--aegis-enabled'')"
  "find_option w1_parser ''--aegis-policy-path'' = Some (Valued ''--aegis-policy-path'' StrT False (PStr ''aegis.yaml''))"
  "find_option w1_parser ''--tiny'' = Some (Flag ''--tiny'')"
  "find_option w1_parser ''--checkpoint-dir'' = Some (Valued ''--checkpoint-dir'' StrT False PNone)"
  by (simp_all add: find_option_def w1_parser_def)

lemmas w1_simps = w1_bindings_def bind_to_def find_w1 dest_of_def parse_int_int_str

lemma w1_bindings_distinct: "distinct (map fst (w1_bindings t aegis))"
proof -
  consider "wt_timeouts t = None" | h c u where "wt_timeouts t = Some (h, c, u)" by (cases "wt_timeouts t") auto
  then show ?thesis by cases (cases aegis; cases "wt_tiny t"; simp add: w1_simps)+
qed

lemma w1_attr:
  assumes "find_option w1_parser n = Some o'" "(o', v) \<in> set (w1_bindings t aegis)" "bound_value (o', v) = Inr x"
  shows "dget (bound_namespace w1_parser (w1_bindings t aegis)) (dest_of (opt_name o')) = Some x"
  using attr_bound [OF wf_parsers(1) find_option_in [OF assms(1)] w1_bindings_distinct assms(2)] assms(3) by simp

lemma w1_default:
  assumes "find_option w1_parser n = Some o'" "o' \<notin> set (map fst (w1_bindings t aegis))"
  shows "dget (bound_namespace w1_parser (w1_bindings t aegis)) (dest_of (opt_name o')) = Some (default_of o')"
  using attr_default [OF wf_parsers(1) find_option_in [OF assms(1)] assms(2)] .

lemma w1_present:
  "aegis \<Longrightarrow> (Flag ''--aegis-enabled'', []) \<in> set (w1_bindings t aegis)"
  "aegis \<Longrightarrow> (Valued ''--aegis-policy-path'' StrT False (PStr ''aegis.yaml''), wt_policy t) \<in> set (w1_bindings t aegis)"
  "wt_tiny t \<Longrightarrow> (Flag ''--tiny'', []) \<in> set (w1_bindings t aegis)"
  by (simp_all add: w1_bindings_def bind_to_def find_w1)

lemma w1_absent:
  "\<not> aegis \<Longrightarrow> Flag ''--aegis-enabled'' \<notin> set (map fst (w1_bindings t aegis))"
  "\<not> aegis \<Longrightarrow> Valued ''--aegis-policy-path'' StrT False (PStr ''aegis.yaml'') \<notin> set (map fst (w1_bindings t aegis))"
  "\<not> wt_tiny t \<Longrightarrow> Flag ''--tiny'' \<notin> set (map fst (w1_bindings t aegis))"
  "Valued ''--checkpoint-dir'' StrT False PNone \<notin> set (map fst (w1_bindings t aegis))"
proof -
  consider "wt_timeouts t = None" | h c u where "wt_timeouts t = Some (h, c, u)" by (cases "wt_timeouts t") auto
  note times = this
  show "\<not> aegis \<Longrightarrow> Flag ''--aegis-enabled'' \<notin> set (map fst (w1_bindings t aegis))"
    using times by cases (cases "wt_tiny t"; simp add: w1_simps)+
  show "\<not> aegis \<Longrightarrow> Valued ''--aegis-policy-path'' StrT False (PStr ''aegis.yaml'') \<notin> set (map fst (w1_bindings t aegis))"
    using times by cases (cases "wt_tiny t"; simp add: w1_simps)+
  show "\<not> wt_tiny t \<Longrightarrow> Flag ''--tiny'' \<notin> set (map fst (w1_bindings t aegis))"
    using times by cases (cases aegis; simp add: w1_simps)+
  show "Valued ''--checkpoint-dir'' StrT False PNone \<notin> set (map fst (w1_bindings t aegis))"
    using times by cases (cases aegis; cases "wt_tiny t"; simp add: w1_simps)+
qed

text \<open>The values the timeouts stand for: those written, or the defaults.\<close>

definition timeouts_read :: "w1_texts \<Rightarrow> real \<times> real \<times> real \<Rightarrow> bool" where
  "timeouts_read t vals \<longleftrightarrow>
    (case wt_timeouts t of None \<Rightarrow> vals = (5, 30, 600)
     | Some (h, c, u) \<Rightarrow> (case vals of (x, y, z) \<Rightarrow>
         plain h \<and> plain c \<and> plain u \<and> parse_float h = Some x \<and> parse_float c = Some y \<and> parse_float u = Some z))"

lemma w1_timeouts:
  fixes t aegis
  assumes "timeouts_read t (x, y, z)"
  defines "ns \<equiv> bound_namespace w1_parser (w1_bindings t aegis)"
  shows "dget ns ''heartbeat_timeout_secs'' = Some (PFloat x) \<and> dget ns ''collective_timeout_secs'' = Some (PFloat y) \<and>
    dget ns ''setup_timeout_secs'' = Some (PFloat z)"
proof (cases "wt_timeouts t")
  case None
  have absent: "o' \<notin> set (map fst (w1_bindings t aegis))"
    if "o' \<in> {Valued ''--heartbeat-timeout-secs'' FloatT False (PFloat 5), Valued ''--collective-timeout-secs'' FloatT False (PFloat 30),
      Valued ''--setup-timeout-secs'' FloatT False (PFloat 600)}" for o'
    using that by (cases aegis; cases "wt_tiny t"; auto simp: w1_simps None)
  show ?thesis
    using w1_default [OF find_w1(6) absent] w1_default [OF find_w1(7) absent] w1_default [OF find_w1(8) absent] assms(1)
    by (simp add: ns_def dest_of_def timeouts_read_def None)
next
  case (Some p)
  obtain h c u where p: "p = (h, c, u)" by (cases p)
  have "parse_float h = Some x" "parse_float c = Some y" "parse_float u = Some z"
    using assms(1) by (simp_all add: timeouts_read_def Some p)
  then show ?thesis
    using w1_attr [OF find_w1(6), of h t aegis] w1_attr [OF find_w1(7), of c t aegis] w1_attr [OF find_w1(8), of u t aegis]
    by (simp add: ns_def w1_simps Some p)
qed

lemma w1_attrs:
  fixes t aegis
  defines "ns \<equiv> bound_namespace w1_parser (w1_bindings t aegis)"
  shows "dget ns ''steps'' = Some (PInt (wt_steps t))" "dget ns ''log_dir'' = Some (PStr (wt_dir t))"
    "dget ns ''seed'' = Some (PInt (wt_seed t))" "dget ns ''batch_size'' = Some (PInt (wt_batch t))"
    "dget ns ''seq_len'' = Some (PInt (wt_seq t))" "dget ns ''aegis_enabled'' = Some (PBool aegis)"
    "dget ns ''aegis_policy_path'' = Some (PStr (if aegis then wt_policy t else ''aegis.yaml''))"
    "dget ns ''tiny'' = Some (PBool (wt_tiny t))" "dget ns ''checkpoint_dir'' = Some PNone"
proof -
  show "dget ns ''steps'' = Some (PInt (wt_steps t))"
    using w1_attr [OF find_w1(1), of "int_str (wt_steps t)" t aegis] by (simp add: ns_def w1_simps)
  show "dget ns ''log_dir'' = Some (PStr (wt_dir t))"
    using w1_attr [OF find_w1(2), of "wt_dir t" t aegis] by (simp add: ns_def w1_simps)
  show "dget ns ''seed'' = Some (PInt (wt_seed t))"
    using w1_attr [OF find_w1(3), of "int_str (wt_seed t)" t aegis] by (simp add: ns_def w1_simps)
  show "dget ns ''batch_size'' = Some (PInt (wt_batch t))"
    using w1_attr [OF find_w1(4), of "int_str (wt_batch t)" t aegis] by (simp add: ns_def w1_simps)
  show "dget ns ''seq_len'' = Some (PInt (wt_seq t))"
    using w1_attr [OF find_w1(5), of "int_str (wt_seq t)" t aegis] by (simp add: ns_def w1_simps)
  show "dget ns ''aegis_enabled'' = Some (PBool aegis)"
  proof (cases aegis)
    case True
    from w1_attr [OF find_w1(9) w1_present(1) [OF True]] show ?thesis by (simp add: ns_def dest_of_def True)
  next
    case False
    from w1_default [OF find_w1(9) w1_absent(1) [OF False]] show ?thesis by (simp add: ns_def dest_of_def False)
  qed
  show "dget ns ''aegis_policy_path'' = Some (PStr (if aegis then wt_policy t else ''aegis.yaml''))"
  proof (cases aegis)
    case True
    from w1_attr [OF find_w1(10) w1_present(2) [OF True]] show ?thesis by (simp add: ns_def dest_of_def True)
  next
    case False
    from w1_default [OF find_w1(10) w1_absent(2) [OF False]] show ?thesis by (simp add: ns_def dest_of_def False)
  qed
  show "dget ns ''tiny'' = Some (PBool (wt_tiny t))"
  proof (cases "wt_tiny t")
    case True
    from w1_attr [OF find_w1(11) w1_present(3) [OF True]] show ?thesis by (simp add: ns_def dest_of_def True)
  next
    case False
    from w1_default [OF find_w1(11) w1_absent(3) [OF False]] show ?thesis by (simp add: ns_def dest_of_def False)
  qed
  show "dget ns ''checkpoint_dir'' = Some PNone"
    using w1_default [OF find_w1(12) w1_absent(4), of t aegis] by (simp add: ns_def dest_of_def)
qed

lemma w1_args_read:
  assumes "plain (wt_dir t)" "plain (wt_policy t)" "timeouts_read t (x, y, z)"
  shows "\<exists>ns. parse_args w1_parser (concat (map render_binding (w1_bindings t aegis))) = Inr ns \<and>
    train_args_of ns =
      \<lparr>ta_steps = wt_steps t, ta_log_dir = wt_dir t, ta_checkpoint_dir = None, ta_aegis_enabled = aegis,
       ta_aegis_policy_path = (if aegis then wt_policy t else ''aegis.yaml''), ta_seed = wt_seed t,
       ta_batch_size = wt_batch t, ta_seq_len = wt_seq t, ta_heartbeat_timeout = x, ta_collective_timeout = y,
       ta_setup_timeout = z, ta_tiny = wt_tiny t\<rparr>"
proof -
  let ?bs = "w1_bindings t aegis"
  note opts = find_w1 [THEN find_option_in]
  have mem: "\<forall>b \<in> set ?bs. fst b \<in> set w1_parser"
    by (auto simp: w1_bindings_def bind_to_def find_w1 opts split: option.splits prod.splits)
  have texts: "\<forall>b \<in> set ?bs. (plain (snd b) \<or> (\<exists>i. snd b = int_str i)) \<and> (\<exists>v. bound_value b = Inr v)"
    using assms by (auto simp: w1_simps timeouts_read_def split: option.splits)
  have required: "\<forall>o' \<in> set w1_parser. is_required o' \<longrightarrow> o' \<in> fst ` set ?bs"
    by (simp add: w1_parser_def) (simp add: w1_simps)
  have "\<forall>b \<in> set ?bs. fst b \<in> set w1_parser \<and> value_is_positional w1_parser b \<and> (\<exists>v. bound_value b = Inr v)"
    using mem texts value_positional [OF _ wf_parsers(1)] by blast
  from command_line_roundtrip [OF wf_parsers(1) this required]
  show ?thesis
    using w1_timeouts [OF assms(3), of aegis]
    by (simp add: train_args_of_def ns_int_def ns_str_def ns_str_opt_def ns_bool_def ns_float_def w1_attrs)
qed

subsection \<open>What the drivers write\<close>

definition p1_texts :: "(real \<Rightarrow> string) \<Rightarrow> p1_args \<Rightarrow> string \<Rightarrow> w1_texts" where
  "p1_texts float_str a dir =
    \<lparr>wt_steps = pa_steps a, wt_dir = dir, wt_seed = pa_seed a, wt_batch = pa_batch_size a, wt_seq = pa_seq_len a,
     wt_timeouts = Some (float_str (pa_heartbeat_timeout a), float_str (pa_collective_timeout a),
       float_str (pa_setup_timeout a)), wt_policy = pa_policy_path a, wt_tiny = pa_tiny a\<rparr>"

definition p0_texts :: "cmd_args \<Rightarrow> string \<Rightarrow> w1_texts" where
  "p0_texts a dir =
    \<lparr>wt_steps = ca_steps a, wt_dir = dir, wt_seed = ca_seed a, wt_batch = ca_batch_size a, wt_seq = ca_seq_len a,
     wt_timeouts = None, wt_policy = ca_policy_path a, wt_tiny = ca_tiny a\<rparr>"

lemma rank_cmd_written:
  assumes "executable \<noteq> ''-m''"
  shows "script_args (rank_cmd float_str executable a dir aegis) =
    concat (map render_binding (w1_bindings (p1_texts float_str a dir) aegis))"
  using assms by (simp add: rank_cmd_def w1_bindings_def bind_to_def find_w1 p1_texts_def)

lemma build_cmd_written:
  "script_args (build_cmd a dir aegis) = concat (map render_binding (w1_bindings (p0_texts a dir) aegis))"
  by (simp add: build_cmd_def rdzv_args_def w1_bindings_def bind_to_def find_w1 p0_texts_def split: option.split)

text \<open>The texts of the timeouts that read back as the numbers they were printed from.\<close>

definition timeouts_printable :: "(real \<Rightarrow> string) \<Rightarrow> p1_args \<Rightarrow> bool" where
  "timeouts_printable float_str a \<longleftrightarrow>
    (\<forall>x \<in> {pa_heartbeat_timeout a, pa_collective_timeout a, pa_setup_timeout a}.
      plain (float_str x) \<and> parse_float (float_str x) = Some x)"

lemma rank_cmd_read:
  assumes "executable \<noteq> ''-m''" "plain dir" "plain (pa_policy_path a)" "timeouts_printable float_str a"
  shows "\<exists>ns. parse_args w1_parser (script_args (rank_cmd float_str executable a dir aegis)) = Inr ns \<and>
    train_args_of ns =
      \<lparr>ta_steps = pa_steps a, ta_log_dir = dir, ta_checkpoint_dir = None, ta_aegis_enabled = aegis,
       ta_aegis_policy_path = (if aegis then pa_policy_path a else ''aegis.yaml''), ta_seed = pa_seed a,
       ta_batch_size = pa_batch_size a, ta_seq_len = pa_seq_len a, ta_heartbeat_timeout = pa_heartbeat_timeout a,
       ta_collective_timeout = pa_collective_timeout a, ta_setup_timeout = pa_setup_timeout a, ta_tiny = pa_tiny a\<rparr>"
proof -
  have "timeouts_read (p1_texts float_str a dir) (pa_heartbeat_timeout a, pa_collective_timeout a, pa_setup_timeout a)"
    using assms(4) by (simp add: timeouts_printable_def timeouts_read_def p1_texts_def)
  from w1_args_read [OF _ _ this, of aegis] assms(2,3) show ?thesis
    unfolding rank_cmd_written [OF assms(1)] by (auto simp: p1_texts_def)
qed

lemma build_cmd_read:
  assumes "plain dir" "plain (ca_policy_path b)"
  shows "\<exists>ns. parse_args w1_parser (script_args (build_cmd b dir aegis)) = Inr ns \<and>
    train_args_of ns =
      \<lparr>ta_steps = ca_steps b, ta_log_dir = dir, ta_checkpoint_dir = None, ta_aegis_enabled = aegis,
       ta_aegis_policy_path = (if aegis then ca_policy_path b else ''aegis.yaml''), ta_seed = ca_seed b,
       ta_batch_size = ca_batch_size b, ta_seq_len = ca_seq_len b, ta_heartbeat_timeout = 5,
       ta_collective_timeout = 30, ta_setup_timeout = 600, ta_tiny = ca_tiny b\<rparr>"
proof -
  have "timeouts_read (p0_texts b dir) (5, 30, 600)" by (simp add: timeouts_read_def p0_texts_def)
  from w1_args_read [OF _ _ this, of aegis] assms show ?thesis
    unfolding build_cmd_written by (auto simp: p0_texts_def)
qed

text \<open>
  C35. Every training process runs the settings its driver was given: the command line Phase 1
  starts a rank with, and the one Phase 0 hands to \<open>aegis run\<close>, are accepted by the training
  script's own parser, and the settings it reads are exactly the driver's, AEGIS enabled and its
  policy passed for the AEGIS condition alone, debug size as asked; Phase 1 sets all three
  timeouts and Phase 0 leaves them at their defaults. The hypotheses are that the directory and
  the policy path do not start with a dash and that a printed timeout reads back.
\<close>

theorem ranks_read_driver_settings:
  assumes "executable \<noteq> ''-m''" "plain dir" "plain (pa_policy_path a)" "plain (ca_policy_path b)"
    and "timeouts_printable float_str a"
  shows "\<exists>ns ms. parse_args w1_parser (script_args (rank_cmd float_str executable a dir aegis)) = Inr ns \<and>
    train_args_of ns =
      \<lparr>ta_steps = pa_steps a, ta_log_dir = dir, ta_checkpoint_dir = None, ta_aegis_enabled = aegis,
       ta_aegis_policy_path = (if aegis then pa_policy_path a else ''aegis.yaml''), ta_seed = pa_seed a,
       ta_batch_size = pa_batch_size a, ta_seq_len = pa_seq_len a, ta_heartbeat_timeout = pa_heartbeat_timeout a,
       ta_collective_timeout = pa_collective_timeout a, ta_setup_timeout = pa_setup_timeout a, ta_tiny = pa_tiny a\<rparr> \<and>
    parse_args w1_parser (script_args (build_cmd b dir aegis)) = Inr ms \<and>
    train_args_of ms =
      \<lparr>ta_steps = ca_steps b, ta_log_dir = dir, ta_checkpoint_dir = None, ta_aegis_enabled = aegis,
       ta_aegis_policy_path = (if aegis then ca_policy_path b else ''aegis.yaml''), ta_seed = ca_seed b,
       ta_batch_size = ca_batch_size b, ta_seq_len = ca_seq_len b, ta_heartbeat_timeout = 5,
       ta_collective_timeout = 30, ta_setup_timeout = 600, ta_tiny = ca_tiny b\<rparr>"
  using rank_cmd_read [OF assms(1-3,5), of aegis] build_cmd_read [OF assms(2,4), of aegis] by blast

text \<open>The default timeouts, printed as Python prints them.\<close>

definition demo_float_str :: "real \<Rightarrow> string" where
  "demo_float_str x = (if x = 5 then ''5.0'' else if x = 30 then ''30.0'' else ''600.0'')"

lemma demo_floats: "parse_float ''5.0'' = Some 5" "parse_float ''30.0'' = Some 30" "parse_float ''600.0'' = Some 600"
  by code_simp+

lemma demo_printable: "timeouts_printable demo_float_str demo_p1_args"
  by (simp add: timeouts_printable_def demo_p1_args_def demo_float_str_def demo_floats)

theorem ranks_read_driver_settings_witness:
  "\<exists>ns. parse_args w1_parser (script_args (rank_cmd demo_float_str ''python'' demo_p1_args ''out/aegis'' True)) = Inr ns \<and>
     ta_steps (train_args_of ns) = 20000 \<and> ta_aegis_enabled (train_args_of ns) \<and> ta_setup_timeout (train_args_of ns) = 600"
proof -
  let ?b = "\<lparr>ca_nproc = 8, ca_steps = 6000, ca_seed = 1234, ca_batch_size = 1, ca_seq_len = 512, ca_tiny = False,
     ca_policy_path = ''aegis.yaml'', ca_rdzv_endpoint = None\<rparr>"
  note demo_printable
  moreover have "''python'' \<noteq> ''-m''" "plain ''out/aegis''" "plain (pa_policy_path demo_p1_args)" "plain (ca_policy_path ?b)"
    by (simp_all add: demo_p1_args_def)
  ultimately show ?thesis
    using ranks_read_driver_settings [of "''python''" "''out/aegis''" demo_p1_args ?b demo_float_str True]
    by (auto simp: demo_p1_args_def)
qed

subsection \<open>The sampler and the injector\<close>

lemma find_helpers:
  "find_option sampler_parser ''--out'' = Some (Valued ''--out'' StrT True PNone)"
  "find_option sampler_parser ''--stop-file'' = Some (Valued ''--stop-file'' StrT True PNone)"
  "find_option sampler_parser ''--interval-secs'' = Some (Valued ''--interval-secs'' FloatT False (PFloat 1))"
  "find_option sampler_parser ''--parent-pid'' = Some (Valued ''--parent-pid'' IntT False PNone)"
  "find_option injector_parser ''--trace'' = Some (Valued ''--trace'' StrT True PNone)"
  "find_option injector_parser ''--step-log'' = Some (Valued ''--step-log'' StrT True PNone)"
  "find_option injector_parser ''--pid-dir'' = Some (Valued ''--pid-dir'' StrT True PNone)"
  "find_option injector_parser ''--out'' = Some (Valued ''--out'' StrT True PNone)"
  by (simp_all add: find_option_def sampler_parser_def injector_parser_def)

lemma plain_path: "plain dir \<Longrightarrow> dir \<noteq> [] \<Longrightarrow> plain (dir @ rest)"
  by (cases dir) simp_all

text \<open>
  The helpers of a condition are pointed at its files: in a directory whose name is not empty
  and does not start with a dash, the sampler reads its log and stop file there, the interval
  of a second and the driver's process as the parent to watch, with no cap on its lifetime; and
  the injector reads the trace it was given, the step log, the pid files and its own log there.
\<close>

lemma helpers_read_condition_files:
  assumes "executable \<noteq> ''-m''" "plain dir" "dir \<noteq> []" "plain trace"
  shows "\<exists>ns ms. parse_args sampler_parser (script_args (sampler_cmd executable dir pid)) = Inr ns \<and>
    ns_str ns ''out'' = dir @ ''/gpu_log.jsonl'' \<and> ns_str ns ''stop_file'' = dir @ ''/GPU_SAMPLER_STOP'' \<and>
    ns_float ns ''interval_secs'' = 1 \<and> sampler_args_of ns = \<lparr>sa_parent_pid = Some pid, sa_max_lifetime = None\<rparr> \<and>
    parse_args injector_parser (script_args (injector_cmd executable trace dir)) = Inr ms \<and>
    ns_str ms ''trace'' = trace \<and> ns_str ms ''step_log'' = dir @ ''/step_log.jsonl'' \<and>
    ns_str ms ''pid_dir'' = dir \<and> ns_str ms ''out'' = dir @ ''/chaos_log.jsonl''"
proof -
  let ?bs = "[bind_to sampler_parser ''--out'' (dir @ ''/gpu_log.jsonl''),
    bind_to sampler_parser ''--stop-file'' (dir @ ''/GPU_SAMPLER_STOP''), bind_to sampler_parser ''--interval-secs'' ''1.0'',
    bind_to sampler_parser ''--parent-pid'' (int_str pid)]"
  let ?cs = "[bind_to injector_parser ''--trace'' trace, bind_to injector_parser ''--step-log'' (dir @ ''/step_log.jsonl''),
    bind_to injector_parser ''--pid-dir'' dir, bind_to injector_parser ''--out'' (dir @ ''/chaos_log.jsonl'')]"
  note opts = find_helpers [THEN find_option_in]
  have paths: "classify_arg os (dir @ rest) = Positional" "classify_arg os dir = Positional"
    "classify_arg os trace = Positional" for os rest
    using classify_plain [OF plain_path [OF assms(2,3)]] classify_plain [OF assms(2)] classify_plain [OF assms(4)] by blast+
  have one: "parse_float ''1.0'' = Some 1" by code_simp
  have lines: "script_args (sampler_cmd executable dir pid) = concat (map render_binding ?bs)"
    "script_args (injector_cmd executable trace dir) = concat (map render_binding ?cs)"
    using assms(1) by (simp_all add: sampler_cmd_def injector_cmd_def bind_to_def find_helpers)
  have bs: "\<forall>b \<in> set ?bs. fst b \<in> set sampler_parser \<and> value_is_positional sampler_parser b \<and> (\<exists>x. bound_value b = Inr x)"
    using opts classify_int_str [OF wf_parsers(5)] by (simp add: bind_to_def find_helpers parse_int_int_str paths one classify_plain)
  have cs: "\<forall>b \<in> set ?cs. fst b \<in> set injector_parser \<and> value_is_positional injector_parser b \<and> (\<exists>x. bound_value b = Inr x)"
    using opts by (simp add: bind_to_def find_helpers paths)
  have req: "\<forall>o' \<in> set sampler_parser. is_required o' \<longrightarrow> o' \<in> fst ` set ?bs"
    "\<forall>o' \<in> set injector_parser. is_required o' \<longrightarrow> o' \<in> fst ` set ?cs"
    by (simp_all add: bind_to_def find_helpers) (simp_all add: sampler_parser_def injector_parser_def)
  have ns: "bound_namespace sampler_parser ?bs =
      [(''out'', PStr (dir @ ''/gpu_log.jsonl'')), (''stop_file'', PStr (dir @ ''/GPU_SAMPLER_STOP'')),
       (''interval_secs'', PFloat 1), (''nvidia_smi_bin'', PStr ''nvidia-smi''), (''parent_pid'', PInt pid),
       (''max_lifetime_secs'', PNone)]"
    unfolding bind_to_def find_helpers
    by (simp add: bound_namespace_def sampler_parser_def dest_of_def one parse_int_int_str)
  have ms: "bound_namespace injector_parser ?cs =
      [(''trace'', PStr trace), (''step_log'', PStr (dir @ ''/step_log.jsonl'')), (''pid_dir'', PStr dir),
       (''out'', PStr (dir @ ''/chaos_log.jsonl''))]"
    unfolding bind_to_def find_helpers by (simp add: bound_namespace_def injector_parser_def dest_of_def)
  show ?thesis
    using command_line_roundtrip [OF wf_parsers(5) bs req(1), folded lines]
      command_line_roundtrip [OF wf_parsers(6) cs req(2), folded lines]
    unfolding ns ms by (simp add: ns_str_def ns_float_def sampler_args_of_def ns_int_opt_def ns_float_opt_def)
qed

end
