(* ===== verification/Pipeline.thy ===== *)
theory Pipeline
  imports W1_Training Phase1
begin

text \<open>
  From a dead peer to the words of the report: the poll loop of a rank's heartbeat sensor, the
  bus it publishes on, the engine that handles what the bus dispatches, the history a rank
  dumps when its training halts (\<open>realbench/training/w1_llama7b.py\<close>) and the lines Phase 1
  prints from it (\<open>realbench/phase1_per_tier/report_phase1.py\<close>).
\<close>

subsection \<open>From the sensor to the queue\<close>

text \<open>What the sensor's events do to the runtime they are published on.\<close>

definition deliver :: "telemetry_event list \<Rightarrow> runtime \<Rightarrow> runtime" where
  "deliver evs rt = rt\<lparr>rt_utp := sensor_publish evs (rt_utp rt)\<rparr>"

lemma sensor_publish_queue:
  assumes "int (length (utp_queue b) + length evs) \<le> utp_maxsize b"
  shows "utp_queue (sensor_publish evs b) = utp_queue b @ evs \<and>
    utp_subscribers (sensor_publish evs b) = utp_subscribers b"
  using assms
proof (induction evs arbitrary: b)
  case (Cons e evs)
  then have "\<not> queue_full b" by (simp add: queue_full_def)
  then have "utp_queue (sensor_emit e b) = utp_queue b @ [e]" "utp_maxsize (sensor_emit e b) = utp_maxsize b"
    "utp_subscribers (sensor_emit e b) = utp_subscribers b"
    by (simp_all add: sensor_emit_def publish_def)
  with Cons.IH [of "sensor_emit e b"] Cons.prems show ?case by (simp add: sensor_publish_def)
qed (simp add: sensor_publish_def)

subsection \<open>What the sensor publishes and logs\<close>

text \<open>Every event of a run is the death of a peer, and the detection log has a row for each.\<close>

definition dead_rank_of :: "pyval \<Rightarrow> pyexc + pyval" where
  "dead_rank_of row = field ''dead_rank'' row"

definition is_death :: "rank_sensor \<Rightarrow> telemetry_event \<Rightarrow> bool" where
  "is_death s e \<longleftrightarrow> (\<exists>v k. k \<in> set (dkeys (hs_peers s)) \<and> e = dead_event v (hs_own_rank s) k)"

definition logs_deaths :: "rank_sensor \<Rightarrow> telemetry_event list \<Rightarrow> rank_sensor \<Rightarrow> bool" where
  "logs_deaths s evs s' \<longleftrightarrow> hs_peers s' = hs_peers s \<and> hs_own_rank s' = hs_own_rank s \<and>
    (\<forall>e \<in> set evs. is_death s e) \<and>
    map dead_rank_of (hs_detection_log s') = map dead_rank_of (hs_detection_log s) @ map (\<lambda>e. Inr (PInt (ev_rank e))) evs"

lemma logs_deaths_trans: "logs_deaths s xs s1 \<Longrightarrow> logs_deaths s1 ys s2 \<Longrightarrow> logs_deaths s (xs @ ys) s2"
  by (auto simp: logs_deaths_def is_death_def)

lemma logs_deaths_refl: "logs_deaths s [] s"
  by (simp add: logs_deaths_def)

lemma dead_event_simps [simp]:
  "ev_rank (dead_event v own k) = k" "ev_node (dead_event v own k) = rank_node k" "classify (dead_event v own k) = B1"
  by (simp_all add: dead_event_def classify_eq_signal)

lemma poll_peer_logs:
  assumes "p \<in> set (hs_peers s)" "poll_peer J v p s = (res, s')"
  shows "logs_deaths s (case res of Inl x \<Rightarrow> [] | Inr evs \<Rightarrow> evs) s'"
proof -
  obtain r path where p: "p = (r, path)" by (cases p)
  then have "r \<in> set (dkeys (hs_peers s))" using assms(1) by force
  then have d: "is_death s (dead_event v (hs_own_rank s) r)" for v by (auto simp: is_death_def)
  show ?thesis
    using assms(2) d [of v]
    by (auto simp: p poll_peer_def report_dead_def logs_deaths_def dead_rank_of_def field_def Let_def
        split: sum.splits option.splits if_splits)
qed

lemma poll_peers_logs:
  "set ps \<subseteq> set (hs_peers s) \<Longrightarrow> poll_peers J v ps s = (x, evs, s') \<Longrightarrow> logs_deaths s evs s'"
proof (induction ps arbitrary: s x evs s')
  case (Cons p ps)
  obtain res s1 where one: "poll_peer J v p s = (res, s1)" by force
  have l: "logs_deaths s (case res of Inl x \<Rightarrow> [] | Inr evs \<Rightarrow> evs) s1"
    using Cons.prems(1) by (intro poll_peer_logs [OF _ one]) simp
  then have peers: "hs_peers s1 = hs_peers s" by (simp add: logs_deaths_def)
  show ?case
  proof (cases res)
    case (Inl y)
    with Cons.prems(2) one l show ?thesis by simp
  next
    case (Inr e1)
    obtain x2 evs2 s2 where rest: "poll_peers J v ps s1 = (x2, evs2, s2)" by (cases "poll_peers J v ps s1") auto
    with Cons.prems(2) one Inr have eq: "evs = e1 @ evs2" "s' = s2" by simp_all
    from Cons.IH [OF _ rest] Cons.prems(1) peers have "logs_deaths s1 evs2 s2" by simp
    with l Inr show ?thesis unfolding eq by (auto intro: logs_deaths_trans)
  qed
qed (simp add: logs_deaths_refl)

lemma poll_loop_logs: "poll_loop J views s = (x, evs, s') \<Longrightarrow> logs_deaths s evs s'"
proof (induction views arbitrary: s x evs s')
  case (Cons v views)
  show ?case
  proof (cases "hs_running s")
    case True
    obtain y e1 s1 where pass: "poll_pass J v s = (y, e1, s1)" by (cases "poll_pass J v s") auto
    then have l: "logs_deaths s e1 s1" unfolding poll_pass_def by (rule poll_peers_logs [rotated]) simp
    show ?thesis
    proof (cases y)
      case (Some z)
      with Cons.prems True pass l show ?thesis by simp
    next
      case None
      obtain x2 e2 s2 where rest: "poll_loop J views s1 = (x2, e2, s2)" by (cases "poll_loop J views s1") auto
      with Cons.prems True pass None have "evs = e1 @ e2" "s' = s2" by simp_all
      with logs_deaths_trans [OF l Cons.IH [OF rest]] show ?thesis by simp
    qed
  qed (use Cons.prems in \<open>simp add: logs_deaths_refl\<close>)
qed (simp add: logs_deaths_refl)

subsection \<open>From the queue to the audit log\<close>

lemma window_below:
  assumes "int (length (en_recent_b1s eng)) + 1 < op_correlation_node_threshold (en_policy eng)" "classify ev = B1"
  shows "decided_tier now ev eng = B1" "length (en_recent_b1s (entered now ev eng)) \<le> length (en_recent_b1s eng) + 1"
proof -
  let ?app = "en_recent_b1s eng @ [(now, ev_node ev, rack_of ev)]"
  let ?kept = "dropWhile (\<lambda>(t, _, _). t < now - op_correlation_window_secs (en_policy eng)) ?app"
  have kept: "length ?kept \<le> length (en_recent_b1s eng) + 1"
    using length_dropWhile_le [of _ ?app] by (metis length_append_singleton Suc_eq_plus1)
  moreover have "length (filter (\<lambda>(_, _, r). r = rack_of ev) ?kept) \<le> length ?kept" by (rule length_filter_le)
  ultimately have "\<not> int (length (filter (\<lambda>(_, _, r). r = rack_of ev) ?kept)) \<ge> op_correlation_node_threshold (en_policy eng)"
    using assms(1) by linarith
  then show "decided_tier now ev eng = B1"
    by (simp add: decided_tier_def apply_correlation_window_def Let_def assms(2))
  show "length (en_recent_b1s (entered now ev eng)) \<le> length (en_recent_b1s eng) + 1"
    using kept by (simp add: apply_correlation_window_def Let_def assms(2))
qed

text \<open>An engine on which the deaths of the ring are absorbed, with room for \<open>m\<close> more in the window.\<close>

definition ring_ready :: "runtime_env \<Rightarrow> nat \<Rightarrow> nat \<Rightarrow> aegis_world engine \<Rightarrow> bool" where
  "ring_ready env n m eng \<longleftrightarrow>
    en_tier_to_layer eng = runtime_map env \<and> \<not> en_observe_only eng \<and>
    (\<forall>k < n. dget (cl_topology (aw_compute (en_world eng))) (rank_node (int k)) = Some (rank_node (int ((k + 1) mod n)))) \<and>
    int (length (en_recent_b1s eng)) + int m < op_correlation_node_threshold (en_policy eng)"

definition absorbed :: "fault_record \<Rightarrow> bool" where
  "absorbed r \<longleftrightarrow> fr_original_tier r = B1 \<and> fr_final_tier r = B1 \<and> \<not> fr_escalated r \<and>
    (\<exists>res. fr_result r = Some res \<and> rr_success res \<and> rr_degraded res)"

lemma death_absorbed:
  assumes ready: "ring_ready env n (Suc m) eng" and k: "k < n"
    and ok: "ab_success (re_absorb env (rank_node (int k)) (rank_node (int ((k + 1) mod n))))"
  shows "\<exists>r eng'. on_event now stamp (dead_event v own (int k)) eng = (Inr (), eng') \<and>
    en_history eng' = en_history eng @ [r] \<and> fr_event r = dead_event v own (int k) \<and> absorbed r \<and> ring_ready env n m eng'"
proof -
  let ?ev = "dead_event v own (int k)" and ?node = "rank_node (int k)" and ?nb = "rank_node (int ((k + 1) mod n))"
  let ?w = "en_world eng"
  have layers: "en_tier_to_layer eng = runtime_map env" "\<not> en_observe_only eng"
    and top: "dget (cl_topology (aw_compute ?w)) ?node = Some ?nb" using ready k by (simp_all add: ring_ready_def)
  have below: "int (length (en_recent_b1s eng)) + 1 < op_correlation_node_threshold (en_policy eng)"
    using ready by (simp add: ring_ready_def)
  have tier: "B1 = decided_tier now ?ev eng" by (simp add: window_below(1) [OF below])
  have nb: "?nb \<noteq> []" by (simp add: rank_node_def)
  have "?node \<in> set (dkeys (cl_topology (aw_compute ?w)))" using top dget_None_iff by (metis option.distinct(1))
  then have accept: "rl_can_handle (layer_at env B1) ?ev B1 ?w"
    by (simp add: compute_object_def compute_can_handle_def)
  obtain res lay where rec: "\<And>ep g. compute_recover (re_absorb env) ?ev B1 ep g (aw_compute ?w) = (Inr res, lay)"
    and res: "rr_success res" "rr_degraded res" "cl_topology lay = cl_topology (aw_compute ?w)"
    using top nb ok by (simp add: compute_recover_def Let_def)
  have obj: "rl_recover (layer_at env B1) ?ev B1 ep g ?w = (Inr res, ?w\<lparr>aw_compute := lay\<rparr>)" for ep g
    by (simp add: compute_object_def rec)
  have refuse: "\<forall>u. B1 \<le> u \<and> u < B1 \<longrightarrow> \<not> rl_can_handle (layer_at env u) ?ev u ?w" by auto
  from event_settles_at [OF layers tier order_refl refuse accept obj res(1)] obtain r eng' where
    run: "on_event now stamp ?ev eng = (Inr (), eng')" "en_history eng' = en_history eng @ [r]" "fr_event r = ?ev"
      "fr_original_tier r = B1" "fr_final_tier r = B1" "fr_escalated r \<longleftrightarrow> B1 < B1" "fr_result r = Some res"
      "en_world eng' = ?w\<lparr>aw_compute := lay\<rparr>" by blast
  have "length (en_recent_b1s eng') \<le> length (en_recent_b1s eng) + 1"
    using on_event_books [OF run(1)] window_below(2) [OF below, of ?ev now] by simp
  then have "ring_ready env n m eng'"
    using on_event_books [OF run(1)] ready by (simp add: ring_ready_def run(8) res(3))
  with run res show ?thesis by (auto simp: absorbed_def)
qed

lemma deaths_absorbed:
  assumes "ring_ready env n (length evs) eng"
    and "\<forall>(now, stamp, e) \<in> set evs. \<exists>v k. k < n \<and> e = dead_event v own (int k)"
    and "\<forall>k < n. ab_success (re_absorb env (rank_node (int k)) (rank_node (int ((k + 1) mod n))))"
  shows "\<exists>hist. en_history (engine_run evs eng) = en_history eng @ hist \<and>
    map fr_event hist = map (\<lambda>(now, stamp, e). e) evs \<and> list_all absorbed hist"
  using assms(1,2)
proof (induction evs arbitrary: eng)
  case (Cons x evs)
  obtain now stamp e where x: "x = (now, stamp, e)" by (cases x)
  with Cons.prems(2) obtain v k where e: "k < n" "e = dead_event v own (int k)" by auto
  from death_absorbed [OF _ e(1), of env "length evs" eng now stamp v own] Cons.prems(1) assms(3) e obtain r eng' where
    one: "on_event now stamp e eng = (Inr (), eng')" "en_history eng' = en_history eng @ [r]" "fr_event r = e" "absorbed r"
      "ring_ready env n (length evs) eng'" by auto
  from Cons.IH [OF one(5)] Cons.prems(2) obtain hist where
    "en_history (engine_run evs eng') = en_history eng' @ hist" "map fr_event hist = map (\<lambda>(now, stamp, e). e) evs"
      "list_all absorbed hist" by auto
  with one show ?case by (intro exI [of _ "r # hist"]) (simp add: x)
qed simp

subsection \<open>From the audit log to the report\<close>

fun is_record :: "p1_line \<Rightarrow> bool" where
  "is_record (P1Record vs) = True"
| "is_record l = False"

definition record_line :: "(message \<Rightarrow> string) \<Rightarrow> fault_record \<Rightarrow> p1_line" where
  "record_line msg_str r =
    P1Record [PStr (tier_name (fr_original_tier r)), PStr (tier_name (fr_final_tier r)), PBool (fr_escalated r),
      PBool (case fr_result r of None \<Rightarrow> False | Some res \<Rightarrow> rr_success res),
      PBool (case fr_result r of None \<Rightarrow> False | Some res \<Rightarrow> rr_degraded res),
      (case fr_result r of None \<Rightarrow> PNone | Some res \<Rightarrow> PFloat (rr_recovery_secs res)),
      PStr (case fr_result r of None \<Rightarrow> [] | Some res \<Rightarrow> msg_str (rr_message res))]"

lemma history_line_value: "history_line (history_value msg_str r) = Inr (record_line msg_str r)"
  by (simp add: history_line_def history_value_def record_line_def field_def del: exc_bind_Inr)

lemma history_lines: "exc_map history_line (map (history_value msg_str) rs) = Inr (map (record_line msg_str) rs)"
  by (induction rs) (simp_all add: history_line_value del: exc_bind_Inr)

lemma no_records:
  "filter is_record (concat (map result_lines rs)) = []" "filter is_record (map (record_line ms) hs) = map (record_line ms) hs"
proof -
  have "filter is_record (result_lines r) = []" for r
    by (auto simp: result_lines_def filter_empty_conv split: option.splits)
  then show "filter is_record (concat (map result_lines rs)) = []" by (induction rs) simp_all
  show "filter is_record (map (record_line ms) hs) = map (record_line ms) hs"
    by (induction hs) (simp_all add: record_line_def)
qed

text \<open>The report of the AEGIS condition lists the dumped history, record by record.\<close>

lemma report_lists_history:
  assumes "fi_epe_history f = dump_epe_history J ms (Some rt) old" "condition_lines J ''aegis'' f = Inr lines"
    and "js_loads J (js_dumps J (PList (map (history_value ms) (en_history (rt_epe rt))))) =
      Inr (PList (map (history_value ms) (en_history (rt_epe rt))))"
  shows "filter is_record lines = map (record_line ms) (en_history (rt_epe rt))"
proof -
  have hist: "fi_epe_history f = Some (js_dumps J (PList (map (history_value ms) (en_history (rt_epe rt)))))"
    using assms(1) by (simp add: dump_epe_history_def)
  have records: "(if rs \<noteq> [] then exc_bind (py_iter (PList (map (history_value ms) rs))) (exc_map history_line) else Inr []) =
      Inr (map (record_line ms) rs)" for rs by (cases rs) (simp_all add: history_lines del: list.map exc_map.simps)
  have not_latency: "\<not> is_record (latency_line chaos t)" for chaos t by (cases chaos) (simp_all add: latency_line_def)
  from assms(2) obtain results chaos detections latency where
    latency: "(case detections of [] \<Rightarrow> Inr []
        | d # ds \<Rightarrow> exc_bind (exc_bind (field ''wall_clock'' d) as_real) (\<lambda>t. Inr [latency_line chaos t])) = Inr latency"
    and lines: "lines = [P1Condition ''aegis'', P1Blank] @ concat (map result_lines results) @ latency @
      map (record_line ms) (en_history (rt_epe rt)) @ [P1Blank]"
    unfolding condition_lines_def hist Let_def option.case assms(3) by (auto simp: records)
  have "filter is_record latency = []"
    using latency by (cases detections) (auto simp: not_latency)
  then show ?thesis by (simp add: lines no_records)
qed

text \<open>What a rank has right after its set-up: an idle bus whose only subscriber is the engine, and a ring.\<close>

abbreviation ring_runtime :: "runtime_env \<Rightarrow> operator_policy \<Rightarrow> nat \<Rightarrow> runtime" where
  "ring_runtime env policy n \<equiv> with_ring n (runtime_start (runtime_init env (Some policy)))"

lemma idle_bus:
  assumes "length evs \<le> 10000"
  shows "utp_queue (rt_utp (deliver evs (ring_runtime env policy n))) = evs"
    and "utp_subscribers (rt_utp (deliver evs (ring_runtime env policy n))) = [0]"
    and "rt_epe (deliver evs (ring_runtime env policy n)) = rt_epe (ring_runtime env policy n)"
proof -
  let ?rt = "ring_runtime env policy n"
  have "utp_queue (rt_utp ?rt) = []" "utp_maxsize (rt_utp ?rt) = 10000" "utp_subscribers (rt_utp ?rt) = [0]"
    by (simp_all add: with_ring_def runtime_start_def runtime_init_def Let_def subscribe_def bus_init_def default_queue_size_def)
  then show "utp_queue (rt_utp (deliver evs ?rt)) = evs" "utp_subscribers (rt_utp (deliver evs ?rt)) = [0]"
    "rt_epe (deliver evs ?rt) = rt_epe ?rt"
    using sensor_publish_queue [of "rt_utp ?rt" evs] assms(1) by (simp_all add: deliver_def)
qed

lemma fresh_ring_ready:
  assumes "int m < op_correlation_node_threshold policy"
  shows "ring_ready env n m (rt_epe (ring_runtime env policy n))"
    and "en_history (rt_epe (ring_runtime env policy n)) = []"
proof -
  let ?rt = "ring_runtime env policy n"
  have start: "rt_epe (runtime_start rt) = rt_epe rt" for rt by (simp add: runtime_start_def)
  have "en_tier_to_layer (rt_epe ?rt) = en_tier_to_layer (rt_epe (runtime_init env (Some policy)))"
    by (simp add: with_ring_def start)
  then have "en_tier_to_layer (rt_epe ?rt) = runtime_map env" by (simp only: runtime_map_any)
  moreover have "\<not> en_observe_only (rt_epe ?rt)" "en_recent_b1s (rt_epe ?rt) = []" "en_policy (rt_epe ?rt) = policy"
    by (simp_all add: with_ring_def start runtime_init_def Let_def engine_init_def)
  moreover have "dget (cl_topology (aw_compute (en_world (rt_epe ?rt)))) (rank_node (int k)) =
      Some (rank_node (int ((k + 1) mod n)))" if "k < n" for k
    using ring_neighbour [OF that] by (simp add: with_ring_def)
  ultimately show "ring_ready env n m (rt_epe ?rt)" using assms by (simp add: ring_ready_def)
  show "en_history (rt_epe ?rt) = []" by (simp add: with_ring_def start runtime_init_def Let_def engine_init_def)
qed

text \<open>The events of a run of the sensor, dispatched from a fresh set-up, are all absorbed, in their order.\<close>

lemma published_deaths_absorbed:
  assumes "int (length evs) < op_correlation_node_threshold policy" "length evs \<le> 10000"
    and "\<forall>e \<in> set evs. \<exists>v k. k < n \<and> e = dead_event v own (int k)"
    and "\<forall>k < n. ab_success (re_absorb env (rank_node (int k)) (rank_node (int ((k + 1) mod n))))"
  shows "map fr_event (en_history (rt_epe (runtime_dispatch clk i (deliver evs (ring_runtime env policy n))))) = evs"
    and "list_all absorbed (en_history (rt_epe (runtime_dispatch clk i (deliver evs (ring_runtime env policy n)))))"
proof -
  let ?timed = "map (\<lambda>(i, ev). (fst (clk i), snd (clk i), ev)) (enumerate i evs)"
  have run: "rt_epe (runtime_dispatch clk i (deliver evs (ring_runtime env policy n))) = engine_run ?timed (rt_epe (ring_runtime env policy n))"
    using dispatch_run [of "deliver evs (ring_runtime env policy n)" clk i] idle_bus [OF assms(2), of n env policy] by simp
  have plain_events: "map (\<lambda>(now, stamp, e). e) ?timed = evs" by (simp add: comp_def split_beta)
  have "\<forall>(now, stamp, e) \<in> set ?timed. \<exists>v k. k < n \<and> e = dead_event v own (int k)"
  proof clarify
    fix now stamp e assume "(now, stamp, e) \<in> set ?timed"
    then have "e \<in> set (map (\<lambda>(now, stamp, e). e) ?timed)" unfolding set_map [of _ ?timed] by (rule rev_image_eqI) simp
    then have "e \<in> set evs" by (simp only: plain_events)
    then show "\<exists>v k. k < n \<and> e = dead_event v own (int k)" using assms(3) by blast
  qed
  from deaths_absorbed [OF _ this assms(4), of "rt_epe (ring_runtime env policy n)"] fresh_ring_ready [OF assms(1), where env = env and n = n]
  show "map fr_event (en_history (rt_epe (runtime_dispatch clk i (deliver evs (ring_runtime env policy n))))) = evs"
    "list_all absorbed (en_history (rt_epe (runtime_dispatch clk i (deliver evs (ring_runtime env policy n)))))"
    unfolding run plain_events by auto
qed

text \<open>
  C7. Every death a rank detects reaches the report: on a rank set up with AEGIS, for any run of
  its sensor, as long as the deaths are fewer than the policy's correlation threshold, fit the
  queue, and the backend absorbs for every pair of the ring, the engine's audit log, once the
  bus has been dispatched, has exactly one record for each event the sensor published, in the
  order published, which is that of the detection log; each was absorbed at B1, degraded, not
  escalated; and the AEGIS section of the Phase 1 report made from the history the rank dumps
  lists exactly those records, in that order.
\<close>

theorem detected_deaths_reach_report:
  assumes "setup_aegis env (Inr policy) start_ok new_loop a rank n st = (Inr sensor, st1)"
    and "poll_loop J views sensor = (x, evs, sensor')"
    and "int (length evs) < op_correlation_node_threshold policy" "length evs \<le> 10000"
    and "\<forall>k < n. ab_success (re_absorb env (rank_node (int k)) (rank_node (int ((k + 1) mod n))))"
  shows "\<exists>rt rt'. as_runtime st1 = Some rt \<and> rt' = runtime_dispatch clk i (deliver evs rt) \<and>
    map fr_event (en_history (rt_epe rt')) = evs \<and> list_all absorbed (en_history (rt_epe rt')) \<and>
    map dead_rank_of (hs_detection_log sensor') = map (\<lambda>r. Inr (PInt (ev_rank (fr_event r)))) (en_history (rt_epe rt')) \<and>
    (\<forall>f lines. fi_epe_history f = dump_epe_history J ms (Some rt') old \<and>
       js_loads J (js_dumps J (PList (map (history_value ms) (en_history (rt_epe rt'))))) =
         Inr (PList (map (history_value ms) (en_history (rt_epe rt')))) \<and>
       condition_lines J ''aegis'' f = Inr lines \<longrightarrow>
       filter is_record lines = map (record_line ms) (en_history (rt_epe rt')))"
proof -
  let ?rt = "ring_runtime env policy n"
  let ?rt' = "runtime_dispatch clk i (deliver evs ?rt)"
  note ready = setup_aegis_runtime [OF assms(1)]
  note logs = poll_loop_logs [OF assms(2)]
  have sensor: "hs_detection_log sensor = []" "set (dkeys (hs_peers sensor)) \<subseteq> int ` {..<n}"
    by (auto simp: ready(2) sensor_start_def sensor_init_def heartbeat_paths_def)
  have "\<forall>e \<in> set evs. \<exists>v k. k < n \<and> e = dead_event v (hs_own_rank sensor) (int k)"
    using logs sensor(2) by (fastforce simp: logs_deaths_def is_death_def)
  note hist = published_deaths_absorbed [OF assms(3,4) this assms(5), of clk i]
  have det: "map dead_rank_of (hs_detection_log sensor') = map (\<lambda>r. Inr (PInt (ev_rank (fr_event r)))) (en_history (rt_epe ?rt'))"
    using logs sensor(1) arg_cong [OF hist(1), of "map (\<lambda>e. Inr (PInt (ev_rank e)) :: pyexc + pyval)"] by (auto simp: logs_deaths_def comp_def)
  have "filter is_record lines = map (record_line ms) (en_history (rt_epe ?rt'))"
    if "fi_epe_history f = dump_epe_history J ms (Some ?rt') old \<and>
       js_loads J (js_dumps J (PList (map (history_value ms) (en_history (rt_epe ?rt'))))) =
         Inr (PList (map (history_value ms) (en_history (rt_epe ?rt')))) \<and> condition_lines J ''aegis'' f = Inr lines" for f lines
    using that report_lists_history by blast
  with ready(1) hist det show ?thesis by blast
qed

text \<open>Two of three ranks stop writing their heartbeats; both deaths are found in one pass.\<close>

definition demo_deaths :: "telemetry_event list" where
  "demo_deaths = map (dead_event (view_at 9) 0) [1, 2]"

definition demo_history :: "fault_record list" where
  "demo_history = en_history (rt_epe (runtime_dispatch (\<lambda>i. (5, 5)) 0 (deliver demo_deaths (ring_runtime demo_env default_policy 3))))"

definition detect_json :: json_lib where
  "detect_json = \<lparr>js_dumps = (\<lambda>v. ''h''),
     js_loads = (\<lambda>s. Inr (if s = ''h'' then PList (map (history_value (\<lambda>m. [])) demo_history)
       else heartbeat_value \<lparr>hb_wall_clock = 0, hb_step = 7\<rparr>))\<rparr>"

definition detect_files :: condition_files where
  "detect_files = \<lparr>fi_step_log = None, fi_gpu_log = None, fi_chaos_log = None, fi_halt_log = None, fi_detection_log = None,
     fi_epe_history = Some ''h'', fi_manifest = None\<rparr>"

lemma detect_reads: "heartbeat_read detect_json (pv_file (view_at now) path) = Inr (Some \<lparr>hb_wall_clock = 0, hb_step = 7\<rparr>)"
  by (simp add: heartbeat_read_def detect_json_def view_at_def heartbeat_value_def field_def)

lemma demo_poll:
  "\<exists>s'. poll_loop detect_json (map view_at [1, 9, 10]) (sensor_start (sensor_init 0 (heartbeat_paths log_dir 3) 5)) =
     (None, demo_deaths, s')"
  by (simp add: sensor_start_def sensor_init_def heartbeat_paths_def upt_rec poll_pass_def poll_peer_def detect_reads
      report_dead_def demo_deaths_def Let_def) (simp add: view_at_def)

lemma detect_lines:
  "\<exists>lines. condition_lines detect_json ''aegis'' detect_files = Inr lines"
  by (simp add: condition_lines_def detect_files_def load_step_log_def read_all_def tail_new_def load_gpu_log_def
      load_chaos_log_def load_halt_log_def read_jsonl_def align_fault_events_def Let_def detect_json_def history_lines
      del: exc_bind_Inr)

theorem detected_deaths_reach_report_witness:
  "\<exists>lines. condition_lines detect_json ''aegis'' detect_files = Inr lines \<and> map fr_event demo_history = demo_deaths \<and>
     list_all absorbed demo_history \<and> filter is_record lines = map (record_line (\<lambda>m. [])) demo_history"
proof -
  from demo_setup obtain sensor st1 where
    run: "setup_aegis demo_env (Inr default_policy) True 0 demo_train_args 0 3 aegis_state_init = (Inr sensor, st1)" by blast
  obtain s' where poll: "poll_loop detect_json (map view_at [1, 9, 10]) sensor = (None, demo_deaths, s')"
    using demo_poll by (force simp: setup_aegis_runtime(2) [OF run] demo_train_args_def)
  have small: "int (length demo_deaths) < op_correlation_node_threshold default_policy" "length demo_deaths \<le> 10000"
    "\<forall>k < 3. ab_success (re_absorb demo_env (rank_node (int k)) (rank_node (int ((k + 1) mod 3))))"
    by (simp_all add: demo_deaths_def default_policy_def demo_env_def absorb_ok_def)
  obtain lines where lines: "condition_lines detect_json ''aegis'' detect_files = Inr lines" using detect_lines by blast
  from detected_deaths_reach_report [OF run poll small, where clk = "\<lambda>i. (5, 5)" and i = 0 and ms = "\<lambda>m. []" and old = None] obtain rt where
    rt: "as_runtime st1 = Some rt" and
    found: "\<And>h. h = en_history (rt_epe (runtime_dispatch (\<lambda>i. (5, 5)) 0 (deliver demo_deaths rt))) \<Longrightarrow>
      map fr_event h = demo_deaths \<and> list_all absorbed h \<and>
      (fi_epe_history detect_files = Some (js_dumps detect_json (PList (map (history_value (\<lambda>m. [])) h))) \<and>
       js_loads detect_json (js_dumps detect_json (PList (map (history_value (\<lambda>m. [])) h))) =
         Inr (PList (map (history_value (\<lambda>m. [])) h)) \<longrightarrow> filter is_record lines = map (record_line (\<lambda>m. [])) h)"
    using lines unfolding dump_epe_history_def option.case by blast
  have "rt = ring_runtime demo_env default_policy 3" using rt setup_aegis_runtime(1) [OF run] by simp
  then have "demo_history = en_history (rt_epe (runtime_dispatch (\<lambda>i. (5, 5)) 0 (deliver demo_deaths rt)))"
    by (simp only: demo_history_def)
  from found [OF this] lines show ?thesis by (simp add: detect_files_def detect_json_def)
qed

end
