(* ===== verification/Spec2Isabelle.thy ===== *)
theory Spec2Isabelle
  imports Public_Api Fault_Flow Bench_Aegis Command_Lines Pipeline
begin

text \<open>
  A verification library for AEGIS, a fault-tolerance runtime for distributed training.

  \<^bold>\<open>The program.\<close> A fault enters as a telemetry event on an asynchronous bus
  (\<open>aegis/telemetry\<close>), published by a sensor, the chaos harness or the heartbeat sensor of a
  real run. The engine (\<open>aegis/policy/engine.py\<close>) is the bus's subscriber: it classifies the
  event into one of five blast-radius tiers, widens it through the correlation window, takes a
  fault epoch, and tries the layer of each tier upwards until one recovers: transport (B0),
  compute (B1), storage (B2 to B4), the last under the gate of the recovery consensus. It keeps
  the audit log and the KPI books. The runtime wires these together; the public API, hooks,
  checkpoint, transport and policy calls, dashboard and command line sit on it. The benchmark
  replays fault traces against the runtime and against table-driven baselines. The real-run
  harness trains a model, kills a rank, logs, aligns the logs and reports.

  \<^bold>\<open>Theories and sources.\<close>
  \<^item> \<open>Aegis_Prelude\<close>: Python values and exceptions, insertion-ordered dictionaries, decimal
    strings, the exception bind; the collections \<open>dict_simps\<close> and \<open>frame_simps\<close>.
  \<^item> \<open>Events\<close>: \<open>telemetry/events.py\<close>, \<open>classifier/classifier.py\<close>; the tiers are a
    linear order. \<open>Bus\<close>: \<open>telemetry/bus.py\<close>, \<open>telemetry/sensors.py\<close>; operations, and the
    asyncio interleaving as a step relation. \<open>Epochs\<close>: the locked counter of
    \<open>epoch/service.py\<close> under threads. \<open>Consensus\<close>: \<open>consensus/urc.py\<close>.
    \<open>Kpi\<close>: \<open>aegis/kpi.py\<close>. \<open>Policy\<close>: \<open>policy/dsl.py\<close>, \<open>aegis/config.py\<close>,
    \<open>aegis.policy.set\<close>.
  \<^item> \<open>Layer_Base\<close>: \<open>layers/base.py\<close> and the contract of a layer, the locale
    \<open>recovery_contract\<close>. \<open>Transport\<close>, \<open>Compute\<close>, \<open>Storage\<close>: the layers; each
    interprets the contract. \<open>Storage\<close> also holds the locale \<open>checkpoint_store\<close>, the
    abstract log of checkpoints that differential writing refines.
  \<^item> \<open>Engine\<close>: the handler of one event and runs of events. \<open>Runtime\<close>: the three layers
    over one state, the wiring to the bus, the life cycle (\<open>aegis/runtime.py\<close>).
    \<open>Handler_Steps\<close>: the handler cut where it waits for a migration, and the interleavings a
    \<open>stop\<close> makes of such halves.
    \<open>Fault_Flow\<close>: the running system, in which the life cycle of the bus, such handlers and
    the single accesses of the state-changing calls of the public API interleave.
    \<open>Public_Api\<close>: \<open>aegis/__init__.py\<close>, \<open>hooks.py\<close>, \<open>checkpoint.py\<close>,
    \<open>transport.py\<close>, \<open>dashboard.py\<close>, \<open>cli.py\<close>. \<open>Chaos\<close>: \<open>chaos_inject/harness.py\<close>.
  \<^item> \<open>Bench\<close>: workloads, traces, baseline systems, simulation, metrics and runner of
    \<open>bench/\<close>, with the locale \<open>system_adapter\<close>. \<open>Bench_Aegis\<close>: the adapter that drives
    the real runtime. \<open>Reports\<close>: \<open>bench/report/generate.py\<close>, \<open>bench/run_st3.py\<close> and the
    text of the dashboard. \<open>Ci_Report\<close>: \<open>scripts/ci/report_to_sheets.py\<close>.
  \<^item> \<open>Step_Log\<close>: \<open>realbench/training/step_log.py\<close> with the locale \<open>record_stream\<close>.
    \<open>Heartbeat_Sensor\<close>: \<open>realbench/sensors\<close>. \<open>Injector\<close>:
    \<open>chaos_inject/real_injector.py\<close>. \<open>Align\<close>, \<open>Gpu_Sampler\<close>: \<open>realbench/collector\<close>.
    \<open>Honesty\<close>, \<open>Phase0\<close>, \<open>Phase1\<close>: the reports and drivers. \<open>W1_Training\<close>: the
    training script. \<open>Arguments\<close>: what the scripts use of argparse. \<open>Command_Lines\<close>: the
    option table of each script, its settings and its main over a command line, and the commands
    Phase 1 writes. \<open>Pipeline\<close>: from a dead peer, through sensor, bus and engine, to the lines of
    the report. This theory joins the driver, the training script and the report.

  \<^bold>\<open>How the code is read.\<close> A class is a record, an enumeration a datatype, a dictionary an
  association list in insertion order (\<open>dget\<close>, \<open>dset\<close>). A method that may raise returns
  \<open>pyexc + 'a\<close> with the state it leaves; \<open>exc_bind\<close> is the sequence of two such steps.
  Python's integers are \<open>int\<close>, its floats \<open>real\<close>: rounding of float arithmetic is not
  modelled, rounding and truncation the code asks for (\<open>round\<close>, \<open>int\<close>, \<open>:.4f\<close>) are.
  Bytes are 8-bit words, their differences exclusive or. A file is the text it holds, or
  \<open>None\<close> when it is missing. Messages and fixed sentences of a report are constructors that
  carry the values printed; tables are the strings themselves, with ASCII in place of the
  dashes and signs outside it. Clock readings, random draws, the environment and the outcomes
  of processes and third-party calls are arguments.

  \<^bold>\<open>Loops.\<close> A poll loop recurses over the list of what its passes find, so a run is
  finite by its list; the theorems that such a loop returns name the pass that ends it and say
  nothing if none does. Routing recurses with the distance to B4 as its measure, so it
  is total without fuel; \<open>routing_stops_at_first_success\<close> says where it stops. The drain of the bus
  decreases the queue. The random traces stop when the draws pass the end, and the number of
  draws that suffices is a hypothesis.

  \<^bold>\<open>What the theorems show.\<close>
  \<^item> Engine and runtime: a run keeps every layer's invariant; the audit log has one sound
    record per handled fault; layers are called upwards from the decided tier, the cheapest
    able one recovers, and no restored state is ahead of a surviving rank; the KPI and
    consensus books are determined by the audit log; the window counts exactly; observe-only
    acts on nothing; an exception of a layer is the one case without a record.
  \<^item> Bus and epochs: events are conserved under every interleaving, subscribers are isolated
    from each other, dispatch through the bus is a run of the engine, epochs are unique. Handlers
    that overlap are each recorded, waiting, raised or cancelled; one after the other they are the
    run of the engine; migrations that finish in their order land on healthy NICs.
  \<^item> Running system: every accepted event is handled, awaited, abandoned by a stop or queued,
    and the audit log has the handled ones in order; until a stop, the whole is linearizable:
    the engine is that of one sequence of handled events, in the order of publication, and of
    the single accesses of API calls, in the order made (a save is a read of the epoch and a write
    per tier, among which other things happen), and nodes without a pending migration run on
    healthy NICs.
  \<^item> Layers: NIC migration lands on a healthy NIC and absorbs exactly the spare ones; the
    counter of fallbacks is exact and selective recomputation covers every row; differential
    checkpoints refine a log, a tampered one is never restored silently, a gate is respected.
  \<^item> API and benchmark: \<open>init\<close> is all or nothing, \<open>disable\<close> turns off the hooks,
    stops the runtime and forgets it, whatever the stop does; a live policy change agrees with the
    file; with backends that work and an engine that keeps up, AEGIS stalls less than TorchFT on
    every well-formed trace; the ST-3 report is produced and carries the simulation's totals; printed amounts
    are accurate to half a unit of the last place.
  \<^item> Real run: a tail sees every step once; deaths are reported once; the injector accounts
    for every fault of its trace and alignment measures each exactly; the sampler's log loads
    as its samples; Phase 1 starts behind Phase 0's gate; a rank that joined the job tries
    every step of its teardown, whatever fails in it; every death a rank detects is absorbed by the dead rank's ring neighbour and
    listed in the report of that rank's history; a halted fault is never reported as measured.
    The command line a driver writes is read back by the started script as the driver's settings
    (\<open>command_line_roundtrip\<close> for any well-formed option table), so the report tells what ran
    of what was asked for.

  \<^bold>\<open>Parameters and hypotheses.\<close> \<open>json\<close> is \<open>json_lib\<close>, where \<open>line_ok\<close> says that a value
  is printed on one line and read back; zlib and SHA-256 are \<open>codec\<close>, where \<open>codec_ok\<close> is
  the round trip of compression; torch is \<open>torch_ops\<close> with its random tensors; an absorption
  backend, nvidia-smi, the outcomes of \<open>subprocess\<close>, signals and waiting, and the document a
  YAML parser returns are arguments.

  \<^bold>\<open>Not modelled.\<close> Of argparse: the bare \<open>--\<close> separator, positional arguments, short options
  other than \<open>-h\<close> and the text of its messages, which the scripts do not use, and digit
  separators in numbers. The search for a free port; printing and logging; sleeping, other than
  as what happens meanwhile; the thread that runs the event loop, other than as its identity;
  torch's kernels, process group and model building, other than as outcomes; a crash of the
  machine while a file is written; the accessor properties that return a field; the SLURM
  scripts; rounding of floats, not-a-number and infinities. In \<open>Fault_Flow\<close> a stretch of a
  handler between two waits, the store of a policy, the read of the epoch by a save and its write
  of one tier are indivisible, although the threads they run in could be switched in the middle of
  them, and one \<open>stop\<close> runs at a time; \<open>register_node_nics\<close> is called before the system runs. The
  way \<open>python -m\<close> and torchrun pass arguments on is \<open>script_args\<close>, from their documentation; of
  the halt log all ranks share, the rows of one rank.
\<close>

section \<open>From the launch of a rank to the words of the report\<close>

text \<open>The environment of a child: the parent's, updated.\<close>

definition child_environ :: "(string \<times> string) list \<Rightarrow> (string, string) dict \<Rightarrow> (string, string) dict" where
  "child_environ vars inherited = fold (\<lambda>(n, v). dset n v) vars inherited"

lemma launched_rank_env:
  assumes "k < nat (pa_nproc args)"
    and environ: "environ = child_environ (fst (launch_rank_processes fs exe args dir aegis port ! k)) inherited"
  shows "env_int environ ''RANK'' d = Inr (int k)" "env_int environ ''LOCAL_RANK'' d = Inr (int k)"
    "env_int environ ''WORLD_SIZE'' d = Inr (pa_nproc args)"
proof -
  have p: "parse_int (nat_str i) = Some (int i)" for i using parse_int_int_str [of "int i"] by (simp add: int_str_def)
  have "fst (launch_rank_processes fs exe args dir aegis port ! k) = rank_env (pa_nproc args) port k"
    using assms(1) by (simp add: launch_rank_processes_def)
  then show "env_int environ ''RANK'' d = Inr (int k)" "env_int environ ''LOCAL_RANK'' d = Inr (int k)"
    "env_int environ ''WORLD_SIZE'' d = Inr (pa_nproc args)"
    by (simp_all add: environ child_environ_def rank_env_def env_int_def p parse_int_int_str)
qed

text \<open>The bullet a report owes to the wrapper the model was built with.\<close>

fun wrapping_lines :: "wrapping \<Rightarrow> honesty_line list" where
  "wrapping_lines FSDP = [FsdpOnly]"
| "wrapping_lines DDP = [SmokeTest (PStr (wrapping_text DDP))]"
| "wrapping_lines Unwrapped = []"

lemma manifest_parallelism: "parallelism_lines (PStr (wrapping_text w)) = Inr (wrapping_lines w)"
  by (cases w) (simp_all add: parallelism_lines_def sublist_code del: exc_bind_Inr)

lemma manifest_honesty:
  "render_honesty_block (run_manifest a n cuda dims) [''B1''] =
   Inr ((if ta_tiny a then [TinyDebug] else []) @ wrapping_lines (wrapping_of n cuda) @ [ProxyTensor, SingleNode] @
     (if n \<ge> 1 then [B0SimOnly] else []) @ [Fallback NvidiaSmiFallback, NoRecoveryMeasurement NoResume])"
  by (simp add: render_honesty_block_def run_manifest_def manifest_get_def dget_or_def parallelism_is_wrapping
      manifest_parallelism del: exc_bind_Inr)

text \<open>
  C39. The report tells what ran: when a rank that Phase 1 launched, started with the environment
  and the command line Phase 1 wrote for it, gets as far as a manifest, the rank is rank 0, the
  job is as large as Phase 1 asked for, the model built has the size and sequence length Phase 1
  asked for in the wrapper that the job's size and CUDA call for, and the honesty block that
  Phase 1 renders from the manifest, read back, names exactly that wrapper, says that a debug
  run is one, and states every fixed limit.
\<close>

theorem report_tells_what_ran:
  assumes "k < nat (pa_nproc args)"
    and "executable \<noteq> ''-m''" "plain dir" "plain (pa_policy_path args)" "timeouts_printable float_str args"
    and "(vars, cmd) = launch_rank_processes float_str executable args dir aegis port ! k"
    and "train_script J ms env load start_ok new_loop (script_args cmd) (child_environ vars inherited)
      pid gpu grp build world later files st = Inr (boot, run)"
    and "rk_manifest run = Some t"
    and "\<And>v. t = js_dumps J v \<Longrightarrow> js_loads J t = Inr v"
  shows "k = 0 \<and> (\<exists>manifest. js_loads J t = Inr manifest \<and>
    (let w = wrapping_of (pa_nproc args) (gpu \<noteq> None);
         dims = (if pa_tiny args then tiny_model_dims else real_model_dims)
     in build (llama_config_of dims (pa_seq_len args)) w = None \<and>
        render_honesty_block manifest [''B1''] =
          Inr ((if pa_tiny args then [TinyDebug] else []) @ wrapping_lines w @
            [ProxyTensor, SingleNode, B0SimOnly, Fallback NvidiaSmiFallback, NoRecoveryMeasurement NoResume])))"
proof -
  let ?dims = "if pa_tiny args then tiny_model_dims else real_model_dims"
  have launched: "vars = fst (launch_rank_processes float_str executable args dir aegis port ! k)"
    "cmd = rank_cmd float_str executable args dir aegis"
    using assms(1,6) by (simp_all add: launch_rank_processes_def)
  note env = launched_rank_env [OF assms(1) refl, of float_str executable dir aegis port inherited, folded launched(1)]
  from rank_cmd_read [OF assms(2-5), of aegis] obtain ns where
    ns: "parse_args w1_parser (script_args cmd) = Inr ns" "ta_tiny (train_args_of ns) = pa_tiny args"
      "ta_seq_len (train_args_of ns) = pa_seq_len args" unfolding launched(2) by auto
  from assms(7) have main: "train_main J ms env load start_ok new_loop (train_args_of ns) (child_environ vars inherited)
      pid gpu grp build world later files st = Inr (boot, run)" by (simp add: train_script_def ns(1))
  from train_main_run [OF main] obtain local_rank sensor rt where
    run: "run = train_rank J ms (train_args_of ns) (int k) (pa_nproc args) pid (map_option (\<lambda>info. info local_rank) gpu) grp
      (build (llama_config_of ?dims (pa_seq_len args)) (wrapping_of (pa_nproc args) (gpu \<noteq> None))) world sensor rt files"
    unfolding env ns by blast
  from train_rank_manifest [OF assms(8) [unfolded run]]
  have m: "int k = 0" "build (llama_config_of ?dims (pa_seq_len args)) (wrapping_of (pa_nproc args) (gpu \<noteq> None)) = None"
    "t = js_dumps J (run_manifest (train_args_of ns) (pa_nproc args) (gpu \<noteq> None) ?dims)" by (simp_all add: ns)
  moreover have "js_loads J t = Inr (run_manifest (train_args_of ns) (pa_nproc args) (gpu \<noteq> None) ?dims)"
    using assms(9) [OF m(3)] .
  moreover have "1 \<le> pa_nproc args" using assms(1) by simp
  ultimately show ?thesis by (simp add: manifest_honesty ns)
qed

text \<open>A debug run of eight ranks on a machine without CUDA.\<close>

definition tiny_p1_args :: p1_args where
  "tiny_p1_args = demo_p1_args\<lparr>pa_tiny := True\<rparr>"

definition tiny_argv :: "string list" where
  "tiny_argv = script_args (rank_cmd demo_float_str ''python'' tiny_p1_args ''d'' False)"

lemma tiny_printable: "timeouts_printable demo_float_str tiny_p1_args"
  using demo_printable by (simp add: tiny_p1_args_def timeouts_printable_def)

definition demo_manifest :: pyval where
  "demo_manifest = run_manifest (train_args_of (projr (parse_args w1_parser tiny_argv))) 8 False tiny_model_dims"

definition demo_manifest_json :: json_lib where
  "demo_manifest_json = \<lparr>js_dumps = (\<lambda>v. if v = demo_manifest then ''m'' else ''x''), js_loads = (\<lambda>s. Inr demo_manifest)\<rparr>"

lemma demo_launched:
  "launch_rank_processes demo_float_str ''python'' tiny_p1_args ''d'' False 29500 ! 0 =
     (rank_env 8 29500 0, rank_cmd demo_float_str ''python'' tiny_p1_args ''d'' False)"
  by (simp add: launch_rank_processes_def tiny_p1_args_def demo_p1_args_def)

lemma demo_rank_runs:
  "\<exists>boot run. train_script demo_manifest_json (\<lambda>m. []) demo_env (\<lambda>p. Inr default_policy) True 0 tiny_argv
     (child_environ (rank_env 8 29500 0) []) 77 None sound_group
     (\<lambda>c w. None) demo_world id fresh_files aegis_state_init = Inr (boot, run) \<and> rk_manifest run = Some ''m''"
proof -
  have "0 < nat (pa_nproc tiny_p1_args)" by (simp add: tiny_p1_args_def demo_p1_args_def)
  note env = launched_rank_env [OF this refl, of demo_float_str "''python''" "''d''" False 29500 "[]", unfolded demo_launched fst_conv]
  from rank_cmd_read [OF _ _ _ tiny_printable, of "''python''" "''d''" False] obtain ns where
    ns: "parse_args w1_parser tiny_argv = Inr ns" "ta_tiny (train_args_of ns)" "\<not> ta_aegis_enabled (train_args_of ns)"
    by (auto simp: tiny_argv_def tiny_p1_args_def demo_p1_args_def)
  have "pa_nproc tiny_p1_args = 8" by (simp add: tiny_p1_args_def demo_p1_args_def)
  then show ?thesis
    by (simp add: train_script_def ns train_main_def env start_aegis_def Let_def train_rank_def preflight_gpu_check_def
        teardown_effect sound_group_def demo_manifest_json_def demo_manifest_def del: exc_bind_Inr)
qed

theorem report_tells_what_ran_witness:
  "\<exists>manifest. js_loads demo_manifest_json ''m'' = Inr manifest \<and>
     render_honesty_block manifest [''B1''] = Inr [TinyDebug, SmokeTest (PStr ''DP(DDP)-local-smoke-test-only''),
       ProxyTensor, SingleNode, B0SimOnly, Fallback NvidiaSmiFallback, NoRecoveryMeasurement NoResume]"
proof -
  from demo_rank_runs obtain boot run where
    run: "train_script demo_manifest_json (\<lambda>m. []) demo_env (\<lambda>p. Inr default_policy) True 0
     (script_args (rank_cmd demo_float_str ''python'' tiny_p1_args ''d'' False)) (child_environ (rank_env 8 29500 0) []) 77 None sound_group
     (\<lambda>c w. None) demo_world id fresh_files aegis_state_init = Inr (boot, run)" "rk_manifest run = Some ''m''"
    unfolding tiny_argv_def by blast
  have n: "0 < nat (pa_nproc tiny_p1_args)" "pa_nproc tiny_p1_args = 8" "pa_tiny tiny_p1_args" "plain (pa_policy_path tiny_p1_args)"
    "''python'' \<noteq> ''-m''" "plain ''d''"
    by (simp_all add: tiny_p1_args_def demo_p1_args_def)
  have "js_loads demo_manifest_json ''m'' = Inr v" if "''m'' = js_dumps demo_manifest_json v" for v
    using that by (simp add: demo_manifest_json_def split: if_splits)
  from report_tells_what_ran [OF n(1) n(5,6,4) tiny_printable demo_launched [symmetric] run this] show ?thesis
    using n by (simp add: wrapping_of_def)
qed

end
